(* ===== verification/C2J_Prelude.thy ===== *)
theory C2J_Prelude
  imports Main "HOL-Library.Sublist" "HOL-Library.Char_ord" "HOL-Library.List_Lexorder"
begin

text \<open>
  Shared base of the development: Go results as sums, the slice and string operations of
  Go's standard library that the modelled code calls, and the fact collections the component
  theories add to.

  \<^item> An \<^verbatim>\<open>(T, error)\<close> result is \<open>error + T\<close>; \<open>bindE\<close> is the code's
    \<^verbatim>\<open>if err != nil { return ..., err }\<close>.
  \<^item> A Go string is its bytes, a \<open>string\<close>.
  \<^item> A slice whose code distinguishes nil from empty is \<open>'a list option\<close>; where the code
    never does, it is \<open>'a list\<close>.
\<close>

section \<open>Results\<close>

named_theorems ok_iff \<open>when a checked computation succeeds\<close>
named_theorems enc_defs \<open>definitions unfolded when a closed instance is evaluated\<close>

definition bindE :: "'e + 'a \<Rightarrow> ('a \<Rightarrow> 'e + 'b) \<Rightarrow> 'e + 'b" where
  "bindE m f = (case m of Inl e \<Rightarrow> Inl e | Inr x \<Rightarrow> f x)"

definition check :: "bool \<Rightarrow> 'e \<Rightarrow> 'e + unit" where
  "check b e = (if b then Inr () else Inl e)"

fun mapE :: "('a \<Rightarrow> 'e + 'b) \<Rightarrow> 'a list \<Rightarrow> 'e + 'b list" where
  "mapE f [] = Inr []"
| "mapE f (x # xs) = bindE (f x) (\<lambda>y. bindE (mapE f xs) (\<lambda>ys. Inr (y # ys)))"

text \<open>A loop that returns the first error of its body.\<close>

fun forE :: "('a \<Rightarrow> 'e + unit) \<Rightarrow> 'a list \<Rightarrow> 'e + unit" where
  "forE f [] = Inr ()"
| "forE f (x # xs) = bindE (f x) (\<lambda>_. forE f xs)"

definition is_ok :: "'e + 'a \<Rightarrow> bool" where
  "is_ok r = (case r of Inl _ \<Rightarrow> False | Inr _ \<Rightarrow> True)"

lemma bindE_simps [simp]: "bindE (Inl e) f = Inl e" "bindE (Inr x) f = f x"
  by (simp_all add: bindE_def)

lemma bindE_ok [ok_iff]: "bindE m f = Inr y \<longleftrightarrow> (\<exists>x. m = Inr x \<and> f x = Inr y)"
  by (cases m) auto

lemma bindE_err: "bindE m f = Inl e \<longleftrightarrow> m = Inl e \<or> (\<exists>x. m = Inr x \<and> f x = Inl e)"
  by (cases m) auto

lemma bindE_assoc: "bindE (bindE m f) g = bindE m (\<lambda>x. bindE (f x) g)"
  by (cases m) auto

lemma bindE_cong [fundef_cong]:
  "m = m' \<Longrightarrow> (\<And>x. m' = Inr x \<Longrightarrow> f x = g x) \<Longrightarrow> bindE m f = bindE m' g"
  by (cases m') auto

lemma check_ok [ok_iff]: "check b e = Inr u \<longleftrightarrow> b"
  by (simp add: check_def)

lemma check_simps [simp]: "check True e = Inr ()" "check False e = Inl e"
  by (simp_all add: check_def)

lemma check_err: "check b e = Inl e' \<longleftrightarrow> \<not> b \<and> e' = e"
  by (auto simp: check_def)

lemma if_err_ok [ok_iff]: "(if b then Inl e else m) = Inr y \<longleftrightarrow> \<not> b \<and> m = Inr y"
  by simp

lemma is_ok_simps [simp]: "is_ok (Inl e) = False" "is_ok (Inr x) = True"
  by (simp_all add: is_ok_def)

lemma is_ok_iff: "is_ok r \<longleftrightarrow> (\<exists>x. r = Inr x)"
  by (cases r) auto

lemma mapE_cong [fundef_cong]:
  "xs = ys \<Longrightarrow> (\<And>x. x \<in> set ys \<Longrightarrow> f x = g x) \<Longrightarrow> mapE f xs = mapE g ys"
  by (induction ys arbitrary: xs) (auto cong: bindE_cong)

lemma mapE_ok_set: "mapE f xs = Inr ys \<Longrightarrow> \<forall>x \<in> set xs. \<exists>y \<in> set ys. f x = Inr y"
  by (induction xs arbitrary: ys) (fastforce simp: ok_iff)+

lemma mapE_ok_nth:
  "mapE f xs = Inr ys \<longleftrightarrow> length ys = length xs \<and> (\<forall>i < length xs. f (xs ! i) = Inr (ys ! i))"
proof (induction xs arbitrary: ys)
  case Nil
  show ?case by auto
next
  case (Cons x xs)
  show ?case
    by (cases ys) (auto simp: ok_iff Cons.IH nth_Cons split: nat.splits)
qed

lemma mapE_ok_upt: "mapE f [0..<n] = Inr ys \<longleftrightarrow> length ys = n \<and> (\<forall>i < n. f i = Inr (ys ! i))"
  by (auto simp: mapE_ok_nth)

lemma mapE_ok_rel: "mapE f xs = Inr ys \<longleftrightarrow> list_all2 (\<lambda>x y. f x = Inr y) xs ys"
  by (auto simp: mapE_ok_nth list_all2_conv_all_nth)

text \<open>A loop that builds a map: each key with a value.\<close>

definition keyed :: "('k \<Rightarrow> 'e + 'k \<times> 'v) \<Rightarrow> bool" where
  "keyed f = (\<forall>k y. f k = Inr y \<longrightarrow> fst y = k)"

lemma mapE_keyed:
  assumes "mapE f ks = Inr out" "keyed f"
  shows "map fst out = ks" "(k, w) \<in> set out \<longleftrightarrow> k \<in> set ks \<and> f k = Inr (k, w)"
proof -
  from assms have "map fst out = ks \<and> ((k, w) \<in> set out \<longleftrightarrow> k \<in> set ks \<and> f k = Inr (k, w))"
  proof (induction ks arbitrary: out)
    case (Cons j ks)
    from Cons.prems obtain y ys where y: "f j = Inr y" "mapE f ks = Inr ys" "out = y # ys" by (auto simp: ok_iff)
    with Cons.prems(2) have "fst y = j" unfolding keyed_def by blast
    with Cons.IH [OF y(2) Cons.prems(2)] y show ?case by (cases y) auto
  qed simp
  then show "map fst out = ks" "(k, w) \<in> set out \<longleftrightarrow> k \<in> set ks \<and> f k = Inr (k, w)" by simp_all
qed

lemma mapE_same_results:
  assumes "\<And>x y. x \<in> set xs \<Longrightarrow> f x = Inr y \<longleftrightarrow> g x = Inr y"
  shows "mapE f xs = Inr ys \<longleftrightarrow> mapE g xs = Inr ys"
  using assms by (auto simp: mapE_ok_nth)

lemma forE_ok [ok_iff]: "forE f xs = Inr u \<longleftrightarrow> (\<forall>x \<in> set xs. f x = Inr ())"
  by (induction xs) (auto simp: ok_iff)

lemma forE_cong [fundef_cong]:
  "xs = ys \<Longrightarrow> (\<And>x. x \<in> set ys \<Longrightarrow> f x = g x) \<Longrightarrow> forE f xs = forE g ys"
proof (induction ys arbitrary: xs)
  case (Cons y ys)
  then have "forE f ys = forE g ys" by (intro Cons.IH) simp_all
  with Cons.prems show ?case by (simp cong: bindE_cong)
qed simp

section \<open>Slices\<close>

text \<open>\<^verbatim>\<open>seen[name]\<close> loops: the names are distinct. \<^verbatim>\<open>slices.Sort\<close> then
  \<^verbatim>\<open>slices.Compact\<close>: sorted, with runs of equal neighbours collapsed.\<close>

fun compact :: "'a list \<Rightarrow> 'a list" where
  "compact [] = []"
| "compact [x] = [x]"
| "compact (x # y # xs) = (if x = y then compact (y # xs) else x # compact (y # xs))"

lemma set_compact [simp]: "set (compact xs) = set xs"
  by (induction xs rule: compact.induct) auto

lemma compact_Nil_iff [simp]: "compact xs = [] \<longleftrightarrow> xs = []"
  by (induction xs rule: compact.induct) auto

lemma length_compact: "length (compact xs) \<le> length xs"
  by (induction xs rule: compact.induct) auto

lemma compact_distinct_id: "distinct xs \<Longrightarrow> compact xs = xs"
  by (induction xs rule: compact.induct) auto

lemma compact_sorted_distinct:
  fixes xs :: "'a::linorder list"
  shows "sorted xs \<Longrightarrow> sorted (compact xs) \<and> distinct (compact xs)"
proof (induction xs rule: compact.induct)
  case (3 x y xs)
  then have "sorted (compact (y # xs)) \<and> distinct (compact (y # xs))" by auto
  with "3.prems" show ?case by fastforce
qed auto

definition sort_compact :: "'a::linorder list \<Rightarrow> 'a list" where
  "sort_compact xs = compact (sort xs)"

lemma set_sort_compact [simp]: "set (sort_compact xs) = set xs"
  by (simp add: sort_compact_def)

lemma sorted_sort_compact: "sorted (sort_compact xs)" "distinct (sort_compact xs)"
  using compact_sorted_distinct [of "sort xs"] by (simp_all add: sort_compact_def)

lemma sort_compact_id: "sorted xs \<Longrightarrow> distinct xs \<Longrightarrow> sort_compact xs = xs"
  by (simp add: sort_compact_def sorted_sort_id compact_distinct_id)

text \<open>A first-wins merge of two lists without duplicates (\<^verbatim>\<open>mergePackages\<close> and its kin
  accumulate with a \<^verbatim>\<open>seen\<close> map).\<close>

fun add_unseen :: "'a list \<Rightarrow> 'a list \<Rightarrow> 'a list" where
  "add_unseen acc [] = acc"
| "add_unseen acc (x # xs) = add_unseen (if x \<in> set acc then acc else acc @ [x]) xs"

lemma set_add_unseen [simp]: "set (add_unseen acc xs) = set acc \<union> set xs"
  by (induction acc xs rule: add_unseen.induct) auto

lemma distinct_add_unseen: "distinct acc \<Longrightarrow> distinct (add_unseen acc xs)"
  by (induction acc xs rule: add_unseen.induct) auto

lemma add_unseen_absorb: "set xs \<subseteq> set acc \<Longrightarrow> add_unseen acc xs = acc"
  by (induction acc xs rule: add_unseen.induct) auto

lemma add_unseen_append: "add_unseen acc (xs @ ys) = add_unseen (add_unseen acc xs) ys"
  by (induction xs arbitrary: acc) auto

lemma add_unseen_prefix: "\<exists>zs. add_unseen acc xs = acc @ zs \<and> set zs = set xs - set acc"
proof (induction acc xs rule: add_unseen.induct)
  case (2 acc x xs)
  show ?case
  proof (cases "x \<in> set acc")
    case True
    with "2.IH" show ?thesis by auto
  next
    case False
    with "2.IH" obtain zs where
      "add_unseen (acc @ [x]) xs = (acc @ [x]) @ zs" "set zs = set xs - set (acc @ [x])" by auto
    with False show ?thesis by (intro exI [of _ "x # zs"]) auto
  qed
qed simp

lemma add_unseen_distinct_id: "distinct (acc @ xs) \<Longrightarrow> add_unseen acc xs = acc @ xs"
  by (induction xs arbitrary: acc) auto

lemma add_unseen_add_unseen:
  "add_unseen acc (add_unseen bs cs) = add_unseen (add_unseen acc bs) cs"
proof (induction bs cs rule: add_unseen.induct)
  case (1 acc')
  show ?case by simp
next
  case (2 bs x xs)
  then show ?case by (auto simp: add_unseen_append)
qed

section \<open>Runs of a failing step\<close>

text \<open>A sequence of operations on a state, each of which may refuse; the first error ends the run.\<close>

fun runE :: "('s \<Rightarrow> 'a \<Rightarrow> 'e + 's) \<Rightarrow> 's \<Rightarrow> 'a list \<Rightarrow> 'e + 's" where
  "runE step s [] = Inr s"
| "runE step s (a # as) = bindE (step s a) (\<lambda>s'. runE step s' as)"

lemma runE_append: "runE step s (as @ bs) = bindE (runE step s as) (\<lambda>s'. runE step s' bs)"
  by (induction as arbitrary: s) (auto simp: bindE_assoc)

text \<open>
  The contract of operations that only move forward in a preorder: what one step guarantees,
  every run guarantees. A component interprets it once per guarantee.
\<close>

locale forward_steps =
  fixes step :: "'s \<Rightarrow> 'a \<Rightarrow> 'e + 's"
    and R :: "'s \<Rightarrow> 's \<Rightarrow> bool"
  assumes R_refl: "R s s"
    and R_trans: "R s t \<Longrightarrow> R t u \<Longrightarrow> R s u"
    and step_forward: "step s a = Inr t \<Longrightarrow> R s t"
begin

lemma run_forward: "runE step s as = Inr t \<Longrightarrow> R s t"
  by (induction as arbitrary: s) (auto simp: ok_iff R_refl dest: step_forward intro: R_trans)

end

text \<open>An invariant every step keeps, as the special case of the forward relation "if it held
  before, it holds now".\<close>

locale invariant_steps =
  fixes step :: "'s \<Rightarrow> 'a \<Rightarrow> 'e + 's"
    and I :: "'s \<Rightarrow> bool"
  assumes step_invariant: "I s \<Longrightarrow> step s a = Inr t \<Longrightarrow> I t"
begin

sublocale forward_steps step "\<lambda>s t. I s \<longrightarrow> I t"
  by unfold_locales (auto dest: step_invariant)

lemma run_invariant: "I s \<Longrightarrow> runE step s as = Inr t \<Longrightarrow> I t"
  using run_forward by blast

end

end
