(* ===== verification/Perms_Grant.thy ===== *)
theory Perms_Grant
  imports C2J_Prelude
begin

text \<open>
  Recipe grants, \<^verbatim>\<open>pkg/permissions/policy.go\<close>: the \<open>JobDB\<close> grant with its secret,
  job and cell permissions, their validation, the narrowing \<open>intersect\<close> and the comparison
  \<open>subset\<close>. The semantics of a grant is the set of requests it permits
  (\<open>grant_permits\<close>, the tests that \<^verbatim>\<open>access.go\<close> makes before each use); the
  locale \<open>ceiling\<close> is what the policy code relies on about narrowing, and it is
  interpreted on the code's two functions.

  \<^verbatim>\<open>jobdb.ValidateCellName\<close> belongs to another module: it is the parameter \<open>vc\<close>
  of the definitions that reach it. A slice field is an option where the code separates nil
  (no restriction) from a list; \<open>Secrets.Resolve\<close> is never compared with nil.
\<close>

section \<open>Data\<close>

record SecretPermissions =
  sp_Resolve :: "string list"

record JobPermissions =
  jp_CellNames :: "string list option"
  jp_Submit :: bool

record CellPermissions =
  cp_Create :: bool
  cp_CellNames :: "string list option"

record JobDB =
  Secrets :: SecretPermissions
  Jobs :: JobPermissions
  Cells :: CellPermissions

datatype perm_error =
    CellNamesRequireCreate
  | CellNamesRequireSubmit
  | BadCellName string
  | TooManySecrets
  | BadSecretName
  | InheritedRequiresOverrides
  | NullNames string
  | UnsupportedPolicyVersion int
  | ExceedsEnclosingLimit
  | InputExceedsLimit string
  | InputDenied string
  | BoundaryRequiresCeiling

definition empty_grant :: JobDB where
  "empty_grant = \<lparr>Secrets = \<lparr>sp_Resolve = []\<rparr>,
     Jobs = \<lparr>jp_CellNames = None, jp_Submit = False\<rparr>,
     Cells = \<lparr>cp_Create = False, cp_CellNames = None\<rparr>\<rparr>"

section \<open>Validation\<close>

definition letter_char :: "char \<Rightarrow> bool" where
  "letter_char c \<longleftrightarrow> CHR ''A'' \<le> c \<and> c \<le> CHR ''Z'' \<or> CHR ''a'' \<le> c \<and> c \<le> CHR ''z''"

definition digit_char :: "char \<Rightarrow> bool" where
  "digit_char c \<longleftrightarrow> CHR ''0'' \<le> c \<and> c \<le> CHR ''9''"

text \<open>The regular expression \<open>secretName\<close>: a letter or underscore, then at most 255
  letters, digits, underscores or hyphens.\<close>

definition secretName :: "string \<Rightarrow> bool" where
  "secretName s = (case s of
     [] \<Rightarrow> False
   | c # cs \<Rightarrow> (letter_char c \<or> c = CHR ''_'') \<and> length cs \<le> 255 \<and>
       list_all (\<lambda>d. letter_char d \<or> digit_char d \<or> d = CHR ''_'' \<or> d = CHR ''-'') cs)"

text \<open>The loops with a \<open>seen\<close> map: every name valid and none repeated.\<close>

fun check_names :: "(string \<Rightarrow> bool) \<Rightarrow> (string \<Rightarrow> 'e) \<Rightarrow> string set \<Rightarrow> string list \<Rightarrow> 'e + unit" where
  "check_names ok err seen [] = Inr ()"
| "check_names ok err seen (n # ns) =
     (if \<not> ok n \<or> n \<in> seen then Inl (err n) else check_names ok err (insert n seen) ns)"

definition JobDB_Validate :: "(string \<Rightarrow> bool) \<Rightarrow> JobDB \<Rightarrow> perm_error + unit" where
  "JobDB_Validate vc p =
     bindE (case cp_CellNames (Cells p) of
         None \<Rightarrow> Inr ()
       | Some ns \<Rightarrow>
           if \<not> cp_Create (Cells p) \<or> length ns = 0 then Inl CellNamesRequireCreate
           else check_names vc BadCellName {} ns) (\<lambda>_.
     bindE (case jp_CellNames (Jobs p) of
         None \<Rightarrow> Inr ()
       | Some ns \<Rightarrow>
           if \<not> jp_Submit (Jobs p) \<or> length ns = 0 then Inl CellNamesRequireSubmit
           else check_names vc BadCellName {} ns) (\<lambda>_.
     bindE (check (length (sp_Resolve (Secrets p)) \<le> 256) TooManySecrets) (\<lambda>_.
     check_names secretName (\<lambda>_. BadSecretName) {} (sp_Resolve (Secrets p)))))"

section \<open>Narrowing and comparison\<close>

text \<open>\<open>slices.Clone\<close> of an immutable list is the list; the model has no aliasing to break.\<close>

definition JobDB_clone :: "JobDB \<Rightarrow> JobDB" where
  "JobDB_clone g = g\<lparr>
     Secrets := (Secrets g)\<lparr>sp_Resolve := sp_Resolve (Secrets g)\<rparr>,
     Jobs := (Jobs g)\<lparr>jp_CellNames := jp_CellNames (Jobs g)\<rparr>,
     Cells := (Cells g)\<lparr>cp_CellNames := cp_CellNames (Cells g)\<rparr>\<rparr>"

text \<open>One name-restricted action (cell creation, job submission): the flag and the names.
  The names grow from nil by \<^verbatim>\<open>append\<close>, so no common name leaves nil and clears the
  flag.\<close>

definition intersect_names ::
    "bool \<Rightarrow> string list option \<Rightarrow> string list option \<Rightarrow> bool \<times> string list option" where
  "intersect_names on a b =
     (if \<not> on then (False, None)
      else case a of
        None \<Rightarrow> (True, b)
      | Some xs \<Rightarrow> (case b of
          None \<Rightarrow> (True, Some xs)
        | Some ys \<Rightarrow>
            let zs = filter (\<lambda>n. n \<in> set ys) xs
            in if length zs = 0 then (False, None) else (True, Some zs)))"

definition intersect :: "JobDB \<Rightarrow> JobDB \<Rightarrow> JobDB" where
  "intersect a b =
     (let c = intersect_names (cp_Create (Cells a) \<and> cp_Create (Cells b))
                (cp_CellNames (Cells a)) (cp_CellNames (Cells b));
          j = intersect_names (jp_Submit (Jobs a) \<and> jp_Submit (Jobs b))
                (jp_CellNames (Jobs a)) (jp_CellNames (Jobs b))
      in \<lparr>Secrets = \<lparr>sp_Resolve = filter (\<lambda>n. n \<in> set (sp_Resolve (Secrets b))) (sp_Resolve (Secrets a))\<rparr>,
          Jobs = \<lparr>jp_CellNames = snd j, jp_Submit = fst j\<rparr>,
          Cells = \<lparr>cp_Create = fst c, cp_CellNames = snd c\<rparr>\<rparr>)"

text \<open>A loop over a nil slice runs no iteration.\<close>

definition names_of :: "string list option \<Rightarrow> string list" where
  "names_of n = (case n of None \<Rightarrow> [] | Some xs \<Rightarrow> xs)"

definition subset_grant :: "JobDB \<Rightarrow> JobDB \<Rightarrow> bool" where
  "subset_grant a b =
     (if cp_Create (Cells a) \<and>
         (\<not> cp_Create (Cells b) \<or> cp_CellNames (Cells b) \<noteq> None \<and> cp_CellNames (Cells a) = None) then False
      else if cp_Create (Cells a) \<and> cp_CellNames (Cells b) \<noteq> None \<and>
         \<not> list_all (\<lambda>n. n \<in> set (names_of (cp_CellNames (Cells b)))) (names_of (cp_CellNames (Cells a))) then False
      else if jp_Submit (Jobs a) \<and> jp_CellNames (Jobs b) \<noteq> None \<and>
         (jp_CellNames (Jobs a) = None \<or>
          \<not> list_all (\<lambda>n. n \<in> set (names_of (jp_CellNames (Jobs b)))) (names_of (jp_CellNames (Jobs a)))) then False
      else if jp_Submit (Jobs a) \<and> \<not> jp_Submit (Jobs b) then False
      else list_all (\<lambda>n. n \<in> set (sp_Resolve (Secrets b))) (sp_Resolve (Secrets a)))"

section \<open>What a grant permits\<close>

datatype request = ResolveSecret string | SubmitTo string | CreateCell string

text \<open>The tests \<^verbatim>\<open>Access.CheckSecrets\<close>, \<^verbatim>\<open>Access.Submit\<close> and
  \<^verbatim>\<open>Access.CreateCell\<close> make against a grant.\<close>

definition name_allowed :: "string list option \<Rightarrow> string \<Rightarrow> bool" where
  "name_allowed ns n = (case ns of None \<Rightarrow> True | Some xs \<Rightarrow> n \<in> set xs)"

fun grant_permits :: "JobDB \<Rightarrow> request \<Rightarrow> bool" where
  "grant_permits g (ResolveSecret n) = (n \<in> set (sp_Resolve (Secrets g)))"
| "grant_permits g (SubmitTo c) = (jp_Submit (Jobs g) \<and> name_allowed (jp_CellNames (Jobs g)) c)"
| "grant_permits g (CreateCell c) = (cp_Create (Cells g) \<and> name_allowed (cp_CellNames (Cells g)) c)"

text \<open>The part of \<open>JobDB_Validate\<close> narrowing needs: a name list is never empty.\<close>

definition names_nonempty :: "JobDB \<Rightarrow> bool" where
  "names_nonempty g \<longleftrightarrow> jp_CellNames (Jobs g) \<noteq> Some [] \<and> cp_CellNames (Cells g) \<noteq> Some []"

lemma check_names_ok [ok_iff]:
  "check_names ok err seen ns = Inr u \<longleftrightarrow> (\<forall>n \<in> set ns. ok n) \<and> distinct ns \<and> set ns \<inter> seen = {}"
  by (induction ns arbitrary: seen) auto

lemma JobDB_clone_id [simp]: "JobDB_clone g = g"
  by (simp add: JobDB_clone_def)

lemma JobDB_Validate_ok [ok_iff]:
  "JobDB_Validate vc p = Inr u \<longleftrightarrow>
     (\<forall>ns. cp_CellNames (Cells p) = Some ns \<longrightarrow>
        cp_Create (Cells p) \<and> ns \<noteq> [] \<and> (\<forall>n \<in> set ns. vc n) \<and> distinct ns) \<and>
     (\<forall>ns. jp_CellNames (Jobs p) = Some ns \<longrightarrow>
        jp_Submit (Jobs p) \<and> ns \<noteq> [] \<and> (\<forall>n \<in> set ns. vc n) \<and> distinct ns) \<and>
     length (sp_Resolve (Secrets p)) \<le> 256 \<and>
     (\<forall>n \<in> set (sp_Resolve (Secrets p)). secretName n) \<and> distinct (sp_Resolve (Secrets p))"
  by (auto simp: JobDB_Validate_def ok_iff split: option.splits)

lemma Validate_names_nonempty: "JobDB_Validate vc p = Inr u \<Longrightarrow> names_nonempty p"
  by (auto simp: ok_iff names_nonempty_def)

section \<open>The laws of narrowing\<close>

lemma intersect_names_permits:
  "fst (intersect_names on a b) \<and> name_allowed (snd (intersect_names on a b)) n \<longleftrightarrow>
     on \<and> name_allowed a n \<and> name_allowed b n"
  by (auto simp: intersect_names_def name_allowed_def Let_def filter_empty_conv split: option.splits)

lemma permits_intersect:
  "grant_permits (intersect a b) r \<longleftrightarrow> grant_permits a r \<and> grant_permits b r"
proof (cases r)
  case (ResolveSecret n)
  then show ?thesis by (simp add: intersect_def Let_def)
next
  case (SubmitTo n)
  with intersect_names_permits [of "jp_Submit (Jobs a) \<and> jp_Submit (Jobs b)"
      "jp_CellNames (Jobs a)" "jp_CellNames (Jobs b)" n]
  show ?thesis by (auto simp: intersect_def Let_def)
next
  case (CreateCell n)
  with intersect_names_permits [of "cp_Create (Cells a) \<and> cp_Create (Cells b)"
      "cp_CellNames (Cells a)" "cp_CellNames (Cells b)" n]
  show ?thesis by (auto simp: intersect_def Let_def)
qed

text \<open>No finite list of names is the unrestricted permission: there is always another name.\<close>

lemma fresh_name: "\<exists>n :: string. n \<notin> set xs"
proof -
  have "infinite (UNIV :: string set)" by (rule infinite_UNIV_listI)
  then show ?thesis using finite_set [of xs] by (metis UNIV_I finite_subset subsetI)
qed

lemma names_below_iff:
  assumes "a \<noteq> Some []"
  shows "(\<forall>n. name_allowed a n \<longrightarrow> on \<and> name_allowed b n) \<longleftrightarrow>
    on \<and> (b = None \<or> (\<exists>xs ys. a = Some xs \<and> b = Some ys \<and> set xs \<subseteq> set ys))"
proof (cases a)
  case None
  show ?thesis
  proof (cases b)
    case None
    with \<open>a = None\<close> show ?thesis by (simp add: name_allowed_def)
  next
    case (Some ys)
    obtain n where "n \<notin> set ys" using fresh_name by blast
    with \<open>a = None\<close> Some show ?thesis by (auto simp: name_allowed_def)
  qed
next
  case (Some xs)
  with assms obtain x where "x \<in> set xs" by (cases xs) auto
  with Some show ?thesis by (cases b) (auto simp: name_allowed_def)
qed

lemma grant_permits_all:
  "(\<forall>r. P r) \<longleftrightarrow> (\<forall>n. P (ResolveSecret n)) \<and> (\<forall>n. P (SubmitTo n)) \<and> (\<forall>n. P (CreateCell n))"
  by (metis request.exhaust)

text \<open>Inclusion of one name restriction in another, as \<open>subset_grant\<close> decides it.\<close>

definition names_below :: "string list option \<Rightarrow> string list option \<Rightarrow> bool" where
  "names_below a b = (case b of None \<Rightarrow> True
     | Some ys \<Rightarrow> (case a of None \<Rightarrow> False | Some xs \<Rightarrow> set xs \<subseteq> set ys))"

lemma names_below_permits:
  assumes "a \<noteq> Some []"
  shows "(\<forall>n. p \<and> name_allowed a n \<longrightarrow> q \<and> name_allowed b n) \<longleftrightarrow> (p \<longrightarrow> q \<and> names_below a b)"
  using names_below_iff [OF assms, of q b]
  by (auto simp: names_below_def split: option.splits)

lemma names_below_alt:
  "names_below a b \<longleftrightarrow> \<not> (b \<noteq> None \<and> a = None) \<and>
     (b \<noteq> None \<longrightarrow> list_all (\<lambda>n. n \<in> set (names_of b)) (names_of a))"
  by (auto simp: names_below_def names_of_def list_all_iff split: option.splits)

lemma subset_grant_alt:
  "subset_grant a b \<longleftrightarrow>
     (cp_Create (Cells a) \<longrightarrow> cp_Create (Cells b) \<and> names_below (cp_CellNames (Cells a)) (cp_CellNames (Cells b))) \<and>
     (jp_Submit (Jobs a) \<longrightarrow> jp_Submit (Jobs b) \<and> names_below (jp_CellNames (Jobs a)) (jp_CellNames (Jobs b))) \<and>
     set (sp_Resolve (Secrets a)) \<subseteq> set (sp_Resolve (Secrets b))"
  unfolding subset_grant_def names_below_alt list_all_iff [of _ "sp_Resolve (Secrets a)"] subset_iff
    Ball_def if_bool_eq_conj
  by blast

lemma subset_iff_permits:
  assumes "names_nonempty a"
  shows "subset_grant a b \<longleftrightarrow> (\<forall>r. grant_permits a r \<longrightarrow> grant_permits b r)"
proof -
  have ne: "jp_CellNames (Jobs a) \<noteq> Some []" "cp_CellNames (Cells a) \<noteq> Some []"
    using assms by (auto simp: names_nonempty_def)
  show ?thesis
    unfolding grant_permits_all subset_grant_alt
    by (auto simp: names_below_permits ne)
qed

lemma intersect_names_nonempty:
  "a \<noteq> Some [] \<Longrightarrow> b \<noteq> Some [] \<Longrightarrow> snd (intersect_names on a b) \<noteq> Some []"
  by (auto simp: intersect_names_def Let_def split: option.splits if_splits)

lemma names_nonempty_intersect:
  "names_nonempty a \<Longrightarrow> names_nonempty b \<Longrightarrow> names_nonempty (intersect a b)"
  by (auto simp: names_nonempty_def intersect_def Let_def intersect_names_nonempty)

text \<open>Narrowing keeps a grant valid.\<close>

lemma intersect_names_valid:
  assumes "snd (intersect_names (p \<and> q) a b) = Some ns"
    and "\<And>xs. a = Some xs \<Longrightarrow> xs \<noteq> [] \<and> (\<forall>n \<in> set xs. vc n) \<and> distinct xs"
    and "\<And>xs. b = Some xs \<Longrightarrow> xs \<noteq> [] \<and> (\<forall>n \<in> set xs. vc n) \<and> distinct xs"
  shows "fst (intersect_names (p \<and> q) a b) \<and> ns \<noteq> [] \<and> (\<forall>n \<in> set ns. vc n) \<and> distinct ns"
  using assms by (auto simp: intersect_names_def Let_def split: option.splits if_splits)

lemma Validate_intersect:
  assumes "JobDB_Validate vc a = Inr ()" "JobDB_Validate vc b = Inr ()"
  shows "JobDB_Validate vc (intersect a b) = Inr ()"
proof -
  have "length (sp_Resolve (Secrets a)) \<le> 256"
    using assms(1) by (simp add: JobDB_Validate_ok)
  then have "length (filter P (sp_Resolve (Secrets a))) \<le> 256" for P
    by (rule order_trans [OF length_filter_le])
  then show ?thesis
    using assms
    by (auto simp: JobDB_Validate_ok intersect_def Let_def dest!: intersect_names_valid [where vc = vc])
qed

section \<open>The interface of a ceiling\<close>

text \<open>
  What the policy code relies on when it narrows: \<open>meet\<close> permits exactly what both
  operands permit, and \<open>below\<close> decides inclusion of what valid grants permit. The
  consequences are proved here once: order laws, the greatest lower bound, and the loops that
  narrow by a list of ceilings one after another.
\<close>

locale ceiling =
  fixes meet :: "'g \<Rightarrow> 'g \<Rightarrow> 'g"
    and below :: "'g \<Rightarrow> 'g \<Rightarrow> bool"
    and wf :: "'g \<Rightarrow> bool"
    and permits :: "'g \<Rightarrow> 'r \<Rightarrow> bool"
  assumes permits_meet: "permits (meet a b) r \<longleftrightarrow> permits a r \<and> permits b r"
    and below_iff: "wf a \<Longrightarrow> below a b \<longleftrightarrow> (\<forall>r. permits a r \<longrightarrow> permits b r)"
    and wf_meet: "wf a \<Longrightarrow> wf b \<Longrightarrow> wf (meet a b)"
begin

lemma below_refl: "wf a \<Longrightarrow> below a a"
  by (simp add: below_iff)

lemma below_trans: "wf a \<Longrightarrow> wf b \<Longrightarrow> below a b \<Longrightarrow> below b c \<Longrightarrow> below a c"
  by (simp add: below_iff)

lemma meet_below: "wf a \<Longrightarrow> wf b \<Longrightarrow> below (meet a b) a \<and> below (meet a b) b"
  by (simp add: below_iff wf_meet permits_meet)

lemma meet_greatest:
  "wf c \<Longrightarrow> below c (meet a b) \<longleftrightarrow> below c a \<and> below c b"
  by (auto simp: below_iff permits_meet)

lemma permits_narrow:
  "permits (foldl meet g ls) r \<longleftrightarrow> permits g r \<and> (\<forall>l \<in> set ls. permits l r)"
  by (induction ls arbitrary: g) (auto simp: permits_meet)

lemma wf_narrow: "wf g \<Longrightarrow> \<forall>l \<in> set ls. wf l \<Longrightarrow> wf (foldl meet g ls)"
  by (induction ls arbitrary: g) (auto simp: wf_meet)

lemma narrow_below:
  "wf g \<Longrightarrow> \<forall>l \<in> set ls. wf l \<Longrightarrow>
     below (foldl meet g ls) g \<and> (\<forall>l \<in> set ls. below (foldl meet g ls) l)"
  by (simp add: below_iff wf_narrow permits_narrow)

text \<open>The order of the ceilings does not matter for what remains permitted.\<close>

lemma narrow_order: "set ls = set ls' \<Longrightarrow> permits (foldl meet g ls) r \<longleftrightarrow> permits (foldl meet g ls') r"
  by (simp add: permits_narrow)

end

interpretation grants: ceiling intersect subset_grant names_nonempty grant_permits
  by unfold_locales (auto simp: permits_intersect subset_iff_permits names_nonempty_intersect)

end
