(* ===== verification/Perms_State.thy ===== *)
theory Perms_State
  imports Perms_Grant
begin

text \<open>
  The lexical permission policy of a recipe, \<^verbatim>\<open>pkg/permissions/{policy,inheritance,inputs}.go\<close>:
  the node metadata \<open>Spec\<close>, the presence-aware \<open>JobDBOverrides\<close>, the \<open>State\<close>
  serialized with each task invocation, and the operations \<open>Resolve\<close>, \<open>Enter\<close>,
  \<open>EnterInclude\<close>, \<open>CheckInput\<close> and \<open>InheritedDenials\<close>.

  An override field is a Go pointer to a slice: \<open>None\<close> is an absent field,
  \<open>Some None\<close> a JSON null, \<open>Some (Some ns)\<close> a list.
\<close>

section \<open>Overrides\<close>

record SecretOverrides =
  so_Resolve :: "string list option option"

record JobOverrides =
  jo_Submit :: "bool option"
  jo_CellNames :: "string list option option"

record CellOverrides =
  co_Create :: "bool option"
  co_CellNames :: "string list option option"

record JobDBOverrides =
  o_Secrets :: SecretOverrides
  o_Jobs :: JobOverrides
  o_Cells :: CellOverrides

definition override_list :: "string \<Rightarrow> string list option option \<Rightarrow> 'a \<Rightarrow> (string list \<Rightarrow> 'a) \<Rightarrow> perm_error + 'a" where
  "override_list field p old new = (case p of
     None \<Rightarrow> Inr old
   | Some None \<Rightarrow> Inl (NullNames field)
   | Some (Some ns) \<Rightarrow> Inr (new ns))"

definition set_submit :: "bool option \<Rightarrow> JobDB \<Rightarrow> JobDB" where
  "set_submit v g = (case v of
     None \<Rightarrow> g
   | Some b \<Rightarrow>
       let g = g\<lparr>Jobs := (Jobs g)\<lparr>jp_Submit := b\<rparr>\<rparr>
       in if \<not> b then g\<lparr>Jobs := (Jobs g)\<lparr>jp_CellNames := None\<rparr>\<rparr> else g)"

definition set_create :: "bool option \<Rightarrow> JobDB \<Rightarrow> JobDB" where
  "set_create v g = (case v of
     None \<Rightarrow> g
   | Some b \<Rightarrow>
       let g = g\<lparr>Cells := (Cells g)\<lparr>cp_Create := b\<rparr>\<rparr>
       in if \<not> b then g\<lparr>Cells := (Cells g)\<lparr>cp_CellNames := None\<rparr>\<rparr> else g)"

definition Overrides_apply :: "JobDBOverrides \<Rightarrow> JobDB \<Rightarrow> perm_error + JobDB" where
  "Overrides_apply p g0 =
     (let g = JobDB_clone g0 in
      bindE (override_list ''secrets.resolve'' (so_Resolve (o_Secrets p)) g
               (\<lambda>ns. g\<lparr>Secrets := (Secrets g)\<lparr>sp_Resolve := ns\<rparr>\<rparr>)) (\<lambda>g.
      let g = set_submit (jo_Submit (o_Jobs p)) g in
      bindE (override_list ''jobs.cellNames'' (jo_CellNames (o_Jobs p)) g
               (\<lambda>ns. g\<lparr>Jobs := (Jobs g)\<lparr>jp_CellNames := Some ns\<rparr>\<rparr>)) (\<lambda>g.
      let g = set_create (co_Create (o_Cells p)) g in
      override_list ''cells.cellNames'' (co_CellNames (o_Cells p)) g
        (\<lambda>ns. g\<lparr>Cells := (Cells g)\<lparr>cp_CellNames := Some ns\<rparr>\<rparr>))))"

lemma set_submit_simps [simp]:
  "Secrets (set_submit v g) = Secrets g" "Cells (set_submit v g) = Cells g"
  "jp_Submit (Jobs (set_submit v g)) = (case v of None \<Rightarrow> jp_Submit (Jobs g) | Some b \<Rightarrow> b)"
  by (auto simp: set_submit_def Let_def split: option.split)

lemma set_create_simps [simp]:
  "Secrets (set_create v g) = Secrets g" "Jobs (set_create v g) = Jobs g"
  "cp_Create (Cells (set_create v g)) = (case v of None \<Rightarrow> cp_Create (Cells g) | Some b \<Rightarrow> b)"
  by (auto simp: set_create_def Let_def split: option.split)

definition Overrides_Validate :: "(string \<Rightarrow> bool) \<Rightarrow> JobDBOverrides \<Rightarrow> perm_error + unit" where
  "Overrides_Validate vc p =
     (let g = empty_grant\<lparr>Jobs := (Jobs empty_grant)\<lparr>jp_Submit := True\<rparr>,
                          Cells := (Cells empty_grant)\<lparr>cp_Create := True\<rparr>\<rparr>
      in bindE (Overrides_apply p g) (JobDB_Validate vc))"

definition Overrides_empty :: "JobDBOverrides \<Rightarrow> bool" where
  "Overrides_empty p \<longleftrightarrow>
     so_Resolve (o_Secrets p) = None \<and> jo_Submit (o_Jobs p) = None \<and> jo_CellNames (o_Jobs p) = None \<and>
     co_Create (o_Cells p) = None \<and> co_CellNames (o_Cells p) = None"

definition Overrides_clone :: "JobDBOverrides \<Rightarrow> JobDBOverrides" where
  "Overrides_clone p =
     \<lparr>o_Secrets = \<lparr>so_Resolve = so_Resolve (o_Secrets p)\<rparr>,
      o_Jobs = \<lparr>jo_Submit = jo_Submit (o_Jobs p), jo_CellNames = jo_CellNames (o_Jobs p)\<rparr>,
      o_Cells = \<lparr>co_Create = co_Create (o_Cells p), co_CellNames = co_CellNames (o_Cells p)\<rparr>\<rparr>"

lemma Overrides_clone_id [simp]: "Overrides_clone p = p"
  by (simp add: Overrides_clone_def)

section \<open>Node metadata\<close>

record Limit =
  lim_JobDB :: "JobDB option"

record Spec =
  spec_JobDB :: "JobDB option"
  spec_Limit :: "Limit option"
  spec_Inherit :: bool
  spec_Overrides :: "JobDBOverrides option"

definition limit_of :: "Spec \<Rightarrow> JobDB option" where
  "limit_of p = Option.bind (spec_Limit p) lim_JobDB"

text \<open>The validation of a value behind a pointer that may be nil.\<close>

definition opt_check :: "('a \<Rightarrow> 'e + unit) \<Rightarrow> 'a option \<Rightarrow> 'e + unit" where
  "opt_check f p = (case p of None \<Rightarrow> Inr () | Some x \<Rightarrow> f x)"

definition Spec_Validate :: "(string \<Rightarrow> bool) \<Rightarrow> Spec option \<Rightarrow> perm_error + unit" where
  "Spec_Validate vc sp = (case sp of
     None \<Rightarrow> Inr ()
   | Some p \<Rightarrow>
       bindE (check (\<not> (spec_Inherit p \<and> spec_JobDB p \<noteq> None \<or> \<not> spec_Inherit p \<and> spec_Overrides p \<noteq> None))
                InheritedRequiresOverrides) (\<lambda>_.
       bindE (opt_check (Overrides_Validate vc) (spec_Overrides p)) (\<lambda>_.
       bindE (opt_check (JobDB_Validate vc) (spec_JobDB p)) (\<lambda>_.
       opt_check (JobDB_Validate vc) (limit_of p)))))"

section \<open>The policy state\<close>

definition policy_version :: int where
  "policy_version = 1"

record InputPolicy =
  RootRepository :: string
  Foreign :: bool
  Allowed :: "string list"

record State =
  st_ChildGrant :: "JobDB option"
  st_ChildPolicy :: string
  st_Version :: int
  st_Grant :: "JobDB option"
  st_Limit :: "JobDB option"
  st_Inputs :: "InputPolicy option"
  st_Overrides :: "JobDBOverrides list"

definition empty_state :: State where
  "empty_state = \<lparr>st_ChildGrant = None, st_ChildPolicy = [], st_Version = 0, st_Grant = None,
     st_Limit = None, st_Inputs = None, st_Overrides = []\<rparr>"

fun apply_overrides :: "(string \<Rightarrow> bool) \<Rightarrow> JobDBOverrides list \<Rightarrow> JobDB \<Rightarrow> perm_error + JobDB" where
  "apply_overrides vc [] g = Inr g"
| "apply_overrides vc (p # ps) g =
     bindE (Overrides_Validate vc p) (\<lambda>_.
     bindE (Overrides_apply p g) (\<lambda>g'. apply_overrides vc ps g'))"

definition Resolve :: "(string \<Rightarrow> bool) \<Rightarrow> State \<Rightarrow> string list \<Rightarrow> perm_error + JobDB" where
  "Resolve vc s gitSecrets =
     bindE (check (st_Version s = policy_version) (UnsupportedPolicyVersion (st_Version s))) (\<lambda>_.
     let grant = empty_grant\<lparr>Secrets := \<lparr>sp_Resolve = gitSecrets\<rparr>, Jobs := \<lparr>jp_CellNames = None, jp_Submit = True\<rparr>\<rparr>;
         grant = (case st_Grant s of None \<Rightarrow> grant | Some g \<Rightarrow> JobDB_clone g);
         grant = grant\<lparr>Secrets := (Secrets grant)\<lparr>sp_Resolve := sort_compact (sp_Resolve (Secrets grant))\<rparr>\<rparr> in
     bindE (JobDB_Validate vc grant) (\<lambda>_.
     bindE (case st_Limit s of
              None \<Rightarrow> Inr grant
            | Some l \<Rightarrow> bindE (JobDB_Validate vc l) (\<lambda>_.
                Inr (if st_Grant s = None then intersect grant l else grant))) (\<lambda>grant.
     bindE (apply_overrides vc (st_Overrides s) grant) (\<lambda>grant.
     bindE (JobDB_Validate vc grant) (\<lambda>_.
     case st_Limit s of
       None \<Rightarrow> Inr grant
     | Some l \<Rightarrow> if \<not> subset_grant grant l then Inl ExceedsEnclosingLimit else Inr grant)))))"

definition narrow_limit :: "JobDB option \<Rightarrow> JobDB \<Rightarrow> JobDB option" where
  "narrow_limit old c = (case old of
     None \<Rightarrow> Some (JobDB_clone c)
   | Some l \<Rightarrow> Some (intersect (JobDB_clone c) l))"

text \<open>\<^verbatim>\<open>Enter(spec, false)\<close>: the state the node metadata leaves, then the check
  that it resolves.\<close>

definition node_state :: "State \<Rightarrow> Spec option \<Rightarrow> State" where
  "node_state s spec = (case spec of
       None \<Rightarrow> s
     | Some p \<Rightarrow>
         let s = (case limit_of p of None \<Rightarrow> s | Some l \<Rightarrow> s\<lparr>st_Limit := narrow_limit (st_Limit s) l\<rparr>);
             s = (case spec_JobDB p of
                    None \<Rightarrow> s
                  | Some g \<Rightarrow> s\<lparr>st_Grant := Some (JobDB_clone g), st_Overrides := []\<rparr>)
         in (case spec_Overrides p of
               None \<Rightarrow> s
             | Some o' \<Rightarrow>
                 if \<not> Overrides_empty o'
                 then s\<lparr>st_Overrides := st_Overrides s @ [Overrides_clone o']\<rparr> else s))"

definition Enter_node :: "(string \<Rightarrow> bool) \<Rightarrow> State \<Rightarrow> Spec option \<Rightarrow> perm_error + State" where
  "Enter_node vc s0 spec =
     (let s = s0\<lparr>st_Version := policy_version\<rparr> in
      bindE (Spec_Validate vc spec) (\<lambda>_.
      let s = node_state s spec
      in bindE (Resolve vc s []) (\<lambda>_. Inr s)))"

section \<open>Inputs and includes\<close>

definition last_secret_override :: "string list \<Rightarrow> JobDBOverrides list \<Rightarrow> string list" where
  "last_secret_override start ps =
     foldl (\<lambda>acc p. case so_Resolve (o_Secrets p) of None \<Rightarrow> acc | Some ns \<Rightarrow> names_of ns) start ps"

definition CheckInput :: "State \<Rightarrow> string \<Rightarrow> perm_error + unit" where
  "CheckInput s name =
     (if name = [] then Inr ()
      else if (case st_Limit s of None \<Rightarrow> False | Some l \<Rightarrow> name \<notin> set (sp_Resolve (Secrets l)))
      then Inl (InputExceedsLimit name)
      else if (case st_Inputs s of None \<Rightarrow> False | Some i \<Rightarrow> \<not> Foreign i \<or> name \<in> set (Allowed i))
      then Inr ()
      else let explicit = last_secret_override
                 (case st_Grant s of None \<Rightarrow> [] | Some g \<Rightarrow> sp_Resolve (Secrets g)) (st_Overrides s)
           in if name \<in> set explicit then Inr () else Inl (InputDenied name))"

definition ValidateInclude :: "(string \<Rightarrow> bool) \<Rightarrow> Spec option \<Rightarrow> bool \<Rightarrow> perm_error + unit" where
  "ValidateInclude vc spec boundary =
     bindE (Spec_Validate vc spec) (\<lambda>_.
     if boundary \<and> (case spec of None \<Rightarrow> True | Some p \<Rightarrow> spec_JobDB p = None \<and> limit_of p = None)
     then Inl BoundaryRequiresCeiling else Inr ())"

text \<open>The input policy before the callsite grant is added, and the state handed to
  \<open>Enter_node\<close>. Callsite authority is also a ceiling.\<close>

definition inherited_input :: "State \<Rightarrow> bool \<Rightarrow> bool \<Rightarrow> InputPolicy" where
  "inherited_input s boundary trusted =
     (let input = \<lparr>RootRepository = [], Foreign = \<not> trusted, Allowed = []\<rparr> in
      case st_Inputs s of
        None \<Rightarrow> input
      | Some i \<Rightarrow>
          let input = input\<lparr>RootRepository := RootRepository i\<rparr>
          in if \<not> boundary then input\<lparr>Allowed := Allowed i\<rparr> else input)"

definition callsite_ceilings :: "Spec option \<Rightarrow> JobDB option list" where
  "callsite_ceilings spec = (case spec of None \<Rightarrow> [] | Some p \<Rightarrow>
     [spec_JobDB p] @ (case spec_Limit p of None \<Rightarrow> [] | Some l \<Rightarrow> [lim_JobDB l]))"

definition include_state :: "State \<Rightarrow> Spec option \<Rightarrow> bool \<Rightarrow> InputPolicy \<Rightarrow> State" where
  "include_state s0 spec boundary input =
     (let s = (if boundary \<or> Option.bind spec spec_JobDB \<noteq> None
               then s0\<lparr>st_Grant := None, st_Overrides := []\<rparr> else s0);
          s = s\<lparr>st_Limit := foldl (\<lambda>l c. case c of None \<Rightarrow> l | Some c \<Rightarrow> narrow_limit l c)
                (st_Limit s) (callsite_ceilings spec)\<rparr>
      in s\<lparr>st_Inputs := Some input\<rparr>)"

definition callee_edit :: "Spec option \<Rightarrow> Spec option" where
  "callee_edit = map_option (\<lambda>p. \<lparr>spec_JobDB = None, spec_Limit = None,
     spec_Inherit = spec_Inherit p, spec_Overrides = spec_Overrides p\<rparr>)"

definition EnterInclude ::
    "(string \<Rightarrow> bool) \<Rightarrow> State \<Rightarrow> Spec option \<Rightarrow> bool \<Rightarrow> bool \<Rightarrow> perm_error + State" where
  "EnterInclude vc s spec boundary trusted =
     bindE (ValidateInclude vc spec boundary) (\<lambda>_.
     let input = inherited_input s boundary trusted in
     bindE (case Option.bind spec spec_JobDB of
         None \<Rightarrow> Inr input
       | Some g \<Rightarrow> bindE (forE (CheckInput s) (sp_Resolve (Secrets g))) (\<lambda>_.
           Inr (input\<lparr>Allowed := Allowed input @ sp_Resolve (Secrets g)\<rparr>))) (\<lambda>input.
     bindE (case Option.bind (Option.bind spec spec_Overrides) (\<lambda>o'. so_Resolve (o_Secrets o')) of
         None \<Rightarrow> Inr ()
       | Some ns \<Rightarrow> forE (CheckInput s) (names_of ns)) (\<lambda>_.
     Enter_node vc (include_state s spec boundary input) (callee_edit spec))))"

definition Enter :: "(string \<Rightarrow> bool) \<Rightarrow> State \<Rightarrow> Spec option \<Rightarrow> bool \<Rightarrow> perm_error + State" where
  "Enter vc s spec boundary =
     (if boundary then EnterInclude vc s spec True False else Enter_node vc s spec)"

section \<open>Inherited denials\<close>

definition last_set :: "('a \<Rightarrow> 'b option) \<Rightarrow> 'a list \<Rightarrow> 'b option" where
  "last_set f ps = foldl (\<lambda>acc p. case f p of None \<Rightarrow> acc | Some v \<Rightarrow> Some v) None ps"

definition InheritedDenials :: "State \<Rightarrow> string list" where
  "InheritedDenials s =
     (let submit = last_set (\<lambda>p. jo_Submit (o_Jobs p)) (st_Overrides s);
          create = last_set (\<lambda>p. co_Create (o_Cells p)) (st_Overrides s);
          secrets = last_set (\<lambda>p. map_option (\<lambda>ns. length (names_of ns) > 0) (so_Resolve (o_Secrets p))) (st_Overrides s)
      in map (\<lambda>f. ''perms.jobdb.'' @ fst f)
           (filter (\<lambda>f. snd f = Some False)
              [(''jobs.submit'', submit), (''cells.create'', create), (''secrets.resolve'', secrets)]))"

section \<open>Facts about the operations\<close>

lemma override_list_ok [ok_iff]:
  "override_list fd p old new = Inr g \<longleftrightarrow>
     p = None \<and> g = old \<or> (\<exists>ns. p = Some (Some ns) \<and> g = new ns)"
  by (auto simp: override_list_def split: option.splits)

lemma opt_check_ok [ok_iff]: "opt_check f p = Inr u \<longleftrightarrow> (\<forall>x. p = Some x \<longrightarrow> f x = Inr ())"
  by (cases p) (auto simp: opt_check_def)

text \<open>What a resolved grant satisfies: it is valid and inside the limit.\<close>

lemma Resolve_ok:
  assumes "Resolve vc s git = Inr g"
  shows "JobDB_Validate vc g = Inr ()"
    and "st_Version s = policy_version"
    and "st_Limit s = Some l \<Longrightarrow> JobDB_Validate vc l = Inr () \<and> subset_grant g l"
  using assms by (auto simp: Resolve_def Let_def ok_iff split: option.splits if_splits)

text \<open>The requests a limit leaves open; no limit leaves all open.\<close>

definition limit_permits :: "JobDB option \<Rightarrow> request \<Rightarrow> bool" where
  "limit_permits l r = (case l of None \<Rightarrow> True | Some g \<Rightarrow> grant_permits g r)"

lemma limit_permits_simps [simp]:
  "limit_permits None r" "limit_permits (Some g) r = grant_permits g r"
  by (simp_all add: limit_permits_def)

lemma limit_permits_narrow [simp]:
  "limit_permits (narrow_limit old c) r \<longleftrightarrow> limit_permits old r \<and> grant_permits c r"
  by (auto simp: narrow_limit_def permits_intersect split: option.splits)

lemma Resolve_within:
  assumes "Resolve vc s git = Inr g" "grant_permits g r"
  shows "limit_permits (st_Limit s) r"
proof (cases "st_Limit s")
  case (Some l)
  have "names_nonempty g" using Resolve_ok(1) [OF assms(1)] by (rule Validate_names_nonempty)
  moreover have "subset_grant g l" using Resolve_ok(3) [OF assms(1) Some] by simp
  ultimately show ?thesis using assms(2) Some by (simp add: grants.below_iff)
qed simp

lemma node_state_limit:
  "limit_permits (st_Limit (node_state s spec)) r \<longleftrightarrow>
     limit_permits (st_Limit s) r \<and> limit_permits (Option.bind spec limit_of) r"
  by (auto simp: node_state_def Let_def split: option.splits if_splits)

lemma node_state_inputs [simp]: "st_Inputs (node_state s spec) = st_Inputs s"
  by (auto simp: node_state_def Let_def split: option.splits if_splits)

lemma node_state_grant:
  assumes "Option.bind spec spec_JobDB = None"
  shows "st_Grant (node_state s spec) = st_Grant s"
    and "st_Overrides (node_state s spec) = st_Overrides s @ (case Option.bind spec spec_Overrides of
           None \<Rightarrow> [] | Some p \<Rightarrow> if Overrides_empty p then [] else [p])"
  using assms by (auto simp: node_state_def Let_def split: option.splits if_splits)

lemma Enter_node_ok [ok_iff]:
  "Enter_node vc s spec = Inr s' \<longleftrightarrow>
     Spec_Validate vc spec = Inr () \<and> s' = node_state (s\<lparr>st_Version := policy_version\<rparr>) spec \<and>
     (\<exists>g. Resolve vc s' [] = Inr g)"
  by (auto simp: Enter_node_def Let_def ok_iff)

lemma ceilings_permits:
  "limit_permits (foldl (\<lambda>l c. case c of None \<Rightarrow> l | Some c \<Rightarrow> narrow_limit l c) old cs) r \<longleftrightarrow>
     limit_permits old r \<and> (\<forall>c \<in> set cs. limit_permits c r)"
  by (induction cs arbitrary: old) (auto split: option.splits)

lemma include_state_limit:
  "limit_permits (st_Limit (include_state s spec boundary input)) r \<longleftrightarrow>
     limit_permits (st_Limit s) r \<and> limit_permits (Option.bind spec spec_JobDB) r \<and>
     limit_permits (Option.bind spec limit_of) r"
proof (cases spec)
  case None
  then show ?thesis by (simp add: include_state_def Let_def callsite_ceilings_def)
next
  case (Some p)
  then show ?thesis
    by (cases "spec_Limit p")
      (auto simp: include_state_def Let_def callsite_ceilings_def limit_of_def split: option.splits)
qed

lemma include_state_inputs [simp]: "st_Inputs (include_state s spec boundary input) = Some input"
  by (simp add: include_state_def Let_def)

lemma callee_edit_simps [simp]:
  "Option.bind (callee_edit spec) spec_JobDB = None"
  "Option.bind (callee_edit spec) limit_of = None"
  "Option.bind (callee_edit spec) spec_Overrides = Option.bind spec spec_Overrides"
  by (cases spec; simp add: callee_edit_def limit_of_def)+

lemma inherited_input_simps [simp]:
  "Foreign (inherited_input s boundary trusted) = (\<not> trusted)"
  "Allowed (inherited_input s boundary trusted) =
     (case st_Inputs s of None \<Rightarrow> [] | Some i \<Rightarrow> if boundary then [] else Allowed i)"
  by (auto simp: inherited_input_def Let_def split: option.splits)

lemma EnterInclude_ok:
  assumes "EnterInclude vc s spec boundary trusted = Inr s'"
  obtains input where
    "ValidateInclude vc spec boundary = Inr ()"
    "Foreign input = (\<not> trusted)"
    "Allowed input = (case st_Inputs s of None \<Rightarrow> [] | Some i \<Rightarrow> if boundary then [] else Allowed i) @
        (case Option.bind spec spec_JobDB of None \<Rightarrow> [] | Some g \<Rightarrow> sp_Resolve (Secrets g))"
    "\<And>g n. Option.bind spec spec_JobDB = Some g \<Longrightarrow> n \<in> set (sp_Resolve (Secrets g)) \<Longrightarrow> CheckInput s n = Inr ()"
    "\<And>p ns n. Option.bind spec spec_Overrides = Some p \<Longrightarrow> so_Resolve (o_Secrets p) = Some ns \<Longrightarrow>
        n \<in> set (names_of ns) \<Longrightarrow> CheckInput s n = Inr ()"
    "Enter_node vc (include_state s spec boundary input) (callee_edit spec) = Inr s'"
proof -
  obtain input where V: "ValidateInclude vc spec boundary = Inr ()"
    and I: "(case Option.bind spec spec_JobDB of
         None \<Rightarrow> Inr (inherited_input s boundary trusted)
       | Some g \<Rightarrow> bindE (forE (CheckInput s) (sp_Resolve (Secrets g))) (\<lambda>_.
           Inr ((inherited_input s boundary trusted)\<lparr>Allowed :=
             Allowed (inherited_input s boundary trusted) @ sp_Resolve (Secrets g)\<rparr>))) = Inr input"
    and O: "(case Option.bind (Option.bind spec spec_Overrides) (\<lambda>o'. so_Resolve (o_Secrets o')) of
         None \<Rightarrow> Inr ()
       | Some ns \<Rightarrow> forE (CheckInput s) (names_of ns)) = Inr ()"
    and E: "Enter_node vc (include_state s spec boundary input) (callee_edit spec) = Inr s'"
    using assms unfolding EnterInclude_def Let_def bindE_ok by (elim exE conjE) (rule that; simp)
  have "Foreign input = (\<not> trusted) \<and>
      Allowed input = (case st_Inputs s of None \<Rightarrow> [] | Some i \<Rightarrow> if boundary then [] else Allowed i) @
        (case Option.bind spec spec_JobDB of None \<Rightarrow> [] | Some g \<Rightarrow> sp_Resolve (Secrets g)) \<and>
      (\<forall>g. Option.bind spec spec_JobDB = Some g \<longrightarrow>
        (\<forall>n \<in> set (sp_Resolve (Secrets g)). CheckInput s n = Inr ()))"
    using I by (cases "Option.bind spec spec_JobDB") (auto simp: ok_iff)
  moreover have "CheckInput s n = Inr ()"
    if "Option.bind spec spec_Overrides = Some p" "so_Resolve (o_Secrets p) = Some ns"
      "n \<in> set (names_of ns)" for p ns n
    using O that by (simp add: forE_ok)
  ultimately show thesis using V E by (intro that [of input]) auto
qed

end
