(* ===== verification/Perms_Policy.thy ===== *)
theory Perms_Policy
  imports Perms_State
begin

text \<open>
  Runs of the permission policy. A recipe is entered node by node and include by include;
  \<open>policy_step\<close> is one entry, \<open>runE (policy_step vc)\<close> a path from the root to a task.
  The two locales of the prelude are interpreted here: the limit only narrows
  (\<open>narrowing\<close>), and a state that resolves keeps resolving (\<open>resolvable\<close>).
\<close>

section \<open>Entries\<close>

datatype policy_entry =
    NodeEntry "Spec option"
  | IncludeEntry "Spec option" bool bool

fun policy_step :: "(string \<Rightarrow> bool) \<Rightarrow> State \<Rightarrow> policy_entry \<Rightarrow> perm_error + State" where
  "policy_step vc s (NodeEntry spec) = Enter vc s spec False"
| "policy_step vc s (IncludeEntry spec boundary trusted) = EnterInclude vc s spec boundary trusted"

text \<open>The ceilings an entry declares: a node its limit, an include its grant too.\<close>

fun entry_ceilings :: "policy_entry \<Rightarrow> JobDB option list" where
  "entry_ceilings (NodeEntry spec) = [Option.bind spec limit_of]"
| "entry_ceilings (IncludeEntry spec boundary trusted) =
     [Option.bind spec spec_JobDB, Option.bind spec limit_of]"

lemma policy_step_limit:
  assumes "policy_step vc s e = Inr t"
  shows "limit_permits (st_Limit t) r \<longleftrightarrow>
    limit_permits (st_Limit s) r \<and> (\<forall>c \<in> set (entry_ceilings e). limit_permits c r)"
proof (cases e)
  case (NodeEntry spec)
  with assms show ?thesis by (auto simp: Enter_def Enter_node_ok node_state_limit)
next
  case (IncludeEntry spec boundary trusted)
  with assms have "EnterInclude vc s spec boundary trusted = Inr t" by simp
  then obtain input where
    "Enter_node vc (include_state s spec boundary input) (callee_edit spec) = Inr t"
    by (rule EnterInclude_ok)
  then show ?thesis
    using IncludeEntry by (auto simp: Enter_node_ok node_state_limit include_state_limit)
qed

lemma policy_step_resolves:
  assumes "policy_step vc s e = Inr t"
  shows "\<exists>g. Resolve vc t [] = Inr g"
proof (cases e)
  case (NodeEntry spec)
  with assms show ?thesis by (auto simp: Enter_def Enter_node_ok)
next
  case (IncludeEntry spec boundary trusted)
  with assms have "EnterInclude vc s spec boundary trusted = Inr t" by simp
  then obtain input where
    "Enter_node vc (include_state s spec boundary input) (callee_edit spec) = Inr t"
    by (rule EnterInclude_ok)
  then show ?thesis by (auto simp: Enter_node_ok)
qed

interpretation narrowing: forward_steps "policy_step vc"
    "\<lambda>s t. \<forall>r. limit_permits (st_Limit t) r \<longrightarrow> limit_permits (st_Limit s) r" for vc
  by unfold_locales (auto simp: policy_step_limit)

interpretation resolvable: invariant_steps "policy_step vc" "\<lambda>s. is_ok (Resolve vc s [])" for vc
  by unfold_locales (auto simp: is_ok_iff dest: policy_step_resolves)

lemma run_ceilings:
  assumes "runE (policy_step vc) s es = Inr t" "limit_permits (st_Limit t) r"
  shows "limit_permits (st_Limit s) r \<and>
    (\<forall>e \<in> set es. \<forall>c \<in> set (entry_ceilings e). limit_permits c r)"
  using assms
proof (induction es arbitrary: s)
  case (Cons e es)
  then obtain u where u: "policy_step vc s e = Inr u" "runE (policy_step vc) u es = Inr t"
    by (auto simp: ok_iff)
  show ?case
    using Cons.IH [OF u(2) Cons.prems(2)] policy_step_limit [OF u(1), of r] by auto
qed simp

section \<open>Grants\<close>

text \<open>Narrowing two grants permits exactly the requests both permit.\<close>

theorem intersect_permits: "grant_permits (intersect a b) r = (grant_permits a r \<and> grant_permits b r)"
  by (rule grants.permits_meet)

text \<open>C4. For valid grants, the code's subset test decides inclusion of permitted requests, and
  the narrowed grant is the greatest valid grant below both.\<close>

theorem subset_decides_inclusion:
  assumes "JobDB_Validate vc a = Inr ()" "JobDB_Validate vc b = Inr ()" "JobDB_Validate vc c = Inr ()"
  shows "(subset_grant a b = (\<forall>r. grant_permits a r \<longrightarrow> grant_permits b r)) \<and>
    JobDB_Validate vc (intersect a b) = Inr () \<and>
    (subset_grant c (intersect a b) = (subset_grant c a \<and> subset_grant c b))"
proof -
  have "names_nonempty a" "names_nonempty c" using assms by (blast intro: Validate_names_nonempty)+
  then show ?thesis
    using assms by (simp add: grants.below_iff Validate_intersect grants.meet_greatest permits_intersect) blast
qed

definition ex_grant :: "string list \<Rightarrow> JobDB" where
  "ex_grant ns = \<lparr>Secrets = \<lparr>sp_Resolve = ns\<rparr>, Jobs = \<lparr>jp_CellNames = None, jp_Submit = True\<rparr>,
     Cells = \<lparr>cp_Create = True, cp_CellNames = Some [''build'']\<rparr>\<rparr>"

lemma ex_grant_valid: "JobDB_Validate (\<lambda>_. True) (ex_grant [''K'', ''T'']) = Inr ()"
  by (simp add: JobDB_Validate_def ex_grant_def secretName_def letter_char_def)

theorem subset_decides_inclusion_witness:
  "subset_grant (ex_grant [''K'', ''T'']) (intersect (ex_grant [''K'', ''T'']) (ex_grant [''K'', ''T'']))"
proof -
  have "subset_grant (ex_grant [''K'', ''T'']) (ex_grant [''K'', ''T''])"
    by (simp add: ex_grant_def subset_grant_def names_of_def)
  then show ?thesis
    using subset_decides_inclusion [OF ex_grant_valid ex_grant_valid ex_grant_valid] by blast
qed

section \<open>No escalation\<close>

text \<open>C1. No sequence of node and include entries, however the recipes along it are written,
  yields a grant that permits a request outside the starting limit or outside any ceiling
  declared on the way.\<close>

theorem no_escalation:
  assumes "runE (policy_step vc) s es = Inr t" "Resolve vc t git = Inr g" "grant_permits g r"
  shows "limit_permits (st_Limit s) r \<and>
    (\<forall>e \<in> set es. \<forall>c \<in> set (entry_ceilings e). limit_permits c r)"
  using run_ceilings [OF assms(1)] Resolve_within [OF assms(2,3)] by blast

definition ex_policy :: State where
  "ex_policy = empty_state\<lparr>st_Limit := Some (ex_grant [''K'', ''T''])\<rparr>"

definition ex_spec :: "Spec" where
  "ex_spec = \<lparr>spec_JobDB = Some (ex_grant [''K'']), spec_Limit = None, spec_Inherit = False, spec_Overrides = None\<rparr>"

lemmas perms_eval = ex_grant_def ex_policy_def ex_spec_def empty_state_def empty_grant_def policy_version_def
  Enter_def Enter_node_def node_state_def Spec_Validate_def limit_of_def opt_check_def Overrides_clone_def
  JobDB_Validate_def secretName_def letter_char_def Resolve_def sort_compact_def subset_grant_def
  names_of_def narrow_limit_def intersect_def intersect_names_def Overrides_empty_def
  EnterInclude_def ValidateInclude_def include_state_def inherited_input_def callsite_ceilings_def
  callee_edit_def CheckInput_def last_secret_override_def Overrides_apply_def override_list_def set_submit_def set_create_def
  Overrides_Validate_def Let_def

theorem no_escalation_witness:
  "limit_permits (st_Limit ex_policy) (ResolveSecret ''K'')"
proof -
  let ?e = "[NodeEntry (Some ex_spec)]"
  have run: "runE (policy_step (\<lambda>_. True)) ex_policy ?e =
      Inr (ex_policy\<lparr>st_Version := 1, st_Grant := Some (ex_grant [''K''])\<rparr>)"
    by (simp add: perms_eval)
  have res: "Resolve (\<lambda>_. True) (ex_policy\<lparr>st_Version := 1, st_Grant := Some (ex_grant [''K''])\<rparr>) [] =
      Inr (ex_grant [''K''])"
    by (simp add: perms_eval)
  show ?thesis
    using no_escalation [OF run res, of "ResolveSecret ''K''"] by (simp add: ex_grant_def)
qed

text \<open>Whatever was entered last, the state resolves (for tasks without Git secrets), the
  resolved grant is valid, and it is inside the state's limit.\<close>

theorem entered_state_resolves:
  assumes "es \<noteq> []" "runE (policy_step vc) s es = Inr t"
  shows "\<exists>g. Resolve vc t [] = Inr g \<and> JobDB_Validate vc g = Inr () \<and>
    (case st_Limit t of None \<Rightarrow> True | Some l \<Rightarrow> subset_grant g l)"
proof -
  obtain as e where es: "es = as @ [e]" using assms(1) by (cases es rule: rev_cases) auto
  then obtain u where "policy_step vc u e = Inr t"
    using assms(2) by (auto simp: runE_append ok_iff)
  from policy_step_resolves [OF this] obtain g where "Resolve vc t [] = Inr g" by blast
  then show ?thesis
    using Resolve_ok [OF \<open>Resolve vc t [] = Inr g\<close>] by (auto split: option.splits)
qed

theorem entered_state_resolves_witness:
  "\<exists>g. Resolve (\<lambda>_. True) (ex_policy\<lparr>st_Version := 1, st_Grant := Some (ex_grant [''K''])\<rparr>) [] = Inr g"
proof -
  have "runE (policy_step (\<lambda>_. True)) ex_policy [NodeEntry (Some ex_spec)] =
      Inr (ex_policy\<lparr>st_Version := 1, st_Grant := Some (ex_grant [''K''])\<rparr>)"
    by (simp add: perms_eval)
  from entered_state_resolves [OF _ this] show ?thesis by blast
qed

section \<open>Inputs entrusted to an include\<close>

lemma CheckInput_ok:
  "CheckInput s n = Inr () \<longleftrightarrow> n = [] \<or>
     limit_permits (st_Limit s) (ResolveSecret n) \<and>
     ((\<exists>i. st_Inputs s = Some i \<and> (\<not> Foreign i \<or> n \<in> set (Allowed i))) \<or>
      n \<in> set (last_secret_override
        (case st_Grant s of None \<Rightarrow> [] | Some g \<Rightarrow> sp_Resolve (Secrets g)) (st_Overrides s)))"
  by (auto simp: CheckInput_def Let_def limit_permits_def split: option.splits)

lemma last_secret_override_append [simp]:
  "last_secret_override x (ps @ [p]) =
     (case so_Resolve (o_Secrets p) of None \<Rightarrow> last_secret_override x ps | Some ns \<Rightarrow> names_of ns)"
  by (simp add: last_secret_override_def split: option.split)

lemma last_secret_override_Nil [simp]: "last_secret_override x [] = x"
  by (simp add: last_secret_override_def)

lemma last_secret_override_single [simp]:
  "last_secret_override x [p] = (case so_Resolve (o_Secrets p) of None \<Rightarrow> x | Some ns \<Rightarrow> names_of ns)"
  by (simp add: last_secret_override_def)

lemma include_state_sources:
  "st_Grant (include_state s spec boundary input) =
     (if boundary \<or> Option.bind spec spec_JobDB \<noteq> None then None else st_Grant s)"
  "st_Overrides (include_state s spec boundary input) =
     (if boundary \<or> Option.bind spec spec_JobDB \<noteq> None then [] else st_Overrides s)"
  by (simp_all add: include_state_def Let_def)

definition grant_names :: "JobDB option \<Rightarrow> string list" where
  "grant_names g = (case g of None \<Rightarrow> [] | Some g \<Rightarrow> sp_Resolve (Secrets g))"

text \<open>The names the callee may still draw on after the entry: what its own overrides list, or
  else what the state kept for it.\<close>

lemma include_explicit:
  assumes "Enter_node vc (include_state s spec boundary input) (callee_edit spec) = Inr s'"
    and "n \<in> set (last_secret_override (grant_names (st_Grant s')) (st_Overrides s'))"
  shows "(\<exists>p ns. Option.bind spec spec_Overrides = Some p \<and> so_Resolve (o_Secrets p) = Some ns \<and>
            n \<in> set (names_of ns)) \<or>
         n \<in> set (last_secret_override (grant_names (st_Grant s)) (st_Overrides s))"
proof -
  let ?m = "include_state s spec boundary input\<lparr>st_Version := policy_version\<rparr>"
  have s': "s' = node_state ?m (callee_edit spec)" using assms(1) by (simp add: Enter_node_ok)
  have G: "st_Grant s' = st_Grant ?m"
    and O: "st_Overrides s' = st_Overrides ?m @ (case Option.bind spec spec_Overrides of
           None \<Rightarrow> [] | Some p \<Rightarrow> if Overrides_empty p then [] else [p])"
    unfolding s' using node_state_grant [of "callee_edit spec"] by auto
  show ?thesis
    using assms(2) unfolding G O
    by (auto simp: include_state_sources grant_names_def split: option.splits if_splits) (metis+)
qed

lemma CheckInput_ok':
  "CheckInput s n = Inr () \<longleftrightarrow> n = [] \<or>
     limit_permits (st_Limit s) (ResolveSecret n) \<and>
     ((\<exists>i. st_Inputs s = Some i \<and> (\<not> Foreign i \<or> n \<in> set (Allowed i))) \<or>
      n \<in> set (last_secret_override (grant_names (st_Grant s)) (st_Overrides s)))"
  by (simp add: CheckInput_ok grant_names_def)

lemma include_limit:
  assumes "Enter_node vc (include_state s spec boundary input) (callee_edit spec) = Inr s'"
  shows "limit_permits (st_Limit s') r \<longleftrightarrow> limit_permits (st_Limit s) r \<and>
    limit_permits (Option.bind spec spec_JobDB) r \<and> limit_permits (Option.bind spec limit_of) r"
  using assms by (auto simp: Enter_node_ok node_state_limit include_state_limit)

lemma include_inputs:
  assumes "Enter_node vc (include_state s spec boundary input) (callee_edit spec) = Inr s'"
  shows "st_Inputs s' = Some input"
  using assms by (auto simp: Enter_node_ok)

text \<open>An untrusted include (another repository, or an origin that cannot be identified) never
  widens input authority: an input secret the included recipe may materialize at its entry is one
  the including recipe could materialize at the callsite.\<close>

theorem foreign_inputs_entrusted:
  assumes "EnterInclude vc s spec boundary False = Inr s'" "CheckInput s' n = Inr ()"
  shows "CheckInput s n = Inr ()"
  using assms(1)
proof (rule EnterInclude_ok)
  fix input
  assume F: "Foreign input = (\<not> False)"
    and A: "Allowed input = (case st_Inputs s of None \<Rightarrow> [] | Some i \<Rightarrow> if boundary then [] else Allowed i) @
        (case Option.bind spec spec_JobDB of None \<Rightarrow> [] | Some g \<Rightarrow> sp_Resolve (Secrets g))"
    and G: "\<And>g n. Option.bind spec spec_JobDB = Some g \<Longrightarrow> n \<in> set (sp_Resolve (Secrets g)) \<Longrightarrow>
        CheckInput s n = Inr ()"
    and O: "\<And>p ns n. Option.bind spec spec_Overrides = Some p \<Longrightarrow> so_Resolve (o_Secrets p) = Some ns \<Longrightarrow>
        n \<in> set (names_of ns) \<Longrightarrow> CheckInput s n = Inr ()"
    and E: "Enter_node vc (include_state s spec boundary input) (callee_edit spec) = Inr s'"
  have L: "n = [] \<or> limit_permits (st_Limit s) (ResolveSecret n)"
    using assms(2) by (auto simp: CheckInput_ok' include_limit [OF E])
  consider "n = []" | "n \<in> set (Allowed input)"
    | "n \<in> set (last_secret_override (grant_names (st_Grant s')) (st_Overrides s'))"
    using assms(2) F by (auto simp: CheckInput_ok' include_inputs [OF E])
  then show "CheckInput s n = Inr ()"
  proof cases
    case 2
    then show ?thesis
      using A G L by (auto simp: CheckInput_ok' split: option.splits if_splits)
  next
    case 3
    from include_explicit [OF E this] show ?thesis
      using O L by (auto simp: CheckInput_ok')
  qed (simp add: CheckInput_ok)
qed

theorem foreign_inputs_entrusted_witness:
  "\<exists>s'. EnterInclude (\<lambda>_. True) (ex_policy\<lparr>st_Inputs := Some \<lparr>RootRepository = [], Foreign = False, Allowed = []\<rparr>\<rparr>)
      (Some ex_spec) True False = Inr s' \<and> CheckInput s' ''K'' = Inr () \<and>
    CheckInput (ex_policy\<lparr>st_Inputs := Some \<lparr>RootRepository = [], Foreign = False, Allowed = []\<rparr>\<rparr>) ''K'' = Inr ()"
proof -
  let ?s = "ex_policy\<lparr>st_Inputs := Some \<lparr>RootRepository = [], Foreign = False, Allowed = []\<rparr>\<rparr>"
  let ?t = "ex_policy\<lparr>st_Version := 1, st_Limit := Some (ex_grant [''K'']),
    st_Inputs := Some \<lparr>RootRepository = [], Foreign = True, Allowed = [''K'']\<rparr>\<rparr>"
  have e: "EnterInclude (\<lambda>_. True) ?s (Some ex_spec) True False = Inr ?t"
    by (simp add: perms_eval)
  have c: "CheckInput ?t ''K'' = Inr ()"
    by (simp add: perms_eval)
  show ?thesis using foreign_inputs_entrusted [OF e c] e c by blast
qed

section \<open>Denials\<close>

lemma last_set_append [simp]:
  "last_set f (ps @ [p]) = (case f p of None \<Rightarrow> last_set f ps | Some v \<Rightarrow> Some v)"
  by (simp add: last_set_def split: option.splits)

lemma last_set_Nil [simp]: "last_set f [] = None"
  by (simp add: last_set_def)

lemma apply_overrides_append:
  "apply_overrides vc (ps @ qs) g = bindE (apply_overrides vc ps g) (apply_overrides vc qs)"
  by (induction ps arbitrary: g) (simp_all add: bindE_assoc cong: bindE_cong)

text \<open>How one override changes the three actions it can deny.\<close>

lemma Overrides_apply_actions:
  assumes "Overrides_apply p g = Inr h"
  shows "jp_Submit (Jobs h) = (case jo_Submit (o_Jobs p) of None \<Rightarrow> jp_Submit (Jobs g) | Some b \<Rightarrow> b)"
    and "cp_Create (Cells h) = (case co_Create (o_Cells p) of None \<Rightarrow> cp_Create (Cells g) | Some b \<Rightarrow> b)"
    and "sp_Resolve (Secrets h) = (case so_Resolve (o_Secrets p) of
           None \<Rightarrow> sp_Resolve (Secrets g) | Some ns \<Rightarrow> names_of ns)"
proof -
  obtain g1 g2 where
    1: "override_list ''secrets.resolve'' (so_Resolve (o_Secrets p)) g
          (\<lambda>ns. g\<lparr>Secrets := (Secrets g)\<lparr>sp_Resolve := ns\<rparr>\<rparr>) = Inr g1" and
    2: "override_list ''jobs.cellNames'' (jo_CellNames (o_Jobs p)) (set_submit (jo_Submit (o_Jobs p)) g1)
          (\<lambda>ns. (set_submit (jo_Submit (o_Jobs p)) g1)\<lparr>Jobs :=
             (Jobs (set_submit (jo_Submit (o_Jobs p)) g1))\<lparr>jp_CellNames := Some ns\<rparr>\<rparr>) = Inr g2" and
    3: "override_list ''cells.cellNames'' (co_CellNames (o_Cells p)) (set_create (co_Create (o_Cells p)) g2)
          (\<lambda>ns. (set_create (co_Create (o_Cells p)) g2)\<lparr>Cells :=
             (Cells (set_create (co_Create (o_Cells p)) g2))\<lparr>cp_CellNames := Some ns\<rparr>\<rparr>) = Inr h"
    using assms unfolding Overrides_apply_def Let_def bindE_ok JobDB_clone_id by blast
  have G1: "Jobs g1 = Jobs g" "Cells g1 = Cells g"
    "sp_Resolve (Secrets g1) = (case so_Resolve (o_Secrets p) of
       None \<Rightarrow> sp_Resolve (Secrets g) | Some ns \<Rightarrow> names_of ns)"
    using 1 unfolding override_list_ok by (auto simp: names_of_def)
  have G2: "Secrets g2 = Secrets g1" "Cells g2 = Cells g1"
    "jp_Submit (Jobs g2) = (case jo_Submit (o_Jobs p) of None \<Rightarrow> jp_Submit (Jobs g1) | Some b \<Rightarrow> b)"
    using 2 unfolding override_list_ok by auto
  have H: "Secrets h = Secrets g2" "Jobs h = Jobs g2"
    "cp_Create (Cells h) = (case co_Create (o_Cells p) of None \<Rightarrow> cp_Create (Cells g2) | Some b \<Rightarrow> b)"
    using 3 unfolding override_list_ok by auto
  show "jp_Submit (Jobs h) = (case jo_Submit (o_Jobs p) of None \<Rightarrow> jp_Submit (Jobs g) | Some b \<Rightarrow> b)"
    and "cp_Create (Cells h) = (case co_Create (o_Cells p) of None \<Rightarrow> cp_Create (Cells g) | Some b \<Rightarrow> b)"
    and "sp_Resolve (Secrets h) = (case so_Resolve (o_Secrets p) of
           None \<Rightarrow> sp_Resolve (Secrets g) | Some ns \<Rightarrow> names_of ns)"
    by (simp_all add: G1 G2 H split: option.split)
qed

lemma apply_overrides_denials:
  assumes "apply_overrides vc ps g = Inr h"
  shows "(last_set (\<lambda>p. jo_Submit (o_Jobs p)) ps = Some False \<longrightarrow> \<not> jp_Submit (Jobs h)) \<and>
    (last_set (\<lambda>p. co_Create (o_Cells p)) ps = Some False \<longrightarrow> \<not> cp_Create (Cells h)) \<and>
    (last_set (\<lambda>p. map_option (\<lambda>ns. length (names_of ns) > 0) (so_Resolve (o_Secrets p))) ps = Some False
      \<longrightarrow> sp_Resolve (Secrets h) = [])"
  using assms
proof (induction ps arbitrary: h rule: rev_induct)
  case (snoc p ps)
  then obtain k where k: "apply_overrides vc ps g = Inr k" "Overrides_apply p k = Inr h"
    by (auto simp: apply_overrides_append bindE_ok)
  show ?case
    using snoc.IH [OF k(1)] Overrides_apply_actions [OF k(2)]
    by (simp split: option.split)
qed simp

lemma Resolve_overrides:
  assumes "Resolve vc s git = Inr g"
  obtains g0 where "apply_overrides vc (st_Overrides s) g0 = Inr g"
  using assms by (auto simp: Resolve_def Let_def ok_iff split: option.splits if_splits)

definition denied_requests :: "string \<Rightarrow> request set" where
  "denied_requests field =
     (if field = ''perms.jobdb.jobs.submit'' then range SubmitTo
      else if field = ''perms.jobdb.cells.create'' then range CreateCell
      else if field = ''perms.jobdb.secrets.resolve'' then range ResolveSecret else {})"

text \<open>A field reported as an inherited denial really disables its capability: the grant the
  state resolves to permits no request of that kind.\<close>

theorem denials_hold:
  assumes "Resolve vc s git = Inr g" "field \<in> set (InheritedDenials s)" "r \<in> denied_requests field"
  shows "\<not> grant_permits g r"
proof -
  obtain g0 where "apply_overrides vc (st_Overrides s) g0 = Inr g"
    using assms(1) by (rule Resolve_overrides)
  note D = apply_overrides_denials [OF this]
  show ?thesis
    using assms(2,3) D by (auto simp: InheritedDenials_def Let_def denied_requests_def split: if_splits)
qed

definition deny_submit :: JobDBOverrides where
  "deny_submit = \<lparr>o_Secrets = \<lparr>so_Resolve = None\<rparr>,
     o_Jobs = \<lparr>jo_Submit = Some False, jo_CellNames = None\<rparr>,
     o_Cells = \<lparr>co_Create = None, co_CellNames = None\<rparr>\<rparr>"

theorem denials_hold_witness:
  "\<not> grant_permits empty_grant (SubmitTo ''c'')"
proof -
  let ?s = "empty_state\<lparr>st_Version := 1, st_Overrides := [deny_submit]\<rparr>"
  have r: "Resolve (\<lambda>_. True) ?s [] = Inr empty_grant"
    by (simp add: perms_eval deny_submit_def)
  have d: "''perms.jobdb.jobs.submit'' \<in> set (InheritedDenials ?s)"
    by (simp add: InheritedDenials_def last_set_def deny_submit_def empty_state_def)
  show ?thesis
    by (rule denials_hold [OF r d]) (simp add: denied_requests_def)
qed

section \<open>Defaults\<close>

text \<open>A state that declares no grant and no overrides resolves, for valid Git secrets and a
  valid limit, to exactly the defaults inside the limit: the Git secrets and unrestricted submission,
  and never cell creation.\<close>

theorem default_grant:
  assumes "st_Version s = policy_version" "st_Grant s = None" "st_Overrides s = []"
    and "\<forall>n \<in> set git. secretName n" "length (sort_compact git) \<le> 256"
    and "\<And>l. st_Limit s = Some l \<Longrightarrow> JobDB_Validate vc l = Inr ()"
  shows "\<exists>g. Resolve vc s git = Inr g \<and>
    (\<forall>r. grant_permits g r \<longleftrightarrow> limit_permits (st_Limit s) r \<and>
       (case r of ResolveSecret n \<Rightarrow> n \<in> set git | SubmitTo c \<Rightarrow> True | CreateCell c \<Rightarrow> False))"
proof -
  let ?d = "empty_grant\<lparr>Secrets := \<lparr>sp_Resolve = sort_compact git\<rparr>,
              Jobs := \<lparr>jp_CellNames = None, jp_Submit = True\<rparr>\<rparr>"
  have V: "JobDB_Validate vc ?d = Inr ()"
    using assms(4,5) sorted_sort_compact(2) by (auto simp: JobDB_Validate_ok empty_grant_def)
  have P: "grant_permits ?d r \<longleftrightarrow>
      (case r of ResolveSecret n \<Rightarrow> n \<in> set git | SubmitTo c \<Rightarrow> True | CreateCell c \<Rightarrow> False)" for r
    by (cases r) (auto simp: empty_grant_def name_allowed_def)
  show ?thesis
  proof (cases "st_Limit s")
    case None
    then have "Resolve vc s git = Inr ?d" using assms V by (simp add: Resolve_def Let_def empty_grant_def)
    with None P show ?thesis by auto
  next
    case (Some l)
    let ?g = "intersect ?d l"
    have Vl: "JobDB_Validate vc l = Inr ()" using assms(6) Some by blast
    have Vg: "JobDB_Validate vc ?g = Inr ()" by (rule Validate_intersect [OF V Vl])
    have "subset_grant ?g l"
      using Vg Vl V grants.meet_below Validate_names_nonempty by blast
    then have "Resolve vc s git = Inr ?g" using assms V Vl Vg Some by (simp add: Resolve_def Let_def empty_grant_def)
    with Some P show ?thesis by (auto simp: permits_intersect)
  qed
qed

theorem default_grant_witness:
  "\<exists>g. Resolve (\<lambda>_. True) (ex_policy\<lparr>st_Version := 1\<rparr>) [''K'', ''A''] = Inr g"
proof -
  have "\<exists>g. Resolve (\<lambda>_. True) (ex_policy\<lparr>st_Version := 1\<rparr>) [''K'', ''A''] = Inr g \<and>
    (\<forall>r. grant_permits g r \<longleftrightarrow> limit_permits (st_Limit (ex_policy\<lparr>st_Version := 1\<rparr>)) r \<and>
       (case r of ResolveSecret n \<Rightarrow> n \<in> set [''K'', ''A''] | SubmitTo c \<Rightarrow> True | CreateCell c \<Rightarrow> False))"
    by (rule default_grant) (simp_all add: perms_eval)
  then show ?thesis by blast
qed

end
