(* ===== verification/Perms_Access.thy ===== *)
theory Perms_Access
  imports Perms_Grant
begin

text \<open>
  The use of a grant, \<^verbatim>\<open>pkg/permissions/{access,issuer}.go\<close>, and the strict reading
  of the permission subtree, \<open>validateYAML\<close> of \<^verbatim>\<open>policy.go\<close>.

  A Go context is the time its cancellation happens and its deadline, both optional;
  \<open>ctx_Err\<close> reads it at a time. The callbacks of an \<open>Access\<close> belong to the controller and
  are parameters; each operation returns the callback it made, if any, with its result, so that
  what is checked before a callback is visible. The other fields of
  \<^verbatim>\<open>jobdb.SecretResolveResult\<close> pass through unchanged and are left out. The JobDB
  client is a parameter of the issuer.
\<close>

section \<open>Contexts\<close>

record ctx =
  cx_cancel :: "nat option"
  cx_deadline :: "nat option"

datatype ctx_err = Canceled | DeadlineExceeded

definition reached :: "nat option \<Rightarrow> nat \<Rightarrow> bool" where
  "reached t now = (case t of None \<Rightarrow> False | Some t \<Rightarrow> t \<le> now)"

definition min_opt :: "nat option \<Rightarrow> nat option \<Rightarrow> nat option" where
  "min_opt a b = (case a of None \<Rightarrow> b | Some x \<Rightarrow> (case b of None \<Rightarrow> Some x | Some y \<Rightarrow> Some (min x y)))"

text \<open>The error is fixed by whichever came first.\<close>

definition ctx_Err :: "ctx \<Rightarrow> nat \<Rightarrow> ctx_err option" where
  "ctx_Err c now =
     (if reached (cx_cancel c) now \<and>
         (case cx_deadline c of None \<Rightarrow> True | Some d \<Rightarrow> the (cx_cancel c) \<le> d) then Some Canceled
      else if reached (cx_deadline c) now then Some DeadlineExceeded
      else if reached (cx_cancel c) now then Some Canceled else None)"

definition with_deadline :: "ctx \<Rightarrow> nat \<Rightarrow> ctx" where
  "with_deadline c d = c\<lparr>cx_deadline := min_opt (cx_deadline c) (Some d)\<rparr>"

text \<open>\<^verbatim>\<open>context.AfterFunc(scope, cancel)\<close>: the call is cancelled once the scope is done.\<close>

definition bound :: "ctx \<Rightarrow> ctx \<Rightarrow> ctx" where
  "bound caller scope =
     (let c = caller\<lparr>cx_cancel := min_opt (cx_cancel caller) (min_opt (cx_cancel scope) (cx_deadline scope))\<rparr>
      in case cx_deadline scope of None \<Rightarrow> c | Some d \<Rightarrow> with_deadline c d)"

lemma reached_min_opt [simp]: "reached (min_opt a b) now \<longleftrightarrow> reached a now \<or> reached b now"
  by (auto simp: reached_def min_opt_def split: option.splits)

lemma min_opt_None [simp]: "min_opt a None = a" "min_opt None a = a"
  by (simp_all add: min_opt_def split: option.split)

lemma ctx_Err_None: "ctx_Err c now = None \<longleftrightarrow> \<not> reached (cx_cancel c) now \<and> \<not> reached (cx_deadline c) now"
  by (auto simp: ctx_Err_def)

text \<open>A helper call runs under a context that is live exactly while both its caller and the
  task's scope are, and its deadline is no later than either's.\<close>

theorem bound_live:
  "(ctx_Err (bound caller scope) now = None) =
     (ctx_Err caller now = None \<and> ctx_Err scope now = None)"
  by (auto simp: ctx_Err_None bound_def Let_def with_deadline_def split: option.splits)
    (auto simp: reached_def)

section \<open>Access\<close>

datatype 'e access_error =
    Ctx ctx_err
  | LeasePermissionDenied
  | Unavailable string
  | Callback 'e

record ('e, 'v, 'j, 'r, 'q, 'c) Access =
  ac_ctx :: ctx
  ac_grant :: JobDB
  ac_resolve :: "(ctx \<Rightarrow> string list \<Rightarrow> 'e + (string \<rightharpoonup> 'v)) option"
  ac_submit :: "(ctx \<Rightarrow> 'j \<Rightarrow> 'e + 'r) option"
  ac_create :: "(ctx \<Rightarrow> 'q \<Rightarrow> 'e + 'c) option"

definition NewAccess where
  "NewAccess c grant resolve submit create =
     \<lparr>ac_ctx = c, ac_grant = JobDB_clone grant, ac_resolve = resolve, ac_submit = submit,
      ac_create = (case create of [] \<Rightarrow> None | f # _ \<Rightarrow> Some f)\<rparr>"

definition LimitDeadline :: "('e, 'v, 'j, 'r, 'q, 'c) Access \<Rightarrow> nat \<Rightarrow> ('e, 'v, 'j, 'r, 'q, 'c) Access" where
  "LimitDeadline a d = a\<lparr>ac_ctx := with_deadline (ac_ctx a) d\<rparr>"

definition ctx_check :: "ctx \<Rightarrow> nat \<Rightarrow> 'e access_error + unit" where
  "ctx_check c now = (case ctx_Err c now of None \<Rightarrow> Inr () | Some e \<Rightarrow> Inl (Ctx e))"

definition CheckSecrets :: "('e, 'v, 'j, 'r, 'q, 'c) Access \<Rightarrow> nat \<Rightarrow> string list \<Rightarrow> 'e access_error + unit" where
  "CheckSecrets a now names =
     bindE (ctx_check (ac_ctx a) now) (\<lambda>_.
     forE (\<lambda>n. check (n \<in> set (sp_Resolve (Secrets (ac_grant a)))) LeasePermissionDenied) names)"

datatype access_call = AskSecrets "string list" | AskSubmit string | AskCell string

definition lift_cb :: "'e + 'a \<Rightarrow> 'e access_error + 'a" where
  "lift_cb r = (case r of Inl e \<Rightarrow> Inl (Callback e) | Inr x \<Rightarrow> Inr x)"

definition no_call :: "'e access_error + 'a \<Rightarrow> access_call option \<times> ('e access_error + 'a)" where
  "no_call r = (None, r)"

text \<open>\<open>now\<close> is the time of the call, \<open>now'\<close> the time its callback returned.\<close>

definition Access_Resolve ::
  "('e, 'v, 'j, 'r, 'q, 'c) Access \<Rightarrow> nat \<Rightarrow> nat \<Rightarrow> ctx \<Rightarrow> string list \<Rightarrow>
     access_call option \<times> ('e access_error + (string \<rightharpoonup> 'v))" where
  "Access_Resolve a now now' c names =
     (case bindE (ctx_check c now) (\<lambda>_. CheckSecrets a now names) of
        Inl e \<Rightarrow> no_call (Inl e)
      | Inr _ \<Rightarrow>
          if length names = 0 then no_call (Inr Map.empty)
          else case ac_resolve a of
            None \<Rightarrow> no_call (Inl (Unavailable ''restricted secret resolver unavailable''))
          | Some resolve \<Rightarrow>
              let call = bound c (ac_ctx a)
              in (Some (AskSecrets names),
                  bindE (lift_cb (resolve call names)) (\<lambda>values.
                  bindE (ctx_check call now') (\<lambda>_. Inr (values |` set names)))))"

definition Access_Submit ::
  "('e, 'v, 'j, 'r, 'q, 'c) Access \<Rightarrow> ('j \<Rightarrow> string) \<Rightarrow> nat \<Rightarrow> ctx \<Rightarrow> 'j \<Rightarrow>
     access_call option \<times> ('e access_error + 'r)" where
  "Access_Submit a cell now c job =
     (case ctx_check (ac_ctx a) now of
        Inl e \<Rightarrow> no_call (Inl e)
      | Inr _ \<Rightarrow>
          if \<not> jp_Submit (Jobs (ac_grant a)) \<or>
             \<not> name_allowed (jp_CellNames (Jobs (ac_grant a))) (cell job)
          then no_call (Inl LeasePermissionDenied)
          else case ac_submit a of
            None \<Rightarrow> no_call (Inl (Unavailable ''restricted submission unavailable''))
          | Some submit \<Rightarrow> (Some (AskSubmit (cell job)), lift_cb (submit (bound c (ac_ctx a)) job)))"

definition Access_CreateCell ::
  "('e, 'v, 'j, 'r, 'q, 'c) Access \<Rightarrow> ('q \<Rightarrow> string) \<Rightarrow> nat \<Rightarrow> ctx \<Rightarrow> 'q \<Rightarrow>
     access_call option \<times> ('e access_error + 'c)" where
  "Access_CreateCell a name now c req =
     (case bindE (ctx_check c now) (\<lambda>_. ctx_check (ac_ctx a) now) of
        Inl e \<Rightarrow> no_call (Inl e)
      | Inr _ \<Rightarrow>
          if \<not> cp_Create (Cells (ac_grant a)) \<or>
             \<not> name_allowed (cp_CellNames (Cells (ac_grant a))) (name req)
          then no_call (Inl LeasePermissionDenied)
          else case ac_create a of
            None \<Rightarrow> no_call (Inl (Unavailable ''restricted cell creation unavailable''))
          | Some create \<Rightarrow> (Some (AskCell (name req)), lift_cb (create (bound c (ac_ctx a)) req)))"

text \<open>\<^verbatim>\<open>ResolveInputs\<close>: \<open>access\<close> and \<open>input\<close> are what the context carries.\<close>

definition ResolveInputs ::
  "('e, 'v, 'j, 'r, 'q, 'c) Access option \<Rightarrow> (ctx \<Rightarrow> string list \<Rightarrow> 'e + (string \<rightharpoonup> 'v)) option \<Rightarrow>
     nat \<Rightarrow> nat \<Rightarrow> ctx \<Rightarrow> string list \<Rightarrow> string list \<Rightarrow>
     access_call option \<times> ('e access_error + (string \<rightharpoonup> 'v))" where
  "ResolveInputs access input now now' c names authorized =
     (case access of
        None \<Rightarrow> no_call (Inl (Unavailable ''input secret resolver requires a task permission scope''))
      | Some access \<Rightarrow>
          (case input of
             None \<Rightarrow> Access_Resolve access now now' c names
           | Some resolve \<Rightarrow>
               Access_Resolve (NewAccess (ac_ctx access)
                   (empty_grant\<lparr>Secrets := \<lparr>sp_Resolve = authorized\<rparr>\<rparr>) (Some resolve)
                   (None :: (ctx \<Rightarrow> 'j \<Rightarrow> 'e + 'r) option) ([] :: (ctx \<Rightarrow> 'q \<Rightarrow> 'e + 'c) list)) now now' c names))"

fun call_requests :: "access_call \<Rightarrow> request set" where
  "call_requests (AskSecrets ns) = ResolveSecret ` set ns"
| "call_requests (AskSubmit c) = {SubmitTo c}"
| "call_requests (AskCell c) = {CreateCell c}"

lemma ctx_check_ok [ok_iff]: "ctx_check c now = Inr u \<longleftrightarrow> ctx_Err c now = None"
  by (simp add: ctx_check_def split: option.split)

lemma lift_cb_ok [ok_iff]: "lift_cb r = Inr x \<longleftrightarrow> r = Inr x"
  by (simp add: lift_cb_def split: sum.split)

lemma CheckSecrets_ok [ok_iff]:
  "CheckSecrets a now ns = Inr u \<longleftrightarrow> ctx_Err (ac_ctx a) now = None \<and>
     set ns \<subseteq> set (sp_Resolve (Secrets (ac_grant a)))"
  by (auto simp: CheckSecrets_def ok_iff)

lemma no_call_simps [simp]: "fst (no_call r) = None" "snd (no_call r) = r"
  by (simp_all add: no_call_def)

lemma Resolve_call:
  "fst (Access_Resolve a now now' c ns) = Some k \<Longrightarrow>
     k = AskSecrets ns \<and> set ns \<subseteq> set (sp_Resolve (Secrets (ac_grant a))) \<and>
     ctx_Err c now = None \<and> ctx_Err (ac_ctx a) now = None"
  by (auto simp: Access_Resolve_def Let_def ok_iff split: sum.splits option.splits if_splits)

lemma Submit_call:
  "fst (Access_Submit a cell now c job) = Some k \<Longrightarrow>
     k = AskSubmit (cell job) \<and> grant_permits (ac_grant a) (SubmitTo (cell job)) \<and>
     ctx_Err (ac_ctx a) now = None"
  by (auto simp: Access_Submit_def ok_iff split: sum.splits option.splits if_splits)

lemma CreateCell_call:
  "fst (Access_CreateCell a name now c req) = Some k \<Longrightarrow>
     k = AskCell (name req) \<and> grant_permits (ac_grant a) (CreateCell (name req)) \<and>
     ctx_Err c now = None \<and> ctx_Err (ac_ctx a) now = None"
  by (auto simp: Access_CreateCell_def ok_iff split: sum.splits option.splits if_splits)

text \<open>No callback of an access scope is consulted for a request its grant does not permit, or
  after the scope ended.\<close>

theorem callbacks_only_for_granted:
  assumes "call \<in> {fst (Access_Resolve a now now' c ns), fst (Access_Submit a cell now c job),
             fst (Access_CreateCell a name now c req)}"
    and "call = Some k" "r \<in> call_requests k"
  shows "grant_permits (ac_grant a) r \<and> ctx_Err (ac_ctx a) now = None"
proof -
  consider "fst (Access_Resolve a now now' c ns) = Some k"
    | "fst (Access_Submit a cell now c job) = Some k"
    | "fst (Access_CreateCell a name now c req) = Some k"
    using assms(1,2) by auto
  then show ?thesis
  proof cases
    case 1
    from Resolve_call [OF this] assms(3) show ?thesis by auto
  next
    case 2
    from Submit_call [OF this] assms(3) show ?thesis by simp
  next
    case 3
    from CreateCell_call [OF this] assms(3) show ?thesis by simp
  qed
qed

definition ex_access :: "(unit, nat, string, nat, string, nat) Access" where
  "ex_access = NewAccess \<lparr>cx_cancel = None, cx_deadline = Some 9\<rparr>
     (empty_grant\<lparr>Secrets := \<lparr>sp_Resolve = [''K'']\<rparr>\<rparr>)
     (Some (\<lambda>_ _. Inr [''K'' \<mapsto> 1, ''X'' \<mapsto> 2])) None []"

theorem callbacks_only_for_granted_witness:
  "grant_permits (ac_grant ex_access) (ResolveSecret ''K'')"
proof -
  have "fst (Access_Resolve ex_access 1 2 \<lparr>cx_cancel = None, cx_deadline = None\<rparr> [''K'']) =
      Some (AskSecrets [''K''])"
    by (simp add: ex_access_def NewAccess_def Access_Resolve_def CheckSecrets_def ctx_check_def
        ctx_Err_def reached_def empty_grant_def Let_def JobDB_clone_def)
  from callbacks_only_for_granted [OF insertI1 this, of "ResolveSecret ''K''"]
  show ?thesis by simp
qed

text \<open>A resolution never exposes an entry outside the requested names or outside the grant, even
  when the provider returns more; and what it exposes is what the provider returned.\<close>

theorem resolve_filters:
  assumes "snd (Access_Resolve a now now' c names) = Inr m"
  shows "dom m \<subseteq> set names \<inter> {n. grant_permits (ac_grant a) (ResolveSecret n)} \<and>
    (m = Map.empty \<or> (\<exists>f values. ac_resolve a = Some f \<and> f (bound c (ac_ctx a)) names = Inr values \<and>
      (\<forall>n \<in> set names. m n = values n)))"
proof -
  from assms have g: "set names \<subseteq> set (sp_Resolve (Secrets (ac_grant a)))"
    by (auto simp: Access_Resolve_def Let_def ok_iff split: sum.splits)
  consider "m = Map.empty" | f v where "ac_resolve a = Some f" "f (bound c (ac_ctx a)) names = Inr v"
      "m = v |` set names"
    using assms
    by (auto simp: Access_Resolve_def Let_def ok_iff split: sum.splits if_splits option.splits)
  then show ?thesis
    by cases (use g in auto)
qed

theorem resolve_filters_witness:
  "snd (Access_Resolve ex_access 1 2 \<lparr>cx_cancel = None, cx_deadline = None\<rparr> [''K'']) = Inr [''K'' \<mapsto> 1]
   \<and> dom [''K'' \<mapsto> (1::nat)] \<subseteq> set [''K'']"
proof -
  have e: "snd (Access_Resolve ex_access 1 2 \<lparr>cx_cancel = None, cx_deadline = None\<rparr> [''K'']) =
      Inr [''K'' \<mapsto> 1]"
    by (simp add: ex_access_def NewAccess_def Access_Resolve_def CheckSecrets_def ctx_check_def
        ctx_Err_def reached_def empty_grant_def Let_def JobDB_clone_def lift_cb_def bound_def
        with_deadline_def min_opt_def)
  from resolve_filters [OF this] e show ?thesis by blast
qed

section \<open>Restricted leases\<close>

record DelegationNames =
  dn_Any :: bool
  dn_Names :: "string list"

record DelegationSubmit =
  ds_JobTypes :: DelegationNames
  ds_JobIDs :: DelegationNames
  ds_CellNames :: "DelegationNames option"

record DelegationPermissions =
  dp_Secrets :: "string list"
  dp_CreateCells :: "DelegationNames option"
  dp_Submit :: "DelegationSubmit option"

record DelegationRequest =
  dr_Permissions :: DelegationPermissions
  dr_NotAfter :: "nat option"

datatype 'e issue_error =
    DelegationUnsupported
  | InvalidGrant perm_error
  | CreateFailed 'e
  | NoLease
  | NoMetadata
  | LeaseExpired

definition delegation_of :: "JobDB \<Rightarrow> DelegationPermissions" where
  "delegation_of grant =
     \<lparr>dp_Secrets = sp_Resolve (Secrets grant),
      dp_CreateCells = (if cp_Create (Cells grant)
        then Some \<lparr>dn_Any = (cp_CellNames (Cells grant) = None), dn_Names = names_of (cp_CellNames (Cells grant))\<rparr>
        else None),
      dp_Submit = (if jp_Submit (Jobs grant)
        then Some \<lparr>ds_JobTypes = \<lparr>dn_Any = True, dn_Names = []\<rparr>, ds_JobIDs = \<lparr>dn_Any = True, dn_Names = []\<rparr>,
               ds_CellNames = (case jp_CellNames (Jobs grant) of None \<Rightarrow> None
                  | Some ns \<Rightarrow> Some \<lparr>dn_Any = False, dn_Names = ns\<rparr>)\<rparr>
        else None)\<rparr>"

text \<open>\<open>task\<close>: the live task's delegation capability; \<open>info\<close>: the lease's delegation
  metadata (absent method, nil, or its \<open>NotAfter\<close>). \<open>deadline\<close> is None for the zero time.\<close>

definition IssueRestrictedLease ::
  "(string \<Rightarrow> bool) \<Rightarrow> (DelegationRequest \<Rightarrow> 'e + 'l option) option \<Rightarrow> ('l \<Rightarrow> nat option option option) \<Rightarrow>
     nat \<Rightarrow> JobDB \<Rightarrow> nat option \<Rightarrow> 'e issue_error + 'l" where
  "IssueRestrictedLease vc task info now grant deadline = (case task of
     None \<Rightarrow> Inl DelegationUnsupported
   | Some create \<Rightarrow>
       (case JobDB_Validate vc grant of
          Inl e \<Rightarrow> Inl (InvalidGrant e)
        | Inr _ \<Rightarrow>
            (case create \<lparr>dr_Permissions = delegation_of grant, dr_NotAfter = deadline\<rparr> of
               Inl e \<Rightarrow> Inl (CreateFailed e)
             | Inr None \<Rightarrow> Inl NoLease
             | Inr (Some child) \<Rightarrow>
                 (case info child of
                    None \<Rightarrow> Inl NoMetadata
                  | Some None \<Rightarrow> Inl NoMetadata
                  | Some (Some notafter) \<Rightarrow>
                      (case notafter of
                         Some t \<Rightarrow> if \<not> t > now then Inl LeaseExpired else Inr child
                       | None \<Rightarrow> Inr child)))))"

text \<open>A delegation request carries exactly the grant: two valid grants that ask JobDB for the
  same permissions permit the same requests.\<close>

lemma names_delegation_inj:
  "(xs = None) = (ys = None) \<Longrightarrow> names_of xs = names_of ys \<Longrightarrow> xs = ys"
  by (cases xs; cases ys) (auto simp: names_of_def)

text \<open>The lease asked of JobDB carries exactly the grant's authority: two grants that issue the
  same delegation request permit the same requests.\<close>

theorem delegation_faithful:
  assumes D: "delegation_of g = delegation_of h"
  shows "grant_permits g r = grant_permits h r"
proof -
  have S: "sp_Resolve (Secrets g) = sp_Resolve (Secrets h)" using D by (simp add: delegation_of_def)
  have C: "cp_Create (Cells g) = cp_Create (Cells h)"
      "cp_Create (Cells g) \<Longrightarrow> cp_CellNames (Cells g) = cp_CellNames (Cells h)"
    using D by (auto simp: delegation_of_def intro: names_delegation_inj split: if_splits)
  have J: "jp_Submit (Jobs g) = jp_Submit (Jobs h)"
      "jp_Submit (Jobs g) \<Longrightarrow> jp_CellNames (Jobs g) = jp_CellNames (Jobs h)"
    using D by (auto simp: delegation_of_def split: if_splits option.splits)
  show ?thesis using S C J by (cases r) auto
qed

definition ex_narrow :: "string list option \<Rightarrow> JobDB" where
  "ex_narrow names = \<lparr>Secrets = \<lparr>sp_Resolve = [''K'']\<rparr>, Jobs = \<lparr>jp_CellNames = Some [''a''], jp_Submit = True\<rparr>,
     Cells = \<lparr>cp_Create = False, cp_CellNames = names\<rparr>\<rparr>"

theorem delegation_faithful_witness:
  "delegation_of (ex_narrow None) = delegation_of (ex_narrow (Some [''b''])) \<and>
   ex_narrow None \<noteq> ex_narrow (Some [''b'']) \<and>
   grant_permits (ex_narrow None) (CreateCell ''b'') = grant_permits (ex_narrow (Some [''b''])) (CreateCell ''b'')"
proof -
  have D: "delegation_of (ex_narrow None) = delegation_of (ex_narrow (Some [''b'']))"
    by (simp add: delegation_of_def ex_narrow_def)
  with delegation_faithful [OF D, of "CreateCell ''b''"] show ?thesis by (simp add: ex_narrow_def)
qed

section \<open>Strict permission YAML\<close>

text \<open>A parsed node: its tag and value for a scalar, its pairs or items. An alias is any other
  kind. The key of a pair is compared by its \<open>Value\<close>, empty for a key that is no scalar.\<close>

datatype yaml =
    Scalar string string
  | Mapping "(yaml \<times> yaml) list"
  | Sequence "yaml list"
  | Alias

datatype shape = Fields "(string \<times> shape) list" | BoolShape | NamesShape

datatype yaml_error = MustBeMapping string | UnknownOrDuplicate string string
  | MustBeBool string | MustBeList string | MustBeStrings string

definition node_value :: "yaml \<Rightarrow> string" where
  "node_value n = (case n of Scalar t v \<Rightarrow> v | _ \<Rightarrow> [])"

fun is_scalar :: "string \<Rightarrow> yaml \<Rightarrow> bool" where
  "is_scalar tag (Scalar t v) = (t = tag)"
| "is_scalar tag _ = False"

definition grantShape :: shape where
  "grantShape = Fields
     [(''secrets'', Fields [(''resolve'', NamesShape)]),
      (''jobs'', Fields [(''submit'', BoolShape), (''cellNames'', NamesShape)]),
      (''cells'', Fields [(''create'', BoolShape), (''cellNames'', NamesShape)])]"

definition specShape :: shape where
  "specShape = Fields [(''jobdb'', grantShape), (''limit'', Fields [(''jobdb'', grantShape)]), (''inherit'', BoolShape)]"

lemma size_pair_list [termination_simp]: "(k, v) \<in> set ps \<Longrightarrow> size v < Suc (size_list (size_prod size size) ps)"
  by (induction ps) auto

function (sequential) validateYAML :: "yaml \<Rightarrow> shape \<Rightarrow> string \<Rightarrow> yaml_error + unit"
  and validatePairs :: "(yaml \<times> yaml) list \<Rightarrow> (string \<times> shape) list \<Rightarrow> string set \<Rightarrow> string \<Rightarrow> yaml_error + unit"
where
  "validateYAML (Mapping ps) (Fields flds) path = validatePairs ps flds {} path"
| "validateYAML n (Fields flds) path = Inl (MustBeMapping path)"
| "validateYAML n BoolShape path = (if \<not> is_scalar ''!!bool'' n then Inl (MustBeBool path) else Inr ())"
| "validateYAML (Sequence vs) NamesShape path =
     forE (\<lambda>v. check (is_scalar ''!!str'' v) (MustBeStrings path)) vs"
| "validateYAML n NamesShape path = Inl (MustBeList path)"
| "validatePairs [] flds seen path = Inr ()"
| "validatePairs ((k, v) # ps) flds seen path =
     (let key = node_value k in
      case map_of flds key of
        None \<Rightarrow> Inl (UnknownOrDuplicate path key)
      | Some child \<Rightarrow>
          if key \<in> seen then Inl (UnknownOrDuplicate path key)
          else bindE (validateYAML v child (path @ ''.'' @ key))
                 (\<lambda>_. validatePairs ps flds (insert key seen) path))"
  by pat_completeness auto
termination
  by (relation "measure (\<lambda>x. case x of Inl (n, _, _) \<Rightarrow> size n
       | Inr (ps, _, _, _) \<Rightarrow> size_list (size_prod size size) ps)") auto

text \<open>The grammar the code enforces.\<close>

inductive conforms :: "yaml \<Rightarrow> shape \<Rightarrow> bool" where
  conforms_map: "distinct (map (node_value \<circ> fst) ps) \<Longrightarrow>
     (\<And>k v. (k, v) \<in> set ps \<Longrightarrow> \<exists>child. map_of flds (node_value k) = Some child \<and> conforms v child) \<Longrightarrow>
     conforms (Mapping ps) (Fields flds)"
| conforms_bool: "is_scalar ''!!bool'' n \<Longrightarrow> conforms n BoolShape"
| conforms_names: "\<forall>v \<in> set vs. is_scalar ''!!str'' v \<Longrightarrow> conforms (Sequence vs) NamesShape"

inductive_simps conforms_Fields [simp]: "conforms n (Fields flds)"
inductive_simps conforms_BoolShape [simp]: "conforms n BoolShape"
inductive_simps conforms_NamesShape [simp]: "conforms n NamesShape"

lemma validate_iff:
  "validateYAML n sh path = Inr () \<longleftrightarrow> conforms n sh"
  "validatePairs ps flds seen path = Inr () \<longleftrightarrow>
     distinct (map (node_value \<circ> fst) ps) \<and> (node_value \<circ> fst) ` set ps \<inter> seen = {} \<and>
     (\<forall>(k, v) \<in> set ps. \<exists>child. map_of flds (node_value k) = Some child \<and> conforms v child)"
proof (induction n sh path and ps flds seen path rule: validateYAML_validatePairs.induct)
  case (7 k v ps flds seen path)
  show ?case
  proof (cases "map_of flds (node_value k)")
    case None
    then show ?thesis by (simp add: Let_def)
  next
    case (Some child)
    note IH = "7.IH"(1) [OF refl Some] "7.IH"(2) [OF refl Some]
    show ?thesis
    proof (cases "node_value k \<in> seen")
      case True
      then show ?thesis by (simp add: Let_def Some)
    next
      case False
      show ?thesis
        using IH(1) [OF False] IH(2) [OF False] False
        by (auto simp: Let_def Some bindE_ok comp_def)
    qed
  qed
qed (auto simp: ok_iff comp_def)

text \<open>The strict reader of a permission subtree accepts a YAML node exactly when the node
  conforms to the shape: known fields, none repeated, booleans and lists of literal strings only.\<close>

theorem validateYAML_sound_complete: "(validateYAML n sh path = Inr ()) = conforms n sh"
  by (rule validate_iff)

end
