(* ===== verification/Go_Strings.thy ===== *)
theory Go_Strings
  imports C2J_Prelude
begin

text \<open>
  The string functions of Go's \<^verbatim>\<open>strings\<close>, \<^verbatim>\<open>unicode/utf8\<close> and \<^verbatim>\<open>fmt\<close> that the modelled
  packages call, on byte strings: \<open>Split\<close> at one byte, \<open>Index\<close>, \<open>Cut\<close>, \<open>Contains\<close>,
  \<open>TrimSpace\<close>, \<open>ValidString\<close>, and decimal printing and reading.
\<close>

section \<open>Searching and splitting\<close>

definition has_prefix :: "string \<Rightarrow> string \<Rightarrow> bool" where
  "has_prefix s p = prefix p s"

definition has_suffix :: "string \<Rightarrow> string \<Rightarrow> bool" where
  "has_suffix s p = suffix p s"

text \<open>The offset of the first occurrence; None is Go's -1.\<close>

fun go_index :: "string \<Rightarrow> string \<Rightarrow> nat option" where
  "go_index s sub =
     (if prefix sub s then Some 0
      else case s of [] \<Rightarrow> None | c # t \<Rightarrow> map_option Suc (go_index t sub))"

declare go_index.simps [simp del]

definition go_contains :: "string \<Rightarrow> string \<Rightarrow> bool" where
  "go_contains s sub = (go_index s sub \<noteq> None)"

definition contains_any :: "string \<Rightarrow> string \<Rightarrow> bool" where
  "contains_any s chars = list_ex (\<lambda>c. c \<in> set chars) s"

fun split_on :: "char \<Rightarrow> string \<Rightarrow> string list" where
  "split_on d [] = [[]]"
| "split_on d (c # cs) =
     (if c = d then [] # split_on d cs
      else case split_on d cs of [] \<Rightarrow> [[c]] | p # ps \<Rightarrow> (c # p) # ps)"

fun join_with :: "string \<Rightarrow> string list \<Rightarrow> string" where
  "join_with sep [] = []"
| "join_with sep [x] = x"
| "join_with sep (x # y # ys) = x @ sep @ join_with sep (y # ys)"

text \<open>\<^verbatim>\<open>strings.Cut\<close> at a separator of one byte.\<close>

fun go_cut :: "char \<Rightarrow> string \<Rightarrow> (string \<times> string) option" where
  "go_cut d [] = None"
| "go_cut d (c # cs) =
     (if c = d then Some ([], cs) else map_option (\<lambda>(a, b). (c # a, b)) (go_cut d cs))"

lemma go_index_prefix: "prefix sub s \<Longrightarrow> go_index s sub = Some 0"
  by (simp add: go_index.simps [of s])

lemma go_index_Cons: "\<not> prefix sub (c # t) \<Longrightarrow> go_index (c # t) sub = map_option Suc (go_index t sub)"
  by (simp add: go_index.simps [of "c # t"])

lemma go_index_Nil: "go_index [] sub = (if sub = [] then Some 0 else None)"
  by (simp add: go_index.simps [of "[]"])

lemma go_index_Some:
  "go_index s sub = Some i \<Longrightarrow> \<exists>a b. s = a @ sub @ b \<and> length a = i"
proof (induction s arbitrary: i)
  case Nil
  then show ?case by (auto simp: go_index_Nil split: if_splits)
next
  case (Cons c t)
  show ?case
  proof (cases "prefix sub (c # t)")
    case True
    with Cons.prems show ?thesis by (auto simp: go_index_prefix prefix_def)
  next
    case False
    with Cons.prems obtain j where j: "go_index t sub = Some j" "i = Suc j"
      by (auto simp: go_index_Cons)
    from Cons.IH [OF j(1)] obtain a b where "t = a @ sub @ b" "length a = j" by blast
    with j show ?thesis by (intro exI [of _ "c # a"] exI [of _ b]) simp
  qed
qed

lemma go_index_least: "s = a @ sub @ b \<Longrightarrow> \<exists>i \<le> length a. go_index s sub = Some i"
proof (induction a arbitrary: s)
  case Nil
  then show ?case by (simp add: go_index_prefix)
next
  case (Cons c a)
  then obtain i where i: "i \<le> length a" "go_index (a @ sub @ b) sub = Some i" by blast
  with Cons.prems show ?case
    by (cases "prefix sub s") (auto simp: go_index_prefix go_index_Cons)
qed

lemma go_contains_iff: "go_contains s sub \<longleftrightarrow> sublist sub s"
proof -
  have "go_contains s sub \<longleftrightarrow> (\<exists>a b. s = a @ sub @ b)"
    unfolding go_contains_def using go_index_Some go_index_least by fastforce
  then show ?thesis by (simp add: sublist_def)
qed

lemma split_on_not_Nil [simp]: "split_on d s \<noteq> []"
  by (induction s) (auto split: list.splits)

lemma split_on_parts: "p \<in> set (split_on d s) \<Longrightarrow> d \<notin> set p"
  by (induction s arbitrary: p) (auto split: list.splits if_splits)

lemma join_split: "join_with [d] (split_on d s) = s"
proof (induction s)
  case (Cons c s)
  show ?case
  proof (cases "split_on d s")
    case Nil
    then show ?thesis by simp
  next
    case (Cons p ps)
    with Cons.IH show ?thesis by (cases ps) (auto split: list.splits)
  qed
qed simp

lemma split_join:
  "ps \<noteq> [] \<Longrightarrow> \<forall>p \<in> set ps. d \<notin> set p \<Longrightarrow> split_on d (join_with [d] ps) = ps"
proof (induction "[d]" ps rule: join_with.induct)
  case (2 x)
  then have "d \<notin> set x" by simp
  then show ?case by (induction x) auto
next
  case (3 x y ys)
  then have IH: "split_on d (join_with [d] (y # ys)) = y # ys" by simp
  have "d \<notin> set x" using "3.prems" by simp
  then have "split_on d (x @ d # join_with [d] (y # ys)) = x # y # ys"
    by (induction x) (auto simp: IH)
  then show ?case by simp
qed simp

lemma go_cut_Some: "go_cut d s = Some (a, b) \<longleftrightarrow> s = a @ d # b \<and> d \<notin> set a"
proof (induction s arbitrary: a)
  case (Cons c s)
  then show ?case by (cases a) auto
qed simp

lemma go_cut_None: "go_cut d s = None \<longleftrightarrow> d \<notin> set s"
  by (induction s) auto

lemma split_on_append: "split_on d (a @ d # b) = split_on d a @ split_on d b"
  by (induction a) (auto split: list.splits)

lemma split_on_no_sep: "d \<notin> set a \<Longrightarrow> split_on d a = [a]"
  by (induction a) auto

lemma join_append: "xs \<noteq> [] \<Longrightarrow> ys \<noteq> [] \<Longrightarrow> join_with sep (xs @ ys) = join_with sep xs @ sep @ join_with sep ys"
proof (induction sep xs rule: join_with.induct)
  case (2 sep x)
  then show ?case by (cases ys) auto
qed auto

text \<open>A string followed by the separator begins another just when its parts begin the other's.\<close>

lemma split_prefix_iff: "r = a \<or> prefix (a @ [d]) r \<longleftrightarrow> prefix (split_on d a) (split_on d r)"
proof
  assume "r = a \<or> prefix (a @ [d]) r"
  then show "prefix (split_on d a) (split_on d r)"
    by (auto simp: prefix_def split_on_append)
next
  assume "prefix (split_on d a) (split_on d r)"
  then obtain zs where zs: "split_on d r = split_on d a @ zs" by (auto simp: prefix_def)
  show "r = a \<or> prefix (a @ [d]) r"
  proof (cases zs)
    case Nil
    with zs show ?thesis using join_split [of d a] join_split [of d r] by simp
  next
    case (Cons z zs')
    with zs have "r = a @ [d] @ join_with [d] zs"
      using join_split [of d a] join_split [of d r] join_append [of "split_on d a" zs "[d]"] by simp
    then show ?thesis by (simp add: prefix_def)
  qed
qed

text \<open>\<^verbatim>\<open>TrimPrefix\<close>, \<^verbatim>\<open>TrimSuffix\<close> and \<^verbatim>\<open>Trim\<close> at one byte.\<close>

definition trim_prefix :: "string \<Rightarrow> string \<Rightarrow> string" where
  "trim_prefix s p = (if has_prefix s p then drop (length p) s else s)"

definition trim_suffix :: "string \<Rightarrow> string \<Rightarrow> string" where
  "trim_suffix s x = (if has_suffix s x then take (length s - length x) s else s)"

definition trim_byte :: "char \<Rightarrow> string \<Rightarrow> string" where
  "trim_byte c s = rev (dropWhile (\<lambda>d. d = c) (rev (dropWhile (\<lambda>d. d = c) s)))"

lemma trim_suffix_cases: "s = trim_suffix s x \<or> s = trim_suffix s x @ x"
  by (auto simp: trim_suffix_def has_suffix_def suffix_def)

lemma trim_byte_id: "s = [] \<or> hd s \<noteq> c \<and> last s \<noteq> c \<Longrightarrow> trim_byte c s = s"
proof (cases "s = []")
  case False
  assume "s = [] \<or> hd s \<noteq> c \<and> last s \<noteq> c"
  with False have "dropWhile (\<lambda>d. d = c) s = s" "dropWhile (\<lambda>d. d = c) (rev s) = rev s"
    by (simp_all add: dropWhile_eq_self_iff hd_rev)
  then show ?thesis by (simp add: trim_byte_def)
qed (simp add: trim_byte_def)

lemma trim_byte_Cons: "trim_byte c (c # s) = trim_byte c s"
  by (simp add: trim_byte_def)

lemma trim_byte_snoc: "trim_byte c (s @ [c]) = trim_byte c s"
proof (cases "\<forall>d \<in> set s. d = c")
  case True
  then have "dropWhile (\<lambda>d. d = c) s = []" "dropWhile (\<lambda>d. d = c) (s @ [c]) = []"
    by simp_all
  then show ?thesis by (simp only: trim_byte_def)
next
  case False
  then have "dropWhile (\<lambda>d. d = c) (s @ [c]) = dropWhile (\<lambda>d. d = c) s @ [c]"
    by (auto simp: dropWhile_append dropWhile_eq_Nil_conv dest: set_dropWhileD)
  then show ?thesis by (simp add: trim_byte_def)
qed

section \<open>White space and UTF-8\<close>

text \<open>The encodings of the code points with Unicode's White\_Space property.\<close>

definition go_spaces :: "string list" where
  "go_spaces =
     [[CHR 0x09], [CHR 0x0A], [CHR 0x0B], [CHR 0x0C], [CHR 0x0D], [CHR 0x20],
      [CHR 0xC2, CHR 0x85], [CHR 0xC2, CHR 0xA0], [CHR 0xE1, CHR 0x9A, CHR 0x80]] @
     map (\<lambda>c. [CHR 0xE2, CHR 0x80, c])
       [CHR 0x80, CHR 0x81, CHR 0x82, CHR 0x83, CHR 0x84, CHR 0x85, CHR 0x86, CHR 0x87, CHR 0x88,
        CHR 0x89, CHR 0x8A, CHR 0xA8, CHR 0xA9, CHR 0xAF] @
     [[CHR 0xE2, CHR 0x81, CHR 0x9F], [CHR 0xE3, CHR 0x80, CHR 0x80]]"

lemma go_spaces_nonempty: "w \<in> set go_spaces \<Longrightarrow> w \<noteq> []"
  by (auto simp: go_spaces_def)

function trim_left :: "string \<Rightarrow> string" where
  "trim_left s = (case find (\<lambda>w. prefix w s) go_spaces of
     None \<Rightarrow> s | Some w \<Rightarrow> trim_left (drop (length w) s))"
  by auto
termination
proof (relation "measure length")
  fix s w assume "find (\<lambda>w. prefix w s) go_spaces = Some w"
  then have "w \<in> set go_spaces" "prefix w s" by (auto simp: find_Some_iff)
  then have "0 < length w" "length w \<le> length s"
    using go_spaces_nonempty by (auto simp: prefix_length_le)
  then have "length s - length w < length s" by arith
  then show "(drop (length w) s, s) \<in> measure length" by simp
qed simp

function trim_right :: "string \<Rightarrow> string" where
  "trim_right s = (case find (\<lambda>w. suffix w s) go_spaces of
     None \<Rightarrow> s | Some w \<Rightarrow> trim_right (take (length s - length w) s))"
  by auto
termination
proof (relation "measure length")
  fix s w assume "find (\<lambda>w. suffix w s) go_spaces = Some w"
  then have "w \<in> set go_spaces" "suffix w s" by (auto simp: find_Some_iff)
  then have "0 < length w" "length w \<le> length s"
    using go_spaces_nonempty by (auto simp: suffix_length_le)
  then have "length s - length w < length s" by arith
  then show "(take (length s - length w) s, s) \<in> measure length" by simp
qed simp

declare trim_left.simps [simp del] trim_right.simps [simp del]

definition trim_space :: "string \<Rightarrow> string" where
  "trim_space s = trim_right (trim_left s)"

text \<open>The byte automaton of \<^verbatim>\<open>utf8.ValidString\<close>: no overlong form, no surrogate,
  nothing above U+10FFFF.\<close>

definition byte_in :: "nat \<Rightarrow> nat \<Rightarrow> char \<Rightarrow> bool" where
  "byte_in lo hi c \<longleftrightarrow> lo \<le> of_char c \<and> of_char c \<le> hi"

fun valid_utf8 :: "string \<Rightarrow> bool" where
  "valid_utf8 [] = True"
| "valid_utf8 (a # s) =
     (if byte_in 0x00 0x7F a then valid_utf8 s
      else if byte_in 0xC2 0xDF a then
        (case s of b # t \<Rightarrow> byte_in 0x80 0xBF b \<and> valid_utf8 t | _ \<Rightarrow> False)
      else if byte_in 0xE0 0xEF a then
        (case s of b # c # t \<Rightarrow>
             byte_in (if byte_in 0xE0 0xE0 a then 0xA0 else 0x80) (if byte_in 0xED 0xED a then 0x9F else 0xBF) b \<and>
             byte_in 0x80 0xBF c \<and> valid_utf8 t
         | _ \<Rightarrow> False)
      else if byte_in 0xF0 0xF4 a then
        (case s of b # c # d # t \<Rightarrow>
             byte_in (if byte_in 0xF0 0xF0 a then 0x90 else 0x80) (if byte_in 0xF4 0xF4 a then 0x8F else 0xBF) b \<and>
             byte_in 0x80 0xBF c \<and> byte_in 0x80 0xBF d \<and> valid_utf8 t
         | _ \<Rightarrow> False)
      else False)"

text \<open>What begins and ends with a byte no white space has at that end is not trimmed.\<close>

lemma trim_left_id: "s = [] \<or> (\<forall>w \<in> set go_spaces. hd w \<noteq> hd s) \<Longrightarrow> trim_left s = s"
proof -
  assume a: "s = [] \<or> (\<forall>w \<in> set go_spaces. hd w \<noteq> hd s)"
  have "find (\<lambda>w. prefix w s) go_spaces = None"
    using a go_spaces_nonempty by (fastforce simp: find_None_iff prefix_def hd_append)
  then show ?thesis by (subst trim_left.simps) simp
qed

lemma trim_right_id: "s = [] \<or> (\<forall>w \<in> set go_spaces. last w \<noteq> last s) \<Longrightarrow> trim_right s = s"
proof -
  assume a: "s = [] \<or> (\<forall>w \<in> set go_spaces. last w \<noteq> last s)"
  have "find (\<lambda>w. suffix w s) go_spaces = None"
    using a go_spaces_nonempty by (fastforce simp: find_None_iff suffix_def last_append)
  then show ?thesis by (subst trim_right.simps) simp
qed

definition solid_end :: "char \<Rightarrow> bool" where
  "solid_end c \<longleftrightarrow> (\<forall>w \<in> set go_spaces. hd w \<noteq> c \<and> last w \<noteq> c)"

lemma trim_space_id: "s = [] \<or> solid_end (hd s) \<and> solid_end (last s) \<Longrightarrow> trim_space s = s"
  by (auto simp: trim_space_def trim_left_id trim_right_id solid_end_def)

text \<open>Trimming twice is trimming once.\<close>

lemma trim_left_trimmed: "w \<in> set go_spaces \<Longrightarrow> \<not> prefix w (trim_left s)"
proof (induction s rule: trim_left.induct)
  case (1 s)
  show ?case
  proof (cases "find (\<lambda>w. prefix w s) go_spaces")
    case None
    then have "trim_left s = s" by (simp add: trim_left.simps [of s])
    with None "1.prems" show ?thesis by (simp add: find_None_iff)
  next
    case (Some v)
    with 1 show ?thesis by (subst trim_left.simps) simp
  qed
qed

lemma trim_right_trimmed: "w \<in> set go_spaces \<Longrightarrow> \<not> suffix w (trim_right s)"
proof (induction s rule: trim_right.induct)
  case (1 s)
  show ?case
  proof (cases "find (\<lambda>w. suffix w s) go_spaces")
    case None
    then have "trim_right s = s" by (simp add: trim_right.simps [of s])
    with None "1.prems" show ?thesis by (simp add: find_None_iff)
  next
    case (Some v)
    with 1 show ?thesis by (subst trim_right.simps) simp
  qed
qed

lemma trim_right_prefix: "prefix (trim_right s) s"
proof (induction s rule: trim_right.induct)
  case (1 s)
  show ?case
  proof (cases "find (\<lambda>w. suffix w s) go_spaces")
    case None
    then show ?thesis by (subst trim_right.simps) simp
  next
    case (Some v)
    with 1 have "prefix (trim_right (take (length s - length v) s)) (take (length s - length v) s)" by simp
    then have "prefix (trim_right (take (length s - length v) s)) s" by (rule prefix_order.trans) (rule take_is_prefix)
    with Some show ?thesis by (subst trim_right.simps) simp
  qed
qed

lemma trim_space_idem [simp]: "trim_space (trim_space s) = trim_space s"
proof -
  let ?t = "trim_space s"
  have "find (\<lambda>w. prefix w ?t) go_spaces = None"
    unfolding find_None_iff trim_space_def
    using trim_left_trimmed trim_right_prefix prefix_order.trans by blast
  then have "trim_left ?t = ?t" by (subst trim_left.simps) simp
  moreover have "find (\<lambda>w. suffix w ?t) go_spaces = None"
    unfolding find_None_iff trim_space_def using trim_right_trimmed by blast
  then have "trim_right ?t = ?t" by (subst trim_right.simps) simp
  ultimately show ?thesis by (simp add: trim_space_def)
qed

text \<open>\<^verbatim>\<open>strings.ToLower\<close>, up to non-ASCII results, which no caller accepts:
  besides A to Z, only the Kelvin sign and the dotted capital I have an ASCII lower case.\<close>

definition lower_ascii :: "char \<Rightarrow> char" where
  "lower_ascii c = (if byte_in 65 90 c then char_of (of_char c + 32 :: nat) else c)"

function go_lower :: "string \<Rightarrow> string" where
  "go_lower s =
     (if prefix [CHR 0xE2, CHR 0x84, CHR 0xAA] s then CHR ''k'' # go_lower (drop 3 s)
      else if prefix [CHR 0xC4, CHR 0xB0] s then CHR ''i'' # go_lower (drop 2 s)
      else case s of [] \<Rightarrow> [] | c # t \<Rightarrow> lower_ascii c # go_lower t)"
  by auto
termination by (relation "measure length") (auto simp: prefix_def)

declare go_lower.simps [simp del]

section \<open>Decimal numbers\<close>

definition digit_of :: "nat \<Rightarrow> char" where
  "digit_of n = ''0123456789'' ! n"

definition digit_val :: "char \<Rightarrow> nat" where
  "digit_val c = of_char c - 48"

definition is_digit :: "char \<Rightarrow> bool" where
  "is_digit c \<longleftrightarrow> byte_in 48 57 c"

definition lower_hex :: "char \<Rightarrow> bool" where
  "lower_hex c = (is_digit c \<or> byte_in 97 102 c)"

fun show_nat :: "nat \<Rightarrow> string" where
  "show_nat n = (if n < 10 then [digit_of n] else show_nat (n div 10) @ [digit_of (n mod 10)])"

declare show_nat.simps [simp del]

definition show_int :: "int \<Rightarrow> string" where
  "show_int i = (if i < 0 then ''-'' @ show_nat (nat (- i)) else show_nat (nat i))"

definition read_nat :: "string \<Rightarrow> nat" where
  "read_nat s = foldl (\<lambda>n c. 10 * n + digit_val c) 0 s"

lemma of_char_digit_of [simp]: "n < 10 \<Longrightarrow> of_char (digit_of n) = 48 + n"
  by (simp add: digit_of_def eval_nat_numeral less_Suc_eq) (elim disjE; simp)

lemma is_digit_digit_of [simp]: "n < 10 \<Longrightarrow> is_digit (digit_of n)"
  by (simp add: is_digit_def byte_in_def)

lemma digit_val_digit_of [simp]: "n < 10 \<Longrightarrow> digit_val (digit_of n) = n"
  by (simp add: digit_val_def)

lemma digit_of_eq_0: "n < 10 \<Longrightarrow> digit_of n = CHR ''0'' \<longleftrightarrow> n = 0"
proof -
  assume n: "n < 10"
  have "digit_of n = CHR ''0'' \<longleftrightarrow> (of_char (digit_of n) :: nat) = of_char (CHR ''0'')"
    by (simp only: of_char_eq_iff)
  with n show ?thesis by simp
qed

lemma read_nat_snoc [simp]: "read_nat (s @ [c]) = 10 * read_nat s + digit_val c"
  by (simp add: read_nat_def)

lemma read_nat_Nil [simp]: "read_nat [] = 0"
  by (simp add: read_nat_def)

lemma read_nat_append: "read_nat (s @ t) = read_nat s * 10 ^ length t + read_nat t"
  by (induction t rule: rev_induct) (simp_all add: append_assoc [symmetric] algebra_simps del: append_assoc)

lemma read_show [simp]: "read_nat (show_nat n) = n"
proof (induction n rule: show_nat.induct)
  case (1 n)
  show ?case
  proof (cases "n < 10")
    case True
    then show ?thesis by (simp add: show_nat.simps [of n] read_nat_def)
  next
    case False
    with 1 show ?thesis by (simp add: show_nat.simps [of n])
  qed
qed

lemma show_nat_digits: "list_all is_digit (show_nat n)"
proof (induction n rule: show_nat.induct)
  case (1 n)
  then show ?case by (cases "n < 10") (simp_all add: show_nat.simps [of n])
qed

lemma show_nat_not_Nil [simp]: "show_nat n \<noteq> []"
  by (simp add: show_nat.simps [of n])

lemma length_show_nat: "n < 10 ^ k \<Longrightarrow> 0 < k \<Longrightarrow> length (show_nat n) \<le> k"
proof (induction n arbitrary: k rule: show_nat.induct)
  case (1 n)
  show ?case
  proof (cases "n < 10")
    case True
    with 1 show ?thesis by (simp add: show_nat.simps [of n])
  next
    case False
    with 1 obtain j where j: "k = Suc j" "0 < j"
      by (cases k; cases "k = 1") auto
    with 1 False have "length (show_nat (n div 10)) \<le> j" by (intro "1.IH") auto
    with j False show ?thesis by (simp add: show_nat.simps [of n])
  qed
qed

end
