(* ===== verification/Go_Value.thy ===== *)
theory Go_Value
  imports Complex_Main Go_Strings
begin

text \<open>
  JSON-shaped Go values, the part of \<^verbatim>\<open>reflect.Type\<close> that input walking reads, and the
  walk itself. \<^verbatim>\<open>pkg/configuration\<close> and \<^verbatim>\<open>pkg/secrets\<close> contain the same walk four times
  (\<^verbatim>\<open>Transform\<close> and \<^verbatim>\<open>transformInput\<close> in each): it is \<open>walk\<close> here, and the two
  packages are its instances. What makes an encoding of references work is the locale
  \<open>reference_format\<close>.

  A map is a list of entries; Go's iteration order is unspecified and the model takes the list's.
  The typed \<^verbatim>\<open>Reference\<close> structs of both packages can occur as values too.
\<close>

section \<open>Names and templates\<close>

text \<open>The character classes of names, and the pieces of expressions both packages match.\<close>

definition name_start :: "char \<Rightarrow> bool" where
  "name_start c = (byte_in 65 90 c \<or> byte_in 97 122 c \<or> c = CHR ''_'')"

definition name_char :: "char \<Rightarrow> bool" where
  "name_char c = (name_start c \<or> is_digit c \<or> c = CHR ''-'')"

definition after_prefix :: "string \<Rightarrow> string \<Rightarrow> string option" where
  "after_prefix p s = (if has_prefix s p then Some (drop (length p) s) else None)"

definition before_suffix :: "string \<Rightarrow> string \<Rightarrow> string option" where
  "before_suffix x s = (if has_suffix s x then Some (take (length s - length x) s) else None)"

text \<open>The text inside \<^verbatim>\<open>${{\<close> and \<^verbatim>\<open>}}\<close>, trimmed.\<close>

definition template_body :: "string \<Rightarrow> string option" where
  "template_body text =
     map_option trim_space
       (Option.bind (after_prefix ''${{'' (trim_space text)) (before_suffix ''}}''))"

text \<open>The literals of CEL the callers tell apart.\<close>

datatype cel_literal = CelString string | CelBool bool | CelNumber rat | CelNull | CelOther

section \<open>Values and types\<close>

datatype gval =
    GNil
  | GBool bool
  | GNum rat
  | GStr string
  | GMap "(string \<times> gval) list"
  | GList "gval list"
  | GSecret string "string option" bool bool
  | GConfig string string string "gval option"

text \<open>A measure for recursion into a value.\<close>

definition value_size :: "gval \<Rightarrow> nat" where
  "value_size v = size v"

lemma member_size: "(k, v) \<in> set m \<Longrightarrow> value_size v < value_size (GMap m)"
  unfolding value_size_def by (induction m) auto

lemma entry_size: "map_of m k = Some v \<Longrightarrow> value_size v < value_size (GMap m)"
  by (drule map_of_SomeD) (rule member_size)

lemma element_size: "i < length xs \<Longrightarrow> value_size (xs ! i) < value_size (GList xs)"
proof -
  assume "i < length xs"
  then have "xs ! i \<in> set xs" by (rule nth_mem)
  moreover have "v \<in> set ys \<Longrightarrow> size v < size (GList ys)" for v ys by (induction ys) auto
  ultimately show ?thesis by (simp only: value_size_def)
qed

text \<open>A struct field: exported, embedded, its json tag, its Go name, its type and its secret tag.\<close>

datatype gotype =
    TPtr gotype
  | TStruct "gofield list"
  | TMap gotype
  | TSlice gotype
  | TOther
and gofield = Field bool bool string string gotype string

fun strip_ptr :: "gotype \<Rightarrow> gotype" where
  "strip_ptr (TPtr t) = strip_ptr t"
| "strip_ptr t = t"

fun field_type :: "gofield \<Rightarrow> gotype" where
  "field_type (Field e a tag nm t m) = t"

fun field_mode :: "gofield \<Rightarrow> string" where
  "field_mode (Field e a tag nm t m) = m"

fun fieldForName :: "gotype \<Rightarrow> string \<Rightarrow> gofield option"
  and fieldsForName :: "gofield list \<Rightarrow> string \<Rightarrow> gofield option"
where
  "fieldForName (TPtr t) n = fieldForName t n"
| "fieldForName (TStruct fs) n = fieldsForName fs n"
| "fieldForName (TMap t) n = None"
| "fieldForName (TSlice t) n = None"
| "fieldForName TOther n = None"
| "fieldsForName [] n = None"
| "fieldsForName (Field exported anonymous json nm t mode # fs) n =
     (if \<not> exported then fieldsForName fs n
      else
        let tag = hd (split_on CHR '','' json) in
        case (if anonymous \<and> tag = [] then fieldForName t n else None) of
          Some nested \<Rightarrow> Some nested
        | None \<Rightarrow>
            if (if tag = [] then nm else tag) = n then Some (Field exported anonymous json nm t mode)
            else fieldsForName fs n)"

text \<open>The type and the tag under which an entry of a map is walked, and the type of an element.\<close>

definition entry_type :: "gotype option \<Rightarrow> string \<Rightarrow> gotype option \<times> string" where
  "entry_type t k = (case map_option strip_ptr t of
     Some (TStruct fs) \<Rightarrow>
       (case fieldForName (TStruct fs) k of None \<Rightarrow> (None, []) | Some f \<Rightarrow> (Some (field_type f), field_mode f))
   | Some (TMap c) \<Rightarrow> (Some c, [])
   | _ \<Rightarrow> (None, []))"

definition element_type :: "gotype option \<Rightarrow> gotype option" where
  "element_type t = (case map_option strip_ptr t of Some (TSlice c) \<Rightarrow> Some c | _ \<Rightarrow> None)"

section \<open>The walk\<close>

text \<open>What parsing a value gives: the \<^verbatim>\<open>ok\<close> and \<^verbatim>\<open>err\<close> results of the code's \<open>Parse\<close>.\<close>

datatype ('e, 'r) parsed = NotRef | BadRef 'e | Ref 'r

definition parsed_of :: "'e + 'r \<Rightarrow> ('e, 'r) parsed" where
  "parsed_of x = (case x of Inl e \<Rightarrow> BadRef e | Inr r \<Rightarrow> Ref r)"

lemma parsed_of_NotRef [simp]: "parsed_of x \<noteq> NotRef" "NotRef \<noteq> parsed_of x"
  by (simp_all add: parsed_of_def split: sum.split)

lemma parsed_of_Ref: "parsed_of x = Ref r \<longleftrightarrow> x = Inr r"
  by (simp add: parsed_of_def split: sum.split)

text \<open>A walked value may be left out of the map that holds it.\<close>

datatype tval = Omit | Val gval

text \<open>\<open>parse\<close> recognizes references, \<open>stop\<close> says which tags are forwarded and \<open>fwd\<close> how,
  \<open>arr\<close> is the error of an omitted element, \<open>omit\<close> is told about an omitted entry, and \<open>f\<close>
  replaces a reference.\<close>

fun walk :: "(gval \<Rightarrow> ('e, 'r) parsed) \<Rightarrow> (string \<Rightarrow> bool) \<Rightarrow> (gval \<Rightarrow> 'e + tval) \<Rightarrow> 'e \<Rightarrow>
    (string \<Rightarrow> string \<Rightarrow> 's \<Rightarrow> 's) \<Rightarrow> ('r \<Rightarrow> 's \<Rightarrow> 'e + tval \<times> 's) \<Rightarrow>
    gotype option \<Rightarrow> string \<Rightarrow> gval \<Rightarrow> 's \<Rightarrow> 'e + tval \<times> 's"
  and walk_map :: "(gval \<Rightarrow> ('e, 'r) parsed) \<Rightarrow> (string \<Rightarrow> bool) \<Rightarrow> (gval \<Rightarrow> 'e + tval) \<Rightarrow> 'e \<Rightarrow>
    (string \<Rightarrow> string \<Rightarrow> 's \<Rightarrow> 's) \<Rightarrow> ('r \<Rightarrow> 's \<Rightarrow> 'e + tval \<times> 's) \<Rightarrow>
    gotype option \<Rightarrow> string \<Rightarrow> (string \<times> gval) list \<Rightarrow> 's \<Rightarrow> 'e + (string \<times> gval) list \<times> 's"
  and walk_list :: "(gval \<Rightarrow> ('e, 'r) parsed) \<Rightarrow> (string \<Rightarrow> bool) \<Rightarrow> (gval \<Rightarrow> 'e + tval) \<Rightarrow> 'e \<Rightarrow>
    (string \<Rightarrow> string \<Rightarrow> 's \<Rightarrow> 's) \<Rightarrow> ('r \<Rightarrow> 's \<Rightarrow> 'e + tval \<times> 's) \<Rightarrow>
    gotype option \<Rightarrow> gval list \<Rightarrow> 's \<Rightarrow> 'e + gval list \<times> 's"
where
  "walk parse stop fwd arr omit f t mode v s =
     (if stop mode then bindE (fwd v) (\<lambda>w. Inr (w, s))
      else case parse v of
        BadRef e \<Rightarrow> Inl e
      | Ref r \<Rightarrow> f r s
      | NotRef \<Rightarrow>
          (case v of
             GMap m \<Rightarrow> bindE (walk_map parse stop fwd arr omit f t mode m s) (\<lambda>(m', s'). Inr (Val (GMap m'), s'))
           | GList xs \<Rightarrow>
               bindE (walk_list parse stop fwd arr omit f (element_type t) xs s) (\<lambda>(xs', s'). Inr (Val (GList xs'), s'))
           | _ \<Rightarrow> Inr (Val v, s)))"
| "walk_map parse stop fwd arr omit f t mode [] s = Inr ([], s)"
| "walk_map parse stop fwd arr omit f t mode ((k, v) # m) s =
     bindE (walk parse stop fwd arr omit f (fst (entry_type t k)) (snd (entry_type t k)) v s) (\<lambda>(w, s').
     case w of
       Omit \<Rightarrow> walk_map parse stop fwd arr omit f t mode m (omit mode k s')
     | Val w \<Rightarrow> bindE (walk_map parse stop fwd arr omit f t mode m s') (\<lambda>(m', s''). Inr ((k, w) # m', s'')))"
| "walk_list parse stop fwd arr omit f t [] s = Inr ([], s)"
| "walk_list parse stop fwd arr omit f t (v # vs) s =
     bindE (walk parse stop fwd arr omit f t [] v s) (\<lambda>(w, s').
     case w of
       Omit \<Rightarrow> Inl arr
     | Val w \<Rightarrow> bindE (walk_list parse stop fwd arr omit f t vs s') (\<lambda>(vs', s''). Inr (w # vs', s'')))"

declare walk.simps [simp del]

text \<open>A value somewhere in which the parser sees a reference, valid or not, anywhere or outside the
  forwarded positions only.\<close>

fun exposed :: "(gval \<Rightarrow> ('e, 'r) parsed) \<Rightarrow> (string \<Rightarrow> bool) \<Rightarrow> gotype option \<Rightarrow> string \<Rightarrow> gval \<Rightarrow> bool"
where
  "exposed p stop t mode (GMap m) = (\<not> stop mode \<and> (p (GMap m) \<noteq> NotRef \<or>
     list_ex (\<lambda>(k, v). exposed p stop (fst (entry_type t k)) (snd (entry_type t k)) v) m))"
| "exposed p stop t mode (GList vs) = (\<not> stop mode \<and> (p (GList vs) \<noteq> NotRef \<or>
     list_ex (exposed p stop (element_type t) []) vs))"
| "exposed p stop t mode v = (\<not> stop mode \<and> p v \<noteq> NotRef)"

abbreviation holds_ref :: "(gval \<Rightarrow> ('e, 'r) parsed) \<Rightarrow> gval \<Rightarrow> bool" where
  "holds_ref p \<equiv> exposed p (\<lambda>_. False) None []"

lemma entry_type_None [simp]: "entry_type None k = (None, [])" "element_type None = None"
  by (simp_all add: entry_type_def element_type_def)

text \<open>The references a walk hands to \<open>f\<close>, and whether one it cannot accept is in the value.\<close>

fun refs_at :: "(gval \<Rightarrow> ('e, 'r) parsed) \<Rightarrow> (string \<Rightarrow> bool) \<Rightarrow> gotype option \<Rightarrow> string \<Rightarrow> gval \<Rightarrow> 'r list"
where
  "refs_at p stop t mode (GMap m) =
     (if stop mode then []
      else case p (GMap m) of
        NotRef \<Rightarrow> concat (map (\<lambda>(k, v). refs_at p stop (fst (entry_type t k)) (snd (entry_type t k)) v) m)
      | BadRef e \<Rightarrow> [] | Ref r \<Rightarrow> [r])"
| "refs_at p stop t mode (GList vs) =
     (if stop mode then []
      else case p (GList vs) of
        NotRef \<Rightarrow> concat (map (refs_at p stop (element_type t) []) vs)
      | BadRef e \<Rightarrow> [] | Ref r \<Rightarrow> [r])"
| "refs_at p stop t mode v =
     (if stop mode then [] else case p v of NotRef \<Rightarrow> [] | BadRef e \<Rightarrow> [] | Ref r \<Rightarrow> [r])"

fun malformed :: "(gval \<Rightarrow> ('e, 'r) parsed) \<Rightarrow> gval \<Rightarrow> bool" where
  "malformed p (GMap m) =
     (case p (GMap m) of NotRef \<Rightarrow> list_ex (\<lambda>(k, v). malformed p v) m | BadRef e \<Rightarrow> True | Ref r \<Rightarrow> False)"
| "malformed p (GList vs) =
     (case p (GList vs) of NotRef \<Rightarrow> list_ex (malformed p) vs | BadRef e \<Rightarrow> True | Ref r \<Rightarrow> False)"
| "malformed p v = (case p v of NotRef \<Rightarrow> False | BadRef e \<Rightarrow> True | Ref r \<Rightarrow> False)"

abbreviation entry_refs where
  "entry_refs p stop t m \<equiv>
     concat (map (\<lambda>(k, v). refs_at p stop (fst (entry_type t k)) (snd (entry_type t k)) v) m)"

lemma refs_at_origin:
  "r \<in> set (refs_at p stop t mode v) \<Longrightarrow> \<exists>w. p w = Ref r"
proof (induction v arbitrary: t mode)
  case (GMap m)
  show ?case
  proof (cases "p (GMap m)")
    case NotRef
    with GMap.prems obtain k v t' mode' where "(k, v) \<in> set m" "r \<in> set (refs_at p stop t' mode' v)"
      by (auto split: if_splits)
    with GMap.IH [of "(k, v)" v] show ?thesis by (simp add: snds.intros)
  qed (use GMap.prems in \<open>auto split: if_splits\<close>)
next
  case (GList vs)
  show ?case
  proof (cases "p (GList vs)")
    case NotRef
    with GList show ?thesis by (auto split: if_splits)
  qed (use GList.prems in \<open>auto split: if_splits\<close>)
qed (auto split: if_splits parsed.splits)

lemma refs_at_mono:
  assumes "\<And>m. stop m \<Longrightarrow> stop' m"
  shows "set (refs_at p stop' t mode v) \<subseteq> set (refs_at p stop t mode v)"
proof (induction v arbitrary: t mode)
  case (GMap m)
  have "set (refs_at p stop' t' mode' (snd x)) \<subseteq> set (refs_at p stop t' mode' (snd x))"
    if "x \<in> set m" for x t' mode'
    using GMap that by (cases x) (simp add: snds.intros)
  then have "set (entry_refs p stop' t m) \<subseteq> set (entry_refs p stop t m)"
    unfolding set_concat set_map image_image case_prod_beta by (intro UN_mono) simp_all
  with assms show ?case by (cases "p (GMap m)") auto
next
  case (GList vs)
  then have "set (concat (map (refs_at p stop' t' []) vs)) \<subseteq> set (concat (map (refs_at p stop t' []) vs))" for t'
    unfolding set_concat set_map image_image by (intro UN_mono) simp_all
  with assms show ?case by (cases "p (GList vs)") auto
qed (use assms in auto)

lemma exposed_iff:
  "holds_ref p v \<longleftrightarrow> malformed p v \<or> refs_at p (\<lambda>_. False) None [] v \<noteq> []"
proof (induction v)
  case (GMap m)
  have "holds_ref p (snd x) \<longleftrightarrow> malformed p (snd x) \<or> refs_at p (\<lambda>_. False) None [] (snd x) \<noteq> []"
    if "x \<in> set m" for x
    using GMap that by (cases x) auto
  then show ?case by (cases "p (GMap m)") (auto simp: case_prod_beta list_ex_iff)
next
  case (GList vs)
  then show ?case by (cases "p (GList vs)") (auto simp: list_ex_iff)
qed (auto split: parsed.splits)

lemma exposed_holds: "exposed p stop t mode v \<Longrightarrow> holds_ref p v"
proof (induction v arbitrary: t mode)
  case (GMap m)
  show ?case
  proof (cases "p (GMap m) = NotRef")
    case True
    with GMap.prems obtain k w where kw: "(k, w) \<in> set m"
      "exposed p stop (fst (entry_type t k)) (snd (entry_type t k)) w" by (auto simp: list_ex_iff)
    with GMap.IH [of "(k, w)" w] have "holds_ref p w" by (simp add: snds.intros)
    with kw(1) show ?thesis by (auto simp: list_ex_iff)
  qed simp
next
  case (GList vs)
  then show ?case by (auto simp: list_ex_iff)
qed auto

text \<open>A walk that only collects succeeds just on well-formed values and sees the references in
  order.\<close>

definition collects :: "('r \<Rightarrow> 'r list \<Rightarrow> 'e + tval \<times> 'r list) \<Rightarrow> bool" where
  "collects f = (\<forall>r s w s'. f r s = Inr (w, s') \<longrightarrow> w \<noteq> Omit \<and> s' = s @ [r])"

definition keeps :: "(gval \<Rightarrow> ('e, 'r) parsed) \<Rightarrow> (gval \<Rightarrow> 'e + tval) \<Rightarrow> bool" where
  "keeps p fwd = (\<forall>v. case fwd v of Inl e \<Rightarrow> malformed p v | Inr w \<Rightarrow> w \<noteq> Omit \<and> \<not> malformed p v)"

lemma keeps_id: "keeps p (\<lambda>v. if malformed p v then Inl e else Inr (Val v))"
  by (simp add: keeps_def)

lemma collectsD: "collects f \<Longrightarrow> f r s = Inr (w, s') \<Longrightarrow> w \<noteq> Omit \<and> s' = s @ [r]"
  unfolding collects_def by blast

lemma keepsD: "keeps p fwd \<Longrightarrow> fwd v = Inr w \<Longrightarrow> w \<noteq> Omit \<and> \<not> malformed p v"
  unfolding keeps_def by (metis (mono_tags, lifting) sum.case(2))

lemma walk_collects:
  "collects f \<Longrightarrow> keeps p fwd \<Longrightarrow> walk p stop fwd arr omit f t mode v s = Inr (w, s') \<Longrightarrow>
     w \<noteq> Omit \<and> s' = s @ refs_at p stop t mode v \<and> \<not> malformed p v"
  "collects f \<Longrightarrow> keeps p fwd \<Longrightarrow> walk_map p stop fwd arr omit f t mode m s = Inr (m', s') \<Longrightarrow>
     s' = s @ entry_refs p stop t m \<and> \<not> list_ex (\<lambda>(k, v). malformed p v) m"
  "collects f \<Longrightarrow> keeps p fwd \<Longrightarrow> walk_list p stop fwd arr omit f t vs s = Inr (vs', s') \<Longrightarrow>
     s' = s @ concat (map (refs_at p stop t []) vs) \<and> \<not> list_ex (malformed p) vs"
proof (induction p stop fwd arr omit f t mode v s and p stop fwd arr omit f t mode m s
    and p stop fwd arr omit f t vs s arbitrary: w s' and m' s' and vs' s'
    rule: walk_walk_map_walk_list.induct)
  case (1 p stop fwd arr omit f t mode v s)
  show ?case
  proof (cases "stop mode")
    case True
    with 1 show ?thesis by (cases v) (auto simp: walk.simps ok_iff dest: keepsD)
  next
    case False
    show ?thesis
    proof (cases "p v")
      case NotRef
      with False 1 show ?thesis by (cases v) (auto simp: walk.simps ok_iff)
    next
      case (BadRef e)
      with False 1 show ?thesis by (simp add: walk.simps)
    next
      case (Ref r)
      with False 1 show ?thesis by (cases v) (auto simp: walk.simps dest: collectsD)
    qed
  qed
next
  case (3 p stop fwd arr omit f t mode k v m s)
  note IH = 3
  from IH(6) obtain w1 s1 where
    w: "walk p stop fwd arr omit f (fst (entry_type t k)) (snd (entry_type t k)) v s = Inr (w1, s1)"
    by (auto simp: ok_iff)
  from IH(1) [OF IH(4,5) w] obtain x where x: "w1 = Val x" by (cases w1) auto
  from IH(6) w x obtain m1 where "walk_map p stop fwd arr omit f t mode m s1 = Inr (m1, s')"
    by (auto simp: ok_iff)
  from IH(3) [OF w refl x IH(4,5) this] IH(1) [OF IH(4,5) w] show ?case by simp
next
  case (5 p stop fwd arr omit f t v vs s)
  note IH = 5
  from IH(5) obtain w1 s1 where w: "walk p stop fwd arr omit f t [] v s = Inr (w1, s1)"
    by (auto simp: ok_iff)
  from IH(1) [OF IH(3,4) w] obtain x where x: "w1 = Val x" by (cases w1) auto
  from IH(5) w x obtain vs1 where "walk_list p stop fwd arr omit f t vs s1 = Inr (vs1, s')"
    by (auto simp: ok_iff)
  from IH(2) [OF w refl x IH(3,4) this] IH(1) [OF IH(3,4) w] show ?case by simp
qed simp_all

text \<open>What every callback keeps of the state, a walk keeps.\<close>

definition keeps_state :: "('r \<Rightarrow> 's \<Rightarrow> 'e + tval \<times> 's) \<Rightarrow> (string \<Rightarrow> string \<Rightarrow> 's \<Rightarrow> 's) \<Rightarrow> ('s \<Rightarrow> bool) \<Rightarrow> bool" where
  "keeps_state f omit I = ((\<forall>r s w s'. I s \<longrightarrow> f r s = Inr (w, s') \<longrightarrow> I s') \<and> (\<forall>mode k s. I s \<longrightarrow> I (omit mode k s)))"

lemma keeps_stateD: "keeps_state f omit I \<Longrightarrow> I s \<Longrightarrow> f r s = Inr (w, s') \<Longrightarrow> I s'"
  "keeps_state f omit I \<Longrightarrow> I s \<Longrightarrow> I (omit mode k s)"
  unfolding keeps_state_def by blast+

lemma walk_invariant:
  "keeps_state f omit I \<Longrightarrow> I s \<Longrightarrow> walk p stop fwd arr omit f t mode v s = Inr (w, s') \<Longrightarrow> I s'"
  "keeps_state f omit I \<Longrightarrow> I s \<Longrightarrow> walk_map p stop fwd arr omit f t mode m s = Inr (m', s') \<Longrightarrow> I s'"
  "keeps_state f omit I \<Longrightarrow> I s \<Longrightarrow> walk_list p stop fwd arr omit f t vs s = Inr (vs', s') \<Longrightarrow> I s'"
proof (induction p stop fwd arr omit f t mode v s and p stop fwd arr omit f t mode m s
    and p stop fwd arr omit f t vs s arbitrary: w s' and m' s' and vs' s'
    rule: walk_walk_map_walk_list.induct)
  case (1 p stop fwd arr omit f t mode v s)
  show ?case
  proof (cases "stop mode")
    case True
    with 1(5) have "s' = s" by (auto simp: walk.simps ok_iff)
    with 1(4) show ?thesis by simp
  next
    case False
    show ?thesis
    proof (cases "p v")
      case NotRef
      show ?thesis
      proof (cases "(\<exists>m. v = GMap m) \<or> (\<exists>vs. v = GList vs)")
        case True
        then show ?thesis
        proof (elim disjE exE)
          fix m assume v: "v = GMap m"
          with 1(5) False NotRef obtain m' where
            "walk_map p stop fwd arr omit f t mode m s = Inr (m', s')" by (auto simp: walk.simps ok_iff)
          from 1(1) [OF False NotRef v 1(3,4) this] show ?thesis .
        next
          fix vs assume v: "v = GList vs"
          with 1(5) False NotRef obtain vs' where
            "walk_list p stop fwd arr omit f (element_type t) vs s = Inr (vs', s')"
            by (auto simp: walk.simps ok_iff)
          from 1(2) [OF False NotRef v 1(3,4) this] show ?thesis .
        qed
      next
        case other: False
        with 1(5) False NotRef have "s' = s" by (cases v) (auto simp: walk.simps)
        with 1(4) show ?thesis by simp
      qed
    next
      case (BadRef e)
      with False 1 show ?thesis by (simp add: walk.simps)
    next
      case (Ref r)
      with False 1(5) have "f r s = Inr (w, s')" by (cases v) (simp_all add: walk.simps)
      with 1 show ?thesis by (blast dest: keeps_stateD)
    qed
  qed
next
  case (3 p stop fwd arr omit f t mode k v m s)
  note IH = 3
  from IH(6) obtain w1 s1 where
    w: "walk p stop fwd arr omit f (fst (entry_type t k)) (snd (entry_type t k)) v s = Inr (w1, s1)"
    by (auto simp: ok_iff)
  from IH(1) [OF IH(4,5) w] have I: "I s1" .
  show ?case
  proof (cases w1)
    case Omit
    with IH(6) w have "walk_map p stop fwd arr omit f t mode m (omit mode k s1) = Inr (m', s')" by simp
    from IH(2) [OF w refl Omit IH(4) keeps_stateD(2) [OF IH(4) I] this] show ?thesis .
  next
    case (Val x)
    with IH(6) w obtain m1 where "walk_map p stop fwd arr omit f t mode m s1 = Inr (m1, s')"
      by (auto simp: ok_iff)
    from IH(3) [OF w refl Val IH(4) I this] show ?thesis .
  qed
next
  case (5 p stop fwd arr omit f t v vs s)
  note IH = 5
  from IH(5) obtain w1 s1 where w: "walk p stop fwd arr omit f t [] v s = Inr (w1, s1)"
    by (auto simp: ok_iff)
  with IH(5) obtain x where x: "w1 = Val x" by (cases w1) (auto simp: ok_iff)
  from IH(5) w x obtain vs1 where "walk_list p stop fwd arr omit f t vs s1 = Inr (vs1, s')"
    by (auto simp: ok_iff)
  from IH(2) [OF w refl x IH(3) IH(1) [OF IH(3,4) w] this] show ?case .
qed simp_all

text \<open>Without forwarded positions, how they are forwarded does not matter.\<close>

lemma walk_stopless_aux:
  "stop = (\<lambda>_. False) \<Longrightarrow> walk p stop fwd arr omit f t mode v s = walk p stop fwd' arr omit f t mode v s"
  "stop = (\<lambda>_. False) \<Longrightarrow> walk_map p stop fwd arr omit f t mode m s = walk_map p stop fwd' arr omit f t mode m s"
  "stop = (\<lambda>_. False) \<Longrightarrow> walk_list p stop fwd arr omit f t vs s = walk_list p stop fwd' arr omit f t vs s"
proof (induction p stop fwd arr omit f t mode v s and p stop fwd arr omit f t mode m s
    and p stop fwd arr omit f t vs s rule: walk_walk_map_walk_list.induct)
  case (1 p stop fwd arr omit f t mode v s)
  then show ?case
    by (cases v; cases "p v") (simp_all add: walk.simps)
next
  case (3 p stop fwd arr omit f t mode k v m s)
  then show ?case by (auto intro!: bindE_cong split: tval.splits)
next
  case (5 p stop fwd arr omit f t v vs s)
  then show ?case by (auto intro!: bindE_cong split: tval.splits)
qed simp_all

lemmas walk_stopless = walk_stopless_aux(1) [OF refl]

text \<open>When \<open>f\<close> accepts every reference the walk meets, only an omitted element can fail it.\<close>

definition accepts :: "('r \<Rightarrow> 's \<Rightarrow> 'e + tval \<times> 's) \<Rightarrow> 'r \<Rightarrow> bool" where
  "accepts f r = (\<forall>s. \<exists>x. f r s = Inr x)"

lemma acceptsE: "accepts f r \<Longrightarrow> (\<And>w s'. f r s = Inr (w, s') \<Longrightarrow> P) \<Longrightarrow> P"
  unfolding accepts_def by (metis surj_pair)

lemma keeps_ok: "keeps p fwd \<Longrightarrow> \<not> malformed p v \<Longrightarrow> \<exists>w. fwd v = Inr w"
  unfolding keeps_def by (cases "fwd v") (auto dest: spec [of _ v])

definition omits :: "('r \<Rightarrow> 's \<Rightarrow> 'e + tval \<times> 's) \<Rightarrow> bool" where
  "omits f = (\<exists>r s s'. f r s = Inr (Omit, s'))"

lemma walk_Omit: "keeps p fwd \<Longrightarrow> walk p stop fwd arr omit f t mode v s = Inr (Omit, s') \<Longrightarrow> omits f"
  by (cases "p v"; cases v) (auto simp: walk.simps ok_iff omits_def split: if_splits dest: keepsD)

lemma walk_succeeds:
  "keeps p fwd \<Longrightarrow> \<not> malformed p v \<Longrightarrow> \<forall>r \<in> set (refs_at p stop t mode v). accepts f r \<Longrightarrow>
     walk p stop fwd arr omit f t mode v s = Inl e \<Longrightarrow> e = arr \<and> omits f"
  "keeps p fwd \<Longrightarrow> \<not> list_ex (\<lambda>(k, v). malformed p v) m \<Longrightarrow>
     \<forall>r \<in> set (entry_refs p stop t m). accepts f r \<Longrightarrow>
     walk_map p stop fwd arr omit f t mode m s = Inl e \<Longrightarrow> e = arr \<and> omits f"
  "keeps p fwd \<Longrightarrow> \<not> list_ex (malformed p) vs \<Longrightarrow>
     \<forall>r \<in> set (concat (map (refs_at p stop t []) vs)). accepts f r \<Longrightarrow>
     walk_list p stop fwd arr omit f t vs s = Inl e \<Longrightarrow> e = arr \<and> omits f"
proof (induction p stop fwd arr omit f t mode v s and p stop fwd arr omit f t mode m s
    and p stop fwd arr omit f t vs s rule: walk_walk_map_walk_list.induct)
  case (1 p stop fwd arr omit f t mode v s)
  show ?case
  proof (cases "stop mode")
    case True
    with 1 show ?thesis by (auto simp: walk.simps bindE_err dest: keeps_ok)
  next
    case False
    show ?thesis
    proof (cases "p v")
      case NotRef
      with False 1 show ?thesis by (cases v) (auto simp: walk.simps bindE_err)
    next
      case (BadRef e)
      with False 1 show ?thesis by (cases v) (auto simp: walk.simps)
    next
      case (Ref r)
      with False 1 have "accepts f r" by (cases v) auto
      with False 1 Ref show ?thesis by (auto simp: walk.simps elim: acceptsE [of f r s])
    qed
  qed
next
  case (3 p stop fwd arr omit f t mode k v m s)
  note IH = 3
  show ?case
  proof (cases "walk p stop fwd arr omit f (fst (entry_type t k)) (snd (entry_type t k)) v s")
    case (Inl e')
    with IH(1) IH(4-) show ?thesis by simp
  next
    case (Inr r)
    obtain w s' where r: "r = (w, s')" by (cases r)
    from IH(4-) have rest: "\<not> list_ex (\<lambda>(k, v). malformed p v) m"
      "\<forall>r \<in> set (entry_refs p stop t m). accepts f r" by simp_all
    show ?thesis
    proof (cases w)
      case Omit
      with IH(2) [OF Inr r [symmetric] Omit] IH(4-) Inr r rest show ?thesis by simp
    next
      case (Val x)
      with IH(3) [OF Inr r [symmetric] Val] IH(4-) Inr r rest show ?thesis by (simp add: bindE_err)
    qed
  qed
next
  case (5 p stop fwd arr omit f t v vs s)
  note IH = 5
  show ?case
  proof (cases "walk p stop fwd arr omit f t [] v s")
    case (Inl e')
    with IH(1) IH(3-) show ?thesis by simp
  next
    case (Inr r)
    obtain w s' where r: "r = (w, s')" by (cases r)
    from IH(3-) have rest: "\<not> list_ex (malformed p) vs"
      "\<forall>r \<in> set (concat (map (refs_at p stop t []) vs)). accepts f r" by simp_all
    show ?thesis
    proof (cases w)
      case Omit
      with Inr r IH(3) have "omits f" by (auto intro: walk_Omit)
      with Omit IH(3-) Inr r show ?thesis by simp
    next
      case (Val x)
      with IH(2) [OF Inr r [symmetric] Val] IH(3-) Inr r rest show ?thesis by (simp add: bindE_err)
    qed
  qed
qed simp_all

section \<open>Formats\<close>

text \<open>The contract of an encoding of references: an object is one exactly when it carries the
  reserved key, and a list never is.\<close>

locale reference_format =
  fixes parse :: "gval \<Rightarrow> ('e, 'r) parsed" and key :: string
  assumes parse_map: "parse (GMap m) = NotRef \<longleftrightarrow> key \<notin> fst ` set m"
    and parse_list: "parse (GList vs) = NotRef"
    and parse_scalar: "parse GNil = NotRef" "parse (GBool b) = NotRef" "parse (GNum x) = NotRef"
      "parse (GStr t) = NotRef"
begin

text \<open>Nothing happens to a value without references; what a walk returns has none outside the
  forwarded positions.\<close>

lemma walk_clean:
  "p = parse \<Longrightarrow> stop = (\<lambda>_. False) \<Longrightarrow> t = None \<Longrightarrow> mode = [] \<Longrightarrow> \<not> holds_ref p v \<Longrightarrow>
      walk p stop fwd arr omit f t mode v s = Inr (Val v, s)"
  "p = parse \<Longrightarrow> stop = (\<lambda>_. False) \<Longrightarrow> t = None \<Longrightarrow> mode = [] \<Longrightarrow> \<not> list_ex (\<lambda>(k, v). holds_ref p v) m \<Longrightarrow>
      walk_map p stop fwd arr omit f t mode m s = Inr (m, s)"
  "p = parse \<Longrightarrow> stop = (\<lambda>_. False) \<Longrightarrow> t = None \<Longrightarrow> \<not> list_ex (holds_ref p) vs \<Longrightarrow>
      walk_list p stop fwd arr omit f t vs s = Inr (vs, s)"
proof (induction p stop fwd arr omit f t mode v s and p stop fwd arr omit f t mode m s
    and p stop fwd arr omit f t vs s rule: walk_walk_map_walk_list.induct)
  case (1 p stop fwd arr omit f t mode v s)
  then show ?case by (cases v) (simp_all add: walk.simps)
qed simp_all

definition yields_clean :: "('r \<Rightarrow> 's \<Rightarrow> 'e + tval \<times> 's) \<Rightarrow> (string \<Rightarrow> bool) \<Rightarrow> bool" where
  "yields_clean f stop = (\<forall>r s w s'. f r s = Inr (Val w, s') \<longrightarrow> (\<forall>t mode. \<not> exposed parse stop t mode w))"

lemma yields_cleanD: "yields_clean f stop \<Longrightarrow> f r s = Inr (Val w, s') \<Longrightarrow> \<not> exposed parse stop t mode w"
  unfolding yields_clean_def by blast

lemma walk_result:
  "p = parse \<Longrightarrow> yields_clean f stop \<Longrightarrow> walk p stop fwd arr omit f t mode v s = Inr (Val w, s') \<Longrightarrow>
     \<not> exposed p stop t mode w"
  "p = parse \<Longrightarrow> yields_clean f stop \<Longrightarrow> walk_map p stop fwd arr omit f t mode m s = Inr (m', s') \<Longrightarrow>
     fst ` set m' \<subseteq> fst ` set m \<and>
     \<not> list_ex (\<lambda>(k, v). exposed p stop (fst (entry_type t k)) (snd (entry_type t k)) v) m'"
  "p = parse \<Longrightarrow> yields_clean f stop \<Longrightarrow> walk_list p stop fwd arr omit f t vs s = Inr (vs', s') \<Longrightarrow>
     \<not> list_ex (exposed p stop t []) vs'"
proof (induction p stop fwd arr omit f t mode v s and p stop fwd arr omit f t mode m s
    and p stop fwd arr omit f t vs s arbitrary: w s' and m' s' and vs' s'
    rule: walk_walk_map_walk_list.induct)
  case (1 p stop fwd arr omit f t mode v s)
  show ?case
  proof (cases "stop mode")
    case True
    then show ?thesis by (cases w) simp_all
  next
    case False
    show ?thesis
    proof (cases "p v")
      case NotRef
      show ?thesis
      proof (cases "\<exists>m. v = GMap m")
        case True
        then obtain m where v: "v = GMap m" by blast
        with 1(5) False NotRef obtain m' where
          m: "walk_map p stop fwd arr omit f t mode m s = Inr (m', s')" "w = GMap m'"
          by (auto simp: walk.simps ok_iff)
        from NotRef v \<open>p = parse\<close> have "key \<notin> fst ` set m" by (simp add: parse_map)
        with 1(1) [OF False NotRef v 1(3,4) m(1)] \<open>p = parse\<close> have "p (GMap m') = NotRef"
          by (auto simp: parse_map)
        with 1(1) [OF False NotRef v 1(3,4) m(1)] m(2) show ?thesis by simp
      next
        case other: False
        with False NotRef 1 show ?thesis
          by (cases v) (auto simp: walk.simps ok_iff parse_list)
      qed
    next
      case (BadRef e)
      with False 1 show ?thesis by (simp add: walk.simps)
    next
      case (Ref r)
      with False 1 show ?thesis by (cases v) (auto simp: walk.simps dest: yields_cleanD)
    qed
  qed
next
  case (3 p stop fwd arr omit f t mode k v m s)
  note IH = 3
  from IH(6) obtain w1 s1 where
    w: "walk p stop fwd arr omit f (fst (entry_type t k)) (snd (entry_type t k)) v s = Inr (w1, s1)"
    by (auto simp: ok_iff)
  show ?case
  proof (cases w1)
    case Omit
    with IH(6) w have "walk_map p stop fwd arr omit f t mode m (omit mode k s1) = Inr (m', s')"
      by simp
    from IH(2) [OF w refl Omit IH(4,5) this] show ?thesis by auto
  next
    case (Val x)
    with IH(6) w obtain m1 where m: "walk_map p stop fwd arr omit f t mode m s1 = Inr (m1, s')"
      "m' = (k, x) # m1" by (auto simp: ok_iff)
    from IH(3) [OF w refl Val IH(4,5) m(1)] IH(1) [OF IH(4,5) w [unfolded Val]] m(2)
    show ?thesis by auto
  qed
next
  case (5 p stop fwd arr omit f t v vs s)
  note IH = 5
  from IH(5) obtain w1 s1 where w: "walk p stop fwd arr omit f t [] v s = Inr (w1, s1)"
    by (auto simp: ok_iff)
  with IH(5) obtain x where x: "w1 = Val x" by (cases w1) (auto simp: ok_iff)
  from IH(5) w x obtain vs1 where vs: "walk_list p stop fwd arr omit f t vs s1 = Inr (vs1, s')"
    "vs' = x # vs1" by (auto simp: ok_iff)
  from IH(2) [OF w refl x IH(3,4) vs(1)] IH(1) [OF IH(3,4) w [unfolded x]] vs(2)
  show ?case by simp
qed simp_all

end

end
