(* ===== verification/Recipe_Switch.thy ===== *)
theory Recipe_Switch
  imports Go_Value
begin

text \<open>
  \<^verbatim>\<open>pkg/recipe/state.go\<close>, \<^verbatim>\<open>pkg/recipe/catch.go\<close> and the condition text of
  \<^verbatim>\<open>pkg/cel\<close>: transitions, the switch tables that are expanded into them, the shorthand forms
  of \<^verbatim>\<open>initial\<close> and the validation of catch clauses. Conditions are CEL text; the expansion
  builds them by concatenation. \<open>quote\<close> is \<^verbatim>\<open>strconv.Quote\<close>.
\<close>

section \<open>Transitions\<close>

type_synonym payload = "(string \<times> gval) list"

record transition =
  tr_to :: string
  tr_when :: string
  tr_payload :: payload

datatype recipe_error =
    NoSwitchExpression | NestedTooDeep | NoCaseValue | UnsupportedCaseValue | DuplicateCase string
  | BadWhen | ToAndSwitch | NeitherToNorSwitch | NoDefaultTarget | NoStateName | BadInitial | BadTransitions
  | NotExactlyOneAction | PayloadWithoutTo | CatchNotObject | CatchKeyNotString | DuplicateCatchField string
  | UnknownCatchField string | FailNotObject | UnknownFailField string

text \<open>\<^verbatim>\<open>CELExpr\<close> as far as its text goes: a blank text is the empty one, always true.\<close>

definition celExprFromString :: "string \<Rightarrow> string" where
  "celExprFromString s = (if trim_space s = [] then [] else s)"

definition AlwaysTrue :: "string \<Rightarrow> bool" where
  "AlwaysTrue e = (e = [] \<or> go_lower e = ''true'')"

text \<open>The decoded \<^verbatim>\<open>when\<close>: absent, a string, a boolean, or anything else.\<close>

datatype raw_when = WhenNone | WhenText string | WhenBool bool | WhenOther

fun normalizeTransitionWhen :: "raw_when \<Rightarrow> recipe_error + string" where
  "normalizeTransitionWhen WhenNone = Inr []"
| "normalizeTransitionWhen (WhenText s) = Inr s"
| "normalizeTransitionWhen (WhenBool b) = Inr (if b then ''true'' else ''false'')"
| "normalizeTransitionWhen WhenOther = Inl BadWhen"

record raw_transition =
  rt_to :: string
  rt_when :: raw_when
  rt_payload :: payload

definition decode_transition :: "raw_transition \<Rightarrow> recipe_error + transition" where
  "decode_transition r =
     bindE (normalizeTransitionWhen (rt_when r)) (\<lambda>e.
       Inr \<lparr>tr_to = rt_to r, tr_when = celExprFromString e, tr_payload = rt_payload r\<rparr>)"

definition alwaysTrueTransition :: "string \<Rightarrow> recipe_error + transition" where
  "alwaysTrueTransition n =
     (if trim_space n = [] then Inl NoStateName
      else Inr \<lparr>tr_to = n, tr_when = ''true'', tr_payload = []\<rparr>)"

section \<open>Initial transitions\<close>

text \<open>The forms of \<^verbatim>\<open>initial\<close>: a scalar, one object, a list, or another node.\<close>

datatype initial_doc = InitName string | InitOne raw_transition | InitList "raw_transition list" | InitOther

definition ShortcutState :: "transition list \<Rightarrow> string option" where
  "ShortcutState i = (case i of
     [t] \<Rightarrow> if \<not> AlwaysTrue (tr_when t) \<or> tr_payload t \<noteq> [] then None else Some (tr_to t)
   | _ \<Rightarrow> None)"

text \<open>A written transition omits an empty condition and an empty payload.\<close>

definition encode_transition :: "transition \<Rightarrow> raw_transition" where
  "encode_transition t =
     \<lparr>rt_to = tr_to t, rt_when = (if trim_space (tr_when t) = [] then WhenNone else WhenText (tr_when t)),
      rt_payload = tr_payload t\<rparr>"

definition initial_Marshal :: "transition list \<Rightarrow> initial_doc" where
  "initial_Marshal i = (case ShortcutState i of
     Some n \<Rightarrow> InitName n
   | None \<Rightarrow> (case i of [t] \<Rightarrow> InitOne (encode_transition t) | _ \<Rightarrow> InitList (map encode_transition i)))"

fun initial_Unmarshal :: "initial_doc \<Rightarrow> recipe_error + transition list" where
  "initial_Unmarshal (InitName n) = bindE (alwaysTrueTransition n) (\<lambda>t. Inr [t])"
| "initial_Unmarshal (InitOne r) = bindE (decode_transition r) (\<lambda>t. Inr [t])"
| "initial_Unmarshal (InitList rs) = mapE decode_transition rs"
| "initial_Unmarshal InitOther = Inl BadInitial"

section \<open>Conditions\<close>

definition andConditions :: "string \<Rightarrow> string \<Rightarrow> string" where
  "andConditions left right =
     (let left = trim_space left; right = trim_space right in
      if left = [] then right
      else if right = [] then left
      else if left = ''false'' \<or> right = ''false'' then ''false''
      else if left = ''true'' then right
      else if right = ''true'' then left
      else ''('' @ left @ '') && ('' @ right @ '')'')"

definition orConditions :: "string list \<Rightarrow> string" where
  "orConditions conds =
     (let nonEmpty = map (\<lambda>c. ''('' @ c @ '')'') (filter (\<lambda>c. c \<noteq> [] \<and> c \<noteq> ''false'') (map trim_space conds))
      in if nonEmpty = [] then ''false'' else join_with '' || '' nonEmpty)"

definition notAnyCondition :: "string list \<Rightarrow> string" where
  "notAnyCondition conds = ''!('' @ orConditions conds @ '')''"

section \<open>Switch tables\<close>

text \<open>A decoded case value, with the Go type name of numbers and the digits of formatted floats.\<close>

datatype case_value =
    CaseNil | CaseString string | CaseBool bool | CaseInt string int | CaseFloat string string | CaseOther

datatype switchTransitions = Switch string "switchCase list" "(string \<times> payload) option"
  and switchCase = Case case_value raw_when string payload "switchTransitions option"

definition show_integer :: "int \<Rightarrow> string" where
  "show_integer i = (if i < 0 then CHR ''-'' # show_nat (nat (- i)) else show_nat (nat i))"

fun switchCaseLiteral :: "(string \<Rightarrow> string) \<Rightarrow> case_value \<Rightarrow> recipe_error + string" where
  "switchCaseLiteral quote CaseNil = Inl NoCaseValue"
| "switchCaseLiteral quote (CaseString s) = Inr (quote s)"
| "switchCaseLiteral quote (CaseBool b) = Inr (if b then ''true'' else ''false'')"
| "switchCaseLiteral quote (CaseInt t i) = Inr (show_integer i)"
| "switchCaseLiteral quote (CaseFloat t d) = Inr d"
| "switchCaseLiteral quote CaseOther = Inl UnsupportedCaseValue"

fun case_type :: "case_value \<Rightarrow> string" where
  "case_type (CaseString s) = ''string''"
| "case_type (CaseBool b) = ''bool''"
| "case_type (CaseInt t i) = t"
| "case_type (CaseFloat t d) = t"
| "case_type v = []"

definition switchCaseCondition :: "string \<Rightarrow> string \<Rightarrow> raw_when \<Rightarrow> recipe_error + string" where
  "switchCaseCondition switchExpr literal w =
     (let cond = ''(('' @ switchExpr @ '') == '' @ literal @ '')'' in
      bindE (normalizeTransitionWhen w) (\<lambda>whenExpr.
        if whenExpr = [] \<or> whenExpr = ''true'' then Inr cond
        else if whenExpr = ''false'' then Inr ''false''
        else Inr (andConditions cond (''('' @ whenExpr @ '')''))))"

definition transitionFromCondition :: "string \<Rightarrow> string \<Rightarrow> payload \<Rightarrow> transition" where
  "transitionFromCondition to cond p = \<lparr>tr_to = to, tr_when = celExprFromString cond, tr_payload = p\<rparr>"

fun has_default :: "switchTransitions \<Rightarrow> bool" where
  "has_default (Switch e cs d) = (d \<noteq> None)"

text \<open>\<open>expand_cases\<close> is the loop over the cases: the transitions, and the condition under which
  each case takes one.\<close>

fun expandSwitchTransitions :: "(string \<Rightarrow> string) \<Rightarrow> switchTransitions \<Rightarrow> string \<Rightarrow> nat \<Rightarrow> recipe_error + transition list"
  and expand_cases :: "(string \<Rightarrow> string) \<Rightarrow> string \<Rightarrow> string \<Rightarrow> nat \<Rightarrow> string list \<Rightarrow> switchCase list \<Rightarrow>
    recipe_error + transition list \<times> string list"
where
  "expandSwitchTransitions quote (Switch e cs d) parentCond depth =
     (if trim_space e = [] then Inl NoSwitchExpression
      else if depth > 1 then Inl NestedTooDeep
      else bindE (expand_cases quote e parentCond depth [] cs) (\<lambda>(ts, fullMatches).
        case d of
          None \<Rightarrow> Inr ts
        | Some (to, p) \<Rightarrow>
            if trim_space to = [] then Inl NoDefaultTarget
            else Inr (ts @ [transitionFromCondition to (andConditions parentCond (notAnyCondition fullMatches)) p])))"
| "expand_cases quote e parentCond depth seen [] = Inr ([], [])"
| "expand_cases quote e parentCond depth seen (Case v w to p nested # cs) =
     bindE (switchCaseLiteral quote v) (\<lambda>lit.
     let key = case_type v @ '':'' @ lit in
     if key \<in> set seen then Inl (DuplicateCase lit)
     else bindE (switchCaseCondition e lit w) (\<lambda>cond.
     let caseCond = andConditions parentCond cond in
     if to \<noteq> [] \<and> nested \<noteq> None then Inl ToAndSwitch
     else if to = [] \<and> nested = None then Inl NeitherToNorSwitch
     else bindE (case nested of
         None \<Rightarrow> Inr ([transitionFromCondition to caseCond p], caseCond)
       | Some child \<Rightarrow>
           bindE (expandSwitchTransitions quote child caseCond (Suc depth)) (\<lambda>ts.
             Inr (ts, if has_default child then caseCond else orConditions (map tr_when ts)))) (\<lambda>(ts, full).
     bindE (expand_cases quote e parentCond depth (key # seen) cs) (\<lambda>(ts', fulls).
     Inr (ts @ ts', full # fulls)))))"

definition normalizeSwitchTransitions :: "(string \<Rightarrow> string) \<Rightarrow> switchTransitions \<Rightarrow> recipe_error + transition list" where
  "normalizeSwitchTransitions quote sw = expandSwitchTransitions quote sw [] 0"

text \<open>\<^verbatim>\<open>transitions\<close>: a list, a switch table, null, or another node.\<close>

datatype transitions_doc = TransList "raw_transition list" | TransSwitch switchTransitions | TransNull | TransOther

fun decodeTransitionsNode :: "(string \<Rightarrow> string) \<Rightarrow> transitions_doc \<Rightarrow> recipe_error + transition list" where
  "decodeTransitionsNode quote (TransList rs) = mapE decode_transition rs"
| "decodeTransitionsNode quote (TransSwitch sw) = normalizeSwitchTransitions quote sw"
| "decodeTransitionsNode quote TransNull = Inr []"
| "decodeTransitionsNode quote TransOther = Inl BadTransitions"

section \<open>What the expanded conditions say\<close>

text \<open>The conditions as trees: \<open>cond_text\<close> is their text, fully parenthesised, and \<open>holds v\<close>
  their truth when \<open>v\<close> gives the truth of the comparisons and guards they are built from.\<close>

datatype cond = CFalse | CAtom string | CAnd cond cond | COr "cond list" | CNot cond

fun cond_text :: "cond \<Rightarrow> string" where
  "cond_text CFalse = ''false''"
| "cond_text (CAtom s) = s"
| "cond_text (CAnd a b) = ''('' @ cond_text a @ '') && ('' @ cond_text b @ '')''"
| "cond_text (COr cs) = join_with '' || '' (map (\<lambda>c. ''('' @ cond_text c @ '')'') cs)"
| "cond_text (CNot c) = ''!('' @ cond_text c @ '')''"

fun holds :: "(string \<Rightarrow> bool) \<Rightarrow> cond \<Rightarrow> bool" where
  "holds v CFalse = False"
| "holds v (CAtom s) = v s"
| "holds v (CAnd a b) = (holds v a \<and> holds v b)"
| "holds v (COr cs) = list_ex (holds v) cs"
| "holds v (CNot c) = (\<not> holds v c)"

fun good :: "cond \<Rightarrow> bool" where
  "good CFalse = True"
| "good (CAtom s) = (\<exists>t. s = CHR ''('' # t @ '')'')"
| "good (CAnd a b) = (good a \<and> good b)"
| "good (COr cs) = (cs \<noteq> [] \<and> list_all (\<lambda>c. good c \<and> c \<noteq> CFalse) cs)"
| "good (CNot c) = good c"

lemma join_parens_ends:
  "xs \<noteq> [] \<Longrightarrow> \<exists>t. join_with sep (map (\<lambda>c. CHR ''('' # f c @ '')'') xs) = CHR ''('' # t @ '')''"
proof (induction xs rule: list_nonempty_induct)
  case (cons x xs)
  then obtain t where "join_with sep (map (\<lambda>c. CHR ''('' # f c @ '')'') xs) = CHR ''('' # t @ '')''" by blast
  with cons.hyps show ?case
    by (intro exI [of _ "f x @ '')'' @ sep @ CHR ''('' # t"]) (cases xs; simp)
qed simp

lemma render_ends:
  "good c \<Longrightarrow> c \<noteq> CFalse \<Longrightarrow> \<exists>h t. cond_text c = h # t @ '')'' \<and> (h = CHR ''('' \<or> h = CHR ''!'')"
proof (cases c)
  case (COr cs)
  moreover assume "good c"
  ultimately show ?thesis using join_parens_ends [of cs "'' || ''" cond_text] by simp metis
qed auto

lemma solid_ends: "solid_end CHR ''(''" "solid_end CHR '')''" "solid_end CHR ''!''"
  "solid_end CHR ''f''" "solid_end CHR ''e''"
  by (code_simp, code_simp, code_simp, code_simp, code_simp)

lemma render_facts:
  assumes "good c"
  shows "trim_space (cond_text c) = cond_text c" "cond_text c \<noteq> []" "cond_text c \<noteq> ''true''"
    "cond_text c = ''false'' \<longleftrightarrow> c = CFalse"
proof -
  consider "c = CFalse" | h t where "c \<noteq> CFalse" "cond_text c = h # t @ '')''" "h = CHR ''('' \<or> h = CHR ''!''"
    using render_ends [OF assms] by blast
  then have "trim_space (cond_text c) = cond_text c \<and> cond_text c \<noteq> [] \<and> cond_text c \<noteq> ''true'' \<and>
      (cond_text c = ''false'' \<longleftrightarrow> c = CFalse)"
  proof cases
    case 1
    then show ?thesis by (simp add: trim_space_id solid_ends)
  next
    case 2
    then have "trim_space (cond_text c) = cond_text c" by (intro trim_space_id) (auto simp: solid_ends)
    with 2 show ?thesis by auto
  qed
  then show "trim_space (cond_text c) = cond_text c" "cond_text c \<noteq> []" "cond_text c \<noteq> ''true''"
    "cond_text c = ''false'' \<longleftrightarrow> c = CFalse" by blast+
qed

definition cond_and :: "cond option \<Rightarrow> cond \<Rightarrow> cond" where
  "cond_and p c = (case p of None \<Rightarrow> c | Some a \<Rightarrow> if a = CFalse \<or> c = CFalse then CFalse else CAnd a c)"

definition cond_or :: "cond list \<Rightarrow> cond" where
  "cond_or cs = (let cs = filter (\<lambda>c. c \<noteq> CFalse) cs in if cs = [] then CFalse else COr cs)"

definition render_opt :: "cond option \<Rightarrow> string" where
  "render_opt p = (case p of None \<Rightarrow> [] | Some c \<Rightarrow> cond_text c)"

definition holds_opt :: "(string \<Rightarrow> bool) \<Rightarrow> cond option \<Rightarrow> bool" where
  "holds_opt v p = (case p of None \<Rightarrow> True | Some c \<Rightarrow> holds v c)"

definition good_opt :: "cond option \<Rightarrow> bool" where
  "good_opt p = (case p of None \<Rightarrow> True | Some c \<Rightarrow> good c)"

lemma opt_simps [simp]: "render_opt None = []" "render_opt (Some c) = cond_text c" "holds_opt v None"
  "holds_opt v (Some c) = holds v c" "good_opt None" "good_opt (Some c) = good c"
  by (simp_all add: render_opt_def holds_opt_def good_opt_def)

lemma and_render:
  assumes "good_opt p" "good c"
  shows "andConditions (render_opt p) (cond_text c) = cond_text (cond_and p c)" "good (cond_and p c)"
    "holds v (cond_and p c) \<longleftrightarrow> holds_opt v p \<and> holds v c"
proof -
  have nil: "trim_space [] = []" by (simp add: trim_space_id)
  show "andConditions (render_opt p) (cond_text c) = cond_text (cond_and p c)"
    using assms render_facts [of c]
    by (cases p) (auto simp: andConditions_def Let_def render_opt_def good_opt_def cond_and_def nil render_facts)
qed (use assms in \<open>auto simp: good_opt_def cond_and_def holds_opt_def split: option.splits\<close>)

lemma or_render:
  assumes "list_all good cs"
  shows "orConditions (map cond_text cs) = cond_text (cond_or cs)" "good (cond_or cs)"
    "holds v (cond_or cs) \<longleftrightarrow> list_ex (holds v) cs"
proof -
  have "map trim_space (map cond_text cs) = map cond_text cs"
    using assms by (induction cs) (auto simp: render_facts)
  moreover have "filter (\<lambda>c. c \<noteq> [] \<and> c \<noteq> ''false'') (map cond_text cs) = map cond_text (filter (\<lambda>c. c \<noteq> CFalse) cs)"
    using assms by (induction cs) (auto simp: render_facts)
  ultimately show "orConditions (map cond_text cs) = cond_text (cond_or cs)"
    unfolding orConditions_def cond_or_def Let_def by (simp only:) (simp add: o_def)
  show "good (cond_or cs)" using assms by (auto simp: cond_or_def Let_def list_all_iff)
  show "holds v (cond_or cs) \<longleftrightarrow> list_ex (holds v) cs"
    by (auto simp: cond_or_def Let_def list_ex_iff filter_empty_conv)
qed

section \<open>Expansion against first match\<close>

text \<open>The reference: the first case whose value matches and whose guard holds and which leads
  somewhere, else the default. A nested table without a match falls through.\<close>

definition case_atom :: "string \<Rightarrow> string \<Rightarrow> string" where
  "case_atom e lit = ''(('' @ e @ '') == '' @ lit @ '')''"

fun guard_holds :: "(string \<Rightarrow> bool) \<Rightarrow> raw_when \<Rightarrow> bool" where
  "guard_holds v WhenNone = True"
| "guard_holds v (WhenText s) =
     (if s = [] \<or> s = ''true'' then True else if s = ''false'' then False else v (''('' @ s @ '')''))"
| "guard_holds v (WhenBool b) = b"
| "guard_holds v WhenOther = False"

definition case_holds :: "(string \<Rightarrow> string) \<Rightarrow> (string \<Rightarrow> bool) \<Rightarrow> string \<Rightarrow> case_value \<Rightarrow> raw_when \<Rightarrow> bool" where
  "case_holds quote v e val w = (case switchCaseLiteral quote val of
     Inl _ \<Rightarrow> False | Inr lit \<Rightarrow> v (case_atom e lit) \<and> guard_holds v w)"

fun first_target :: "(string \<Rightarrow> string) \<Rightarrow> (string \<Rightarrow> bool) \<Rightarrow> switchTransitions \<Rightarrow> (string \<times> payload) option"
  and first_case :: "(string \<Rightarrow> string) \<Rightarrow> (string \<Rightarrow> bool) \<Rightarrow> string \<Rightarrow> switchCase list \<Rightarrow> (string \<times> payload) option"
where
  "first_target quote v (Switch e cs d) = (case first_case quote v e cs of Some r \<Rightarrow> Some r | None \<Rightarrow> d)"
| "first_case quote v e [] = None"
| "first_case quote v e (Case val w to p nested # cs) =
     (let here = (if case_holds quote v e val w
                  then (case nested of None \<Rightarrow> Some (to, p) | Some child \<Rightarrow> first_target quote v child) else None)
      in case here of Some r \<Rightarrow> Some r | None \<Rightarrow> first_case quote v e cs)"

text \<open>What evaluating the transitions in order gives when the conditions are as in \<open>cs\<close>.\<close>

definition pick :: "(string \<Rightarrow> bool) \<Rightarrow> transition list \<Rightarrow> cond list \<Rightarrow> (string \<times> payload) option" where
  "pick v ts cs = map_option (\<lambda>(t, c). (tr_to t, tr_payload t)) (find (\<lambda>(t, c). holds v c) (zip ts cs))"

definition renders :: "transition list \<Rightarrow> cond list \<Rightarrow> bool" where
  "renders ts cs = list_all2 (\<lambda>t c. good c \<and> tr_when t = cond_text c) ts cs"

lemma find_append: "find P (xs @ ys) = (case find P xs of Some x \<Rightarrow> Some x | None \<Rightarrow> find P ys)"
  by (induction xs) auto

lemma pick_append:
  "renders ts cs \<Longrightarrow> pick v (ts @ ts') (cs @ cs') = (case pick v ts cs of Some r \<Rightarrow> Some r | None \<Rightarrow> pick v ts' cs')"
  by (auto simp: pick_def renders_def list_all2_lengthD find_append split: option.splits)

lemma pick_None: "renders ts cs \<Longrightarrow> pick v ts cs = None \<longleftrightarrow> \<not> list_ex (holds v) cs"
  unfolding renders_def by (induction rule: list_all2_induct) (auto simp: pick_def)

lemma renders_map: "renders ts cs \<Longrightarrow> map tr_when ts = map cond_text cs \<and> list_all good cs"
  by (auto simp: renders_def list_all2_conv_all_nth list_all_length intro: nth_equalityI)

lemma renders_single: "good c \<Longrightarrow> renders [transitionFromCondition to (cond_text c) p] [c]"
  by (simp add: renders_def transitionFromCondition_def celExprFromString_def render_facts)

lemma pick_single: "pick v [transitionFromCondition to s p] [c] = (if holds v c then Some (to, p) else None)"
  by (simp add: pick_def transitionFromCondition_def)

lemma case_condition:
  assumes "switchCaseCondition e lit w = Inr s"
  shows "\<exists>c. good c \<and> s = cond_text c \<and> (\<forall>v. holds v c \<longleftrightarrow> v (case_atom e lit) \<and> guard_holds v w)"
proof -
  define x where "x = CAtom (case_atom e lit)"
  have gx: "good x" "cond_text x = ''(('' @ e @ '') == '' @ lit @ '')''"
    by (simp_all add: x_def case_atom_def)
  obtain g where g: "normalizeTransitionWhen w = Inr g" using assms
    by (auto simp: switchCaseCondition_def Let_def ok_iff)
  consider "g = [] \<or> g = ''true''" | "g = ''false''" | "g \<noteq> []" "g \<noteq> ''true''" "g \<noteq> ''false''" by blast
  then show ?thesis
  proof cases
    case 1
    then have "s = cond_text x" using assms g gx by (auto simp: switchCaseCondition_def)
    moreover have "guard_holds v w" for v using 1 g by (cases w) (auto split: if_splits)
    ultimately show ?thesis using gx by (intro exI [of _ x]) (simp add: x_def)
  next
    case 2
    then have "s = cond_text CFalse" using assms g by (auto simp: switchCaseCondition_def)
    moreover have "\<not> guard_holds v w" for v using 2 g by (cases w) (auto split: if_splits)
    ultimately show ?thesis by (intro exI [of _ CFalse]) simp
  next
    case 3
    define y where "y = CAtom (''('' @ g @ '')'')"
    have gy: "good y" "cond_text y = ''('' @ g @ '')''" by (simp_all add: y_def)
    have "s = cond_text (cond_and (Some x) y)" "good (cond_and (Some x) y)"
      using assms g gx gy 3 and_render(1,2) [of "Some x" y]
      by (simp_all add: switchCaseCondition_def Let_def render_opt_def good_opt_def)
    moreover have "guard_holds v w \<longleftrightarrow> v (''('' @ g @ '')'')" for v using 3 g by (cases w) (auto split: if_splits)
    ultimately show ?thesis using and_render(3) [of "Some x" y] gx gy
      by (intro exI [of _ "cond_and (Some x) y"]) (simp add: x_def y_def good_opt_def holds_opt_def)
  qed
qed

definition expands_as :: "(string \<Rightarrow> string) \<Rightarrow> cond option \<Rightarrow> switchTransitions \<Rightarrow> transition list \<Rightarrow> cond list \<Rightarrow> bool" where
  "expands_as quote par sw ts cs \<longleftrightarrow> renders ts cs \<and>
     (\<forall>v. pick v ts cs = (if holds_opt v par then first_target quote v sw else None))"

definition cases_as :: "(string \<Rightarrow> string) \<Rightarrow> cond option \<Rightarrow> string \<Rightarrow> switchCase list \<Rightarrow> transition list \<Rightarrow> cond list \<Rightarrow>
    cond list \<Rightarrow> bool" where
  "cases_as quote par e ks ts cs fs \<longleftrightarrow> renders ts cs \<and> list_all good fs \<and>
     (\<forall>v. pick v ts cs = (if holds_opt v par then first_case quote v e ks else None)) \<and>
     (\<forall>v. holds_opt v par \<longrightarrow> (list_ex (holds v) fs \<longleftrightarrow> first_case quote v e ks \<noteq> None))"

lemma expands_default:
  assumes "cases_as quote par e ks ts cs fs" "good_opt par"
  shows "expands_as quote par (Switch e ks (Some (to, p)))
    (ts @ [transitionFromCondition to (andConditions (render_opt par) (notAnyCondition (map cond_text fs))) p])
    (cs @ [cond_and par (CNot (cond_or fs))])"
proof -
  let ?n = "CNot (cond_or fs)"
  from assms(1) have f: "list_all good fs" and r: "renders ts cs" by (simp_all add: cases_as_def)
  have n: "good ?n" "notAnyCondition (map cond_text fs) = cond_text ?n"
    using or_render(1,2) [OF f] by (simp_all add: notAnyCondition_def)
  have a: "andConditions (render_opt par) (cond_text ?n) = cond_text (cond_and par ?n)" "good (cond_and par ?n)"
    using and_render(1,2) [OF assms(2) n(1)] .
  have h: "holds v (cond_and par ?n) \<longleftrightarrow> holds_opt v par \<and> \<not> list_ex (holds v) fs" for v
    using and_render(3) [OF assms(2) n(1)] or_render(3) [OF f] by simp
  have "renders (ts @ [transitionFromCondition to (cond_text (cond_and par ?n)) p]) (cs @ [cond_and par ?n])"
    using r renders_single [OF a(2)] by (auto simp: renders_def list_all2_appendI)
  with assms(1) show ?thesis unfolding n(2) a(1)
    by (auto simp: expands_as_def cases_as_def pick_append [OF r] pick_single h split: option.splits)
qed

lemma expands_plain: "cases_as quote par e ks ts cs fs \<Longrightarrow> expands_as quote par (Switch e ks None) ts cs"
  by (auto simp: expands_as_def cases_as_def split: option.splits)

lemma cases_step:
  assumes "expands_as quote (Some c) child ts1 cs1 \<and> nested = Some child \<or>
      nested = None \<and> ts1 = [transitionFromCondition to (cond_text c) p] \<and> cs1 = [c]"
    and "good c" "\<And>v. holds v c \<longleftrightarrow> holds_opt v par \<and> case_holds quote v e val w"
    and "good f" "\<And>v. holds v f \<longleftrightarrow> list_ex (holds v) cs1"
    and "cases_as quote par e ks ts2 cs2 fs"
  shows "cases_as quote par e (Case val w to p nested # ks) (ts1 @ ts2) (cs1 @ cs2) (f # fs)"
proof -
  let ?here = "\<lambda>v. if case_holds quote v e val w
      then (case nested of None \<Rightarrow> Some (to, p) | Some child \<Rightarrow> first_target quote v child) else None"
  have r1: "renders ts1 cs1"
    using assms(1) renders_single [OF assms(2), of to p] by (auto simp: expands_as_def)
  have p1: "pick v ts1 cs1 = (if holds_opt v par then ?here v else None)" for v
  proof (cases nested)
    case None
    with assms(1) have "pick v ts1 cs1 = (if holds v c then Some (to, p) else None)" by (simp add: pick_single)
    with None show ?thesis by (simp add: assms(3))
  next
    case (Some ch)
    with assms(1) have "pick v ts1 cs1 = (if holds v c then first_target quote v ch else None)"
      by (simp add: expands_as_def)
    with Some show ?thesis by (simp add: assms(3))
  qed
  have f: "holds v f \<longleftrightarrow> holds_opt v par \<and> ?here v \<noteq> None" for v
  proof -
    have "holds v f \<longleftrightarrow> pick v ts1 cs1 \<noteq> None" by (simp only: assms(5) pick_None [OF r1] not_not)
    then show ?thesis by (simp only: p1) simp
  qed
  from assms(6) have r2: "renders ts2 cs2" by (simp add: cases_as_def)
  have "renders (ts1 @ ts2) (cs1 @ cs2)" using r1 r2 by (auto simp: renders_def list_all2_appendI)
  moreover have "pick v (ts1 @ ts2) (cs1 @ cs2) =
      (if holds_opt v par then first_case quote v e (Case val w to p nested # ks) else None)" for v
  proof -
    have "pick v ts2 cs2 = (if holds_opt v par then first_case quote v e ks else None)"
      using assms(6) unfolding cases_as_def by blast
    then show ?thesis by (simp only: pick_append [OF r1] p1 first_case.simps Let_def) simp
  qed
  moreover have "list_ex (holds v) (f # fs) \<longleftrightarrow> first_case quote v e (Case val w to p nested # ks) \<noteq> None"
    if "holds_opt v par" for v
  proof -
    have "list_ex (holds v) fs \<longleftrightarrow> first_case quote v e ks \<noteq> None" using assms(6) that unfolding cases_as_def by blast
    moreover have "first_case quote v e (Case val w to p nested # ks) =
        (case ?here v of Some r \<Rightarrow> Some r | None \<Rightarrow> first_case quote v e ks)"
      by (simp only: first_case.simps Let_def)
    ultimately show ?thesis using that f [of v] by (cases "?here v") (simp_all only: list_ex_iff list.set insert_iff option.simps, blast+)
  qed
  ultimately show ?thesis using assms(4,6) by (simp add: cases_as_def)
qed

lemma expand_cases_Cons:
  assumes "expand_cases quote e pc depth seen (Case val w to p nested # ks) = Inr (ts, fulls)"
  obtains lit cond ts1 full ts2 fulls2 where
    "switchCaseLiteral quote val = Inr lit" "case_type val @ '':'' @ lit \<notin> set seen"
    "switchCaseCondition e lit w = Inr cond" "to \<noteq> [] \<longleftrightarrow> nested = None"
    "case nested of
       None \<Rightarrow> ts1 = [transitionFromCondition to (andConditions pc cond) p] \<and> full = andConditions pc cond
     | Some child \<Rightarrow> expandSwitchTransitions quote child (andConditions pc cond) (Suc depth) = Inr ts1 \<and>
         full = (if has_default child then andConditions pc cond else orConditions (map tr_when ts1))"
    "expand_cases quote e pc depth ((case_type val @ '':'' @ lit) # seen) ks = Inr (ts2, fulls2)"
    "ts = ts1 @ ts2" "fulls = full # fulls2"
proof -
  from assms obtain lit cond where l: "switchCaseLiteral quote val = Inr lit" "case_type val @ '':'' @ lit \<notin> set seen"
    "switchCaseCondition e lit w = Inr cond"
    by (auto simp: ok_iff Let_def split: if_splits)
  note u = assms [unfolded expand_cases.simps l(1) l(3) Let_def bindE_simps]
  from u l(2) have t: "\<not> (to \<noteq> [] \<and> nested \<noteq> None)" "\<not> (to = [] \<and> nested = None)"
    by (auto simp only: if_True if_False l(3) bindE_simps split: if_splits)
  show thesis
  proof (cases nested)
    case None
    with u l t that show thesis by (auto simp: ok_iff)
  next
    case (Some child)
    with u l t that show thesis by (auto simp: ok_iff)
  qed
qed

lemma expansion:
  "expandSwitchTransitions quote sw pc depth = Inr ts \<Longrightarrow> pc = render_opt par \<Longrightarrow> good_opt par \<Longrightarrow>
     \<exists>cs. expands_as quote par sw ts cs"
  "expand_cases quote e pc depth seen ks = Inr (ts, fulls) \<Longrightarrow> pc = render_opt par \<Longrightarrow> good_opt par \<Longrightarrow>
     \<exists>cs fs. cases_as quote par e ks ts cs fs \<and> fulls = map cond_text fs"
proof (induction quote sw pc depth and quote e pc depth seen ks arbitrary: ts par and ts fulls par
    rule: expandSwitchTransitions_expand_cases.induct)
  case (1 quote e ks d pc depth)
  from "1.prems"(1) obtain ts0 fulls where c: "trim_space e \<noteq> []" "\<not> 1 < depth"
    "expand_cases quote e pc depth [] ks = Inr (ts0, fulls)"
    and rest: "(case d of None \<Rightarrow> Inr ts0 | Some (to, p) \<Rightarrow> if trim_space to = [] then Inl NoDefaultTarget
        else Inr (ts0 @ [transitionFromCondition to (andConditions pc (notAnyCondition fulls)) p])) = Inr ts"
    by (auto simp: ok_iff split: if_splits)
  from "1.IH" [OF c "1.prems"(2,3)] obtain cs fs where as: "cases_as quote par e ks ts0 cs fs" "fulls = map cond_text fs"
    by blast
  show ?case
  proof (cases d)
    case None
    with rest expands_plain [OF as(1)] show ?thesis by auto
  next
    case (Some tp)
    with rest as(2) "1.prems"(2) obtain to p where "d = Some (to, p)"
      "ts = ts0 @ [transitionFromCondition to (andConditions (render_opt par) (notAnyCondition (map cond_text fs))) p]"
      by (cases tp) (auto split: if_splits)
    with expands_default [OF as(1) "1.prems"(3)] show ?thesis by blast
  qed
next
  case (2 quote e pc depth seen)
  then show ?case by (auto simp: cases_as_def renders_def pick_def intro!: exI [of _ "[]"])
next
  case (3 quote e pc depth seen val w to p nested ks)
  from "3.prems"(1) obtain lit cond ts1 full ts2 fulls2 where l: "switchCaseLiteral quote val = Inr lit"
    "case_type val @ '':'' @ lit \<notin> set seen" "switchCaseCondition e lit w = Inr cond" "to \<noteq> [] \<longleftrightarrow> nested = None"
    and n: "case nested of
       None \<Rightarrow> ts1 = [transitionFromCondition to (andConditions pc cond) p] \<and> full = andConditions pc cond
     | Some child \<Rightarrow> expandSwitchTransitions quote child (andConditions pc cond) (Suc depth) = Inr ts1 \<and>
         full = (if has_default child then andConditions pc cond else orConditions (map tr_when ts1))"
    and rest: "expand_cases quote e pc depth ((case_type val @ '':'' @ lit) # seen) ks = Inr (ts2, fulls2)"
    and out: "ts = ts1 @ ts2" "fulls = full # fulls2"
    by (rule expand_cases_Cons)
  from case_condition [OF l(3)] obtain k where k: "good k" "cond = cond_text k"
    "\<And>v. holds v k \<longleftrightarrow> v (case_atom e lit) \<and> guard_holds v w" by blast
  define c where "c = cond_and par k"
  have c: "andConditions pc cond = cond_text c" "good c" "\<And>v. holds v c \<longleftrightarrow> holds_opt v par \<and> case_holds quote v e val w"
    using and_render [OF "3.prems"(3) k(1)] k(2,3) l(1) "3.prems"(2) by (simp_all add: c_def case_holds_def)
  from l(4) have t: "\<not> (to \<noteq> [] \<and> nested \<noteq> None)" "\<not> (to = [] \<and> nested = None)" by auto
  have "(case nested of None \<Rightarrow> Inr ([transitionFromCondition to (andConditions pc cond) p], andConditions pc cond)
     | Some child \<Rightarrow> bindE (expandSwitchTransitions quote child (andConditions pc cond) (Suc depth)) (\<lambda>ts.
         Inr (ts, if has_default child then andConditions pc cond else orConditions (map tr_when ts)))) = Inr (ts1, full)"
    using n by (cases nested) auto
  from "3.IH"(2) [OF l(1) refl l(2,3) refl t this refl rest "3.prems"(2,3)]
  obtain cs2 fs where b: "cases_as quote par e ks ts2 cs2 fs" "fulls2 = map cond_text fs" by blast
  show ?case
  proof (cases nested)
    case None
    with n c(1) have n': "ts1 = [transitionFromCondition to (cond_text c) p]" "full = cond_text c" by auto
    have "cases_as quote par e (Case val w to p nested # ks) (ts1 @ ts2) ([c] @ cs2) (c # fs)"
      using None n' c b by (intro cases_step) auto
    with out n'(2) b(2) show ?thesis by (metis list.simps(9))
  next
    case (Some child)
    with n have n': "expandSwitchTransitions quote child (andConditions pc cond) (Suc depth) = Inr ts1"
      "full = (if has_default child then andConditions pc cond else orConditions (map tr_when ts1))" by auto
    from "3.IH"(1) [OF l(1) refl l(2,3) refl t Some n'(1), of "Some c"] c(1,2)
    obtain cs1 where a: "expands_as quote (Some c) child ts1 cs1" by auto
    define f where "f = (if has_default child then c else cond_or cs1)"
    from a have r: "renders ts1 cs1" by (simp add: expands_as_def)
    note good1 = renders_map [OF r]
    have f: "good f" "full = cond_text f"
      using good1 or_render(1,2) [of cs1] c n'(2) by (auto simp: f_def)
    have "holds v f \<longleftrightarrow> list_ex (holds v) cs1" for v
    proof (cases "has_default child")
      case True
      then have "first_target quote v child \<noteq> None" by (cases child) (auto split: option.split)
      moreover from a have "pick v ts1 cs1 = (if holds v c then first_target quote v child else None)"
        by (simp add: expands_as_def)
      ultimately show ?thesis using True pick_None [OF r, of v] by (auto simp: f_def split: if_splits)
    next
      case False
      with good1 or_render(3) [of cs1 v] show ?thesis by (simp add: f_def)
    qed
    with Some a c f b have "cases_as quote par e (Case val w to p nested # ks) (ts1 @ ts2) (cs1 @ cs2) (f # fs)"
      by (intro cases_step) auto
    with out f(2) b(2) show ?thesis by (metis list.simps(9))
  qed
qed

text \<open>C25. Expanding a switch table keeps its meaning: the texts of the resulting conditions are the
  renderings of conditions over the table's comparisons and guards, and whatever the truth of those,
  the first transition whose condition holds is the one the table itself selects.\<close>

theorem switch_expansion:
  assumes "normalizeSwitchTransitions quote sw = Inr ts"
  shows "\<exists>cs. map tr_when ts = map cond_text cs \<and>
    (\<forall>v. map_option (\<lambda>(t, c). (tr_to t, tr_payload t)) (find (\<lambda>(t, c). holds v c) (zip ts cs)) =
      first_target quote v sw)"
proof -
  from expansion(1) [OF assms [unfolded normalizeSwitchTransitions_def], of None]
  obtain cs where "expands_as quote None sw ts cs" by auto
  then show ?thesis by (auto simp: expands_as_def pick_def dest: renders_map)
qed

definition ex_switch :: switchTransitions where
  "ex_switch = Switch ''k''
     [Case (CaseString ''a'') WhenNone [] [] (Some (Switch ''d'' [Case (CaseBool True) WhenNone ''A'' [] None] None)),
      Case (CaseInt ''int'' 1) (WhenText ''g'') ''B'' [] None] (Some (''C'', []))"

definition ex_quote :: "string \<Rightarrow> string" where
  "ex_quote s = ''~'' @ s @ ''~''"

definition ex_expanded :: "transition list" where
  "ex_expanded =
     [\<lparr>tr_to = ''A'', tr_when = ''(((k) == ~a~)) && (((d) == true))'', tr_payload = []\<rparr>,
      \<lparr>tr_to = ''B'', tr_when = ''(((k) == 1)) && ((g))'', tr_payload = []\<rparr>,
      \<lparr>tr_to = ''C'', tr_when = ''!((((((k) == ~a~)) && (((d) == true)))) || ((((k) == 1)) && ((g))))'', tr_payload = []\<rparr>]"

theorem switch_expansion_witness:
  "normalizeSwitchTransitions ex_quote ex_switch = Inr ex_expanded \<and>
   (\<exists>cs. map tr_when ex_expanded = map cond_text cs \<and>
    (\<forall>v. map_option (\<lambda>(t, c). (tr_to t, tr_payload t)) (find (\<lambda>(t, c). holds v c) (zip ex_expanded cs)) =
      first_target ex_quote v ex_switch))"
proof -
  have "solid_end CHR ''k''" "solid_end CHR ''d''" "solid_end CHR ''C''" by (code_simp, code_simp, code_simp)
  then have x: "normalizeSwitchTransitions ex_quote ex_switch = Inr ex_expanded"
    by (simp add: normalizeSwitchTransitions_def ex_switch_def ex_quote_def ex_expanded_def trim_space_id solid_ends
        switchCaseCondition_def andConditions_def orConditions_def notAnyCondition_def transitionFromCondition_def
        celExprFromString_def show_integer_def show_nat.simps digit_of_def Let_def)
  from x switch_expansion [OF x] show ?thesis by (rule conjI)
qed

section \<open>Shorthand forms round-trip\<close>

lemma decode_encode: "celExprFromString (tr_when t) = tr_when t \<Longrightarrow> decode_transition (encode_transition t) = Inr t"
proof -
  have "trim_space [] = []" by (simp add: trim_space_id)
  then show "celExprFromString (tr_when t) = tr_when t \<Longrightarrow> decode_transition (encode_transition t) = Inr t"
    by (auto simp: decode_transition_def encode_transition_def celExprFromString_def split: if_splits)
qed

lemma mapE_decode_encode:
  "list_all (\<lambda>t. celExprFromString (tr_when t) = tr_when t) i \<Longrightarrow> mapE decode_transition (map encode_transition i) = Inr i"
  by (induction i) (auto simp: decode_encode)

definition same_transition :: "transition \<Rightarrow> transition \<Rightarrow> bool" where
  "same_transition t u = (tr_to t = tr_to u \<and> tr_payload t = tr_payload u \<and>
     (tr_when t = tr_when u \<or> AlwaysTrue (tr_when t) \<and> AlwaysTrue (tr_when u)))"

text \<open>Writing initial transitions and reading them back gives the same transitions, up to the
  spelling of an always-true condition, when their conditions were read by the same reader and a
  single unconditional one names a state.\<close>

theorem initial_roundtrip:
  assumes "list_all (\<lambda>t. celExprFromString (tr_when t) = tr_when t) i"
    and "\<And>n. ShortcutState i = Some n \<Longrightarrow> trim_space n \<noteq> []"
  shows "\<exists>j. initial_Unmarshal (initial_Marshal i) = Inr j \<and> list_all2 same_transition i j"
proof (cases "ShortcutState i")
  case None
  have "initial_Unmarshal (initial_Marshal i) = Inr i"
    using None assms(1) mapE_decode_encode [OF assms(1)]
    by (auto simp: initial_Marshal_def decode_encode split: list.splits)
  moreover have "list_all2 same_transition i i" by (simp add: list_all2_same same_transition_def)
  ultimately show ?thesis by blast
next
  case (Some n)
  then obtain t where t: "i = [t]" "AlwaysTrue (tr_when t)" "tr_payload t = []" "n = tr_to t"
    by (auto simp: ShortcutState_def split: list.splits if_splits)
  have "AlwaysTrue ''true''" by code_simp
  with t Some assms(2) [OF Some] show ?thesis
    by (auto simp: initial_Marshal_def alwaysTrueTransition_def same_transition_def)
qed

definition ex_initial :: "transition list" where
  "ex_initial = [\<lparr>tr_to = ''start'', tr_when = ''True'', tr_payload = []\<rparr>]"

theorem initial_roundtrip_witness:
  "\<exists>j. initial_Unmarshal (initial_Marshal ex_initial) = Inr j \<and> list_all2 same_transition ex_initial j"
proof (rule initial_roundtrip)
  show "list_all (\<lambda>t. celExprFromString (tr_when t) = tr_when t) ex_initial" by code_simp
next
  fix n assume "ShortcutState ex_initial = Some n"
  moreover have "ShortcutState ex_initial = Some ''start''" by code_simp
  moreover have "trim_space ''start'' \<noteq> []" by code_simp
  ultimately show "trim_space n \<noteq> []" by simp
qed

section \<open>Catch clauses\<close>

record catch_fail =
  cf_kind :: string
  cf_code :: string
  cf_message :: string
  cf_cause :: "gval option"

record catch_clause =
  cc_id :: string
  cc_when :: string
  cc_to :: string
  cc_payload :: payload
  cc_continue :: "payload option"
  cc_fail :: "catch_fail option"

definition catch_Validate :: "catch_clause \<Rightarrow> recipe_error + unit" where
  "catch_Validate c =
     (let actions = (if trim_space (cc_to c) \<noteq> [] then 1 else 0) + (if cc_continue c \<noteq> None then 1 else 0) +
          (if cc_fail c \<noteq> None then 1 else (0::nat))
      in if actions \<noteq> 1 then Inl NotExactlyOneAction
         else if cc_payload c \<noteq> [] \<and> trim_space (cc_to c) = [] then Inl PayloadWithoutTo
         else Inr ())"

text \<open>A YAML node as far as the clause reader looks: its kind, a scalar's tag and value, a mapping's
  entries.\<close>

datatype catch_node =
    CatchScalar string string "bool option"
  | CatchMap "(catch_node \<times> catch_node) list"
  | CatchNode

text \<open>\<open>CatchScalar tag value b\<close>: \<open>b\<close> is the value as a boolean, when it is one.\<close>

fun decodeCatchWhen :: "catch_node \<Rightarrow> recipe_error + string" where
  "decodeCatchWhen (CatchScalar tag s b) =
     (if tag = ''!!bool'' then
        (case b of None \<Rightarrow> Inl BadWhen
         | Some b \<Rightarrow> Inr (celExprFromString (if b then [] else ''false'')))
      else if tag = ''!!str'' \<or> tag = [] then Inr (celExprFromString s)
      else Inl BadWhen)"
| "decodeCatchWhen _ = Inl BadWhen"

fun catch_fields :: "string list \<Rightarrow> string \<Rightarrow> (catch_node \<times> catch_node) list \<Rightarrow> recipe_error + string" where
  "catch_fields seen when [] = Inr when"
| "catch_fields seen when ((k, v) # es) = (case k of
     CatchScalar tag key b \<Rightarrow>
       if key \<in> set seen then Inl (DuplicateCatchField key)
       else if key \<in> {''id'', ''to'', ''payload'', ''continue'', ''fail''} then catch_fields (key # seen) when es
       else if key = ''when'' then bindE (decodeCatchWhen v) (\<lambda>w. catch_fields (key # seen) w es)
       else Inl (UnknownCatchField key)
   | _ \<Rightarrow> Inl CatchKeyNotString)"

definition catch_node_text :: "catch_node \<Rightarrow> string" where
  "catch_node_text n = (case n of CatchScalar tag s b \<Rightarrow> s | _ \<Rightarrow> [])"

definition validateCatchFailNode :: "(catch_node \<times> catch_node) list \<Rightarrow> recipe_error + unit" where
  "validateCatchFailNode es = forE (\<lambda>(k, v).
     if catch_node_text k \<noteq> ''fail'' then Inr ()
     else (case v of
         CatchMap fs \<Rightarrow> forE (\<lambda>(k, _). check (catch_node_text k \<in> {''kind'', ''code'', ''message'', ''cause''})
             (UnknownFailField (catch_node_text k))) fs
       | _ \<Rightarrow> Inl FailNotObject)) es"

text \<open>\<open>decode\<close> is the YAML library's decoding of the other fields.\<close>

definition catch_Unmarshal :: "(catch_node \<Rightarrow> recipe_error + catch_clause) \<Rightarrow> catch_node \<Rightarrow> recipe_error + catch_clause" where
  "catch_Unmarshal decode node = (case node of
     CatchMap es \<Rightarrow>
       bindE (catch_fields [] [] es) (\<lambda>when.
       bindE (decode node) (\<lambda>raw.
       bindE (if cc_fail raw \<noteq> None then validateCatchFailNode es else Inr ()) (\<lambda>_.
       bindE (catch_Validate (raw\<lparr>cc_when := when\<rparr>)) (\<lambda>_.
       Inr (raw\<lparr>cc_when := when\<rparr>)))))
   | _ \<Rightarrow> Inl CatchNotObject)"

definition catch_keys :: "string list" where
  "catch_keys = [''id'', ''to'', ''payload'', ''continue'', ''fail'', ''when'']"

lemma catch_fields_Cons:
  assumes "catch_fields seen w ((k, v) # es) = Inr w'"
  shows "\<exists>w''. catch_node_text k \<notin> set seen \<and> catch_node_text k \<in> set catch_keys \<and>
    catch_fields (catch_node_text k # seen) w'' es = Inr w'"
proof (cases k)
  case (CatchScalar tag key b)
  then have n: "catch_node_text k = key" by (simp add: catch_node_text_def)
  show ?thesis
  proof (cases "key = ''when''")
    case True
    with assms CatchScalar n show ?thesis by (auto simp: ok_iff catch_keys_def split: if_splits)
  next
    case False
    with assms CatchScalar n show ?thesis unfolding catch_keys_def by (simp split: if_splits) blast
  qed
qed (use assms in auto)

lemma catch_fields_ok:
  "catch_fields seen w es = Inr w' \<Longrightarrow> distinct seen \<Longrightarrow>
     list_all (\<lambda>(k, v). catch_node_text k \<in> set catch_keys) es \<and> distinct (rev seen @ map (catch_node_text \<circ> fst) es)"
proof (induction es arbitrary: seen w)
  case (Cons e es)
  obtain k v where e: "e = (k, v)" by fastforce
  from catch_fields_Cons [OF Cons.prems(1) [unfolded e]] obtain w'' where
    s: "catch_node_text k \<notin> set seen" "catch_node_text k \<in> set catch_keys" "catch_fields (catch_node_text k # seen) w'' es = Inr w'"
    by blast
  from Cons.IH [OF s(3)] s(1) Cons.prems(2) s(2) e show ?case by simp
qed simp

lemma catch_Validate_ok: "catch_Validate c = Inr () \<longleftrightarrow>
    (trim_space (cc_to c) \<noteq> [] \<and> cc_continue c = None \<and> cc_fail c = None \<or>
     trim_space (cc_to c) = [] \<and> cc_payload c = [] \<and> (cc_continue c = None \<longleftrightarrow> cc_fail c \<noteq> None))"
  by (auto simp: catch_Validate_def Let_def split: if_splits)

text \<open>A catch clause that is read has exactly one action, a payload only for a route, and its
  mapping has no key twice and only known keys.\<close>

theorem catch_single_action:
  assumes "catch_Unmarshal decode node = Inr c"
  shows "\<exists>es. node = CatchMap es \<and> distinct (map (catch_node_text \<circ> fst) es) \<and>
    list_all (\<lambda>(k, v). catch_node_text k \<in> set catch_keys) es \<and>
    (trim_space (cc_to c) \<noteq> [] \<and> cc_continue c = None \<and> cc_fail c = None \<or>
     trim_space (cc_to c) = [] \<and> cc_payload c = [] \<and> (cc_continue c = None \<longleftrightarrow> cc_fail c \<noteq> None))"
proof -
  from assms obtain es where es: "node = CatchMap es" by (cases node) (simp_all add: catch_Unmarshal_def)
  from assms [unfolded es catch_Unmarshal_def catch_node.case bindE_ok] obtain w raw where
    u: "catch_fields [] [] es = Inr w" "catch_Validate (raw\<lparr>cc_when := w\<rparr>) = Inr ()" "c = raw\<lparr>cc_when := w\<rparr>"
    by force
  from catch_fields_ok [OF u(1)] have "distinct (map (catch_node_text \<circ> fst) es)"
    "list_all (\<lambda>(k, v). catch_node_text k \<in> set catch_keys) es" by simp_all
  moreover from u(2) have "catch_Validate c = Inr ()" by (simp only: u(3))
  note this [unfolded catch_Validate_ok]
  ultimately show ?thesis using es by (intro exI [of _ es] conjI)
qed

definition ex_catch_node :: "(catch_node \<times> catch_node) list" where
  "ex_catch_node = [(CatchScalar ''!!str'' ''to'' None, CatchScalar ''!!str'' ''a'' None),
     (CatchScalar ''!!str'' ''when'' None, CatchScalar ''!!bool'' ''false'' (Some False))]"

definition ex_catch_raw :: catch_clause where
  "ex_catch_raw = \<lparr>cc_id = [], cc_when = [], cc_to = ''a'', cc_payload = [], cc_continue = None, cc_fail = None\<rparr>"

theorem catch_single_action_witness:
  "catch_Unmarshal (\<lambda>_. Inr ex_catch_raw) (CatchMap ex_catch_node) = Inr (ex_catch_raw\<lparr>cc_when := ''false''\<rparr>) \<and>
   distinct (map (catch_node_text \<circ> fst) ex_catch_node)"
proof -
  have x: "catch_Unmarshal (\<lambda>_. Inr ex_catch_raw) (CatchMap ex_catch_node) = Inr (ex_catch_raw\<lparr>cc_when := ''false''\<rparr>)"
    by code_simp
  from catch_single_action [OF x] x show ?thesis by simp
qed

end
