(* ===== verification/Compiler_Failure.thy ===== *)
theory Compiler_Failure
  imports Recipe_Switch
begin

text \<open>
  \<^verbatim>\<open>pkg/worker/compiler/failure.go\<close>, \<^verbatim>\<open>catch_validation.go\<close>
  (\<open>validateCatchClauses\<close>), \<^verbatim>\<open>pkg/recipe/failure.go\<close> and
  \<^verbatim>\<open>pkg/template/transition.go\<close>: runtime failures, their classification, and the catch
  clauses that handle them. The template engine is the record \<open>resolver\<close>, on contexts \<open>'c\<close>
  with errors \<open>'x\<close>; what \<^verbatim>\<open>errors.As\<close> and \<^verbatim>\<open>errors.Is\<close> find in an error's chain is the
  record \<open>err_view\<close>. Logging is not modelled.
\<close>

section \<open>Failures\<close>

record failure_node =
  fn_id :: string
  fn_path :: string
  fn_type :: string
  fn_op :: string

record failure_timing =
  ft_timeout :: string
  ft_scope :: string
  ft_after :: string

record failure_task =
  fk_status :: string
  fk_exit :: "int option"
  fk_stderr :: string
  fk_stdout :: string

datatype rfailure = RFailure
  (rf_kind: string) (rf_code: string) (rf_message: string) (rf_retryable: bool) (rf_node: failure_node)
  (rf_timing: "failure_timing option") (rf_task: "failure_task option") (rf_artifacts: "payload option")
  (rf_attrs: "payload option") (rf_cause: "rfailure option")

record transition_data =
  td_from :: string
  td_to :: string
  td_payload :: payload
  td_failure :: "rfailure option"

definition NewFailureTransitionData :: "string \<Rightarrow> string \<Rightarrow> payload option \<Rightarrow> rfailure option \<Rightarrow> transition_data" where
  "NewFailureTransitionData from to p f =
     \<lparr>td_from = from, td_to = to, td_payload = (case p of None \<Rightarrow> [] | Some m \<Rightarrow> m), td_failure = f\<rparr>"

definition NewTransitionData :: "string \<Rightarrow> string \<Rightarrow> payload option \<Rightarrow> transition_data" where
  "NewTransitionData from to p = NewFailureTransitionData from to p None"

section \<open>Classification\<close>

record timeout_payload =
  tp_code :: string
  tp_message :: string
  tp_retryable :: bool
  tp_kind :: string
  tp_scope :: string
  tp_after :: string

record system_payload =
  sp_code :: string
  sp_message :: string
  sp_retryable :: bool
  sp_component :: string

record app_payload =
  ap_message :: string
  ap_attrs :: payload

text \<open>\<open>ev_recipe\<close> is the failure of the first recipe failure in the chain; \<open>ev_stored\<close> the
  failure an application error's attributes decode to.\<close>

record err_view =
  ev_text :: string
  ev_recipe :: "rfailure option"
  ev_stored :: "rfailure option"
  ev_timeout :: "timeout_payload option"
  ev_deadline :: bool
  ev_is_system :: bool
  ev_system :: "system_payload option"
  ev_is_app :: bool
  ev_app :: "app_payload option"
  ev_cancelled :: bool

definition failureFromError :: "err_view \<Rightarrow> rfailure option" where
  "failureFromError e = (case ev_recipe e of Some f \<Rightarrow> Some f | None \<Rightarrow> ev_stored e)"

text \<open>The attributes are JSON already, so only the empty map changes.\<close>

definition jsonCompatibleMap :: "payload \<Rightarrow> payload option" where
  "jsonCompatibleMap m = (if m = [] then None else Some m)"

fun firstNonEmpty :: "string list \<Rightarrow> string" where
  "firstNonEmpty [] = []"
| "firstNonEmpty (v # vs) = (if trim_space v \<noteq> [] then v else firstNonEmpty vs)"

definition code_attr :: "payload option \<Rightarrow> string" where
  "code_attr attrs = (case Option.bind attrs (\<lambda>m. map_of m ''code'') of Some (GStr c) \<Rightarrow> c | _ \<Rightarrow> [])"

definition plain_failure :: "string \<Rightarrow> string \<Rightarrow> string \<Rightarrow> bool \<Rightarrow> failure_node \<Rightarrow> rfailure" where
  "plain_failure kind code msg r n = RFailure kind code msg r n None None None None None"

definition classify :: "err_view \<Rightarrow> failure_node \<Rightarrow> rfailure" where
  "classify e n =
     (case ev_timeout e of
        Some t \<Rightarrow> RFailure ''timeout'' (tp_code t) (firstNonEmpty [tp_message t, ev_text e]) (tp_retryable t) n
          (Some \<lparr>ft_timeout = tp_kind t, ft_scope = tp_scope t, ft_after = tp_after t\<rparr>) None None None None
      | None \<Rightarrow>
          if ev_deadline e then plain_failure ''timeout'' ''timeout'' (ev_text e) True n
          else if ev_is_system e then
            (case ev_system e of
               None \<Rightarrow> plain_failure ''system_error'' [] (ev_text e) True n
             | Some s \<Rightarrow> RFailure ''system_error'' (sp_code s) (firstNonEmpty [sp_message s, ev_text e]) (sp_retryable s) n
                 None None None (if sp_component s \<noteq> [] then Some [(''component'', GStr (sp_component s))] else None) None)
          else if ev_is_app e then
            (case ev_app e of
               None \<Rightarrow> plain_failure ''task_error'' [] (ev_text e) True n
             | Some a \<Rightarrow>
                 let attrs = jsonCompatibleMap (ap_attrs a)
                 in RFailure ''task_error'' (code_attr attrs) (firstNonEmpty [ap_message a, ev_text e]) True n
                      None None None attrs None)
          else if ev_cancelled e then plain_failure ''cancellation'' ''cancelled'' (ev_text e) False n
          else plain_failure ''unknown'' [] (ev_text e) True n)"

definition normalizeRuntimeFailure :: "err_view option \<Rightarrow> failure_node \<Rightarrow> rfailure option" where
  "normalizeRuntimeFailure err n = (case err of
     None \<Rightarrow> None
   | Some e \<Rightarrow> (case failureFromError e of Some f \<Rightarrow> Some f | None \<Rightarrow> Some (classify e n)))"

definition set_path :: "string \<Rightarrow> rfailure \<Rightarrow> rfailure" where
  "set_path p f = (case f of RFailure k c m r n t task arts attrs cause \<Rightarrow>
     RFailure k c m r (n\<lparr>fn_path := p\<rparr>) t task arts attrs cause)"

text \<open>\<open>scope_id\<close> is the scope's own name, \<open>fn_path n\<close> its parent's path.\<close>

definition normalizeScopeFailure :: "string \<Rightarrow> err_view option \<Rightarrow> failure_node \<Rightarrow> rfailure option" where
  "normalizeScopeFailure scope_id err n = (case Option.bind err failureFromError of
     Some f \<Rightarrow> Some f
   | None \<Rightarrow> map_option (set_path ((if fn_path n = [] then [] else fn_path n @ ''/'') @ scope_id))
       (normalizeRuntimeFailure err n))"

text \<open>The view of \<^verbatim>\<open>recipeFailureError\<close> around an error: its failure comes first, and it
  presents itself as an application error that stores it, encoded by \<open>enc\<close>.\<close>

definition failure_text :: "rfailure \<Rightarrow> string" where
  "failure_text f = (if fn_path (rf_node f) \<noteq> []
     then ''['' @ map (\<lambda>c. if c = CHR ''/'' then CHR ''.'' else c) (fn_path (rf_node f)) @ ''] '' @ rf_message f
     else rf_message f)"

definition newRecipeFailureError :: "(rfailure \<Rightarrow> gval) \<Rightarrow> rfailure option \<Rightarrow> err_view \<Rightarrow> err_view" where
  "newRecipeFailureError enc f e = (case f of
     None \<Rightarrow> e
   | Some f \<Rightarrow> e\<lparr>ev_text := failure_text f, ev_recipe := Some f, ev_stored := Some f, ev_is_app := True,
       ev_app := Some \<lparr>ap_message = failure_text f, ap_attrs = [(''c2j_failure'', enc f)]\<rparr>\<rparr>)"

section \<open>The template engine\<close>

record ('c, 'x) resolver =
  rs_expression :: "'c \<Rightarrow> string \<Rightarrow> 'x + gval"
  rs_map :: "'c \<Rightarrow> payload \<Rightarrow> 'x + payload"
  rs_interpolate :: "'c \<Rightarrow> gval \<Rightarrow> 'x + gval"
  rs_with_failure :: "'c \<Rightarrow> rfailure \<Rightarrow> 'c"

datatype 'x engine_error = NotBool | Engine 'x

definition engine :: "'x + 'a \<Rightarrow> 'x engine_error + 'a" where
  "engine r = (case r of Inl e \<Rightarrow> Inl (Engine e) | Inr a \<Rightarrow> Inr a)"

lemma engine_ok [ok_iff]: "engine r = Inr a \<longleftrightarrow> r = Inr a"
  by (simp add: engine_def split: sum.split)

definition EvaluateCEL :: "('c, 'x) resolver \<Rightarrow> 'c \<Rightarrow> string \<Rightarrow> 'x engine_error + bool" where
  "EvaluateCEL R c expr =
     (if expr = [] \<or> go_lower expr = ''true'' then Inr True
      else case rs_expression R c expr of
        Inl e \<Rightarrow> Inl (Engine e)
      | Inr (GBool b) \<Rightarrow> Inr b
      | Inr _ \<Rightarrow> Inl NotBool)"

section \<open>Catch clauses\<close>

datatype 'x catch_error =
    WhenFailed nat "'x engine_error"
  | RouteOutsideMachine nat
  | PayloadFailed nat 'x
  | OutputsFailed nat 'x
  | FailFailed nat 'x

datatype decision =
    DecideNone
  | DecideRoute string string payload rfailure
  | DecideContinue string payload rfailure
  | DecideFail string rfailure

definition rendered_text :: "gval \<Rightarrow> string" where
  "rendered_text v = (case v of GStr s \<Rightarrow> s | _ \<Rightarrow> [])"

text \<open>A text of the clause replaces the original only when it is given.\<close>

definition render_text :: "('c, 'x) resolver \<Rightarrow> 'c \<Rightarrow> string \<Rightarrow> string \<Rightarrow> 'x + string" where
  "render_text R c tmpl original =
     (if tmpl = [] then Inr original else bindE (rs_interpolate R c (GStr tmpl)) (\<lambda>v. Inr (rendered_text v)))"

definition renderCatchFailure :: "('c, 'x) resolver \<Rightarrow> catch_fail \<Rightarrow> 'c \<Rightarrow> rfailure \<Rightarrow> 'x + rfailure" where
  "renderCatchFailure R cf c original =
     bindE (render_text R c (cf_kind cf) (rf_kind original)) (\<lambda>kind.
     bindE (render_text R c (cf_code cf) (rf_code original)) (\<lambda>code.
     bindE (render_text R c (cf_message cf) (rf_message original)) (\<lambda>msg.
     bindE (case cf_cause cf of None \<Rightarrow> Inr None
            | Some v \<Rightarrow> bindE (rs_interpolate R c v) (\<lambda>v. Inr (Some [(''catch_cause'', v)]))) (\<lambda>attrs.
     Inr (RFailure kind code msg (rf_retryable original) (rf_node original) None None None attrs (Some original))))))"

definition act :: "('c, 'x) resolver \<Rightarrow> 'c \<Rightarrow> rfailure \<Rightarrow> bool \<Rightarrow> nat \<Rightarrow> catch_clause \<Rightarrow> 'x catch_error + decision option" where
  "act R fc failure allowRoute idx cl =
     (if cc_to cl \<noteq> [] then
        if \<not> allowRoute then Inl (RouteOutsideMachine idx)
        else (case rs_map R fc (cc_payload cl) of
            Inl e \<Rightarrow> Inl (PayloadFailed idx e)
          | Inr p \<Rightarrow> Inr (Some (DecideRoute (cc_id cl) (cc_to cl) p failure)))
      else case cc_continue cl of
        Some outputs \<Rightarrow> (case rs_map R fc outputs of
            Inl e \<Rightarrow> Inl (OutputsFailed idx e)
          | Inr out \<Rightarrow> Inr (Some (DecideContinue (cc_id cl) out failure)))
      | None \<Rightarrow> (case cc_fail cl of
          Some cf \<Rightarrow> (case renderCatchFailure R cf fc failure of
              Inl e \<Rightarrow> Inl (FailFailed idx e)
            | Inr f \<Rightarrow> Inr (Some (DecideFail (cc_id cl) f)))
        | None \<Rightarrow> Inr None))"

fun catch_loop :: "('c, 'x) resolver \<Rightarrow> 'c \<Rightarrow> rfailure \<Rightarrow> bool \<Rightarrow> nat \<Rightarrow> catch_clause list \<Rightarrow> 'x catch_error + decision" where
  "catch_loop R fc failure allowRoute idx [] = Inr DecideNone"
| "catch_loop R fc failure allowRoute idx (cl # cls) = (case EvaluateCEL R fc (cc_when cl) of
     Inl e \<Rightarrow> Inl (WhenFailed idx e)
   | Inr matches \<Rightarrow>
       if \<not> matches then catch_loop R fc failure allowRoute (Suc idx) cls
       else bindE (act R fc failure allowRoute idx cl) (\<lambda>d. case d of
         Some d \<Rightarrow> Inr d
       | None \<Rightarrow> catch_loop R fc failure allowRoute (Suc idx) cls))"

definition evaluateCatchClauses :: "('c, 'x) resolver \<Rightarrow> catch_clause list \<Rightarrow> rfailure option \<Rightarrow> 'c \<Rightarrow> bool \<Rightarrow>
    'x catch_error + decision" where
  "evaluateCatchClauses R cls failure c allowRoute = (case failure of
     None \<Rightarrow> Inr DecideNone
   | Some f \<Rightarrow> if cls = [] then Inr DecideNone else catch_loop R (rs_with_failure R c f) f allowRoute 0 cls)"

text \<open>What deciding for a valid clause means: each has one action, and a rewritten failure keeps
  the evidence.\<close>

fun decides :: "('c, 'x) resolver \<Rightarrow> 'c \<Rightarrow> rfailure \<Rightarrow> bool \<Rightarrow> catch_clause \<Rightarrow> decision \<Rightarrow> bool" where
  "decides R fc f allowRoute cl DecideNone = False"
| "decides R fc f allowRoute cl (DecideRoute i to p f') =
     (allowRoute \<and> i = cc_id cl \<and> to = cc_to cl \<and> to \<noteq> [] \<and> rs_map R fc (cc_payload cl) = Inr p \<and> f' = f)"
| "decides R fc f allowRoute cl (DecideContinue i out f') =
     (i = cc_id cl \<and> cc_to cl = [] \<and> (\<exists>o'. cc_continue cl = Some o' \<and> rs_map R fc o' = Inr out) \<and> f' = f)"
| "decides R fc f allowRoute cl (DecideFail i f') =
     (i = cc_id cl \<and> cc_to cl = [] \<and> cc_continue cl = None \<and> cc_fail cl \<noteq> None \<and>
      rf_cause f' = Some f \<and> rf_retryable f' = rf_retryable f \<and> rf_node f' = rf_node f)"

lemma renderCatchFailure_keeps:
  "renderCatchFailure R cf c f = Inr f' \<Longrightarrow>
     rf_cause f' = Some f \<and> rf_retryable f' = rf_retryable f \<and> rf_node f' = rf_node f"
  by (auto simp: renderCatchFailure_def ok_iff)

lemma act_decides: "act R fc f allowRoute idx cl = Inr (Some d) \<Longrightarrow> decides R fc f allowRoute cl d"
  by (auto simp: act_def dest: renderCatchFailure_keeps split: if_splits option.splits sum.splits)

lemma act_None: "act R fc f allowRoute idx cl = Inr None \<Longrightarrow> catch_Validate cl \<noteq> Inr ()"
  by (auto simp: act_def catch_Validate_ok trim_space_id split: if_splits option.splits sum.splits)

lemma catch_loop_first:
  assumes "list_all (\<lambda>cl. catch_Validate cl = Inr ()) cls" "catch_loop R fc f allowRoute idx cls = Inr d"
  shows "d = DecideNone \<and> list_all (\<lambda>cl. EvaluateCEL R fc (cc_when cl) = Inr False) cls \<or>
    (\<exists>pre cl post. cls = pre @ cl # post \<and> list_all (\<lambda>cl. EvaluateCEL R fc (cc_when cl) = Inr False) pre \<and>
       EvaluateCEL R fc (cc_when cl) = Inr True \<and> decides R fc f allowRoute cl d)"
  using assms
proof (induction cls arbitrary: idx)
  case (Cons cl cls)
  from Cons.prems(2) obtain m where m: "EvaluateCEL R fc (cc_when cl) = Inr m" by (auto split: sum.splits)
  show ?case
  proof (cases m)
    case True
    with Cons.prems m obtain x where x: "act R fc f allowRoute idx cl = Inr x"
      "(case x of Some d \<Rightarrow> Inr d | None \<Rightarrow> catch_loop R fc f allowRoute (Suc idx) cls) = Inr d" by (auto simp: ok_iff)
    with Cons.prems(1) act_None [of R fc f allowRoute idx cl] have "act R fc f allowRoute idx cl = Inr (Some d)"
      by (cases x) auto
    with act_decides True m show ?thesis by (intro disjI2 exI [of _ "[]"] exI [of _ cl] exI [of _ cls]) auto
  next
    case False
    with Cons.prems m have "list_all (\<lambda>cl. catch_Validate cl = Inr ()) cls"
      "catch_loop R fc f allowRoute (Suc idx) cls = Inr d" by auto
    from Cons.IH [OF this] show ?thesis
    proof (elim disjE exE conjE)
      fix pre cl' post
      assume "cls = pre @ cl' # post" "list_all (\<lambda>cl. EvaluateCEL R fc (cc_when cl) = Inr False) pre"
        "EvaluateCEL R fc (cc_when cl') = Inr True" "decides R fc f allowRoute cl' d"
      then show ?thesis using False m
        by (intro disjI2 exI [of _ "cl # pre"] exI [of _ cl'] exI [of _ post]) auto
    qed (use False m in auto)
  qed
qed simp

text \<open>C27. The first clause whose condition holds decides what happens to a failure, and nothing
  does when none holds. A route needs a state machine around it; continuing and routing report the
  failure itself; a rewritten failure has the original as its cause and keeps its node and whether
  it can be retried.\<close>

theorem catch_first_match:
  assumes "evaluateCatchClauses R cls (Some f) c allowRoute = Inr d"
    and "list_all (\<lambda>cl. catch_Validate cl = Inr ()) cls"
  shows "d = DecideNone \<and>
      list_all (\<lambda>cl. EvaluateCEL R (rs_with_failure R c f) (cc_when cl) = Inr False) cls \<or>
    (\<exists>pre cl post. cls = pre @ cl # post \<and>
       list_all (\<lambda>cl. EvaluateCEL R (rs_with_failure R c f) (cc_when cl) = Inr False) pre \<and>
       EvaluateCEL R (rs_with_failure R c f) (cc_when cl) = Inr True \<and>
       decides R (rs_with_failure R c f) f allowRoute cl d)"
proof (cases "cls = []")
  case True
  with assms(1) show ?thesis by (simp add: evaluateCatchClauses_def)
next
  case False
  with assms(1) have "catch_loop R (rs_with_failure R c f) f allowRoute 0 cls = Inr d"
    by (simp add: evaluateCatchClauses_def)
  with catch_loop_first [OF assms(2) this] show ?thesis by blast
qed

definition ex_resolver :: "(rfailure option, unit) resolver" where
  "ex_resolver = \<lparr>
     rs_expression = (\<lambda>c e. if e = ''timeout'' then Inr (GBool (map_option rf_kind c = Some ''timeout'')) else Inl ()),
     rs_map = (\<lambda>c m. Inr m), rs_interpolate = (\<lambda>c v. Inr v), rs_with_failure = (\<lambda>c f. Some f)\<rparr>"

definition ex_clause :: "string \<Rightarrow> string \<Rightarrow> catch_clause" where
  "ex_clause w to = \<lparr>cc_id = [], cc_when = w, cc_to = to, cc_payload = [],
     cc_continue = (if to = [] then Some [] else None), cc_fail = None\<rparr>"

definition ex_failure :: rfailure where
  "ex_failure = plain_failure ''task_error'' [] ''m'' True \<lparr>fn_id = ''n'', fn_path = ''r/n'', fn_type = ''op'', fn_op = ''o''\<rparr>"

theorem catch_first_match_witness:
  "evaluateCatchClauses ex_resolver [ex_clause ''timeout'' [], ex_clause [] ''retry''] (Some ex_failure) None True =
     Inr (DecideRoute [] ''retry'' [] ex_failure) \<and>
   (\<exists>pre cl post. [ex_clause ''timeout'' [], ex_clause [] ''retry''] = pre @ cl # post \<and>
     EvaluateCEL ex_resolver (rs_with_failure ex_resolver None ex_failure) (cc_when cl) = Inr True \<and>
     decides ex_resolver (rs_with_failure ex_resolver None ex_failure) ex_failure True cl (DecideRoute [] ''retry'' [] ex_failure))"
proof -
  have e: "evaluateCatchClauses ex_resolver [ex_clause ''timeout'' [], ex_clause [] ''retry''] (Some ex_failure) None True =
     Inr (DecideRoute [] ''retry'' [] ex_failure)" by code_simp
  have v: "list_all (\<lambda>cl. catch_Validate cl = Inr ()) [ex_clause ''timeout'' [], ex_clause [] ''retry'']"
    by code_simp
  from catch_first_match [OF e v] e show ?thesis by fastforce
qed

section \<open>Validation of catch clauses\<close>

datatype 'x catch_invalid =
    InvalidShape nat recipe_error
  | InvalidWhen nat "'x engine_error"
  | ToOutsideMachine nat
  | ToUnknownState nat string
  | InvalidPayload nat 'x
  | InvalidOutputs nat 'x
  | InvalidFailKind nat string
  | FailKindNotRendered nat 'x
  | InvalidFail nat 'x

definition validFailureKind :: "string \<Rightarrow> bool" where
  "validFailureKind k = (k \<in> {''timeout'', ''task_error'', ''system_error'', ''cancellation'', ''unknown''})"

definition validationFailure :: rfailure where
  "validationFailure = plain_failure ''unknown'' [] ''validation placeholder failure'' False
     \<lparr>fn_id = ''validation-node'', fn_path = ''validation/node'', fn_type = ''state'', fn_op = []\<rparr>"

definition mapL :: "('x \<Rightarrow> 'e) \<Rightarrow> 'x + 'a \<Rightarrow> 'e + 'a" where
  "mapL f r = (case r of Inl e \<Rightarrow> Inl (f e) | Inr a \<Rightarrow> Inr a)"

lemma mapL_ok [ok_iff]: "mapL f r = Inr a \<longleftrightarrow> r = Inr a"
  by (simp add: mapL_def split: sum.split)

definition validate_to :: "('c, 'x) resolver \<Rightarrow> 'c \<Rightarrow> string list option \<Rightarrow> nat \<Rightarrow> catch_clause \<Rightarrow> 'x catch_invalid + unit" where
  "validate_to R fc names i cl =
     (if cc_to cl = [] then Inr ()
      else case names of
        None \<Rightarrow> Inl (ToOutsideMachine i)
      | Some ns \<Rightarrow> if cc_to cl \<notin> set ns then Inl (ToUnknownState i (cc_to cl))
          else bindE (mapL (InvalidPayload i) (rs_map R fc (cc_payload cl))) (\<lambda>_. Inr ()))"

definition validate_fail :: "('c, 'x) resolver \<Rightarrow> 'c \<Rightarrow> nat \<Rightarrow> catch_clause \<Rightarrow> 'x catch_invalid + unit" where
  "validate_fail R fc i cl = (case cc_fail cl of
     None \<Rightarrow> Inr ()
   | Some cf \<Rightarrow>
       bindE (if cf_kind cf = [] then Inr ()
              else bindE (mapL (FailKindNotRendered i) (rs_interpolate R fc (GStr (cf_kind cf)))) (\<lambda>v.
                check (validFailureKind (rendered_text v)) (InvalidFailKind i (rendered_text v)))) (\<lambda>_.
       bindE (mapL (InvalidFail i) (renderCatchFailure R cf fc validationFailure)) (\<lambda>_. Inr ())))"

fun validate_clauses :: "('c, 'x) resolver \<Rightarrow> 'c \<Rightarrow> string list option \<Rightarrow> nat \<Rightarrow> catch_clause list \<Rightarrow> 'x catch_invalid + unit" where
  "validate_clauses R fc names i [] = Inr ()"
| "validate_clauses R fc names i (cl # cls) =
     bindE (mapL (InvalidShape i) (catch_Validate cl)) (\<lambda>_.
     bindE (mapL (InvalidWhen i) (EvaluateCEL R fc (cc_when cl))) (\<lambda>_.
     bindE (validate_to R fc names i cl) (\<lambda>_.
     bindE (case cc_continue cl of None \<Rightarrow> Inr ()
            | Some out \<Rightarrow> bindE (mapL (InvalidOutputs i) (rs_map R fc out)) (\<lambda>_. Inr ())) (\<lambda>_.
     bindE (validate_fail R fc i cl) (\<lambda>_.
     validate_clauses R fc names (Suc i) cls)))))"

definition validateCatchClauses :: "('c, 'x) resolver \<Rightarrow> catch_clause list \<Rightarrow> 'c \<Rightarrow> string list option \<Rightarrow> 'x catch_invalid + unit" where
  "validateCatchClauses R cls c names = validate_clauses R (rs_with_failure R c validationFailure) names 0 cls"

lemma validate_clauses_ok:
  "validate_clauses R fc names i cls = Inr () \<Longrightarrow> cl \<in> set cls \<Longrightarrow>
     catch_Validate cl = Inr () \<and> (cc_to cl \<noteq> [] \<longrightarrow> (\<exists>ns. names = Some ns \<and> cc_to cl \<in> set ns))"
proof (induction cls arbitrary: i)
  case (Cons a cls)
  from Cons.prems(1) have "catch_Validate a = Inr ()" "validate_clauses R fc names (Suc i) cls = Inr ()"
    and to: "validate_to R fc names i a = Inr ()" by (auto simp: ok_iff)
  moreover from to have "cc_to a \<noteq> [] \<longrightarrow> (\<exists>ns. names = Some ns \<and> cc_to a \<in> set ns)"
    by (auto simp: validate_to_def split: option.splits if_splits)
  ultimately show ?case using Cons.IH Cons.prems(2) by auto
qed simp

text \<open>Clauses that validation accepted never route to a state the machine does not have, and never
  route at all where there is no machine, whatever fails and in whatever context they are evaluated.\<close>

theorem validated_routes_exist:
  assumes "validateCatchClauses R cls c names = Inr ()"
    and "evaluateCatchClauses R cls (Some f) c' allowRoute = Inr (DecideRoute i to p f')"
  shows "\<exists>ns. names = Some ns \<and> to \<in> set ns"
proof -
  from validate_clauses_ok [OF assms(1) [unfolded validateCatchClauses_def]]
  have v: "\<And>cl. cl \<in> set cls \<Longrightarrow> catch_Validate cl = Inr () \<and> (cc_to cl \<noteq> [] \<longrightarrow> (\<exists>ns. names = Some ns \<and> cc_to cl \<in> set ns))" .
  then have l: "list_all (\<lambda>cl. catch_Validate cl = Inr ()) cls" by (simp add: list_all_iff)
  have "\<exists>cl \<in> set cls. decides R (rs_with_failure R c' f) f allowRoute cl (DecideRoute i to p f')"
  proof (cases "cls = []")
    case True
    with assms(2) show ?thesis by (simp add: evaluateCatchClauses_def)
  next
    case False
    with assms(2) have "catch_loop R (rs_with_failure R c' f) f allowRoute 0 cls = Inr (DecideRoute i to p f')"
      by (simp add: evaluateCatchClauses_def)
    from catch_loop_first [OF l this] show ?thesis by auto
  qed
  with v show ?thesis by auto
qed

theorem validated_routes_exist_witness:
  "evaluateCatchClauses ex_resolver [ex_clause [] ''retry''] (Some ex_failure) None True =
     Inr (DecideRoute [] ''retry'' [] ex_failure) \<and> (\<exists>ns. Some [''retry''] = Some ns \<and> ''retry'' \<in> set ns)"
proof -
  have v: "validateCatchClauses ex_resolver [ex_clause [] ''retry''] None (Some [''retry'']) = Inr ()" by code_simp
  have e: "evaluateCatchClauses ex_resolver [ex_clause [] ''retry''] (Some ex_failure) None True =
     Inr (DecideRoute [] ''retry'' [] ex_failure)" by code_simp
  from validated_routes_exist [OF v e] e show ?thesis by blast
qed

section \<open>Facts about classification\<close>

text \<open>A failure once recorded survives every enclosing scope.\<close>

lemma normalize_recorded:
  "normalizeScopeFailure i (Some (newRecipeFailureError enc (Some f) e)) n = Some f"
  "normalizeRuntimeFailure (Some (newRecipeFailureError enc (Some f) e)) n = Some f"
  by (simp_all add: normalizeScopeFailure_def normalizeRuntimeFailure_def newRecipeFailureError_def failureFromError_def)

lemma classify_kind: "validFailureKind (rf_kind (classify e n))"
  by (auto simp: classify_def validFailureKind_def plain_failure_def Let_def split: option.split)

lemma classify_not_retryable:
  "\<not> rf_retryable (classify e n) \<Longrightarrow>
     (\<exists>t. ev_timeout e = Some t \<and> \<not> tp_retryable t) \<or> (\<exists>s. ev_system e = Some s \<and> \<not> sp_retryable s) \<or> ev_cancelled e"
  by (auto simp: classify_def plain_failure_def Let_def split: option.splits if_splits)

end
