(* ===== verification/Object_Refs.thy ===== *)
theory Object_Refs
  imports Go_Value
begin

text \<open>
  \<^verbatim>\<open>pkg/objects/ref.go\<close>: references to immutable checkpoints inside task inputs and outputs.
  An artifact key and its own validation (\<open>key_ok\<close>) belong to JobDB, and turning a JSON object into
  the struct is \<^verbatim>\<open>encoding/json\<close>'s (\<open>decode\<close>): both are parameters. The values walked are
  JSON-shaped; a native struct is marshalled first by the code, and is not modelled.
\<close>

section \<open>References\<close>

record artifact_key =
  ak_job :: string
  ak_ordinal :: int
  ak_name :: string
  ak_size :: int

record obj_ref =
  o_format :: string
  o_type :: string
  o_tenant :: string
  o_artifact :: artifact_key
  o_sha :: string

definition ArtifactPrefix :: string where "ArtifactPrefix = ''__c2j_objects__/''"
definition Marker :: string where "Marker = ''$c2j_object''"
definition Version :: string where "Version = ''v1''"

definition IsInternalArtifact :: "string \<Rightarrow> bool" where
  "IsInternalArtifact name = has_prefix name ArtifactPrefix"

datatype obj_error = ObjFormat | ObjType | ObjArtifact | ObjTenant | ObjKey | ObjDigest | ObjName | ObjDecode | ObjConflict

definition alnum :: "char \<Rightarrow> bool" where
  "alnum c = (byte_in 65 90 c \<or> byte_in 97 122 c \<or> is_digit c)"

fun version_name :: "string \<Rightarrow> bool" where
  "version_name (v # d # ds) = (v = CHR ''v'' \<and> byte_in 49 57 d \<and> list_all is_digit ds)"
| "version_name _ = False"

definition validateType :: "string \<Rightarrow> bool" where
  "validateType name = (case go_cut CHR ''/'' name of
     Some (c # cs, v) \<Rightarrow> alnum c \<and> list_all (\<lambda>d. alnum d \<or> d \<in> set ''_.-'') cs \<and> version_name v
   | _ \<Rightarrow> False)"

text \<open>A digest is 32 bytes of hexadecimal in lower case.\<close>

definition digest_ok :: "string \<Rightarrow> bool" where
  "digest_ok s = (list_all lower_hex s \<and> length s = 64)"

definition obj_Validate :: "(artifact_key \<Rightarrow> bool) \<Rightarrow> obj_ref \<Rightarrow> obj_error + unit" where
  "obj_Validate key_ok r =
     bindE (check (o_format r = Version) ObjFormat) (\<lambda>_.
     bindE (check (validateType (o_type r)) ObjType) (\<lambda>_.
     bindE (check (\<not> (ak_ordinal (o_artifact r) \<le> 0 \<or> ak_size (o_artifact r) < 0)) ObjArtifact) (\<lambda>_.
     bindE (check (o_tenant r \<noteq> []) ObjTenant) (\<lambda>_.
     bindE (check (key_ok (o_artifact r)) ObjKey) (\<lambda>_.
     bindE (check (digest_ok (o_sha r)) ObjDigest) (\<lambda>_.
     check (ak_name (o_artifact r) = ArtifactPrefix @ o_sha r @ ''.tar'') ObjName))))))"

section \<open>Walks\<close>

text \<open>How JobDB and \<^verbatim>\<open>encoding/json\<close> see a reference.\<close>

record obj_lib =
  key_ok :: "artifact_key \<Rightarrow> bool"
  decode :: "(string \<times> gval) list \<Rightarrow> obj_ref option"
  encode :: "obj_ref \<Rightarrow> gval"

fun obj_Parse :: "obj_lib \<Rightarrow> gval \<Rightarrow> (obj_error, obj_ref) parsed" where
  "obj_Parse L (GMap m) =
     (if Marker \<notin> fst ` set m then NotRef
      else case decode L m of
        None \<Rightarrow> BadRef ObjDecode
      | Some r \<Rightarrow> parsed_of (bindE (obj_Validate (key_ok L) r) (\<lambda>_. Inr r)))"
| "obj_Parse L v = NotRef"

interpretation object_format: reference_format "obj_Parse L" Marker for L
  by unfold_locales (auto split: option.split)

definition obj_Transform :: "obj_lib \<Rightarrow> (obj_ref \<Rightarrow> 's \<Rightarrow> obj_error + tval \<times> 's) \<Rightarrow> gval \<Rightarrow> 's \<Rightarrow> obj_error + tval \<times> 's" where
  "obj_Transform L f v s = walk (obj_Parse L) (\<lambda>_. False) (\<lambda>w. Inr (Val w)) ObjConflict (\<lambda>mode k s. s) f None [] v s"

text \<open>The key of the \<open>seen\<close> map; the map is the list of what was noted, in the order of the walk.\<close>

definition seen_key :: "obj_ref \<Rightarrow> string" where
  "seen_key r = o_tenant r @ ''/'' @ ak_job (o_artifact r) @ ''/'' @
     show_nat (nat (ak_ordinal (o_artifact r))) @ ''/'' @ o_sha r"

definition note_obj :: "obj_lib \<Rightarrow> obj_ref \<Rightarrow> obj_ref list \<Rightarrow> obj_error + tval \<times> obj_ref list" where
  "note_obj L r seen =
     (if list_ex (\<lambda>old. seen_key old = seen_key r \<and> old \<noteq> r) seen then Inl ObjConflict
      else Inr (Val (encode L r), seen @ [r]))"

definition Collect_refs :: "obj_lib \<Rightarrow> gval \<Rightarrow> obj_error + obj_ref list" where
  "Collect_refs L v =
     bindE (obj_Transform L (note_obj L) v []) (\<lambda>(w, seen). Inr (sort_key seen_key (remdups seen)))"

section \<open>What is collected\<close>

definition one_per_key :: "obj_ref list \<Rightarrow> bool" where
  "one_per_key rs = (\<forall>r \<in> set rs. \<forall>q \<in> set rs. seen_key r = seen_key q \<longrightarrow> r = q)"

lemma note_obj_collects: "collects (note_obj L)"
  by (auto simp: collects_def note_obj_def)

lemma note_obj_unique: "keeps_state (note_obj L) (\<lambda>mode k s. s) one_per_key"
  unfolding keeps_state_def
proof (intro conjI allI impI)
  fix r s w s' assume s: "one_per_key s" and n: "note_obj L r s = Inr (w, s')"
  from n have "s' = s @ [r]" "\<forall>old \<in> set s. seen_key old = seen_key r \<longrightarrow> old = r"
    by (auto simp: note_obj_def list_ex_iff split: if_splits)
  with s show "one_per_key s'" by (auto simp: one_per_key_def)
qed

lemma obj_Transform_collects:
  assumes "obj_Transform L (note_obj L) v [] = Inr (w, rs)"
  shows "rs = refs_at (obj_Parse L) (\<lambda>_. False) None [] v \<and> \<not> malformed (obj_Parse L) v \<and> one_per_key rs"
proof -
  have "walk (obj_Parse L) (\<lambda>_. False) (\<lambda>v. if malformed (obj_Parse L) v then Inl ObjConflict else Inr (Val v))
      ObjConflict (\<lambda>mode k s. s) (note_obj L) None [] v [] = Inr (w, rs)"
    using assms unfolding obj_Transform_def by (subst walk_stopless) auto
  from walk_collects(1) [OF note_obj_collects keeps_id this]
    walk_invariant(1) [OF note_obj_unique _ this]
  show ?thesis by (simp add: one_per_key_def)
qed

lemma obj_Parse_valid: "obj_Parse L v = Ref r \<Longrightarrow> is_ok (obj_Validate (key_ok L) r)"
  by (cases v) (auto simp: parsed_of_Ref ok_iff is_ok_iff split: if_splits option.splits)

text \<open>Collecting the object references of a value gives each reference in it exactly once, all of
  them valid, in the order of their keys, and never two different references under one key: it
  fails instead.\<close>

theorem Collect_exact:
  assumes "Collect_refs L v = Inr rs"
  shows "set rs = set (refs_at (obj_Parse L) (\<lambda>_. False) None [] v) \<and>
    (\<forall>r \<in> set rs. is_ok (obj_Validate (key_ok L) r)) \<and>
    sorted (map seen_key rs) \<and> distinct (map seen_key rs)"
proof -
  from assms obtain w seen where "obj_Transform L (note_obj L) v [] = Inr (w, seen)"
    and rs: "rs = sort_key seen_key (remdups seen)"
    by (auto simp: Collect_refs_def ok_iff)
  from obj_Transform_collects [OF this(1)] have seen: "seen = refs_at (obj_Parse L) (\<lambda>_. False) None [] v"
    and one: "one_per_key seen" by blast+
  from seen rs have "set rs = set (refs_at (obj_Parse L) (\<lambda>_. False) None [] v)" by simp
  moreover from this have "\<forall>r \<in> set rs. is_ok (obj_Validate (key_ok L) r)"
    by (auto dest!: refs_at_origin obj_Parse_valid)
  moreover from one rs have "sorted (map seen_key rs) \<and> distinct (map seen_key rs)"
    by (auto simp: distinct_map inj_on_def one_per_key_def)
  ultimately show ?thesis by blast
qed

definition ex_sha :: string where "ex_sha = replicate 64 CHR ''a''"

definition ex_obj :: "nat \<Rightarrow> obj_ref" where
  "ex_obj n = \<lparr>o_format = Version, o_type = ''codex.session/v1'', o_tenant = ''t'',
     o_artifact = \<lparr>ak_job = ''job'', ak_ordinal = int n, ak_name = ArtifactPrefix @ ex_sha @ ''.tar'', ak_size = 7\<rparr>,
     o_sha = ex_sha\<rparr>"

text \<open>An encoding that keeps only the ordinal.\<close>

definition ex_lib :: obj_lib where
  "ex_lib = \<lparr>key_ok = (\<lambda>k. ak_job k \<noteq> []),
     decode = (\<lambda>m. case map_of m Marker of Some (GStr n) \<Rightarrow> Some (ex_obj (length n)) | _ \<Rightarrow> None),
     encode = (\<lambda>r. GMap [(Marker, GStr (replicate (nat (ak_ordinal (o_artifact r))) CHR ''x''))])\<rparr>"

definition ex_value :: gval where
  "ex_value = GMap [(''b'', encode ex_lib (ex_obj 2)), (''a'', GList [encode ex_lib (ex_obj 1), encode ex_lib (ex_obj 2)])]"

theorem Collect_exact_witness:
  "Collect_refs ex_lib ex_value = Inr [ex_obj 1, ex_obj 2] \<and>
   set [ex_obj 1, ex_obj 2] = set (refs_at (obj_Parse ex_lib) (\<lambda>_. False) None [] ex_value)"
proof -
  have "Collect_refs ex_lib ex_value = Inr [ex_obj 1, ex_obj 2]" by code_simp
  with Collect_exact [OF this] show ?thesis by blast
qed

text \<open>The emptiness test its callers use.\<close>

lemma Collect_empty_iff: "Collect_refs L v = Inr [] \<longleftrightarrow> \<not> holds_ref (obj_Parse L) v"
proof
  assume none: "\<not> holds_ref (obj_Parse L) v"
  then have "obj_Transform L (note_obj L) v [] = Inr (Val v, [])"
    unfolding obj_Transform_def by (intro object_format.walk_clean(1)) simp_all
  then show "Collect_refs L v = Inr []" by (simp add: Collect_refs_def)
next
  assume "Collect_refs L v = Inr []"
  then obtain w seen where "obj_Transform L (note_obj L) v [] = Inr (w, seen)" "sort_key seen_key (remdups seen) = []"
    by (auto simp: Collect_refs_def ok_iff)
  with obj_Transform_collects [OF this(1)] show "\<not> holds_ref (obj_Parse L) v"
    by (metis exposed_iff remdups_eq_nil_iff set_empty set_sort)
qed

end
