(* ===== verification/Artifact_Ref.thy ===== *)
theory Artifact_Ref
  imports Object_Refs
begin

text \<open>
  \<^verbatim>\<open>pkg/artifacts\<close>: references to artifacts, their validation, their content and the
  identity by which two of them are told apart. The key of a stored artifact is that of \<open>Object_Refs\<close>;
  its validation, the JSON codec and the hash are operations of \<open>artifact_lib\<close>. A raw JSON value
  stays text. The theory also holds \<open>go_error\<close>, an error as far as callers inspect it: its text,
  without quoted operands, and what \<^verbatim>\<open>errors.Is\<close> and \<^verbatim>\<open>errors.As\<close> find in it.
\<close>

section \<open>Errors\<close>

record go_error =
  er_text :: string
  er_job_failed :: bool
  er_cancelled :: bool
  er_goal_failed :: bool
  er_failure :: "gval option"
  er_timeout :: bool
  er_system :: bool

definition errorf :: "string \<Rightarrow> go_error" where
  "errorf t = \<lparr>er_text = t, er_job_failed = False, er_cancelled = False, er_goal_failed = False,
     er_failure = None, er_timeout = False, er_system = False\<rparr>"

text \<open>An error that wraps another: what is found in the other is found in it.\<close>

definition wrap_error :: "string \<Rightarrow> go_error \<Rightarrow> go_error" where
  "wrap_error t e = e\<lparr>er_text := t @ er_text e\<rparr>"

definition wrapping :: "string \<Rightarrow> go_error + 'a \<Rightarrow> go_error + 'a" where
  "wrapping t r = map_sum (wrap_error t) id r"

lemma wrapping_ok [ok_iff]: "wrapping t r = Inr x \<longleftrightarrow> r = Inr x"
  by (cases r) (auto simp: wrapping_def)


section \<open>References\<close>

record external_ref =
  xr_URL :: string
  xr_Expand :: bool

record artifact_ref =
  ar_Kind :: string
  ar_Name :: string
  ar_Stored :: "artifact_key option"
  ar_External :: "external_ref option"
  ar_Format :: string
  ar_Value :: "string option"

record artifact_lib =
  al_key_error :: "artifact_key \<Rightarrow> go_error option"
  al_decode :: "string \<Rightarrow> gval option"
  al_compact :: "string \<Rightarrow> string"
  al_sha :: "string \<Rightarrow> string"

definition stored_kind :: string where "stored_kind = ''stored''"
definition external_kind :: string where "external_kind = ''external''"
definition value_kind :: string where "value_kind = ''value''"
definition attached_kind :: string where "attached_kind = ''attached''"

lemmas kind_defs = stored_kind_def external_kind_def value_kind_def attached_kind_def

definition zero_ref :: artifact_ref where
  "zero_ref = \<lparr>ar_Kind = [], ar_Name = [], ar_Stored = None, ar_External = None, ar_Format = [], ar_Value = None\<rparr>"

definition NewStoredRef :: "artifact_key \<Rightarrow> artifact_ref" where
  "NewStoredRef k = zero_ref\<lparr>ar_Kind := stored_kind, ar_Name := trim_space (ak_name k), ar_Stored := Some k\<rparr>"

definition NewExternalRef :: "string \<Rightarrow> string \<Rightarrow> bool \<Rightarrow> artifact_ref" where
  "NewExternalRef name url expand = zero_ref\<lparr>ar_Kind := external_kind, ar_Name := trim_space name,
     ar_External := Some \<lparr>xr_URL = trim_space url, xr_Expand = expand\<rparr>\<rparr>"

text \<open>An artifact of JobDB: its name, its content and, once it is stored, its key.\<close>

record artifact =
  af_Name :: string
  af_Content :: string
  af_Key :: "go_error + artifact_key"

definition RefFromArtifact :: "artifact \<Rightarrow> go_error + artifact_ref" where
  "RefFromArtifact a = bindE (af_Key a) (\<lambda>k.
     let r = NewStoredRef k; name = trim_space (af_Name a) in
     Inr (if name \<noteq> [] then r\<lparr>ar_Name := name\<rparr> else r))"

definition NameValue :: "artifact_ref \<Rightarrow> string" where
  "NameValue r =
     (if trim_space (ar_Name r) \<noteq> [] then trim_space (ar_Name r)
      else case ar_Stored r of Some k \<Rightarrow> trim_space (ak_name k) | None \<Rightarrow> [])"

definition ValueBytes :: "artifact_lib \<Rightarrow> artifact_ref \<Rightarrow> go_error + string" where
  "ValueBytes L r =
     (if ar_Kind r \<noteq> value_kind \<or> ar_Stored r \<noteq> None \<or> ar_External r \<noteq> None
      then Inl (errorf ''value artifact cannot contain stored/external payloads'')
      else case ar_Value r of
        None \<Rightarrow> Inl (errorf ''value artifact requires a JSON-encodable value'')
      | Some raw \<Rightarrow>
          if raw = [] then Inl (errorf ''value artifact requires a JSON-encodable value'')
          else (case al_decode L raw of
            None \<Rightarrow> Inl (errorf ''value artifact requires a JSON-encodable value'')
          | Some v \<Rightarrow>
              if ar_Format r = ''text''
              then (case v of GStr s \<Rightarrow> Inr s | _ \<Rightarrow> Inl (errorf ''text artifact value must be a string''))
              else if ar_Format r = ''json'' then Inr (al_compact L raw @ [CHR 0x0A])
              else Inl (errorf ''value artifact format must be text or json'')))"

definition ref_Validate :: "artifact_lib \<Rightarrow> artifact_ref \<Rightarrow> go_error + unit" where
  "ref_Validate L r =
     (if ar_Kind r \<noteq> value_kind \<and> (ar_Format r \<noteq> [] \<or> ar_Value r \<noteq> None)
      then Inl (errorf ''only value refs can have format/value fields'')
      else if ar_Kind r = attached_kind
      then check (ar_Stored r = None \<and> ar_External r = None \<and> NameValue r \<noteq> [])
        (errorf ''attached ref requires only a filename'')
      else if ar_Kind r = value_kind then bindE (ValueBytes L r) (\<lambda>_. Inr ())
      else if ar_Kind r = stored_kind
      then (case ar_Stored r of
          None \<Rightarrow> Inl (errorf ''stored ref missing payload'')
        | Some k \<Rightarrow>
            if ar_External r \<noteq> None then Inl (errorf ''stored ref cannot also have external payload'')
            else (case al_key_error L k of
                Some e \<Rightarrow> Inl e
              | None \<Rightarrow> check (NameValue r \<noteq> []) (errorf ''stored ref name cannot be empty'')))
      else if ar_Kind r = external_kind
      then (case ar_External r of
          None \<Rightarrow> Inl (errorf ''external ref missing payload'')
        | Some x \<Rightarrow>
            if ar_Stored r \<noteq> None then Inl (errorf ''external ref cannot also have stored payload'')
            else if NameValue r = [] then Inl (errorf ''external ref name cannot be empty'')
            else check (trim_space (xr_URL x) \<noteq> []) (errorf ''external ref url cannot be empty''))
      else Inl (errorf ''invalid artifact ref kind''))"

definition StoredKey :: "artifact_ref \<Rightarrow> artifact_key option" where
  "StoredKey r = (if ar_Kind r = stored_kind then ar_Stored r else None)"

definition SizeBytes :: "artifact_ref \<Rightarrow> int" where
  "SizeBytes r = (case StoredKey r of Some k \<Rightarrow> ak_size k | None \<Rightarrow> - 1)"

definition show_bool :: "bool \<Rightarrow> string" where
  "show_bool b = (if b then ''true'' else ''false'')"

definition Identity :: "artifact_lib \<Rightarrow> artifact_ref \<Rightarrow> string" where
  "Identity L r =
     (if ar_Kind r = attached_kind then ''attached:'' @ NameValue r
      else if ar_Kind r = value_kind
      then ''value:'' @ NameValue r @ '':'' @ ar_Format r @ '':'' @ al_sha L (case ar_Value r of Some v \<Rightarrow> v | None \<Rightarrow> [])
      else case StoredKey r of
        Some k \<Rightarrow> ''stored:'' @ ak_job k @ '':'' @ show_int (ak_ordinal k) @ '':'' @ ak_name k
      | None \<Rightarrow> (case ar_External r of
          Some x \<Rightarrow> ''external:'' @ xr_URL x @ '':'' @ show_bool (xr_Expand x) @ '':'' @ NameValue r
        | None \<Rightarrow> ''invalid:'' @ ar_Kind r @ '':'' @ NameValue r))"

definition ref_IsZero :: "artifact_ref \<Rightarrow> bool" where
  "ref_IsZero r = (r = zero_ref)"


section \<open>Identity tells references apart\<close>

lemma split_at_colon:
  assumes "a @ CHR '':'' # s = b @ CHR '':'' # t" "CHR '':'' \<notin> set a" "CHR '':'' \<notin> set b"
  shows "a = b \<and> s = t"
  using assms
proof (induction a arbitrary: b)
  case Nil
  then show ?case by (cases b) auto
next
  case (Cons c a)
  then show ?case by (cases b) auto
qed

lemma split_at_last_colon:
  assumes "a @ CHR '':'' # s = b @ CHR '':'' # t" "CHR '':'' \<notin> set s" "CHR '':'' \<notin> set t"
  shows "a = b \<and> s = t"
proof -
  from assms(1) have "rev (a @ CHR '':'' # s) = rev (b @ CHR '':'' # t)" by simp
  then have "rev s @ CHR '':'' # rev a = rev t @ CHR '':'' # rev b" by simp
  from split_at_colon [OF this] assms(2,3) show ?thesis by simp
qed

lemma colon_free_show [simp]: "CHR '':'' \<notin> set (show_int i)" "CHR '':'' \<notin> set (show_bool b)"
proof -
  have "CHR '':'' \<notin> set (show_nat n)" for n
    using show_nat_digits [of n] by (auto simp: list_all_iff is_digit_def byte_in_def)
  then show "CHR '':'' \<notin> set (show_int i)" by (simp add: show_int_def)
qed (simp add: show_bool_def)

lemma show_nat_inj [simp]: "show_nat m = show_nat n \<longleftrightarrow> m = n"
  by (metis read_show)

lemma show_int_inj [simp]: "show_int i = show_int j \<longleftrightarrow> i = j"
proof -
  have "hd (show_nat n) \<noteq> CHR ''-''" for n
    using show_nat_digits [of n] by (cases "show_nat n") (auto simp: is_digit_def byte_in_def)
  then have no: "show_nat n \<noteq> CHR ''-'' # t" for n t by (metis list.sel(1))
  show ?thesis by (auto simp: show_int_def no no [symmetric])
qed

lemma show_bool_inj [simp]: "show_bool a = show_bool b \<longleftrightarrow> a = b"
  by (simp add: show_bool_def)

text \<open>What a reference stands for: all but the size of a stored artifact and the text of a value,
  of which the hash is compared.\<close>

definition same_target :: "artifact_lib \<Rightarrow> artifact_ref \<Rightarrow> artifact_ref \<Rightarrow> bool" where
  "same_target L r s = (ar_Kind r = ar_Kind s \<and> ar_External r = ar_External s \<and> ar_Format r = ar_Format s \<and>
     map_option (\<lambda>k. (ak_job k, ak_ordinal k, ak_name k)) (ar_Stored r) =
     map_option (\<lambda>k. (ak_job k, ak_ordinal k, ak_name k)) (ar_Stored s) \<and>
     map_option (al_sha L) (ar_Value r) = map_option (al_sha L) (ar_Value s))"

definition key_plain :: "artifact_ref \<Rightarrow> bool" where
  "key_plain r = (case ar_Stored r of Some k \<Rightarrow> CHR '':'' \<notin> set (ak_job k) | None \<Rightarrow> True)"

lemma valid_ref_cases:
  assumes "ref_Validate L r = Inr ()"
  obtains (attached) "ar_Kind r = attached_kind" "ar_Stored r = None" "ar_External r = None" "ar_Format r = []" "ar_Value r = None"
  | (content) v where "ar_Kind r = value_kind" "ar_Stored r = None" "ar_External r = None" "ar_Value r = Some v"
      "ar_Format r = ''text'' \<or> ar_Format r = ''json''"
  | (stored) k where "ar_Kind r = stored_kind" "ar_Stored r = Some k" "ar_External r = None" "ar_Format r = []" "ar_Value r = None"
  | (external) x where "ar_Kind r = external_kind" "ar_Stored r = None" "ar_External r = Some x" "ar_Format r = []" "ar_Value r = None"
proof -
  from assms consider "ar_Kind r = attached_kind" | "ar_Kind r = value_kind" | "ar_Kind r = stored_kind" | "ar_Kind r = external_kind"
    by (auto simp: ref_Validate_def split: if_splits)
  then show thesis
  proof cases
    case 1
    with assms attached show ?thesis by (auto simp: ref_Validate_def ok_iff kind_defs split: if_splits)
  next
    case 2
    with assms obtain s where "ValueBytes L r = Inr s" by (auto simp: ref_Validate_def ok_iff kind_defs split: if_splits)
    with 2 content show ?thesis by (auto simp: ValueBytes_def split: if_splits option.splits gval.splits)
  next
    case 3
    with assms stored show ?thesis by (auto simp: ref_Validate_def ok_iff kind_defs split: if_splits option.splits)
  next
    case 4
    with assms external show ?thesis by (auto simp: ref_Validate_def ok_iff kind_defs split: if_splits option.splits)
  qed
qed

text \<open>Two valid references of one name have the same identity only if they stand for the same
  content, provided job identifiers hold no colon.\<close>

theorem identity_distinguishes:
  assumes "ref_Validate L r = Inr ()" "ref_Validate L s = Inr ()" "key_plain r" "key_plain s"
    "NameValue r = NameValue s" "Identity L r = Identity L s"
  shows "same_target L r s"
  using assms(1)
proof (cases rule: valid_ref_cases)
  case attached
  with assms(2,6) show ?thesis
    by (cases rule: valid_ref_cases [OF assms(2)])
       (simp_all add: same_target_def Identity_def StoredKey_def kind_defs)
next
  case (content v)
  note r = this
  from assms(2) show ?thesis
  proof (cases rule: valid_ref_cases)
    case (content w)
    with r assms(5,6) have "ar_Format r @ CHR '':'' # al_sha L v = ar_Format s @ CHR '':'' # al_sha L w"
      by (simp add: Identity_def kind_defs)
    moreover have "CHR '':'' \<notin> set (ar_Format r)" "CHR '':'' \<notin> set (ar_Format s)" using r(5) content(5) by auto
    ultimately have "ar_Format r = ar_Format s \<and> al_sha L v = al_sha L w" by (rule split_at_colon)
    with r content show ?thesis by (simp add: same_target_def)
  qed (use r assms(6) in \<open>simp_all add: Identity_def StoredKey_def kind_defs\<close>)
next
  case (stored k)
  note r = this
  from assms(2) show ?thesis
  proof (cases rule: valid_ref_cases)
    case (stored j)
    with r assms(6) have "ak_job k @ CHR '':'' # (show_int (ak_ordinal k) @ CHR '':'' # ak_name k) =
        ak_job j @ CHR '':'' # (show_int (ak_ordinal j) @ CHR '':'' # ak_name j)"
      by (simp add: Identity_def StoredKey_def kind_defs)
    with assms(3,4) r stored have "ak_job k = ak_job j \<and>
        show_int (ak_ordinal k) @ CHR '':'' # ak_name k = show_int (ak_ordinal j) @ CHR '':'' # ak_name j"
      by (intro split_at_colon) (simp_all add: key_plain_def)
    moreover from this have "show_int (ak_ordinal k) = show_int (ak_ordinal j) \<and> ak_name k = ak_name j"
      by (intro split_at_colon) simp_all
    ultimately show ?thesis using r stored by (simp add: same_target_def)
  qed (use r assms(6) in \<open>simp_all add: Identity_def StoredKey_def kind_defs\<close>)
next
  case (external x)
  note r = this
  from assms(2) show ?thesis
  proof (cases rule: valid_ref_cases)
    case (external y)
    with r assms(5,6) have "xr_URL x @ CHR '':'' # show_bool (xr_Expand x) = xr_URL y @ CHR '':'' # show_bool (xr_Expand y)"
      by (simp add: Identity_def StoredKey_def kind_defs)
    then have "xr_URL x = xr_URL y \<and> show_bool (xr_Expand x) = show_bool (xr_Expand y)"
      by (rule split_at_last_colon) simp_all
    with r external show ?thesis by (cases x; cases y) (simp add: same_target_def)
  qed (use r assms(6) in \<open>simp_all add: Identity_def StoredKey_def kind_defs\<close>)
qed

end
