(* ===== verification/Go_Path.thy ===== *)
theory Go_Path
  imports Go_Strings
begin

text \<open>
  Go's lexical \<^verbatim>\<open>path.Clean\<close>, by components: empty and dot components are dropped, a
  double dot removes the component before it (or is kept at the front of a relative path, and dropped at
  the root). The lemmas characterize the paths it leaves unchanged.
\<close>

fun clean_parts :: "bool \<Rightarrow> string list \<Rightarrow> string list \<Rightarrow> string list" where
  "clean_parts rooted st [] = rev st"
| "clean_parts rooted st (p # ps) =
     (if p = [] \<or> p = ''.'' then clean_parts rooted st ps
      else if p = ''..'' then
        (case st of
           [] \<Rightarrow> if rooted then clean_parts rooted [] ps else clean_parts rooted [''..''] ps
         | t # ts \<Rightarrow> if t = ''..'' then clean_parts rooted (''..'' # st) ps else clean_parts rooted ts ps)
      else clean_parts rooted (p # st) ps)"

definition path_clean :: "string \<Rightarrow> string" where
  "path_clean s =
     (let rooted = has_prefix s ''/'';
          out = (if rooted then ''/'' else []) @ join_with ''/'' (clean_parts rooted [] (split_on CHR ''/'' s))
      in if out = [] then ''.'' else out)"

definition plain_component :: "string \<Rightarrow> bool" where
  "plain_component p \<longleftrightarrow> p \<noteq> [] \<and> p \<noteq> ''.'' \<and> p \<noteq> ''..''"

lemma clean_parts_plain:
  "\<forall>p \<in> set ps. plain_component p \<Longrightarrow> clean_parts rooted st ps = rev st @ ps"
  by (induction ps arbitrary: st) (auto simp: plain_component_def)

text \<open>The stack of the loop: no empty or dot component, and below a double dot only double dots.\<close>

definition stack_ok :: "string list \<Rightarrow> bool" where
  "stack_ok st \<longleftrightarrow> list_all (\<lambda>p. p \<noteq> [] \<and> p \<noteq> ''.'') st \<and>
     list_all (\<lambda>p. p = ''..'') (dropWhile (\<lambda>p. p \<noteq> ''..'') st)"

lemma stack_ok_push: "stack_ok st \<Longrightarrow> plain_component p \<Longrightarrow> stack_ok (p # st)"
  by (simp add: stack_ok_def plain_component_def)

lemma stack_ok_dots: "stack_ok [] " "stack_ok (''..'' # ts) \<Longrightarrow> stack_ok (''..'' # ''..'' # ts)"
  by (simp_all add: stack_ok_def)

lemma stack_ok_pop: "stack_ok (t # ts) \<Longrightarrow> t \<noteq> ''..'' \<Longrightarrow> stack_ok ts"
  by (simp add: stack_ok_def)

lemma clean_parts_stack: "stack_ok st \<Longrightarrow> \<exists>st'. clean_parts rooted st ps = rev st' \<and> stack_ok st'"
proof (induction rooted st ps rule: clean_parts.induct)
  case (1 rooted st)
  then show ?case by auto
next
  case (2 rooted st p ps)
  consider (skip) "p = [] \<or> p = ''.''" | (up) "p = ''..''" | (down) "plain_component p"
    by (auto simp: plain_component_def)
  then show ?case
  proof cases
    case skip
    then show ?thesis using "2.IH"(1) "2.prems" by simp
  next
    case down
    then have d: "p \<noteq> []" "p \<noteq> ''.''" "p \<noteq> ''..''" by (simp_all add: plain_component_def)
    with "2.IH"(6) stack_ok_push [OF "2.prems" down] show ?thesis by simp
  next
    case up
    show ?thesis
    proof (cases st)
      case Nil
      have "stack_ok [''..'']" by (simp add: stack_ok_def)
      then show ?thesis using "2.IH"(2,3) up Nil stack_ok_dots(1) by simp
    next
      case (Cons t ts)
      show ?thesis
      proof (cases "t = ''..''")
        case True
        then have "stack_ok (''..'' # st)" using "2.prems" Cons stack_ok_dots(2) by simp
        with "2.IH"(4) up Cons True show ?thesis by simp
      next
        case False
        with "2.IH"(5) up Cons stack_ok_pop [of t ts] "2.prems" show ?thesis by simp
      qed
    qed
  qed
qed

text \<open>A relative path that is its own clean form and does not start with a double dot has plain
  components only.\<close>

lemma stack_ok_rev:
  assumes "stack_ok st" "hd (rev st) \<noteq> ''..''" "p \<in> set st"
  shows "plain_component p"
proof -
  have "p \<noteq> ''..''"
  proof
    assume "p = ''..''"
    with assms(3) have ne: "dropWhile (\<lambda>p. p \<noteq> ''..'') st \<noteq> []" by auto
    then have "last (dropWhile (\<lambda>p. p \<noteq> ''..'') st) = last st"
      by (metis last_appendR takeWhile_dropWhile_id)
    moreover have "last (dropWhile (\<lambda>p. p \<noteq> ''..'') st) = ''..''"
      using assms(1) last_in_set [OF ne] unfolding stack_ok_def list_all_iff by blast
    ultimately show False using assms(2,3) by (simp add: hd_rev)
  qed
  then show ?thesis
    using assms(1,3) unfolding stack_ok_def list_all_iff plain_component_def by blast
qed

lemma split_nonempty: "s \<noteq> [] \<Longrightarrow> \<not> has_prefix s ''/'' \<Longrightarrow> hd (split_on CHR ''/'' s) \<noteq> []"
  by (cases s) (auto simp: has_prefix_def prefix_def split: list.splits)

lemma clean_parts_noslash:
  "\<forall>p \<in> set st \<union> set ps. c \<notin> set p \<Longrightarrow> c \<noteq> CHR ''.'' \<Longrightarrow> \<forall>p \<in> set (clean_parts rooted st ps). c \<notin> set p"
  by (induction rooted st ps rule: clean_parts.induct) (simp_all split: list.split)

lemma path_clean_fixed:
  assumes "path_clean s = s" "\<not> has_prefix s ''/''" "s \<noteq> ''.''" "s \<noteq> ''..''" "\<not> has_prefix s ''../''"
    and "p \<in> set (split_on CHR ''/'' s)"
  shows "plain_component p"
proof -
  let ?ps = "clean_parts False [] (split_on CHR ''/'' s)"
  have "s \<noteq> []" using assms(1) by (auto simp: path_clean_def Let_def has_prefix_def)
  with assms have s: "s = join_with ''/'' ?ps"
    by (auto simp: path_clean_def Let_def split: if_splits)
  obtain st where st: "?ps = rev st" "stack_ok st"
    using clean_parts_stack [OF stack_ok_dots(1)] by blast
  have "\<forall>p \<in> set ?ps. CHR ''/'' \<notin> set p"
    using split_on_parts by (intro clean_parts_noslash) auto
  moreover have ne: "?ps \<noteq> []" using s \<open>s \<noteq> []\<close> by auto
  ultimately have split: "split_on CHR ''/'' s = ?ps" using s split_join by metis
  have "hd ?ps \<noteq> ''..''"
  proof
    assume dots: "hd ?ps = ''..''"
    obtain q qs where q: "?ps = q # qs" using ne by (cases ?ps) auto
    with dots have "?ps = ''..'' # qs" by simp
    with s assms(4,5) show False by (cases qs) (auto simp: has_prefix_def)
  qed
  then show ?thesis using stack_ok_rev [OF st(2)] assms(6) split st(1) by simp
qed

end
