(* ===== verification/Secret_Refs.thy ===== *)
theory Secret_Refs
  imports Go_Value
begin

text \<open>
  \<^verbatim>\<open>pkg/secrets/reference.go\<close> and \<^verbatim>\<open>pkg/secrets/invocation.go\<close>: the reserved encoding of a
  secret reference, the expressions that denote one, and the walks over task inputs. The CEL parser
  that reads a fallback expression is the parameter \<open>cel\<close>: the literal its argument is, if it is
  one. An error is its message, as a datatype.
\<close>

section \<open>Data\<close>

datatype secret_error =
    InvalidReference | InvalidName | DefaultNotString | InvalidFallback
  | ArrayOmission | NeedsObjectField
  | SetupRequired | LeaseLost | NoProvider | ResolutionUnavailable | SecretUnavailable | Cancelled
  | OutputReference | OutputUnchecked | OutputSecret

record secret_ref =
  sr_name :: string
  sr_default :: "string option"
  sr_omit :: bool
  sr_required :: bool

definition wire_key :: string where
  "wire_key = ''$c2j_secret''"

definition named_secret :: "string \<Rightarrow> secret_ref" where
  "named_secret n = \<lparr>sr_name = n, sr_default = None, sr_omit = False, sr_required = False\<rparr>"

text \<open>The typed reference as a value.\<close>

definition secret_value :: "secret_ref \<Rightarrow> gval" where
  "secret_value r = GSecret (sr_name r) (sr_default r) (sr_omit r) (sr_required r)"

section \<open>Names and expressions\<close>

fun valid_name :: "string \<Rightarrow> bool" where
  "valid_name [] = False"
| "valid_name (c # cs) = (name_start c \<and> list_all name_char cs \<and> length cs \<le> 255)"

text \<open>\<open>fallbackPattern\<close>: a name of the pattern is maximal, as what follows it is a dot.\<close>

definition fallback_match :: "string \<Rightarrow> (string \<times> string) option" where
  "fallback_match expr =
     Option.bind (after_prefix ''context.secrets.?'' expr) (\<lambda>s.
     let n = takeWhile name_char s in
     if \<not> valid_name n then None
     else Option.bind (after_prefix ''.orValue('' (dropWhile name_char s)) (\<lambda>b.
          Option.bind (before_suffix '')'' b) (\<lambda>body.
          if CHR 0x0A \<in> set body then None else Some (n, body))))"

definition expression_match :: "string \<Rightarrow> string option" where
  "expression_match expr =
     Option.bind (after_prefix ''context.secrets.'' expr) (\<lambda>n. if valid_name n then Some n else None)"

definition Expression :: "(string \<Rightarrow> cel_literal option) \<Rightarrow> string \<Rightarrow> secret_ref option" where
  "Expression cel expr =
     (case fallback_match expr of
        Some (n, body) \<Rightarrow>
          if trim_space body = ''null'' then Some (named_secret n\<lparr>sr_omit := True\<rparr>)
          else (case cel (trim_space body) of
                  Some (CelString d) \<Rightarrow> Some (named_secret n\<lparr>sr_default := Some d\<rparr>)
                | _ \<Rightarrow> None)
      | None \<Rightarrow> map_option named_secret (expression_match expr))"

definition Template :: "(string \<Rightarrow> cel_literal option) \<Rightarrow> string \<Rightarrow> secret_ref option" where
  "Template cel text = Option.bind (template_body text) (Expression cel)"

section \<open>Parsing\<close>

fun bool_field :: "string \<Rightarrow> (string \<times> gval) list \<Rightarrow> secret_error + bool" where
  "bool_field k m = (case map_of m k of
     None \<Rightarrow> Inr False | Some (GBool b) \<Rightarrow> Inr b | Some _ \<Rightarrow> Inl InvalidReference)"

definition check_ref :: "secret_ref \<Rightarrow> secret_error + secret_ref" where
  "check_ref r =
     (if (sr_omit r \<and> sr_default r \<noteq> None) \<or> (sr_required r \<and> \<not> sr_omit r) then Inl InvalidFallback
      else if \<not> valid_name (sr_name r) \<and> \<not> (sr_name r = [] \<and> sr_default r \<noteq> None)
      then Inl InvalidName
      else Inr r)"

definition parse_object :: "gval \<Rightarrow> (string \<times> gval) list \<Rightarrow> secret_error + secret_ref" where
  "parse_object n m =
     bindE (check (list_all (\<lambda>k. k \<in> {wire_key, ''default'', ''omit_if_unavailable'', ''required''}) (map fst m))
       InvalidReference) (\<lambda>_.
     bindE (bool_field ''omit_if_unavailable'' m) (\<lambda>om.
     bindE (bool_field ''required'' m) (\<lambda>req.
     bindE (case n of GStr s \<Rightarrow> Inr s | _ \<Rightarrow> Inl InvalidName) (\<lambda>name.
     bindE (case map_of m ''default'' of
              None \<Rightarrow> Inr None | Some (GStr d) \<Rightarrow> Inr (Some d) | Some _ \<Rightarrow> Inl DefaultNotString) (\<lambda>d.
     check_ref \<lparr>sr_name = name, sr_default = d, sr_omit = om, sr_required = req\<rparr>)))))"

fun Parse :: "gval \<Rightarrow> (secret_error, secret_ref) parsed" where
  "Parse (GSecret n d om req) =
     parsed_of (check_ref \<lparr>sr_name = n, sr_default = d, sr_omit = om, sr_required = req\<rparr>)"
| "Parse (GMap m) = (case map_of m wire_key of None \<Rightarrow> NotRef | Some n \<Rightarrow> parsed_of (parse_object n m))"
| "Parse v = NotRef"

interpretation secret_format: reference_format Parse wire_key
  proof
  show "Parse (GMap m) = NotRef \<longleftrightarrow> wire_key \<notin> fst ` set m" for m
    using map_of_eq_None_iff [of m wire_key] by (cases "map_of m wire_key") simp_all
qed simp_all

text \<open>What parsing accepts obeys the checks, and a typed reference of that kind is accepted as it is.\<close>

lemma check_ref_same: "check_ref r = Inr q \<Longrightarrow> q = r \<and> check_ref r = Inr r"
  by (auto simp: check_ref_def split: if_splits)

lemma parse_object_checked: "parse_object n m = Inr r \<Longrightarrow> check_ref r = Inr r"
  unfolding parse_object_def bindE_ok by (blast dest: check_ref_same)

lemma Parse_checked: "Parse v = Ref r \<Longrightarrow> check_ref r = Inr r"
  by (cases v) (auto simp: parsed_of_Ref split: option.splits dest: check_ref_same parse_object_checked)

lemma Parse_secret_value: "check_ref r = Inr r \<Longrightarrow> Parse (secret_value r) = Ref r"
  by (cases r) (simp add: secret_value_def parsed_of_Ref)

section \<open>Walks\<close>

definition Transform :: "(secret_ref \<Rightarrow> 's \<Rightarrow> secret_error + tval \<times> 's) \<Rightarrow> gval \<Rightarrow> 's \<Rightarrow> secret_error + tval \<times> 's" where
  "Transform f v s = walk Parse (\<lambda>_. False) (\<lambda>w. Inr (Val w)) ArrayOmission (\<lambda>mode k s. s) f None [] v s"

text \<open>The callbacks of the code keep the reference, and some note it first.\<close>

definition note_ref :: "secret_ref \<Rightarrow> secret_ref list \<Rightarrow> secret_error + tval \<times> secret_ref list" where
  "note_ref r s = Inr (Val (secret_value r), s @ [r])"

definition secret_names :: "secret_ref list \<Rightarrow> string list" where
  "secret_names rs = sort_compact (filter (\<lambda>n. n \<noteq> []) (map sr_name rs))"

definition Names :: "gval \<Rightarrow> secret_error + string list" where
  "Names v = bindE (Transform note_ref v []) (\<lambda>(w, rs). Inr (secret_names rs))"

text \<open>\<open>found || err != nil\<close>: what was found before the error is irrelevant, and without one
  \<open>found\<close> says that the callback ran, so that it noted something.\<close>

definition Contains :: "gval \<Rightarrow> bool" where
  "Contains v = (case Transform note_ref v [] of Inl e \<Rightarrow> True | Inr (w, rs) \<Rightarrow> rs \<noteq> [])"

fun WithDefault :: "secret_ref \<Rightarrow> gval \<Rightarrow> secret_ref" where
  "WithDefault r (GStr d) = (if sr_default r = None \<and> \<not> sr_omit r then r\<lparr>sr_default := Some d\<rparr> else r)"
| "WithDefault r v = r"

fun ValidateDefault :: "gval \<Rightarrow> secret_error + unit" where
  "ValidateDefault (GStr d) = Inr ()"
| "ValidateDefault v = Inl DefaultNotString"

definition Placeholder :: "gval \<Rightarrow> secret_error + tval" where
  "Placeholder v = map_sum id fst (Transform (\<lambda>r s. Inr (Val (GStr ''secret-reference''), s)) v ())"

text \<open>\<open>transformInput\<close>: forwarded subtrees, and with \<open>preserve\<close> the schema subtrees, keep their
  references, which are only checked.\<close>

definition keeps_refs :: "bool \<Rightarrow> string \<Rightarrow> bool" where
  "keeps_refs preserve mode = (mode = ''forward'' \<or> (mode = ''schema'' \<and> preserve))"

definition forward_value :: "gval \<Rightarrow> secret_error + tval" where
  "forward_value v = map_sum id fst (Transform note_ref v [])"

definition transformInput :: "gotype option \<Rightarrow> gval \<Rightarrow> string \<Rightarrow> bool \<Rightarrow> (string \<Rightarrow> string \<Rightarrow> 's \<Rightarrow> 's) \<Rightarrow>
    (secret_ref \<Rightarrow> 's \<Rightarrow> secret_error + tval \<times> 's) \<Rightarrow> 's \<Rightarrow> secret_error + tval \<times> 's" where
  "transformInput t v mode preserve onOmit f s =
     walk Parse (keeps_refs preserve) forward_value ArrayOmission onOmit f t mode v s"

definition InvocationReferences :: "gotype option \<Rightarrow> gval \<Rightarrow> secret_error + secret_ref list" where
  "InvocationReferences t v = map_sum id snd (transformInput t v [] False (\<lambda>m k s. s) note_ref [])"

definition InvocationNames :: "gotype option \<Rightarrow> gval \<Rightarrow> secret_error + string list" where
  "InvocationNames t v = map_sum id secret_names (InvocationReferences t v)"


section \<open>Lemmas\<close>

lemma walk_note_collects [simp]: "collects note_ref"
  by (simp add: collects_def note_ref_def)

lemma Transform_note:
  assumes "Transform note_ref v s = Inr (w, rs)"
  shows "w \<noteq> Omit \<and> rs = s @ refs_at Parse (\<lambda>_. False) None [] v \<and> \<not> malformed Parse v"
proof -
  have "walk Parse (\<lambda>_. False) (\<lambda>v. if malformed Parse v then Inl ArrayOmission else Inr (Val v)) ArrayOmission
      (\<lambda>mode k s. s) note_ref None [] v s = Inr (w, rs)"
    using assms unfolding Transform_def by (subst walk_stopless) auto
  from walk_collects(1) [OF walk_note_collects _ this] show ?thesis
    by (simp add: keeps_def split: sum.split)
qed

text \<open>Keeping references succeeds exactly on well-formed values.\<close>

lemma note_ref_simps [simp]: "accepts note_ref r" "\<not> omits note_ref"
  by (simp_all add: accepts_def omits_def note_ref_def)

lemma Transform_err:
  assumes "Transform f v s = Inl e" "\<not> malformed Parse v"
    and "\<forall>r \<in> set (refs_at Parse (\<lambda>_. False) None [] v). accepts f r"
  shows "e = ArrayOmission \<and> omits f"
proof -
  from assms(1) have "walk Parse (\<lambda>_. False) (\<lambda>v. if malformed Parse v then Inl ArrayOmission else Inr (Val v))
      ArrayOmission (\<lambda>mode k s. s) f None [] v s = Inl e"
    unfolding Transform_def by (subst walk_stopless)
  from walk_succeeds(1) [OF keeps_id assms(2,3) this] show ?thesis .
qed

lemma Transform_note_iff:
  "(\<exists>w rs. Transform note_ref v s = Inr (w, rs)) \<longleftrightarrow> \<not> malformed Parse v"
  by (cases "Transform note_ref v s") (use Transform_note Transform_err [of note_ref v s] in fastforce)+

lemma keeps_forward_value: "keeps Parse forward_value"
  unfolding keeps_def forward_value_def
proof
  fix v
  show "case map_sum id fst (Transform note_ref v []) of Inl e \<Rightarrow> malformed Parse v
      | Inr w \<Rightarrow> w \<noteq> Omit \<and> \<not> malformed Parse v"
    using Transform_note_iff [of v "[]"] Transform_note [of v "[]"]
    by (cases "Transform note_ref v []") auto
qed

lemma InvocationReferences_ok:
  "InvocationReferences t v = Inr rs \<longleftrightarrow>
     rs = refs_at Parse (keeps_refs False) t [] v \<and> \<not> malformed Parse v"
proof (cases "transformInput t v [] False (\<lambda>m k s. s) note_ref []")
  case (Inl e)
  with walk_succeeds(1) [OF keeps_forward_value, of v "keeps_refs False" t "[]" note_ref ArrayOmission]
  show ?thesis by (auto simp: InvocationReferences_def transformInput_def)
next
  case (Inr x)
  with walk_collects(1) [OF walk_note_collects keeps_forward_value] show ?thesis
    by (cases x) (force simp: InvocationReferences_def transformInput_def)
qed

lemma Contains_iff: "Contains v \<longleftrightarrow> holds_ref Parse v"
  using Transform_note [of v "[]"] Transform_note_iff [of v "[]"]
  by (cases "Transform note_ref v []") (auto simp: Contains_def exposed_iff)

end
