(* ===== verification/Config_Refs.thy ===== *)
theory Config_Refs
  imports Secret_Refs Object_Refs "HOL-Library.AList"
begin

text \<open>
  \<^verbatim>\<open>pkg/configuration\<close>: deferred configuration references, the expressions that denote one
  and their materialization from a snapshot that is fetched at most once. JSON text is
  represented by the value it decodes to (\<open>None\<close> where it decodes to none), numbers exactly.
  Parameters: the CEL literal parser \<open>cel\<close>, the JSON string decoder \<open>unquote\<close>, and the JobDB call
  \<open>fetch\<close>, which is told how often it was called before.
\<close>

section \<open>Data\<close>

datatype config_error =
    BadEncoding | BadType | BadFallback | UnsupportedType | InvalidConfig
  | FetchFailed string | NotJSON string | ReservedValue string | ObjectValue string | WrongType string string

record config_ref =
  c_kind :: string
  c_name :: string
  c_type :: string
  c_default :: "gval option"

definition config_key :: string where "config_key = ''$c2j_ref''"

definition config_Ref :: "string \<Rightarrow> config_ref" where
  "config_Ref n = \<lparr>c_kind = ''config'', c_name = n, c_type = [], c_default = None\<rparr>"

text \<open>\<open>MarshalJSON\<close>: empty optional fields are left out.\<close>

definition config_Marshal :: "config_ref \<Rightarrow> gval" where
  "config_Marshal r = GMap [(config_key, GMap ([(''kind'', GStr (c_kind r)), (''name'', GStr (c_name r))] @
     (if c_type r = [] then [] else [(''type'', GStr (c_type r))]) @
     (case c_default r of None \<Rightarrow> [] | Some d \<Rightarrow> [(''default'', d)])))]"

section \<open>Parsing\<close>

fun json_scalar :: "gval \<Rightarrow> bool" where
  "json_scalar GNil = True"
| "json_scalar (GStr s) = True"
| "json_scalar (GBool b) = True"
| "json_scalar (GNum x) = True"
| "json_scalar v = False"

definition check_config :: "config_ref \<Rightarrow> config_error + config_ref" where
  "check_config r =
     (if (case c_default r of None \<Rightarrow> False | Some d \<Rightarrow> \<not> json_scalar d) then Inl BadFallback
      else if c_type r \<noteq> [] \<and> c_type r \<noteq> ''string'' \<and> c_type r \<noteq> ''number'' \<and> c_type r \<noteq> ''boolean''
      then Inl UnsupportedType
      else if c_kind r \<noteq> ''config'' \<or> trim_space (c_name r) = [] \<or> length (c_name r) > 256
      then Inl InvalidConfig
      else Inr r)"

definition str_field :: "string \<Rightarrow> (string \<times> gval) list \<Rightarrow> string" where
  "str_field k m = (case map_of m k of Some (GStr s) \<Rightarrow> s | _ \<Rightarrow> [])"

definition parse_fields :: "(string \<times> gval) list \<Rightarrow> config_error + config_ref" where
  "parse_fields fs =
     bindE (check (list_all (\<lambda>k. k \<in> {''kind'', ''name'', ''type'', ''default''}) (map fst fs)) BadEncoding) (\<lambda>_.
     bindE (case map_of fs ''type'' of None \<Rightarrow> Inr [] | Some (GStr t) \<Rightarrow> Inr t | Some _ \<Rightarrow> Inl BadType) (\<lambda>t.
     check_config \<lparr>c_kind = str_field ''kind'' fs, c_name = str_field ''name'' fs, c_type = t,
       c_default = map_of fs ''default''\<rparr>))"

definition parse_wire :: "gval \<Rightarrow> (string \<times> gval) list \<Rightarrow> config_error + config_ref" where
  "parse_wire raw m = (case raw of
     GMap fs \<Rightarrow> if length m \<noteq> 1 \<or> length fs < 2 \<or> length fs > 4 then Inl BadEncoding else parse_fields fs
   | _ \<Rightarrow> Inl BadEncoding)"

fun config_Parse :: "gval \<Rightarrow> (config_error, config_ref) parsed" where
  "config_Parse (GConfig k n t d) =
     parsed_of (check_config \<lparr>c_kind = k, c_name = n, c_type = t, c_default = d\<rparr>)"
| "config_Parse (GMap m) = (case map_of m config_key of None \<Rightarrow> NotRef | Some raw \<Rightarrow> parsed_of (parse_wire raw m))"
| "config_Parse v = NotRef"

interpretation config_format: reference_format config_Parse config_key
proof
  show "config_Parse (GMap m) = NotRef \<longleftrightarrow> config_key \<notin> fst ` set m" for m
    using map_of_eq_None_iff [of m config_key] by (cases "map_of m config_key") simp_all
qed simp_all

section \<open>Expressions\<close>

text \<open>A JSON string literal after its opening quote: its text and what follows.\<close>

fun string_body :: "string \<Rightarrow> (string \<times> string) option" where
  "string_body [] = None"
| "string_body [c] = (if c = CHR 0x22 then Some ([], []) else None)"
| "string_body (c # d # s) =
     (if c = CHR 0x22 then Some ([], d # s)
      else if c = CHR 0x5C then map_option (\<lambda>(a, b). (c # d # a, b)) (string_body s)
      else map_option (\<lambda>(a, b). (c # a, b)) (string_body (d # s)))"

fun config_name :: "string \<Rightarrow> bool" where
  "config_name [] = False"
| "config_name (c # cs) = (name_start c \<and> list_all name_char cs)"

definition or_value :: "string \<Rightarrow> string option" where
  "or_value s = Option.bind (after_prefix ''.orValue('' s) (before_suffix '')'')"

definition dot_fallback :: "string \<Rightarrow> (string \<times> string) option" where
  "dot_fallback expr =
     Option.bind (after_prefix ''context.config.?'' expr) (\<lambda>s.
     if config_name (takeWhile name_char s)
     then map_option (\<lambda>b. (takeWhile name_char s, b)) (or_value (dropWhile name_char s)) else None)"

definition indexed_fallback :: "string \<Rightarrow> (string \<times> string) option" where
  "indexed_fallback expr =
     Option.bind (after_prefix (''context.config[?'' @ [CHR 0x22]) expr) (\<lambda>s.
     Option.bind (string_body s) (\<lambda>(lit, rest).
     Option.bind (after_prefix '']'' rest) (\<lambda>rest.
     map_option (\<lambda>b. ([CHR 0x22] @ lit @ [CHR 0x22], b)) (or_value rest))))"

fun literal_value :: "cel_literal \<Rightarrow> gval option" where
  "literal_value (CelString s) = Some (GStr s)"
| "literal_value (CelBool b) = Some (GBool b)"
| "literal_value (CelNumber x) = Some (GNum x)"
| "literal_value CelNull = Some GNil"
| "literal_value CelOther = None"

definition with_fallback :: "(string \<Rightarrow> cel_literal option) \<Rightarrow> string \<Rightarrow> string \<Rightarrow> config_ref option" where
  "with_fallback cel n body =
     map_option (\<lambda>d. config_Ref n\<lparr>c_default := Some d\<rparr>) (Option.bind (cel (trim_space body)) literal_value)"

definition config_Expression ::
    "(string \<Rightarrow> cel_literal option) \<Rightarrow> (string \<Rightarrow> string option) \<Rightarrow> string \<Rightarrow> config_ref option" where
  "config_Expression cel unquote expr =
     (case dot_fallback expr of
        Some (n, body) \<Rightarrow> with_fallback cel n body
      | None \<Rightarrow> (case indexed_fallback expr of
          Some (lit, body) \<Rightarrow> Option.bind (unquote lit) (\<lambda>n. with_fallback cel n body)
        | None \<Rightarrow>
            (case Option.bind (after_prefix ''context.config.'' expr) (\<lambda>n. if config_name n then Some n else None) of
               Some n \<Rightarrow> Some (config_Ref n)
             | None \<Rightarrow> Option.bind (after_prefix ''context.config['' expr) (\<lambda>s.
                 Option.bind (before_suffix '']'' s) (\<lambda>lit. map_option config_Ref (unquote (trim_space lit)))))))"

definition config_Template ::
    "(string \<Rightarrow> cel_literal option) \<Rightarrow> (string \<Rightarrow> string option) \<Rightarrow> string \<Rightarrow> config_ref option" where
  "config_Template cel unquote tx = Option.bind (template_body tx) (config_Expression cel unquote)"

section \<open>Walks\<close>

text \<open>Nothing is omitted here, so the error of an omitted element cannot occur.\<close>

definition config_Transform ::
    "(config_ref \<Rightarrow> 's \<Rightarrow> config_error + tval \<times> 's) \<Rightarrow> gval \<Rightarrow> 's \<Rightarrow> config_error + tval \<times> 's" where
  "config_Transform f v s = walk config_Parse (\<lambda>_. False) (\<lambda>w. Inr (Val w)) InvalidConfig (\<lambda>mode k s. s) f None [] v s"

definition config_value :: "config_ref \<Rightarrow> gval" where
  "config_value r = GConfig (c_kind r) (c_name r) (c_type r) (c_default r)"

definition note_config :: "config_ref \<Rightarrow> config_ref list \<Rightarrow> config_error + tval \<times> config_ref list" where
  "note_config r s = Inr (Val (config_value r), s @ [r])"

definition config_Contains :: "gval \<Rightarrow> bool" where
  "config_Contains v = (case config_Transform note_config v [] of Inl e \<Rightarrow> True | Inr (w, rs) \<Rightarrow> rs \<noteq> [])"

definition config_transformInput :: "gotype option \<Rightarrow> gval \<Rightarrow> string \<Rightarrow>
    (config_ref \<Rightarrow> 's \<Rightarrow> config_error + tval \<times> 's) \<Rightarrow> 's \<Rightarrow> config_error + tval \<times> 's" where
  "config_transformInput t v mode f s =
     walk config_Parse (\<lambda>m. m = ''forward'') (\<lambda>w. Inr (Val w)) InvalidConfig (\<lambda>mode k s. s) f t mode v s"

section \<open>Materializing\<close>

record snapshot =
  revision :: string
  snap_values :: "string \<rightharpoonup> gval option"

record diagnostics =
  d_revision :: string
  d_values :: "(string \<times> gval option) list"
  d_missing :: "string list"

text \<open>The locals of \<open>MaterializeInput\<close>, and how often it called \<open>fetch\<close>.\<close>

record mat_state =
  snap :: "snapshot option"
  diag :: "diagnostics option"
  fetched :: nat

definition fetch_once :: "(nat \<Rightarrow> string + snapshot) \<Rightarrow> mat_state \<Rightarrow> config_error + snapshot \<times> mat_state" where
  "fetch_once fetch st = (case snap st of
     Some sn \<Rightarrow> Inr (sn, st)
   | None \<Rightarrow> (case fetch (fetched st) of
       Inl e \<Rightarrow> Inl (FetchFailed e)
     | Inr sn \<Rightarrow> Inr (sn, \<lparr>snap = Some sn,
         diag = Some \<lparr>d_revision = revision sn, d_values = [], d_missing = []\<rparr>, fetched = Suc (fetched st)\<rparr>)))"

definition note_missing :: "string \<Rightarrow> diagnostics \<Rightarrow> diagnostics" where
  "note_missing n d = (if n \<in> set (d_missing d) then d else d\<lparr>d_missing := sort (d_missing d @ [n])\<rparr>)"

definition note_value :: "string \<Rightarrow> gval option \<Rightarrow> diagnostics \<Rightarrow> diagnostics" where
  "note_value n raw d = d\<lparr>d_values := AList.update n raw (d_values d)\<rparr>"

definition type_ok :: "string \<Rightarrow> gval \<Rightarrow> bool" where
  "type_ok t v =
     (if t = ''string'' then (case v of GStr s \<Rightarrow> True | _ \<Rightarrow> False)
      else if t = ''number'' then (case v of GNum x \<Rightarrow> True | _ \<Rightarrow> False)
      else if t = ''boolean'' then (case v of GBool b \<Rightarrow> True | _ \<Rightarrow> False)
      else True)"

definition resolve_config :: "obj_lib \<Rightarrow> (nat \<Rightarrow> string + snapshot) \<Rightarrow> config_ref \<Rightarrow> mat_state \<Rightarrow>
    config_error + tval \<times> mat_state" where
  "resolve_config L fetch ref st =
     bindE (fetch_once fetch st) (\<lambda>(sn, st).
     let n = c_name ref;
         (raw, d) = (case snap_values sn n of
             None \<Rightarrow> (Some (case c_default ref of None \<Rightarrow> GNil | Some v \<Rightarrow> v), map_option (note_missing n) (diag st))
           | Some raw \<Rightarrow> (raw, map_option (note_value n raw) (diag st))) in
     case raw of
       None \<Rightarrow> Inl (NotJSON n)
     | Some v \<Rightarrow>
         if config_Contains v \<or> Contains v then Inl (ReservedValue n)
         else if Collect_refs L v \<noteq> Inr [] then Inl (ObjectValue n)
         else if \<not> type_ok (c_type ref) v then Inl (WrongType n (c_type ref))
         else Inr (Val v, st\<lparr>diag := d\<rparr>))"

definition config_MaterializeInput :: "obj_lib \<Rightarrow> gotype option \<Rightarrow> gval \<Rightarrow> (nat \<Rightarrow> string + snapshot) \<Rightarrow>
    config_error + tval \<times> mat_state" where
  "config_MaterializeInput L t v fetch =
     config_transformInput t v [] (resolve_config L fetch) \<lparr>snap = None, diag = None, fetched = 0\<rparr>"

section \<open>What holds\<close>

text \<open>A configuration reference survives its JSON encoding: parsing what \<open>MarshalJSON\<close> writes gives
  back the reference when it is valid and its own error when it is not.\<close>

theorem config_roundtrip: "config_Parse (config_Marshal r) = parsed_of (check_config r)"
  by (cases r; cases "c_default r")
    (simp_all add: config_Marshal_def parse_wire_def parse_fields_def str_field_def)

lemma note_config_collects [simp]: "collects note_config" "accepts note_config r" "\<not> omits note_config"
  by (simp_all add: collects_def accepts_def omits_def note_config_def)

lemma config_Contains_iff: "config_Contains v \<longleftrightarrow> holds_ref config_Parse v"
proof -
  let ?p = "config_Parse"
  have T: "config_Transform note_config v [] = walk ?p (\<lambda>_. False)
      (\<lambda>v. if malformed ?p v then Inl InvalidConfig else Inr (Val v)) InvalidConfig (\<lambda>mode k s. s) note_config None [] v []"
    unfolding config_Transform_def by (rule walk_stopless)
  show ?thesis
  proof (cases "config_Transform note_config v []")
    case (Inl e)
    with T have W: "walk ?p (\<lambda>_. False) (\<lambda>v. if malformed ?p v then Inl InvalidConfig else Inr (Val v))
        InvalidConfig (\<lambda>mode k s. s) note_config None [] v [] = Inl e" by simp
    have "malformed ?p v"
    proof (rule ccontr)
      assume wf: "\<not> malformed ?p v"
      from walk_succeeds(1) [OF keeps_id wf _ W] show False by simp
    qed
    with Inl show ?thesis by (simp add: config_Contains_def exposed_iff)
  next
    case (Inr x)
    with walk_collects(1) [OF note_config_collects(1) keeps_id, of ?p "\<lambda>_. False"] show ?thesis
      by (cases x) (fastforce simp: T config_Contains_def exposed_iff)
  qed
qed

text \<open>The invariant of a materialization.\<close>

definition one_snapshot :: "(nat \<Rightarrow> string + snapshot) \<Rightarrow> mat_state \<Rightarrow> bool" where
  "one_snapshot fetch st = (case snap st of
     None \<Rightarrow> fetched st = 0 \<and> diag st = None
   | Some sn \<Rightarrow> fetched st = 1 \<and> fetch 0 = Inr sn \<and>
       (\<exists>d. diag st = Some d \<and> d_revision d = revision sn \<and> sorted (d_missing d) \<and> distinct (d_missing d) \<and>
         (\<forall>n \<in> set (d_missing d). snap_values sn n = None) \<and>
         (\<forall>(n, raw) \<in> set (d_values d). snap_values sn n = Some raw)))"

lemma fetch_once_ok:
  assumes "one_snapshot fetch st" "fetch_once fetch st = Inr (sn, st')"
  shows "one_snapshot fetch st' \<and> snap st' = Some sn"
  using assms by (auto simp: fetch_once_def one_snapshot_def split: option.splits sum.splits)

lemma update_values:
  "\<forall>(n, raw) \<in> set ds. P n raw \<Longrightarrow> P n raw \<Longrightarrow> \<forall>(n', raw') \<in> set (AList.update n raw ds). P n' raw'"
  by (induction ds) auto

lemma resolve_config_invariant: "keeps_state (resolve_config L fetch) (\<lambda>mode k s. s) (one_snapshot fetch)"
  unfolding keeps_state_def
proof (intro conjI allI impI)
  fix r st w st' assume st: "one_snapshot fetch st" and res: "resolve_config L fetch r st = Inr (w, st')"
  from res obtain sn st1 where f: "fetch_once fetch st = Inr (sn, st1)"
    by (auto simp: resolve_config_def ok_iff)
  from fetch_once_ok [OF st f] obtain d where
    inv: "snap st1 = Some sn" "fetched st1 = 1" "fetch 0 = Inr sn" "diag st1 = Some d" "d_revision d = revision sn"
      "sorted (d_missing d)" "distinct (d_missing d)" "\<forall>n \<in> set (d_missing d). snap_values sn n = None"
      "\<forall>(n, raw) \<in> set (d_values d). snap_values sn n = Some raw"
    by (auto simp: one_snapshot_def)
  show "one_snapshot fetch st'"
  proof (cases "snap_values sn (c_name r)")
    case None
    with res f inv have "st' = st1\<lparr>diag := Some (note_missing (c_name r) d)\<rparr>"
      by (auto simp: resolve_config_def Let_def split: if_splits)
    with inv None show ?thesis by (auto simp: one_snapshot_def note_missing_def)
  next
    case (Some raw)
    with res f inv have "st' = st1\<lparr>diag := Some (note_value (c_name r) raw d)\<rparr>"
      by (auto simp: resolve_config_def Let_def split: option.splits if_splits)
    with inv update_values [OF inv(9), of "c_name r" raw] Some show ?thesis
      by (auto simp: one_snapshot_def note_value_def)
  qed
qed

lemma resolve_config_clean: "config_format.yields_clean (resolve_config L fetch) stop"
proof -
  have "\<not> holds_ref config_Parse w" if "resolve_config L fetch r st = Inr (Val w, st')" for r st w st'
    using that
    by (auto simp: resolve_config_def ok_iff Let_def config_Contains_iff
        split: option.splits if_splits prod.splits)
  then show ?thesis unfolding config_format.yields_clean_def by (blast dest: exposed_holds)
qed

lemma resolve_config_not_Omit: "resolve_config L fetch r st \<noteq> Inr (Omit, st')"
  unfolding resolve_config_def Let_def
  by (cases "fetch_once fetch st") (auto split: option.split if_split prod.split)

text \<open>Materializing an input uses one snapshot: \<open>fetch\<close> is called at most once, whatever the number of
  references, and the diagnostics are those of that snapshot (its revision, only values it has, only
  names it lacks, sorted). No configuration reference is left outside forwarded fields, even
  one that a configuration value tried to bring in.\<close>

theorem config_one_snapshot:
  assumes "config_MaterializeInput L t v fetch = Inr (w, st)"
  shows "one_snapshot fetch st \<and> fetched st \<le> 1 \<and>
    (case w of Omit \<Rightarrow> False | Val w \<Rightarrow> \<not> exposed config_Parse (\<lambda>m. m = ''forward'') t [] w)"
proof -
  note walk = assms [unfolded config_MaterializeInput_def config_transformInput_def]
  from walk_invariant(1) [OF resolve_config_invariant _ walk] have inv: "one_snapshot fetch st"
    by (simp add: one_snapshot_def)
  then have "fetched st \<le> 1" by (auto simp: one_snapshot_def split: option.splits)
  moreover have "w \<noteq> Omit"
  proof -
    have "\<not> omits (resolve_config L fetch)" by (simp add: omits_def resolve_config_not_Omit)
    with walk show ?thesis
      by (cases "config_Parse v"; cases v) (auto simp: walk.simps ok_iff omits_def split: if_splits)
  qed
  ultimately show ?thesis using inv walk config_format.walk_result(1) [OF refl resolve_config_clean]
    by (cases w) auto
qed

definition ex_fetch :: "nat \<Rightarrow> string + snapshot" where
  "ex_fetch k = Inr \<lparr>revision = ''r7'', snap_values = [''region'' \<mapsto> Some (GStr ''eu'')]\<rparr>"

definition ex_config_input :: gval where
  "ex_config_input = GMap [(''a'', config_value (config_Ref ''region'')), (''b'', config_Marshal (config_Ref ''zone''))]"

definition ex_mat :: "tval \<times> mat_state" where
  "ex_mat = projr (config_MaterializeInput ex_lib None ex_config_input ex_fetch)"

theorem config_one_snapshot_witness:
  "fst ex_mat = Val (GMap [(''a'', GStr ''eu''), (''b'', GNil)]) \<and> one_snapshot ex_fetch (snd ex_mat) \<and>
   fetched (snd ex_mat) \<le> 1"
proof -
  have "is_ok (config_MaterializeInput ex_lib None ex_config_input ex_fetch)" by code_simp
  then have 1: "config_MaterializeInput ex_lib None ex_config_input ex_fetch = Inr (fst ex_mat, snd ex_mat)"
    by (auto simp: ex_mat_def is_ok_iff)
  have "fst ex_mat = Val (GMap [(''a'', GStr ''eu''), (''b'', GNil)])" by code_simp
  with config_one_snapshot [OF 1] show ?thesis by blast
qed

end
