(* ===== verification/Git_Profile.thy ===== *)
theory Git_Profile
  imports Go_Path Config_Refs
begin

text \<open>
  \<^verbatim>\<open>pkg/gitprofile/profile.go\<close>: the documents that map Git destinations to credentials, their
  validation, the choice of the credential for a request, and the choice of a profile. Parameters
  (\<open>git_lib\<close>): \<^verbatim>\<open>url.Parse\<close>, \<^verbatim>\<open>strings.ToLower\<close> on host names and the strict YAML decoder.
\<close>

section \<open>Data\<close>

record url =
  u_scheme :: string
  u_hostname :: string
  u_port :: string
  u_user :: bool
  u_query :: string
  u_fragment :: string
  u_path :: string

record git_lib =
  url_parse :: "string \<Rightarrow> url option"
  lower :: "string \<Rightarrow> string"

record git_entry =
  ge_url :: string
  ge_from :: "string list"
  ge_user :: string
  ge_ref :: string
  ge_file :: string

record profile =
  pr_version :: int
  pr_entries :: "git_entry list"

datatype profile_error =
    BadProfileName | BadDocument | BadDestination | BadDestinationPath | BadShape
  | AmbiguousDestination | BadCredentialFields | FileNotAllowed | IncompleteCredential
  | BadRewrite | BadRewriteScheme | AmbiguousRewrite | RewriteChain
  | BadCredentialPath | NotAllowed | BadDefault | BadReference config_error | BadConfigured | NotAName
  | NoProfile string

definition ProfilePrefix :: string where "ProfilePrefix = ''_c2j_git_profile_''"
definition ReadOnlyKey :: string where "ReadOnlyKey = ''git-profile-ro''"
definition ReadWriteKey :: string where "ReadWriteKey = ''git-profile-rw''"

definition letter :: "char \<Rightarrow> bool" where
  "letter c = (byte_in 65 90 c \<or> byte_in 97 122 c)"

definition profile_name :: "string \<Rightarrow> bool" where
  "profile_name s = (case s of [] \<Rightarrow> False | c # cs \<Rightarrow> letter c \<and> list_all name_char cs \<and> length cs \<le> 127)"

definition Key :: "string \<Rightarrow> profile_error + string" where
  "Key n = (if profile_name n then Inr (ProfilePrefix @ n) else Inl BadProfileName)"

definition ProtocolValue :: "string \<Rightarrow> bool" where
  "ProtocolValue s = (\<not> contains_any s [CHR 0x0D, CHR 0x0A, CHR 0x00] \<and> int (length s) \<le> 65000)"

section \<open>Destinations\<close>

definition endpoint :: "git_lib \<Rightarrow> string \<Rightarrow> profile_error + url" where
  "endpoint L raw = (case url_parse L raw of
     None \<Rightarrow> Inl BadDestination
   | Some u \<Rightarrow>
       if (u_scheme u \<noteq> ''https'' \<and> u_scheme u \<noteq> ''http'') \<or> u_hostname u = [] \<or> u_user u \<or>
          u_query u \<noteq> [] \<or> u_fragment u \<noteq> [] \<or> \<not> ProtocolValue raw \<or> contains_any raw [CHR 0x5C, CHR 0x09, CHR '' '']
       then Inl BadDestination
       else if contains_any (u_path u) [CHR 0x0D, CHR 0x0A, CHR 0x00, CHR 0x5C] \<or>
          (u_path u \<noteq> [] \<and> path_clean (u_path u) \<noteq> trim_suffix (u_path u) ''/'' \<and> u_path u \<noteq> ''/'')
       then Inl BadDestinationPath
       else Inr u)"

definition authority :: "git_lib \<Rightarrow> url \<Rightarrow> string" where
  "authority L u =
     lower L (u_hostname u) @ '':'' @
     (if u_port u = [] then (if u_scheme u = ''http'' then ''80'' else ''443'') else u_port u)"

definition trim_slash :: "string \<Rightarrow> string" where
  "trim_slash = trim_byte CHR ''/''"

definition pathMatches :: "string \<Rightarrow> string \<Rightarrow> bool" where
  "pathMatches scope request =
     (let scope = trim_slash scope; request = trim_prefix request ''/''
      in scope = [] \<or> request = scope \<or> has_prefix request (scope @ ''/''))"

section \<open>Validation\<close>

definition dest_key :: "git_lib \<Rightarrow> url \<Rightarrow> string" where
  "dest_key L u = u_scheme u @ ''://'' @ authority L u @ ''/'' @ trim_slash (u_path u)"

fun validate_sources :: "git_lib \<Rightarrow> string list \<Rightarrow> string list \<Rightarrow> profile_error + string list" where
  "validate_sources L seen [] = Inr seen"
| "validate_sources L seen (s # ss) =
     (if s = [] \<or> \<not> ProtocolValue s \<or> contains_any s [CHR 0x5C, CHR 0x09, CHR '' ''] then Inl BadRewrite
      else if \<not> (has_prefix s ''git@'' \<and> go_contains s '':'') \<and> \<not> is_ok (endpoint L s) then Inl BadRewriteScheme
      else if s \<in> set seen then Inl AmbiguousRewrite
      else validate_sources L (seen @ [s]) ss)"

fun validate_entries :: "git_lib \<Rightarrow> bool \<Rightarrow> string list \<Rightarrow> string list \<Rightarrow> git_entry list \<Rightarrow> profile_error + string list" where
  "validate_entries L prov dests srcs [] = Inr srcs"
| "validate_entries L prov dests srcs (e # es) =
     bindE (endpoint L (ge_url e)) (\<lambda>u.
     if dest_key L u \<in> set dests then Inl AmbiguousDestination
     else if \<not> ProtocolValue (ge_user e) \<or> (ge_ref e \<noteq> [] \<and> \<not> valid_name (ge_ref e)) then Inl BadCredentialFields
     else if ge_file e \<noteq> [] \<and> (\<not> prov \<or> ge_ref e \<noteq> []) then Inl FileNotAllowed
     else if (ge_user e \<noteq> []) \<noteq> (ge_ref e \<noteq> [] \<or> ge_file e \<noteq> []) then Inl IncompleteCredential
     else bindE (validate_sources L srcs (ge_from e)) (\<lambda>srcs.
          validate_entries L prov (dest_key L u # dests) srcs es))"

definition profile_Validate :: "git_lib \<Rightarrow> bool \<Rightarrow> profile \<Rightarrow> profile_error + unit" where
  "profile_Validate L prov p =
     (if pr_version p \<noteq> 1 \<or> pr_entries p = [] \<or> length (pr_entries p) > 128 then Inl BadShape
      else bindE (validate_entries L prov [] [] (pr_entries p)) (\<lambda>srcs.
        check (\<not> list_ex (\<lambda>s. list_ex (\<lambda>e. has_prefix (ge_url e) s \<or> has_prefix s (ge_url e)) (pr_entries p)) srcs)
          RewriteChain))"

section \<open>Matching a request\<close>

definition hex_digit :: "char \<Rightarrow> nat option" where
  "hex_digit c =
     (if is_digit c then Some (of_char c - 48)
      else if byte_in 97 102 c then Some (of_char c - 87)
      else if byte_in 65 70 c then Some (of_char c - 55)
      else None)"

text \<open>\<^verbatim>\<open>url.PathUnescape\<close>.\<close>

fun path_unescape :: "string \<Rightarrow> string option" where
  "path_unescape [] = Some []"
| "path_unescape (c # s) =
     (if c = CHR ''%''
      then (case s of
              a # b # r \<Rightarrow> (case (hex_digit a, hex_digit b) of
                 (Some x, Some y) \<Rightarrow> map_option (Cons (char_of (16 * x + y))) (path_unescape r)
               | _ \<Rightarrow> None)
            | _ \<Rightarrow> None)
      else map_option (Cons c) (path_unescape s))"

definition entry_covers :: "git_lib \<Rightarrow> url \<Rightarrow> string \<Rightarrow> git_entry \<Rightarrow> url option" where
  "entry_covers L u request e = (case endpoint L (ge_url e) of
     Inl _ \<Rightarrow> None
   | Inr d \<Rightarrow> if u_scheme d = u_scheme u \<and> authority L d = authority L u \<and> pathMatches (u_path d) request
             then Some d else None)"

text \<open>The loop that keeps the entry with the longest path, the first of equals. An entry whose URL
  does not parse is a nil dereference in the code; validated profiles have none.\<close>

fun select_entry :: "git_lib \<Rightarrow> url \<Rightarrow> string \<Rightarrow> (git_entry \<times> nat) option \<Rightarrow> git_entry list \<Rightarrow> (git_entry \<times> nat) option" where
  "select_entry L u request best [] = best"
| "select_entry L u request best (e # es) =
     select_entry L u request
       (case entry_covers L u request e of
          None \<Rightarrow> best
        | Some d \<Rightarrow> (case best of
            None \<Rightarrow> Some (e, length (u_path d))
          | Some (b, n) \<Rightarrow> if length (u_path d) > n then Some (e, length (u_path d)) else best)) es"

definition clean_request :: "string \<Rightarrow> bool" where
  "clean_request path = (path_clean (''/'' @ path) = ''/'' @ trim_suffix path ''/'' \<or> path = [])"

definition profile_Match :: "git_lib \<Rightarrow> profile \<Rightarrow> string \<Rightarrow> string \<Rightarrow> string \<Rightarrow> string \<Rightarrow> profile_error + git_entry" where
  "profile_Match L p protocol host requestPath username = (case path_unescape requestPath of
     None \<Rightarrow> Inl BadCredentialPath
   | Some path \<Rightarrow> (case endpoint L (protocol @ ''://'' @ host @ ''/'') of
       Inl _ \<Rightarrow> Inl NotAllowed
     | Inr u \<Rightarrow>
         if u_path u \<noteq> ''/'' then Inl NotAllowed
         else if \<not> ProtocolValue path \<or> CHR 0x5C \<in> set path then Inl BadCredentialPath
         else if \<not> clean_request path then Inl BadCredentialPath
         else (case select_entry L u path None (pr_entries p) of
             None \<Rightarrow> Inl NotAllowed
           | Some (e, n) \<Rightarrow>
               if ge_ref e = [] \<or> (username \<noteq> [] \<and> username \<noteq> ge_user e) then Inl NotAllowed else Inr e)))"

section \<open>Choosing a profile\<close>

record selection =
  sl_Explicit :: bool
  sl_Value :: gval
  sl_Publish :: bool

definition decode_or :: "profile_error \<Rightarrow> gval option \<Rightarrow> profile_error + gval" where
  "decode_or e raw = (case raw of None \<Rightarrow> Inl e | Some v \<Rightarrow> Inr v)"

definition inherited_profile :: "bool \<Rightarrow> gval \<Rightarrow> snapshot \<Rightarrow> profile_error + gval" where
  "inherited_profile publish v sn =
     (let key = (if publish then ReadWriteKey else ReadOnlyKey);
          fallback = (if publish then ''write'' else ''read'')
      in case snap_values sn key of
           Some raw \<Rightarrow> decode_or BadDefault raw
         | None \<Rightarrow> Inr (if snap_values sn (ProfilePrefix @ fallback) \<noteq> None then GStr fallback else v))"

text \<open>An empty raw message, which JobDB never stores, would be null here instead of an error.\<close>

definition explicit_profile :: "gval \<Rightarrow> snapshot \<Rightarrow> profile_error + gval" where
  "explicit_profile v sn = (case config_Parse v of
     BadRef e \<Rightarrow> Inl (BadReference e)
   | Ref r \<Rightarrow> (case snap_values sn (c_name r) of
       Some raw \<Rightarrow> decode_or BadConfigured raw
     | None \<Rightarrow> Inr (case c_default r of None \<Rightarrow> GNil | Some d \<Rightarrow> d))
   | NotRef \<Rightarrow> Inr v)"

definition Selection_Resolve :: "selection \<Rightarrow> snapshot \<Rightarrow> profile_error + string" where
  "Selection_Resolve s sn =
     bindE (if sl_Explicit s then explicit_profile (sl_Value s) sn
            else inherited_profile (sl_Publish s) (sl_Value s) sn) (\<lambda>v.
     case v of
       GNil \<Rightarrow> Inr []
     | GStr n \<Rightarrow> bindE (Key n) (\<lambda>_. Inr n)
     | _ \<Rightarrow> Inl NotAName)"

text \<open>\<open>decode\<close> is the strict decoder of one YAML document.\<close>

definition profile_Decode :: "git_lib \<Rightarrow> (gval option \<Rightarrow> profile option) \<Rightarrow> gval option \<Rightarrow> bool \<Rightarrow> profile_error + profile" where
  "profile_Decode L dec raw prov = (case dec raw of
     None \<Rightarrow> Inl BadDocument
   | Some p \<Rightarrow> bindE (profile_Validate L prov p) (\<lambda>_. Inr p))"

definition profile_Load :: "git_lib \<Rightarrow> (gval option \<Rightarrow> profile option) \<Rightarrow> snapshot \<Rightarrow> string \<Rightarrow> profile_error + profile" where
  "profile_Load L dec sn n =
     bindE (Key n) (\<lambda>key. case snap_values sn key of
       None \<Rightarrow> Inl (NoProfile n) | Some raw \<Rightarrow> profile_Decode L dec raw False)"

definition CredentialNames :: "git_lib \<Rightarrow> (gval option \<Rightarrow> profile option) \<Rightarrow> selection \<Rightarrow> snapshot \<Rightarrow> profile_error + string list" where
  "CredentialNames L dec s sn =
     bindE (Selection_Resolve s sn) (\<lambda>n.
     if n = [] then Inr []
     else bindE (profile_Load L dec sn n) (\<lambda>p.
       Inr (sort_compact (filter (\<lambda>r. r \<noteq> []) (map ge_ref (pr_entries p))))))"

section \<open>Paths\<close>












section \<open>The credential of a request\<close>












text \<open>What \<^verbatim>\<open>url.Parse\<close> gives for URLs of the form scheme, host and path, without port, user, query
  and fragment.\<close>

definition ex_url_parse :: "string \<Rightarrow> url option" where
  "ex_url_parse raw = (case after_prefix ''https://'' raw of
     None \<Rightarrow> None
   | Some s \<Rightarrow> Some \<lparr>u_scheme = ''https'', u_hostname = takeWhile (\<lambda>c. c \<noteq> CHR ''/'') s, u_port = [],
       u_user = False, u_query = [], u_fragment = [], u_path = dropWhile (\<lambda>c. c \<noteq> CHR ''/'') s\<rparr>)"

definition ex_git :: git_lib where
  "ex_git = \<lparr>url_parse = ex_url_parse, lower = id\<rparr>"

definition ex_profile_entry :: "string \<Rightarrow> string \<Rightarrow> git_entry" where
  "ex_profile_entry u r = \<lparr>ge_url = u, ge_from = [], ge_user = ''git'', ge_ref = r, ge_file = []\<rparr>"

definition ex_profile :: "string \<Rightarrow> profile" where
  "ex_profile u = \<lparr>pr_version = 1, pr_entries = [ex_profile_entry u ''ALL'', ex_profile_entry ''https://h/a'' ''TEAM'']\<rparr>"



text \<open>The exception of the previous property is real. A destination whose path is two slashes is
  accepted, covers every path of its host like a bare host does, and yet wins by its length against
  a scope of one one-letter component, if it comes first.\<close>

theorem bare_slashes_outrank:
  "profile_Validate ex_git False (ex_profile ''https://h//'') = Inr () \<and>
   profile_Match ex_git (ex_profile ''https://h//'') ''https'' ''h'' ''a/repo.git'' [] = Inr (ex_profile_entry ''https://h//'' ''ALL'') \<and>
   profile_Match ex_git (ex_profile ''https://h/'') ''https'' ''h'' ''a/repo.git'' [] = Inr (ex_profile_entry ''https://h/a'' ''TEAM'')"
  by code_simp

end
