(* ===== verification/Child_Jobs.thy ===== *)
theory Child_Jobs
  imports Artifact_Ref Git_Profile
begin

text \<open>
  \<^verbatim>\<open>pkg/ops/recipe\<close>, \<^verbatim>\<open>pkg/cellref\<close> and \<^verbatim>\<open>pkg/jobcontext\<close>: jobs that an op
  starts and waits for. The policies of waits (\<^verbatim>\<open>wait.go\<close>), the identifiers and submission of
  child jobs (\<^verbatim>\<open>launcher.go\<close>, \<^verbatim>\<open>workspace.go\<close>), and reading a result
  (\<^verbatim>\<open>recipe_output.go\<close>). JobDB, the cell registry and the artifact store are a world of an
  arbitrary type, changed by the operations of the record \<open>deps\<close>; the repository normalizer, the
  hash and the JSON codec are the operations of \<open>child_lib\<close>. An absent capability, which the code
  finds by a type assertion, is \<open>None\<close>.
\<close>

section \<open>Data\<close>

record WaitPolicy =
  wp_On :: string
  wp_Condition :: string

text \<open>The identity of a job as a process and its children see it.\<close>

record job_identity =
  ji_CellID :: string
  ji_CellRepo :: string
  ji_GoalID :: string
  ji_TenantID :: string
  ji_JobID :: string
  ji_JobType :: string
  ji_OpType :: string
  ji_OpStep :: string
  ji_OpTaskType :: string
  ji_CellName :: string
  ji_RepositorySource :: string
  ji_GitRef :: string
  ji_InvocationPath :: string
  ji_InvocationSequence :: int
  ji_InvocationHash :: string

record job_handle =
  jh_Cell :: string
  jh_CellID :: string
  jh_CellRepo :: string
  jh_TenantID :: string
  jh_GoalID :: string
  jh_JobID :: string

record cell_context =
  cx_Pattern :: string
  cx_SelfCell :: string
  cx_SelfRepo :: string
  cx_SelfRef :: string
  cx_RootRepo :: string
  cx_RootRef :: string

record resolved_cell =
  rs_Cell :: string
  rs_Repo :: string

record workspace_context =
  wk_Cell :: string
  wk_ScopeID :: string
  wk_ParentScopeID :: string
  wk_Initial :: string
  wk_InitialHash :: string
  wk_RefPolicy :: string

record git_commit =
  gc_ParentRef :: string
  gc_PersistHash :: string
  gc_ParentHash :: string

record git_context =
  gx_Workspace :: "workspace_context option"
  gx_CellResolution :: "cell_context option"
  gx_RestoreArtifact :: "artifact_key option"
  gx_BaseRepo :: string
  gx_BaseRef :: string
  gx_ResolvedBaseHash :: string
  gx_RecipeSourceRepo :: string
  gx_RecipeSourceRef :: string
  gx_PersistHash :: string
  gx_ParentHash :: string
  gx_CellName :: string
  gx_GitAuthor :: string
  gx_NodePath :: string
  gx_InvokeSeq :: int
  gx_InvokeHash :: string

text \<open>The context of a new job, as far as these operations set it; the rest stays zero.\<close>

record job_context =
  jc_GitProfile :: selection
  jc_InitialCommit :: "git_commit option"
  jc_RestoreArtifact :: "artifact_key option"
  jc_Workspace :: "workspace_context option"
  jc_CellResolution :: "cell_context option"
  jc_CellName :: string
  jc_BaseRepo :: string
  jc_BaseRef :: string
  jc_BaseHash :: string
  jc_Author :: string
  jc_SourceRepo :: string
  jc_SourceRef :: string

record StartJob =
  sj_Cell :: string
  sj_CellRepo :: string
  sj_TenantId :: string
  sj_JobID :: string
  sj_RecipeName :: string
  sj_Inputs :: "(string \<times> gval) list"
  sj_ArtifactRefs :: "artifact_ref list"
  sj_JobContext :: job_context
  sj_Parent :: "job_identity option"
  sj_GitRef :: string

record SingleRecipe =
  sr_CellRepo :: string
  sr_Wait :: WaitPolicy
  sr_Name :: string
  sr_CellName :: string
  sr_Inputs :: "(string \<times> gval) list"
  sr_Artifacts :: "artifact_ref list"
  sr_BaseRepo :: string
  sr_BaseRef :: string
  sr_BaseHash :: string
  sr_Author :: string

record dependency =
  dp_Goal :: string
  dp_Job :: string
  dp_Condition :: string

record binding =
  bd_Goal :: string
  bd_Job :: string
  bd_SatisfiedBy :: string
  bd_Failed :: bool

record job_data =
  jd_Data :: "go_error + gval option"
  jd_Artifacts :: "go_error + artifact list"

record inspection =
  ip_GoalID :: string
  ip_JobID :: string
  ip_Terminal :: bool
  ip_Status :: string
  ip_FailureKind :: string
  ip_FailureMessage :: string
  ip_Output :: "job_data option"
  ip_StartedAt :: string
  ip_FinishedAt :: string

datatype goal_state = GoalOpen | GoalFailed | GoalSucceeded | GoalOther string

record goal_info =
  gi_GoalID :: string
  gi_State :: goal_state
  gi_Failure :: "gval option"
  gi_SuccessfulJobID :: string

record 'w deps =
  dj_Tenant :: string
  dj_Job :: string
  dj_Ref :: "job_handle option"
  dj_Invocation :: string
  dj_Git :: git_context
  dj_Current :: job_identity
  dj_Profile :: selection
  dj_Scope :: "('w \<Rightarrow> string \<Rightarrow> go_error + resolved_cell) option option"
  dj_Submitter :: "('w \<Rightarrow> StartJob \<Rightarrow> 'w \<times> (go_error + job_handle)) option"
  dj_Start :: "'w \<Rightarrow> StartJob \<Rightarrow> 'w \<times> (go_error + job_handle)"
  dj_Result :: "'w \<Rightarrow> string \<Rightarrow> go_error + job_data option"
  dj_Await :: "('w \<Rightarrow> dependency \<Rightarrow> 'w \<times> binding list \<times> go_error option) option"
  dj_Inspect :: "('w \<Rightarrow> string \<Rightarrow> go_error + inspection) option"
  dj_Goal :: "('w \<Rightarrow> string \<Rightarrow> go_error + goal_info) option"
  dj_Output :: "'w \<Rightarrow> artifact \<Rightarrow> 'w \<times> go_error option"
  dj_External :: "'w \<Rightarrow> string \<Rightarrow> external_ref \<Rightarrow> 'w \<times> go_error option"

record child_lib =
  cl_Normalize :: "string \<Rightarrow> go_error + string"
  cl_CellRepo :: "string \<Rightarrow> go_error + string"
  cl_CellName :: "string \<Rightarrow> go_error option"
  cl_NotFound :: "go_error \<Rightarrow> bool"
  cl_Hash :: "string \<Rightarrow> string"
  cl_Dependencies :: "dependency \<Rightarrow> go_error option"
  cl_Commit :: "gval \<Rightarrow> go_error + git_commit"
  cl_Refs :: "gval \<Rightarrow> go_error + (string \<times> artifact_ref) list"
  cl_RefValue :: "artifact_ref \<Rightarrow> gval"
  cl_FailureError :: "gval \<Rightarrow> go_error"
  cl_Sprint :: "gval \<Rightarrow> string"
  cl_Indent :: "gval \<Rightarrow> go_error + string"


section \<open>Waits\<close>

definition on_goal :: string where "on_goal = ''goal''"
definition on_job :: string where "on_job = ''job''"
definition on_success :: string where "on_success = ''success''"
definition on_complete :: string where "on_complete = ''complete''"

lemmas wait_defs = on_goal_def on_job_def on_success_def on_complete_def

definition wait_on :: "WaitPolicy \<Rightarrow> string" where
  "wait_on p = (if wp_On p = [] then on_goal else wp_On p)"

definition wait_condition :: "bool \<Rightarrow> WaitPolicy \<Rightarrow> string" where
  "wait_condition result p =
     (if wp_Condition p \<noteq> [] then wp_Condition p
      else if wait_on p = on_job \<and> \<not> result then on_complete else on_success)"

definition normalized :: "bool \<Rightarrow> WaitPolicy \<Rightarrow> go_error + WaitPolicy" where
  "normalized result p =
     (let on = wait_on p; condition = wait_condition result p in
      if on \<noteq> on_goal \<and> on \<noteq> on_job then Inl (errorf ''wait.on must be goal or job'')
      else if condition \<noteq> on_success \<and> condition \<noteq> on_complete
      then Inl (errorf ''wait.condition must be success or complete'')
      else if (on = on_goal \<or> result) \<and> condition \<noteq> on_success
      then Inl (errorf ''goal and result waits require success'')
      else Inr \<lparr>wp_On = on, wp_Condition = condition\<rparr>)"

record StartedJob =
  st_Result :: "(string \<times> string) option"
  st_JobID :: string
  st_GoalID :: string
  st_TenantID :: string
  st_TargetJob :: string
  st_TargetGoal :: string
  st_Wait :: WaitPolicy

definition started_job :: "string \<Rightarrow> string \<Rightarrow> WaitPolicy \<Rightarrow> StartedJob" where
  "started_job job goal p = \<lparr>st_Result = None, st_JobID = job, st_GoalID = goal, st_TenantID = [],
     st_TargetJob = [], st_TargetGoal = [], st_Wait = p\<rparr>"

definition no_binding :: binding where
  "no_binding = \<lparr>bd_Goal = [], bd_Job = [], bd_SatisfiedBy = [], bd_Failed = False\<rparr>"

text \<open>The dependency a wait is for: all the checks of \<open>awaitChild\<close> and the inspection that finds
  the goal of a job.\<close>

definition wait_dependency :: "child_lib \<Rightarrow> 'w deps \<Rightarrow> 'w \<Rightarrow> StartedJob \<Rightarrow> bool \<Rightarrow> go_error + dependency" where
  "wait_dependency L D w s result =
     (let on = wait_on (st_Wait s); condition = wait_condition result (st_Wait s);
          job = (if st_TargetJob s \<noteq> [] then st_TargetJob s else st_JobID s);
          goal = (if st_TargetGoal s \<noteq> [] then st_TargetGoal s else st_GoalID s) in
      if st_TenantID s \<noteq> [] \<and> st_TenantID s \<noteq> dj_Tenant D then Inl (errorf ''cross-tenant waits are not supported'')
      else if on = on_job \<and> st_TargetGoal s \<noteq> [] then Inl (errorf ''exact job wait requires target.job'')
      else if on \<noteq> on_goal \<and> on \<noteq> on_job then Inl (errorf ''wait.on must be goal or job'')
      else if result \<and> condition \<noteq> on_success then Inl (errorf ''result waits require success'')
      else if st_TargetJob s \<noteq> [] \<and> st_TargetGoal s \<noteq> [] then Inl (errorf ''target requires exactly one job or goal'')
      else
        bindE (if on = on_job then Inr \<lparr>dp_Goal = [], dp_Job = job, dp_Condition = condition\<rparr>
          else bindE (if goal = [] \<and> job \<noteq> []
            then (case dj_Inspect D of
                None \<Rightarrow> Inl (errorf ''job inspection unavailable'')
              | Some f \<Rightarrow> bindE (f w job) (\<lambda>i. Inr (ip_GoalID i)))
            else Inr goal) (\<lambda>g. Inr \<lparr>dp_Goal = g, dp_Job = [], dp_Condition = condition\<rparr>)) (\<lambda>d.
        case cl_Dependencies L d of Some e \<Rightarrow> Inl e | None \<Rightarrow> Inr d))"

text \<open>\<open>awaitChild\<close> gives a binding beside an error when JobDB does.\<close>

definition awaitChild :: "child_lib \<Rightarrow> 'w deps \<Rightarrow> 'w \<Rightarrow> StartedJob \<Rightarrow> bool \<Rightarrow> 'w \<times> binding \<times> go_error option" where
  "awaitChild L D w s result = (case wait_dependency L D w s result of
     Inl e \<Rightarrow> (w, no_binding, Some e)
   | Inr d \<Rightarrow> (case dj_Await D of
       None \<Rightarrow> (w, no_binding, Some (errorf ''structured dependency waits unavailable''))
     | Some f \<Rightarrow> (case f w d of
         (w', bindings, Some e) \<Rightarrow> (case bindings of
             [b] \<Rightarrow> (w', b,
               if result \<and> wait_on (st_Wait s) = on_job \<and> bd_Failed b
               then (case dj_Result D w' (dp_Job d) of Inl e' \<Rightarrow> Some e' | Inr _ \<Rightarrow> Some e)
               else Some e)
           | _ \<Rightarrow> (w', no_binding, Some e))
       | (w', bindings, None) \<Rightarrow> (case bindings of
             [b] \<Rightarrow>
               if bd_SatisfiedBy b = [] \<or> bd_Goal b \<noteq> dp_Goal d \<or> bd_Job b \<noteq> dp_Job d
               then (w', no_binding, Some (errorf ''missing dependency binding''))
               else (w', b, None)
           | _ \<Rightarrow> (w', no_binding, Some (errorf ''missing dependency binding''))))))"


section \<open>Starting\<close>

text \<open>The bytes whose hash is the identifier of a child: a namespace, the parent, the invocation and
  the position of the child, or its key in a group.\<close>

definition nul :: char where "nul = CHR 0x00"

fun be_bytes :: "nat \<Rightarrow> nat \<Rightarrow> string" where
  "be_bytes 0 n = []"
| "be_bytes (Suc k) n = be_bytes k (n div 256) @ [char_of (n mod 256)]"

definition childJobIDNamespace :: string where "childJobIDNamespace = ''colony2.recipe-child/v2''"
definition childGroupJobIDNamespace :: string where "childGroupJobIDNamespace = ''colony2.recipe-child-group/v2''"

definition id_bytes :: "string \<Rightarrow> string \<Rightarrow> string \<Rightarrow> string \<Rightarrow> string \<Rightarrow> string" where
  "id_bytes namespace tenant job invocation tail =
     namespace @ [nul] @ tenant @ [nul] @ job @ [nul] @ invocation @ [nul] @ tail"

definition deterministicChildJobID :: "child_lib \<Rightarrow> string \<Rightarrow> string \<Rightarrow> string \<Rightarrow> nat \<Rightarrow> string" where
  "deterministicChildJobID L tenant job invocation i =
     cl_Hash L (id_bytes childJobIDNamespace tenant job invocation (be_bytes 8 i))"

definition child_key_bytes :: "string \<Rightarrow> string \<Rightarrow> string \<Rightarrow> string \<Rightarrow> nat \<Rightarrow> string" where
  "child_key_bytes tenant job invocation key i =
     (if trim_space key = [] then id_bytes childJobIDNamespace tenant job invocation (be_bytes 8 i)
      else id_bytes childGroupJobIDNamespace tenant job invocation (trim_space key))"

definition deterministicChildGroupJobID :: "child_lib \<Rightarrow> string \<Rightarrow> string \<Rightarrow> string \<Rightarrow> string \<Rightarrow> nat \<Rightarrow> string" where
  "deterministicChildGroupJobID L tenant job invocation key i = cl_Hash L (child_key_bytes tenant job invocation key i)"

definition HasJob :: "job_identity \<Rightarrow> bool" where
  "HasJob p = (trim_space (ji_TenantID p) \<noteq> [] \<and> trim_space (ji_JobID p) \<noteq> [])"

definition ParentFromCurrent :: "job_identity \<Rightarrow> job_identity" where
  "ParentFromCurrent c = c\<lparr>ji_TenantID := trim_space (ji_TenantID c), ji_JobID := trim_space (ji_JobID c),
     ji_GoalID := trim_space (ji_GoalID c), ji_JobType := trim_space (ji_JobType c), ji_OpType := trim_space (ji_OpType c),
     ji_OpStep := trim_space (ji_OpStep c), ji_OpTaskType := trim_space (ji_OpTaskType c),
     ji_CellName := trim_space (ji_CellName c), ji_RepositorySource := trim_space (ji_RepositorySource c),
     ji_GitRef := trim_space (ji_GitRef c), ji_InvocationPath := trim_space (ji_InvocationPath c),
     ji_InvocationHash := trim_space (ji_InvocationHash c)\<rparr>"

definition no_identity :: job_identity where
  "no_identity = \<lparr>ji_CellID = [], ji_CellRepo = [], ji_GoalID = [], ji_TenantID = [], ji_JobID = [], ji_JobType = [],
     ji_OpType = [], ji_OpStep = [], ji_OpTaskType = [], ji_CellName = [], ji_RepositorySource = [], ji_GitRef = [],
     ji_InvocationPath = [], ji_InvocationSequence = 0, ji_InvocationHash = []\<rparr>"

definition first_nonblank :: "string \<Rightarrow> string \<Rightarrow> string" where
  "first_nonblank a b = (if trim_space a \<noteq> [] then trim_space a else trim_space b)"

definition currentRecipeSource :: "git_context \<Rightarrow> string \<times> string" where
  "currentRecipeSource g =
     (first_nonblank (gx_RecipeSourceRepo g) (gx_BaseRepo g), first_nonblank (gx_RecipeSourceRef g) (gx_BaseRef g))"

definition RecipeJobType :: string where "RecipeJobType = ''recipe''"

definition parentContextFromDeps :: "'w deps \<Rightarrow> job_identity" where
  "parentContextFromDeps D =
     (if HasJob (dj_Current D) then ParentFromCurrent (dj_Current D)
      else let g = dj_Git D;
               p = no_identity\<lparr>ji_TenantID := trim_space (dj_Tenant D), ji_JobID := trim_space (dj_Job D),
                 ji_JobType := RecipeJobType\<rparr>;
               q = (case dj_Ref D of None \<Rightarrow> p
                 | Some h \<Rightarrow> p\<lparr>ji_GoalID := jh_GoalID h, ji_CellID := jh_CellID h, ji_CellName := jh_Cell h,
                     ji_CellRepo := jh_CellRepo h\<rparr>);
               r = q\<lparr>ji_RepositorySource := fst (currentRecipeSource g), ji_GitRef := snd (currentRecipeSource g),
                 ji_InvocationPath := trim_space (gx_NodePath g), ji_InvocationSequence := gx_InvokeSeq g,
                 ji_InvocationHash := trim_space (gx_InvokeHash g)\<rparr>
           in if HasJob r then r else no_identity)"

definition zero_selection :: selection where
  "zero_selection = \<lparr>sl_Explicit = False, sl_Value = GNil, sl_Publish = False\<rparr>"

definition recipeToStart ::
  "string \<Rightarrow> SingleRecipe \<Rightarrow> string \<Rightarrow> string \<Rightarrow> string \<Rightarrow> string \<Rightarrow> job_identity \<Rightarrow> go_error + StartJob" where
  "recipeToStart tenant r source_repo source_ref git_ref job parent =
     (if trim_space (sr_Name r) = [] then Inl (errorf ''recipe name is required'')
      else Inr \<lparr>sj_Cell = sr_CellName r, sj_CellRepo = sr_CellRepo r, sj_TenantId = tenant, sj_JobID = job,
        sj_RecipeName = trim_space (sr_Name r), sj_Inputs = sr_Inputs r, sj_ArtifactRefs = sr_Artifacts r,
        sj_JobContext = \<lparr>jc_GitProfile = zero_selection, jc_InitialCommit = None, jc_RestoreArtifact = None,
          jc_Workspace = None, jc_CellResolution = None, jc_CellName = sr_CellName r, jc_BaseRepo = sr_BaseRepo r,
          jc_BaseRef = sr_BaseRef r, jc_BaseHash = sr_BaseHash r, jc_Author = sr_Author r,
          jc_SourceRepo = first_nonblank source_repo (sr_BaseRepo r),
          jc_SourceRef = first_nonblank source_ref (sr_BaseRef r)\<rparr>,
        sj_Parent = (if HasJob parent then Some parent else None), sj_GitRef = git_ref\<rparr>)"

definition workspaceCell :: "git_context \<Rightarrow> string" where
  "workspaceCell g = (case gx_Workspace g of Some ws \<Rightarrow> wk_Cell ws | None \<Rightarrow> gx_CellName g)"

definition ResolveTarget ::
  "child_lib \<Rightarrow> (string \<Rightarrow> go_error + resolved_cell) option \<Rightarrow> string \<Rightarrow> string \<Rightarrow> go_error + resolved_cell" where
  "ResolveTarget L resolve name repo = (case cl_CellName L name of
     Some e \<Rightarrow> Inl (wrap_error ''cell must be a name: '' e)
   | None \<Rightarrow>
       bindE (if repo = [] then Inr [] else wrapping ''cell repository: '' (cl_CellRepo L repo)) (\<lambda>repo'.
       case resolve of
         None \<Rightarrow> Inl (errorf ''cell registry resolver is required'')
       | Some f \<Rightarrow> (case f name of
           Inl e \<Rightarrow> Inl (if cl_NotFound L e then wrap_error ''cell is not registered or is not accessible: '' e else e)
         | Inr cell \<Rightarrow>
             if repo' \<noteq> [] \<and> repo' \<noteq> rs_Repo cell
             then Inl (errorf ''cell configured repo differs from registered repo'') else Inr cell)))"

text \<open>The cell a child runs in, when a scope resolves cells.\<close>

definition retarget :: "child_lib \<Rightarrow> 'w deps \<Rightarrow> 'w \<Rightarrow> StartJob \<Rightarrow> go_error + StartJob" where
  "retarget L D w j = (case dj_Scope D of
     None \<Rightarrow> Inr j
   | Some resolve \<Rightarrow>
       let assertion = (if sj_CellRepo j = [] \<and> sj_Cell j = workspaceCell (dj_Git D)
             then gx_BaseRepo (dj_Git D) else sj_CellRepo j) in
       bindE (ResolveTarget L (map_option (\<lambda>f. f w) resolve) (sj_Cell j) assertion) (\<lambda>cell.
       bindE (cl_Normalize L (rs_Repo cell)) (\<lambda>repo.
       Inr (j\<lparr>sj_Cell := rs_Cell cell, sj_CellRepo := rs_Repo cell,
         sj_JobContext := (sj_JobContext j)\<lparr>jc_CellName := rs_Cell cell, jc_BaseRepo := repo\<rparr>\<rparr>))))"

definition inheritWorkspace :: "child_lib \<Rightarrow> StartJob \<Rightarrow> git_context \<Rightarrow> go_error + StartJob" where
  "inheritWorkspace L j g =
     (let ctx = (sj_JobContext j)\<lparr>jc_CellResolution := gx_CellResolution g\<rparr>;
          j1 = j\<lparr>sj_JobContext := ctx\<rparr> in
      case gx_Workspace g of
        None \<Rightarrow> Inr j1
      | Some ws \<Rightarrow>
          if wk_ScopeID ws = [] then Inr j1
          else
            bindE (cl_Normalize L (jc_BaseRepo ctx)) (\<lambda>a.
            bindE (cl_Normalize L (gx_BaseRepo g)) (\<lambda>b.
            if a \<noteq> b then Inr j1
            else if jc_CellName ctx \<noteq> wk_Cell ws then Inl (errorf ''child cell disagrees with inherited workspace'')
            else if sj_GitRef j \<notin> {gx_PersistHash g, gx_BaseRef g, gx_ResolvedBaseHash g} then Inr j1
            else
              let ctx2 = ctx\<lparr>jc_Workspace := Some (ws\<lparr>wk_ParentScopeID := wk_ScopeID ws, wk_ScopeID := ''child:'' @ sj_JobID j\<rparr>)\<rparr> in
              if trim_space (gx_PersistHash g) \<noteq> [] \<and> sj_GitRef j = gx_PersistHash g
              then (case gx_RestoreArtifact g of
                  None \<Rightarrow> Inl (errorf ''inherited workspace commit requires its snapshot artifact'')
                | Some k \<Rightarrow> Inr (j\<lparr>sj_JobContext := ctx2\<lparr>jc_RestoreArtifact := Some k,
                    jc_InitialCommit := Some \<lparr>gc_ParentRef = [], gc_PersistHash = gx_PersistHash g,
                      gc_ParentHash = gx_ParentHash g\<rparr>\<rparr>\<rparr>))
              else Inr (j\<lparr>sj_JobContext := ctx2\<lparr>jc_InitialCommit :=
                Some \<lparr>gc_ParentRef = gx_BaseRef g, gc_PersistHash = [], gc_ParentHash = []\<rparr>\<rparr>\<rparr>))))"

definition prepare_start :: "child_lib \<Rightarrow> 'w deps \<Rightarrow> 'w \<Rightarrow> StartJob \<Rightarrow> go_error + StartJob" where
  "prepare_start L D w j =
     bindE (retarget L D w j) (\<lambda>k.
     inheritWorkspace L (k\<lparr>sj_JobContext := (sj_JobContext k)\<lparr>jc_GitProfile := dj_Profile D\<rparr>\<rparr>) (dj_Git D))"

definition submit_start :: "'w deps \<Rightarrow> 'w \<Rightarrow> StartJob \<Rightarrow> 'w \<times> (go_error + job_handle)" where
  "submit_start D = (case dj_Submitter D of Some f \<Rightarrow> f | None \<Rightarrow> dj_Start D)"

definition startRecipeChildJob :: "child_lib \<Rightarrow> 'w deps \<Rightarrow> 'w \<Rightarrow> StartJob \<Rightarrow> 'w \<times> (go_error + job_handle)" where
  "startRecipeChildJob L D w j = (case prepare_start L D w j of Inl e \<Rightarrow> (w, Inl e) | Inr k \<Rightarrow> submit_start D w k)"

text \<open>Loops over jobs: one that runs to its end, and one whose body may end it.\<close>

fun run_list :: "('w \<Rightarrow> 'a \<Rightarrow> 'w \<times> 'r) \<Rightarrow> 'w \<Rightarrow> 'a list \<Rightarrow> 'w \<times> 'r list" where
  "run_list f w [] = (w, [])"
| "run_list f w (x # xs) = (case f w x of (w', y) \<Rightarrow> (case run_list f w' xs of (w'', ys) \<Rightarrow> (w'', y # ys)))"

fun run_checked :: "('w \<Rightarrow> 'a \<Rightarrow> 'w \<times> (go_error + 'b)) \<Rightarrow> 'w \<Rightarrow> 'a list \<Rightarrow> 'w \<times> (go_error + 'b list)" where
  "run_checked f w [] = (w, Inr [])"
| "run_checked f w (x # xs) = (case f w x of
     (w', Inl e) \<Rightarrow> (w', Inl e)
   | (w', Inr y) \<Rightarrow> (case run_checked f w' xs of (w'', res) \<Rightarrow> (w'', bindE res (\<lambda>ys. Inr (y # ys)))))"

definition start_all :: "child_lib \<Rightarrow> 'w deps \<Rightarrow> 'w \<Rightarrow> StartJob list \<Rightarrow> 'w \<times> (go_error + job_handle list)" where
  "start_all L D = run_checked (startRecipeChildJob L D)"

text \<open>A single job is the same loop.\<close>

definition startJobs :: "child_lib \<Rightarrow> 'w deps \<Rightarrow> 'w \<Rightarrow> SingleRecipe list \<Rightarrow> string \<Rightarrow> 'w \<times> (go_error + job_handle list)" where
  "startJobs L D w recipes git_ref =
     (if recipes = [] then (w, Inl (errorf ''no jobs to start''))
      else if dj_Invocation D = []
      then (w, Inl (errorf ''child submission requires a logical task invocation ID''))
      else case mapE (\<lambda>i. recipeToStart (dj_Tenant D) (recipes ! i) (fst (currentRecipeSource (dj_Git D)))
            (snd (currentRecipeSource (dj_Git D))) git_ref
            (deterministicChildJobID L (dj_Tenant D) (dj_Job D) (dj_Invocation D) i) (parentContextFromDeps D))
          [0..<length recipes] of
        Inl e \<Rightarrow> (w, Inl e)
      | Inr jobs \<Rightarrow> start_all L D w jobs)"

end
