(* ===== verification/Task_Context.thy ===== *)
theory Task_Context
  imports Compiler_Failure Child_Jobs Perms_Policy
begin

text \<open>
  \<^verbatim>\<open>pkg/contextual\<close>: the context of a job and of a task as templates see it, the conversions
  between the two, and the paths of the environment, which the compiler completes with sentinels
  (\<^verbatim>\<open>compiler.go\<close>: \<open>normalizeEnvironmentPathContext\<close>). Also the jobs a task started, and
  their merge (\<^verbatim>\<open>pkg/jobcontext\<close>). The hash of an invocation is a parameter.
\<close>

section \<open>Environment\<close>

record path_context =
  pth_Workdir :: string
  pth_WorktreePath :: string
  pth_Inbox :: string
  pth_Outbox :: string

record environment_context =
  env_WorktreePath :: string
  env_WorkdirPath :: string
  env_ArtifactInbox :: string
  env_ArtifactOutbox :: string
  env_Host :: path_context
  env_Op :: path_context

definition WorktreePathSentinel :: string where "WorktreePathSentinel = ''__C2_SENTINEL_WORKTREE__''"
definition WorkdirPathSentinel :: string where "WorkdirPathSentinel = ''__C2_SENTINEL_WORKDIR__''"
definition ArtifactInboxSentinel :: string where "ArtifactInboxSentinel = ''__C2_SENTINEL_ARTIFACT_INBOX__''"
definition ArtifactOutboxSentinel :: string where "ArtifactOutboxSentinel = ''__C2_SENTINEL_ARTIFACT_OUTBOX__''"
definition OpWorktreePathSentinel :: string where "OpWorktreePathSentinel = ''__C2_SENTINEL_OP_WORKTREE__''"
definition OpWorkdirPathSentinel :: string where "OpWorkdirPathSentinel = ''__C2_SENTINEL_OP_WORKDIR__''"
definition OpArtifactInboxSentinel :: string where
  "OpArtifactInboxSentinel = ''__C2_SENTINEL_OP_ARTIFACT_INBOX__''"
definition OpArtifactOutboxSentinel :: string where
  "OpArtifactOutboxSentinel = ''__C2_SENTINEL_OP_ARTIFACT_OUTBOX__''"

lemmas sentinel_defs = WorktreePathSentinel_def WorkdirPathSentinel_def ArtifactInboxSentinel_def
  ArtifactOutboxSentinel_def OpWorktreePathSentinel_def OpWorkdirPathSentinel_def
  OpArtifactInboxSentinel_def OpArtifactOutboxSentinel_def

text \<open>The flat field and the field of the host, which the code updates through pointers.\<close>

definition normalizeHostPathAlias :: "string \<Rightarrow> string \<Rightarrow> string \<Rightarrow> string \<times> string" where
  "normalizeHostPathAlias sentinel flat host =
     (let flatValue = trim_space flat; hostValue = trim_space host;
          adopt = (flatValue = [] \<and> hostValue \<noteq> []);
          flat1 = (if adopt then hostValue else flat); value1 = (if adopt then hostValue else flatValue);
          flat2 = (if value1 = [] then sentinel else flat1); value2 = (if value1 = [] then sentinel else value1)
      in (flat2, if hostValue = [] then value2 else host))"

definition normalizeOpPathAlias :: "string \<Rightarrow> string \<Rightarrow> string \<Rightarrow> string \<Rightarrow> string" where
  "normalizeOpPathAlias hostSentinel opSentinel host op =
     (if trim_space op \<noteq> [] then op
      else let h = trim_space host in if h = [] \<or> h = hostSentinel then opSentinel else h)"

definition normalizeEnvironmentPathContext :: "environment_context \<Rightarrow> environment_context" where
  "normalizeEnvironmentPathContext e =
     (let h = env_Host e;
          (wt, hwt) = normalizeHostPathAlias WorktreePathSentinel (env_WorktreePath e) (pth_WorktreePath h);
          (wd, hwd) = normalizeHostPathAlias WorkdirPathSentinel (env_WorkdirPath e) (pth_Workdir h);
          (ib, hib) = normalizeHostPathAlias ArtifactInboxSentinel (env_ArtifactInbox e) (pth_Inbox h);
          (ob, hob) = normalizeHostPathAlias ArtifactOutboxSentinel (env_ArtifactOutbox e) (pth_Outbox h);
          p = env_Op e
      in \<lparr>env_WorktreePath = wt, env_WorkdirPath = wd, env_ArtifactInbox = ib, env_ArtifactOutbox = ob,
          env_Host = \<lparr>pth_Workdir = hwd, pth_WorktreePath = hwt, pth_Inbox = hib, pth_Outbox = hob\<rparr>,
          env_Op = \<lparr>
            pth_Workdir = normalizeOpPathAlias WorkdirPathSentinel OpWorkdirPathSentinel hwd (pth_Workdir p),
            pth_WorktreePath = normalizeOpPathAlias WorktreePathSentinel OpWorktreePathSentinel hwt (pth_WorktreePath p),
            pth_Inbox = normalizeOpPathAlias ArtifactInboxSentinel OpArtifactInboxSentinel hib (pth_Inbox p),
            pth_Outbox = normalizeOpPathAlias ArtifactOutboxSentinel OpArtifactOutboxSentinel hob (pth_Outbox p)\<rparr>\<rparr>)"

text \<open>Neither field of a pair is left blank, and a second normalization changes nothing.\<close>

lemma normalizeHostPathAlias_filled:
  assumes "trim_space sentinel \<noteq> []"
  shows "trim_space (fst (normalizeHostPathAlias sentinel flat host)) \<noteq> []"
    and "trim_space (snd (normalizeHostPathAlias sentinel flat host)) \<noteq> []"
  using assms by (simp_all add: normalizeHostPathAlias_def Let_def)

lemma normalizeHostPathAlias_idem:
  assumes "trim_space sentinel \<noteq> []" "normalizeHostPathAlias sentinel flat host = (f, h)"
  shows "normalizeHostPathAlias sentinel f h = (f, h)"
  using normalizeHostPathAlias_filled [OF assms(1), of flat host] assms(2)
  by (simp add: normalizeHostPathAlias_def [of sentinel f h] Let_def)

lemma normalizeOpPathAlias_filled:
  "trim_space opSentinel \<noteq> [] \<Longrightarrow> trim_space (normalizeOpPathAlias hostSentinel opSentinel host op) \<noteq> []"
  by (simp add: normalizeOpPathAlias_def Let_def)

lemma normalizeOpPathAlias_idem:
  "trim_space opSentinel \<noteq> [] \<Longrightarrow>
   normalizeOpPathAlias hs opSentinel host (normalizeOpPathAlias hs' opSentinel host' op) =
     normalizeOpPathAlias hs' opSentinel host' op"
  using normalizeOpPathAlias_filled by (simp add: normalizeOpPathAlias_def [of hs])

lemma sentinel_filled [simp]:
  "trim_space WorktreePathSentinel \<noteq> []" "trim_space WorkdirPathSentinel \<noteq> []"
  "trim_space ArtifactInboxSentinel \<noteq> []" "trim_space ArtifactOutboxSentinel \<noteq> []"
  "trim_space OpWorktreePathSentinel \<noteq> []" "trim_space OpWorkdirPathSentinel \<noteq> []"
  "trim_space OpArtifactInboxSentinel \<noteq> []" "trim_space OpArtifactOutboxSentinel \<noteq> []"
  by (simp_all add: sentinel_defs) code_simp+

lemma normalizeEnvironment_idem:
  "normalizeEnvironmentPathContext (normalizeEnvironmentPathContext e) = normalizeEnvironmentPathContext e"
proof -
  define n where "n = normalizeHostPathAlias"
  have idem: "n s f h = (f, h)" if "n s a b = (f, h)" "trim_space s \<noteq> []" for s a b f h
    using normalizeHostPathAlias_idem [of s a b f h] that by (simp add: n_def)
  obtain wt hwt where 1: "n WorktreePathSentinel (env_WorktreePath e) (pth_WorktreePath (env_Host e)) = (wt, hwt)" by fastforce
  obtain wd hwd where 2: "n WorkdirPathSentinel (env_WorkdirPath e) (pth_Workdir (env_Host e)) = (wd, hwd)" by fastforce
  obtain ib hib where 3: "n ArtifactInboxSentinel (env_ArtifactInbox e) (pth_Inbox (env_Host e)) = (ib, hib)" by fastforce
  obtain ob hob where 4: "n ArtifactOutboxSentinel (env_ArtifactOutbox e) (pth_Outbox (env_Host e)) = (ob, hob)" by fastforce
  show ?thesis
    by (simp add: normalizeEnvironmentPathContext_def n_def [symmetric] 1 2 3 4 Let_def
        idem [OF 1] idem [OF 2] idem [OF 3] idem [OF 4] normalizeOpPathAlias_idem)
qed

section \<open>The contexts of jobs and tasks\<close>

record git_base =
  gb_BaseRepo :: string
  gb_BaseRef :: string
  gb_ResolvedBaseHash :: string
  gb_GitAuthor :: string

record recipe_source =
  rsc_Repo :: string
  rsc_Ref :: string
  rsc_Path :: string
  rsc_Selector :: string

record workflow_context =
  wfc_GoalID :: string
  wfc_CellID :: string
  wfc_CellName :: string
  wfc_JobID :: string
  wfc_ProjectId :: string

record job_ctx =
  jx_Permissions :: "State option"
  jx_GitProfile :: selection
  jx_InitialCommit :: "git_commit option"
  jx_RestoreArtifact :: "artifact_key option"
  jx_Workspace :: "workspace_context option"
  jx_CellResolution :: "cell_context option"
  jx_Environment :: environment_context
  jx_Artifacts :: "(string \<times> artifact_ref) list"
  jx_Workflow :: workflow_context
  jx_GitBase :: git_base
  jx_RecipeSource :: recipe_source
  jx_RestoreName :: string

record git_task =
  gt_Execution :: "string \<times> string"
  gt_BaseRepo :: string
  gt_BaseRef :: string
  gt_ResolvedBaseHash :: string
  gt_GitAuthor :: string
  gt_ParentRef :: string
  gt_PersistHash :: string
  gt_ParentHash :: string

record invocation =
  inv_Hash :: string
  inv_NodePath :: string
  inv_Seq :: nat

record inline_frame =
  ifr_CallsitePath :: string
  ifr_BoundaryNodePath :: string
  ifr_RecipeID :: string
  ifr_RecipeVersion :: string
  ifr_SourceKind :: string
  ifr_SubmittedSelector :: string
  ifr_ResolvedSelector :: string
  ifr_ResolvedCommit :: string
  ifr_ContentSHA256 :: string

record task_ctx =
  tx_Workspace :: "workspace_context option"
  tx_CellResolution :: "cell_context option"
  tx_Environment :: environment_context
  tx_Artifacts :: "(string \<times> artifact_ref) list"
  tx_Workflow :: workflow_context
  tx_RecipeSource :: recipe_source
  tx_Git :: git_task
  tx_Invocation :: invocation
  tx_InlineStack :: "inline_frame list"

text \<open>The bytes that are hashed for an invocation, and the hash.\<close>

definition invocation_bytes :: "string \<Rightarrow> nat \<Rightarrow> string" where
  "invocation_bytes path n = path @ CHR 0x00 # show_int (int n)"

definition GetInvocationHash :: "(string \<Rightarrow> string) \<Rightarrow> string \<times> nat \<Rightarrow> string" where
  "GetInvocationHash hash i = hash (invocation_bytes (fst i) (snd i))"

definition NewTaskExecutionContext :: "(string \<Rightarrow> string) \<Rightarrow> job_ctx \<Rightarrow> string \<times> nat \<Rightarrow> git_commit \<Rightarrow> task_ctx" where
  "NewTaskExecutionContext hash j i c =
     \<lparr>tx_Workspace = jx_Workspace j, tx_CellResolution = jx_CellResolution j, tx_Environment = jx_Environment j,
      tx_Artifacts = jx_Artifacts j, tx_Workflow = jx_Workflow j, tx_RecipeSource = jx_RecipeSource j,
      tx_Git = \<lparr>gt_Execution = ([], []), gt_BaseRepo = gb_BaseRepo (jx_GitBase j), gt_BaseRef = gb_BaseRef (jx_GitBase j),
        gt_ResolvedBaseHash = gb_ResolvedBaseHash (jx_GitBase j), gt_GitAuthor = gb_GitAuthor (jx_GitBase j),
        gt_ParentRef = gc_ParentRef c, gt_PersistHash = gc_PersistHash c, gt_ParentHash = gc_ParentHash c\<rparr>,
      tx_Invocation = \<lparr>inv_Hash = GetInvocationHash hash i, inv_NodePath = fst i, inv_Seq = snd i\<rparr>,
      tx_InlineStack = []\<rparr>"

definition unset_selection :: selection where
  "unset_selection = \<lparr>sl_Explicit = False, sl_Value = GNil, sl_Publish = False\<rparr>"

definition JobContext :: "task_ctx \<Rightarrow> job_ctx" where
  "JobContext t =
     \<lparr>jx_Permissions = None, jx_GitProfile = unset_selection, jx_InitialCommit = None, jx_RestoreArtifact = None,
      jx_Workspace = tx_Workspace t, jx_CellResolution = tx_CellResolution t, jx_Environment = tx_Environment t,
      jx_Artifacts = tx_Artifacts t, jx_Workflow = tx_Workflow t,
      jx_GitBase = \<lparr>gb_BaseRepo = gt_BaseRepo (tx_Git t), gb_BaseRef = gt_BaseRef (tx_Git t),
        gb_ResolvedBaseHash = gt_ResolvedBaseHash (tx_Git t), gb_GitAuthor = gt_GitAuthor (tx_Git t)\<rparr>,
      jx_RecipeSource = tx_RecipeSource t, jx_RestoreName = []\<rparr>"

text \<open>A job's context survives the tasks made from it, except for what only its start reads.\<close>

lemma JobContext_of_task:
  "JobContext (NewTaskExecutionContext hash j i c) =
     j\<lparr>jx_Permissions := None, jx_GitProfile := unset_selection, jx_InitialCommit := None,
       jx_RestoreArtifact := None, jx_RestoreName := []\<rparr>"
  by (simp add: JobContext_def NewTaskExecutionContext_def)

definition FollowsRef :: "workspace_context option \<Rightarrow> bool" where
  "FollowsRef w = (case w of None \<Rightarrow> False
     | Some w \<Rightarrow> wk_RefPolicy w = ''follow-per-task-until-change'' \<and> wk_Initial w \<noteq> ''empty'')"

definition HasEmptyBase :: "workspace_context option \<Rightarrow> string \<Rightarrow> string \<Rightarrow> bool" where
  "HasEmptyBase w base parent = (case w of None \<Rightarrow> False
     | Some w \<Rightarrow> wk_Initial w = ''empty'' \<and> base = [] \<and> parent = [])"

lemma empty_base_does_not_follow: "HasEmptyBase w base parent \<Longrightarrow> \<not> FollowsRef w"
  by (simp add: HasEmptyBase_def FollowsRef_def split: option.splits)

text \<open>Distinct invocations are hashed from distinct bytes.\<close>

lemma invocation_bytes_inj:
  assumes "invocation_bytes p n = invocation_bytes q m" "CHR 0x00 \<notin> set p" "CHR 0x00 \<notin> set q"
  shows "p = q \<and> show_int (int n) = show_int (int m)"
proof -
  have "takeWhile (\<lambda>c. c \<noteq> CHR 0x00) (invocation_bytes r k) = r"
    "dropWhile (\<lambda>c. c \<noteq> CHR 0x00) (invocation_bytes r k) = CHR 0x00 # show_int (int k)"
    if "CHR 0x00 \<notin> set r" for r k
    using that by (induction r) (auto simp: invocation_bytes_def)
  with assms show ?thesis by (metis list.inject)
qed

section \<open>Started jobs\<close>

record job_item =
  jt_GoalID :: string
  jt_TenantID :: string
  jt_JobID :: string
  jt_RecipeName :: string
  jt_Status :: string
  jt_ParentHash :: string

record started_jobs =
  sj_GoalIDs :: "string list"
  sj_JobIDs :: "string list"
  sj_Items :: "job_item list"

definition EmptyStartedJobsContext :: started_jobs where
  "EmptyStartedJobsContext = \<lparr>sj_GoalIDs = [], sj_JobIDs = [], sj_Items = []\<rparr>"

datatype merge_error = IncompleteItems | MissingIDs | ConflictingGoals string

definition item_key :: "job_item \<Rightarrow> string" where
  "item_key i = jt_TenantID i @ CHR 0x00 # jt_JobID i"

text \<open>The item whose key was seen; the items added so far are found by their keys.\<close>

definition merge_item :: "started_jobs \<Rightarrow> job_item \<Rightarrow> merge_error + started_jobs" where
  "merge_item out i =
     (if jt_TenantID i = [] \<or> jt_JobID i = [] \<or> jt_GoalID i = [] then Inl MissingIDs
      else case find (\<lambda>j. item_key j = item_key i) (sj_Items out) of
        Some j \<Rightarrow> if jt_GoalID j \<noteq> jt_GoalID i then Inl (ConflictingGoals (jt_JobID i)) else Inr out
      | None \<Rightarrow> Inr \<lparr>sj_GoalIDs = sj_GoalIDs out @ [jt_GoalID i], sj_JobIDs = sj_JobIDs out @ [jt_JobID i],
          sj_Items = sj_Items out @ [i]\<rparr>)"

definition merge_group :: "started_jobs \<Rightarrow> started_jobs \<Rightarrow> merge_error + started_jobs" where
  "merge_group out g =
     (if sj_Items g = [] \<and> (sj_JobIDs g \<noteq> [] \<or> sj_GoalIDs g \<noteq> []) then Inl IncompleteItems
      else runE merge_item out (sj_Items g))"

definition MergeStartedJobs :: "started_jobs list \<Rightarrow> merge_error + started_jobs" where
  "MergeStartedJobs groups = runE merge_group EmptyStartedJobsContext groups"

text \<open>What a merge gives: the projections are those of the items, every item is complete, and no job
  is there twice.\<close>

definition coherent_jobs :: "started_jobs \<Rightarrow> bool" where
  "coherent_jobs s \<longleftrightarrow>
     sj_JobIDs s = map jt_JobID (sj_Items s) \<and> sj_GoalIDs s = map jt_GoalID (sj_Items s) \<and>
     (\<forall>i \<in> set (sj_Items s). jt_TenantID i \<noteq> [] \<and> jt_JobID i \<noteq> [] \<and> jt_GoalID i \<noteq> []) \<and>
     distinct (map item_key (sj_Items s))"

lemma coherent_empty [simp]: "coherent_jobs EmptyStartedJobsContext"
  by (simp add: coherent_jobs_def EmptyStartedJobsContext_def)

lemma merge_item_coherent:
  assumes "coherent_jobs s" "merge_item s i = Inr t"
  shows "coherent_jobs t"
proof (cases "find (\<lambda>j. item_key j = item_key i) (sj_Items s)")
  case None
  then have "item_key i \<notin> item_key ` set (sj_Items s)" by (auto simp: find_None_iff)
  with assms None show ?thesis by (auto simp: merge_item_def coherent_jobs_def split: if_splits)
next
  case (Some j)
  with assms show ?thesis by (auto simp: merge_item_def split: if_splits)
qed

interpretation merge_items: invariant_steps merge_item coherent_jobs
  by unfold_locales (rule merge_item_coherent)

interpretation merge_groups: invariant_steps merge_group coherent_jobs
  by unfold_locales (auto simp: merge_group_def ok_iff split: if_splits intro: merge_items.run_invariant)

text \<open>Every job of the groups is in the merge, with its goal.\<close>

lemma merge_item_has:
  assumes "merge_item s i = Inr t"
  shows "set (sj_Items s) \<subseteq> set (sj_Items t)"
    and "\<exists>j \<in> set (sj_Items t). item_key j = item_key i \<and> jt_GoalID j = jt_GoalID i"
  using assms
  by (auto simp: merge_item_def find_Some_iff split: if_splits option.splits dest: nth_mem)

end
