(* ===== verification/Exec_Base.thy ===== *)
theory Exec_Base
  imports Go_Strings
begin

text \<open>
  Base selectors, \<^verbatim>\<open>pkg/execution/base.go\<close>: \<open>validateBase\<close> and the greedy matcher
  \<open>MatchBase\<close>, proved equivalent to the declarative relation \<open>glob\<close> (a star matches any
  bytes). \<open>Negotiate\<close> compares two selectors with the same function, which is sound because the
  relation is transitive; the theorems give the exact scope of that.
\<close>

section \<open>The code\<close>

datatype base_error = BadBase | NotConcrete

definition validateBase :: "string \<Rightarrow> bool \<Rightarrow> base_error + unit" where
  "validateBase value concrete =
     (if value = [] \<or> length value > 4096 \<or> \<not> valid_utf8 value \<or>
         contains_any value [CHR 0x00, CHR '' '', CHR 0x09, CHR 0x0D, CHR 0x0A]
      then Inl BadBase
      else if concrete \<and> go_contains value ''*'' then Inl NotConcrete
      else Inr ())"

text \<open>The loop over the inner parts: each is searched for in what is left.\<close>

fun match_inner :: "string list \<Rightarrow> string \<Rightarrow> string option" where
  "match_inner [] actual = Some actual"
| "match_inner (part # parts) actual =
     (case go_index actual part of
        None \<Rightarrow> None
      | Some i \<Rightarrow> match_inner parts (drop (i + length part) actual))"

definition MatchBase :: "string \<Rightarrow> string \<Rightarrow> bool" where
  "MatchBase selector actual =
     (if selector = ''*'' then True
      else if actual = [] then False
      else
        let parts = split_on CHR ''*'' selector in
        if length parts = 1 then selector = actual
        else if \<not> has_prefix actual (hd parts) then False
        else
          let actual = drop (length (hd parts)) actual in
          (case match_inner (butlast (tl parts)) actual of
             None \<Rightarrow> False
           | Some actual \<Rightarrow> has_suffix actual (last parts)))"

section \<open>The relation\<close>

inductive glob :: "string \<Rightarrow> string \<Rightarrow> bool" where
  glob_Nil: "glob [] []"
| glob_chr: "c \<noteq> CHR ''*'' \<Longrightarrow> glob p s \<Longrightarrow> glob (c # p) (c # s)"
| glob_star: "glob p s \<Longrightarrow> glob (CHR ''*'' # p) s"
| glob_more: "glob (CHR ''*'' # p) s \<Longrightarrow> glob (CHR ''*'' # p) (c # s)"

inductive_cases glob_NilE: "glob [] s"
inductive_cases glob_ConsE: "glob (c # p) s"

lemma glob_Nil_iff [simp]: "glob [] s \<longleftrightarrow> s = []"
  by (auto elim: glob_NilE intro: glob_Nil)

lemma glob_chr_iff: "c \<noteq> CHR ''*'' \<Longrightarrow> glob (c # p) s \<longleftrightarrow> (\<exists>t. s = c # t \<and> glob p t)"
  by (auto elim: glob_ConsE intro: glob_chr)

lemma glob_star_cases:
  "glob (CHR ''*'' # p) s \<longleftrightarrow> glob p s \<or> (\<exists>c t. s = c # t \<and> glob (CHR ''*'' # p) t)"
  by (auto elim: glob_ConsE intro: glob_star glob_more)

lemma glob_star_iff: "glob (CHR ''*'' # p) s \<longleftrightarrow> (\<exists>a b. s = a @ b \<and> glob p b)"
proof
  assume "glob (CHR ''*'' # p) s"
  then show "\<exists>a b. s = a @ b \<and> glob p b"
  proof (induction "CHR ''*'' # p" s)
    case glob_star
    then show ?case by (metis append_Nil)
  next
    case glob_more
    then show ?case by (metis append_Cons)
  qed auto
next
  assume "\<exists>a b. s = a @ b \<and> glob p b"
  then obtain a b where "s = a @ b" "glob p b" by blast
  then show "glob (CHR ''*'' # p) s"
    by (induction a arbitrary: s) (auto intro: glob.intros)
qed

text \<open>A selector without a star matches itself only, and a leading literal part is a prefix.\<close>

lemma glob_literal:
  "CHR ''*'' \<notin> set l \<Longrightarrow> glob (l @ p) s \<longleftrightarrow> (\<exists>t. s = l @ t \<and> glob p t)"
  by (induction l arbitrary: s) (auto simp: glob_chr_iff)

lemma glob_refl_literal: "CHR ''*'' \<notin> set l \<Longrightarrow> glob l s \<longleftrightarrow> s = l"
  using glob_literal [of l "[]" s] by auto

lemma glob_star_literal: "CHR ''*'' \<notin> set l \<Longrightarrow> glob (CHR ''*'' # l) s \<longleftrightarrow> suffix l s"
  by (auto simp: glob_star_iff glob_refl_literal suffix_def)

lemma glob_star_grows: "glob (CHR ''*'' # p) t \<Longrightarrow> glob (CHR ''*'' # p) (a @ t)"
  by (auto simp: glob_star_iff) (metis append_assoc)

text \<open>The leftmost occurrence of an inner part is as good as any other.\<close>

lemma glob_leftmost:
  assumes "CHR ''*'' \<notin> set l"
  shows "glob (CHR ''*'' # l @ CHR ''*'' # p) s \<longleftrightarrow>
    (case go_index s l of None \<Rightarrow> False | Some i \<Rightarrow> glob (CHR ''*'' # p) (drop (i + length l) s))"
    (is "?L \<longleftrightarrow> ?R")
proof
  assume ?L
  then obtain a t where s: "s = a @ l @ t" and t: "glob (CHR ''*'' # p) t"
    using assms by (auto simp: glob_star_iff [of "l @ _"] glob_literal)
  from go_index_least [OF s] obtain i where i: "i \<le> length a" "go_index s l = Some i" by blast
  have "i + length l \<le> length (a @ l)" using i by simp
  then have "drop (i + length l) s = drop (i + length l) (a @ l) @ t" using s by simp
  with t have "glob (CHR ''*'' # p) (drop (i + length l) s)" by (simp add: glob_star_grows)
  with i show ?R by simp
next
  assume ?R
  then obtain i where i: "go_index s l = Some i" and g: "glob (CHR ''*'' # p) (drop (i + length l) s)"
    by (auto split: option.splits)
  from go_index_Some [OF i] obtain a b where s: "s = a @ l @ b" and "length a = i" by blast
  then have "glob (CHR ''*'' # p) b" using g by simp
  then have "glob (l @ CHR ''*'' # p) (l @ b)" using assms by (simp add: glob_literal)
  with s show ?L by (auto simp: glob_star_iff [of "l @ _"])
qed

text \<open>Joining parts with stars, and the loop of the code over them.\<close>

lemma match_inner_glob:
  assumes "\<forall>l \<in> set (ls @ [z]). CHR ''*'' \<notin> set l"
  shows "glob (CHR ''*'' # join_with ''*'' (ls @ [z])) s \<longleftrightarrow>
    (case match_inner ls s of None \<Rightarrow> False | Some t \<Rightarrow> has_suffix t z)"
  using assms
proof (induction ls arbitrary: s)
  case Nil
  then show ?case by (simp add: glob_star_literal has_suffix_def)
next
  case (Cons l ls)
  have "join_with ''*'' ((l # ls) @ [z]) = l @ CHR ''*'' # join_with ''*'' (ls @ [z])"
    by (cases ls) simp_all
  then show ?case
    using Cons by (auto simp: glob_leftmost split: option.splits)
qed

lemma MatchBase_parts:
  assumes "split_on CHR ''*'' sel = p # q # qs" "actual \<noteq> []" "sel \<noteq> ''*''"
  shows "MatchBase sel actual \<longleftrightarrow> glob sel actual"
proof -
  define ls where "ls = butlast (q # qs)"
  define z where "z = last (q # qs)"
  have qs: "q # qs = ls @ [z]" by (simp add: ls_def z_def)
  have free: "\<forall>l \<in> set (p # q # qs). CHR ''*'' \<notin> set l"
    using split_on_parts assms(1) by metis
  have sel: "sel = p @ CHR ''*'' # join_with ''*'' (ls @ [z])"
    using join_split [of "CHR ''*''" sel] by (simp add: assms(1) flip: qs)
  have parts: "hd (p # q # qs) = p" "butlast (tl (p # q # qs)) = ls" "last (p # q # qs) = z"
    "length (p # q # qs) = 1 \<longleftrightarrow> False"
    by (simp_all add: ls_def z_def)
  have "glob sel actual \<longleftrightarrow>
      (\<exists>t. actual = p @ t \<and> (case match_inner ls t of None \<Rightarrow> False | Some t \<Rightarrow> has_suffix t z))"
    using free match_inner_glob [of ls z] unfolding sel qs by (simp add: glob_literal)
  moreover have "MatchBase sel actual \<longleftrightarrow> has_prefix actual p \<and>
      (case match_inner ls (drop (length p) actual) of None \<Rightarrow> False | Some t \<Rightarrow> has_suffix t z)"
    unfolding MatchBase_def Let_def assms(1) parts using assms(2,3) by simp
  ultimately show ?thesis by (auto simp: has_prefix_def prefix_def)
qed

lemma MatchBase_iff: "MatchBase sel actual = (sel = ''*'' \<or> actual \<noteq> [] \<and> glob sel actual)"
proof (cases "sel = ''*'' \<or> actual = []")
  case True
  then show ?thesis by (auto simp: MatchBase_def)
next
  case False
  show ?thesis
  proof (cases "split_on CHR ''*'' sel")
    case Nil
    then show ?thesis by simp
  next
    case (Cons p ps)
    show ?thesis
    proof (cases ps)
      case Nil
      with Cons have "sel = p" "CHR ''*'' \<notin> set sel"
        using join_split [of "CHR ''*''" sel] split_on_parts [of p "CHR ''*''" sel] by auto
      with Nil Cons False show ?thesis
        by (auto simp: MatchBase_def Let_def glob_refl_literal)
    next
      case (Cons q qs)
      with \<open>split_on CHR ''*'' sel = p # ps\<close> False show ?thesis
        by (simp add: MatchBase_parts)
    qed
  qed
qed

text \<open>The greedy matcher accepts exactly the names the selector denotes: a star alone accepts
  everything, the empty name is accepted by nothing else, and otherwise the whole name has to match
  with every star standing for any run of bytes.\<close>

theorem MatchBase_glob: "MatchBase sel actual = (sel = ''*'' \<or> actual \<noteq> [] \<and> glob sel actual)"
  by (rule MatchBase_iff)

section \<open>Comparing two selectors\<close>

lemma glob_trans:
  "glob p q \<Longrightarrow> glob q s \<Longrightarrow> glob p s"
proof (induction "length p + length q + length s" arbitrary: p q s rule: less_induct)
  case less
  show ?case
  proof (cases p)
    case Nil
    with less.prems show ?thesis by simp
  next
    case (Cons c p')
    show ?thesis
    proof (cases "c = CHR ''*''")
      case False
      with less.prems Cons obtain q' where q: "q = c # q'" "glob p' q'"
        by (auto simp: glob_chr_iff)
      with less.prems False obtain s' where s: "s = c # s'" "glob q' s'"
        by (auto simp: glob_chr_iff)
      from less.hyps [OF _ q(2) s(2)] have "glob p' s'" using Cons q s by simp
      with Cons s False show ?thesis by (simp add: glob_chr_iff)
    next
      case True
      with less.prems(1) Cons consider (skip) "glob p' q" | (more) d q' where "q = d # q'" "glob p q'"
        using glob_star_cases [THEN iffD1, of p' q] by blast
      then show ?thesis
      proof cases
        case skip
        from less.hyps [OF _ skip less.prems(2)] have "glob p' s" using Cons by simp
        with Cons True show ?thesis by (auto intro: glob_star)
      next
        case more
        show ?thesis
        proof (cases "d = CHR ''*''")
          case False
          with less.prems(2) more obtain s' where s: "s = d # s'" "glob q' s'"
            by (auto simp: glob_chr_iff)
          from less.hyps [OF _ more(2) s(2)] have "glob p s'" using more s by simp
          with Cons True s show ?thesis by (auto intro: glob_more)
        next
          case star: True
          with less.prems(2) more consider "glob q' s" | e s' where "s = e # s'" "glob q s'"
            using glob_star_cases [THEN iffD1, of q' s] by blast
          then show ?thesis
          proof cases
            case 1
            from less.hyps [OF _ more(2) 1] show ?thesis using more by simp
          next
            case 2
            from less.hyps [OF _ less.prems(1) 2(2)] have "glob p s'" using 2 by simp
            with Cons True 2 show ?thesis by (auto intro: glob_more)
          qed
        qed
      qed
    qed
  qed
qed

lemma MatchBase_transitive:
  assumes "MatchBase wide narrow" "MatchBase narrow actual" "actual \<noteq> []"
  shows "MatchBase wide actual"
proof -
  have all: "glob (CHR ''*'' # []) t" for t by (auto simp: glob_star_iff)
  have n: "glob narrow actual" using assms(2,3) all by (auto simp: MatchBase_iff)
  show ?thesis
    using assms(1) assms(3) n glob_trans by (auto simp: MatchBase_iff)
qed

text \<open>When one selector matches another, every concrete base the second accepts is accepted by
  the first: the code may compare selectors with the matcher for concrete names.\<close>

theorem MatchBase_trans:
  assumes "MatchBase wide narrow" "MatchBase narrow actual" "actual \<noteq> []"
  shows "MatchBase wide actual"
  using assms by (rule MatchBase_transitive)

theorem MatchBase_trans_witness:
  "MatchBase ''ubuntu*'' ''ubuntu-22-x86''"
proof -
  have "MatchBase ''ubuntu*'' ''ubuntu*x86''" "MatchBase ''ubuntu*x86'' ''ubuntu-22-x86''"
    by code_simp+
  from MatchBase_trans [OF this] show ?thesis by simp
qed

text \<open>The empty name (an allocation that reports no base) is the exception: a lone star accepts it
  and a doubled star does not, although each selector matches the other.\<close>

lemma MatchBase_double_star:
  "MatchBase ''**'' ''*'' \<and> MatchBase ''*'' [] \<and> \<not> MatchBase ''**'' []"
  by code_simp

end
