(* ===== verification/Exec_Quantity.thy ===== *)
theory Exec_Quantity
  imports Complex_Main Go_Strings
begin

text \<open>
  Resource quantities, \<^verbatim>\<open>pkg/execution/quantity.go\<close>. \<open>parseQuantity\<close> reads the text
  with the code's two regular expressions, asks the Kubernetes library for the quantity and checks it
  against the exact rational; \<open>normalizeCPU\<close> and \<open>normalizeBytes\<close> print the canonical text.

  \<^verbatim>\<open>resource.ParseQuantity\<close> is the parameter \<open>pq\<close>: the exact value of
  \<^verbatim>\<open>AsDec\<close> and the text of \<^verbatim>\<open>String\<close>. Its documented behaviour is two named
  hypotheses: \<open>pq_exact\<close> (no loss within its precision and range) and \<open>pq_canonical\<close>
  (the canonical text denotes the same value). \<^verbatim>\<open>big.Rat\<close> is HOL's \<open>rat\<close>.
\<close>

section \<open>The code\<close>

record quantity =
  q_dec :: rat
  q_string :: string

datatype quantity_error = InvalidQuantity

text \<open>The numeric part of both regular expressions, and what follows it.\<close>

definition num_split :: "string \<Rightarrow> (string \<times> string \<times> string) option" where
  "num_split s =
     (let ip = takeWhile is_digit s; r = dropWhile is_digit s in
      if ip = [] then None
      else case r of
        [] \<Rightarrow> Some (ip, [], [])
      | c # t \<Rightarrow>
          if c = CHR ''.'' then
            (let fp = takeWhile is_digit t in
             if fp = [] then None else Some (ip, fp, dropWhile is_digit t))
          else Some (ip, [], r))"

definition byte_suffixes :: "string list" where
  "byte_suffixes = [''k'', ''M'', ''G'', ''T'', ''P'', ''E'', ''Ki'', ''Mi'', ''Gi'', ''Ti'', ''Pi'', ''Ei'']"

definition cpuSyntax :: "string \<Rightarrow> (string \<times> string \<times> string) option" where
  "cpuSyntax s = (case num_split s of None \<Rightarrow> None
     | Some (ip, fp, suf) \<Rightarrow> if suf = [] \<or> suf = ''m'' then Some (ip, fp, suf) else None)"

definition byteSyntax :: "string \<Rightarrow> (string \<times> string \<times> string) option" where
  "byteSyntax s = (case num_split s of None \<Rightarrow> None
     | Some (ip, fp, suf) \<Rightarrow> if suf \<in> set byte_suffixes then Some (ip, fp, suf) else None)"

text \<open>\<^verbatim>\<open>big.Rat.SetString\<close> of the digits.\<close>

definition rat_of_digits :: "string \<Rightarrow> string \<Rightarrow> rat" where
  "rat_of_digits ip fp = of_nat (read_nat (ip @ fp)) / 10 ^ length fp"

definition suffix_power :: "string \<Rightarrow> nat" where
  "suffix_power suf =
     (case go_index ''kMGTPE'' (map (\<lambda>c. if c = CHR ''K'' then CHR ''k'' else c) (take 1 suf)) of
        None \<Rightarrow> 0 | Some i \<Rightarrow> i + 1)"

definition suffix_base :: "string \<Rightarrow> nat" where
  "suffix_base suf = (if has_suffix suf ''i'' then 1024 else 1000)"

definition scale_exact :: "bool \<Rightarrow> string \<Rightarrow> rat \<Rightarrow> rat" where
  "scale_exact cpu suf x =
     (if cpu then (if suf = ''m'' then x / 1000 else x)
      else x * of_nat (suffix_base suf ^ suffix_power suf))"

definition is_int64 :: "int \<Rightarrow> bool" where
  "is_int64 n \<longleftrightarrow> - (2 ^ 63) \<le> n \<and> n < 2 ^ 63"

definition parseQuantity ::
    "(string \<Rightarrow> quantity option) \<Rightarrow> string \<Rightarrow> bool \<Rightarrow> quantity_error + quantity \<times> int" where
  "parseQuantity pq value cpu =
     (if length value > 128 then Inl InvalidQuantity
      else case (if cpu then cpuSyntax value else byteSyntax value) of
        None \<Rightarrow> Inl InvalidQuantity
      | Some (ip, fp, suf) \<Rightarrow>
          (case pq value of
             None \<Rightarrow> Inl InvalidQuantity
           | Some q \<Rightarrow>
               let exact = rat_of_digits ip fp in
               if exact \<le> 0 then Inl InvalidQuantity
               else
                 let exact = scale_exact cpu suf exact in
                 if exact \<noteq> q_dec q then Inl InvalidQuantity
                 else
                   let exact = (if cpu then exact * 1000 else exact);
                       (num, den) = quotient_of exact in
                   if den \<noteq> 1 \<or> \<not> is_int64 num then Inl InvalidQuantity
                   else Inr (q, num)))"

definition normalizeCPU :: "(string \<Rightarrow> quantity option) \<Rightarrow> string \<Rightarrow> quantity_error + string" where
  "normalizeCPU pq value =
     bindE (parseQuantity pq value True) (\<lambda>(_, scalar).
     if scalar mod 1000 = 0 then Inr (show_nat (nat (scalar div 1000)))
     else Inr (show_nat (nat scalar) @ ''m''))"

definition pad3 :: "nat \<Rightarrow> string" where
  "pad3 n = (let s = show_nat n in replicate (3 - length s) CHR ''0'' @ s)"

definition trim_char_right :: "char \<Rightarrow> string \<Rightarrow> string" where
  "trim_char_right c s = rev (dropWhile (\<lambda>d. d = c) (rev s))"

definition kilobytes :: "nat \<Rightarrow> string" where
  "kilobytes n = trim_char_right CHR ''.''
     (trim_char_right CHR ''0'' (show_nat (n div 1000) @ ''.'' @ pad3 (n mod 1000))) @ ''k''"

definition normalizeBytes :: "(string \<Rightarrow> quantity option) \<Rightarrow> string \<Rightarrow> quantity_error + string" where
  "normalizeBytes pq value =
     bindE (parseQuantity pq value False) (\<lambda>(quantity, scalar).
     let canonical = q_string quantity in
     if byteSyntax canonical = None then Inr (kilobytes (nat scalar))
     else Inr canonical)"

section \<open>The exact value of a text\<close>

definition exact_value :: "bool \<Rightarrow> string \<Rightarrow> rat option" where
  "exact_value cpu s = (case (if cpu then cpuSyntax s else byteSyntax s) of None \<Rightarrow> None
     | Some (ip, fp, suf) \<Rightarrow> Some (scale_exact cpu suf (rat_of_digits ip fp)))"

text \<open>The unit the code counts in: millicores or bytes.\<close>

definition unit_scale :: "bool \<Rightarrow> rat" where
  "unit_scale cpu = (if cpu then 1000 else 1)"

text \<open>What the library documents: values within int64 and to the milli are exact, and
  the canonical text of a whole number in that range denotes it.\<close>

definition pq_exact :: "(string \<Rightarrow> quantity option) \<Rightarrow> bool" where
  "pq_exact pq \<longleftrightarrow> (\<forall>cpu s v. exact_value cpu s = Some v \<longrightarrow> 0 < v \<longrightarrow> v < 2 ^ 63 \<longrightarrow> v * 1000 \<in> \<int> \<longrightarrow>
     (\<exists>c. pq s = Some \<lparr>q_dec = v, q_string = c\<rparr>))"

definition pq_canonical :: "(string \<Rightarrow> quantity option) \<Rightarrow> bool" where
  "pq_canonical pq \<longleftrightarrow> (\<forall>s q. pq s = Some q \<longrightarrow> q_dec q \<in> \<int> \<longrightarrow> 0 < q_dec q \<longrightarrow> q_dec q < 2 ^ 63 \<longrightarrow>
     byteSyntax (q_string q) \<noteq> None \<longrightarrow>
     exact_value False (q_string q) = Some (q_dec q) \<and> length (q_string q) \<le> 128)"

lemma quotient_of_int_iff: "quotient_of x = (n, 1) \<longleftrightarrow> x = of_int n"
proof
  assume "quotient_of x = (n, 1)"
  from quotient_of_div [OF this] show "x = of_int n" by simp
qed simp

lemma scale_exact_pos: "scale_exact cpu suf x > 0 \<longleftrightarrow> x > 0"
  by (auto simp: scale_exact_def suffix_base_def zero_less_mult_iff)

lemma parseQuantity_ok:
  "parseQuantity pq s cpu = Inr (q, n) \<longleftrightarrow>
     length s \<le> 128 \<and> pq s = Some q \<and> 0 < q_dec q \<and> exact_value cpu s = Some (q_dec q) \<and>
     q_dec q * unit_scale cpu = of_int n \<and> n < 2 ^ 63" (is "?L \<longleftrightarrow> ?R")
proof
  assume ?L
  then obtain ip fp suf where syn: "(if cpu then cpuSyntax s else byteSyntax s) = Some (ip, fp, suf)"
    and len: "length s \<le> 128" and pq: "pq s = Some q"
    and pos: "0 < rat_of_digits ip fp" and eq: "scale_exact cpu suf (rat_of_digits ip fp) = q_dec q"
    and quo: "quotient_of (if cpu then q_dec q * 1000 else q_dec q) = (n, 1)" and "is_int64 n"
    by (simp add: parseQuantity_def Let_def split: option.splits if_split_asm prod.splits)
  have "exact_value cpu s = Some (q_dec q)" using syn eq by (simp add: exact_value_def)
  moreover have "0 < q_dec q" using pos eq scale_exact_pos by metis
  moreover have "q_dec q * unit_scale cpu = of_int n"
    using quo by (auto simp: quotient_of_int_iff unit_scale_def split: if_splits)
  ultimately show ?R using len pq \<open>is_int64 n\<close> by (simp add: is_int64_def)
next
  assume R: ?R
  then obtain ip fp suf where syn: "(if cpu then cpuSyntax s else byteSyntax s) = Some (ip, fp, suf)"
    and eq: "scale_exact cpu suf (rat_of_digits ip fp) = q_dec q"
    by (auto simp: exact_value_def split: option.splits if_splits)
  have pos: "\<not> rat_of_digits ip fp \<le> 0" using R eq scale_exact_pos by (metis linorder_not_le)
  have quo: "quotient_of (if cpu then q_dec q * 1000 else q_dec q) = (n, 1)"
    using R by (simp add: quotient_of_int_iff unit_scale_def split: if_splits)
  have "(of_int n :: rat) > 0" using R by (metis mult_pos_pos unit_scale_def zero_less_one zero_less_numeral)
  then have i: "is_int64 n" using R by (simp add: is_int64_def)
  show ?L using R syn eq pos quo i by (cases cpu) (simp_all add: parseQuantity_def Let_def)
qed


section \<open>Printing\<close>

lemma takeWhile_digits: "list_all is_digit ip \<Longrightarrow> r = [] \<or> \<not> is_digit (hd r) \<Longrightarrow>
    takeWhile is_digit (ip @ r) = ip \<and> dropWhile is_digit (ip @ r) = r"
  by (induction ip) (cases r; auto)+

lemma not_digit_chars [simp]: "\<not> is_digit CHR ''.''" "\<not> is_digit CHR ''m''" "\<not> is_digit CHR ''k''"
  by (simp_all add: is_digit_def byte_in_def)

lemma num_split_int:
  assumes "list_all is_digit ip" "ip \<noteq> []" "suf = [] \<or> \<not> is_digit (hd suf) \<and> hd suf \<noteq> CHR ''.''"
  shows "num_split (ip @ suf) = Some (ip, [], suf)"
proof -
  have tw: "takeWhile is_digit (ip @ suf) = ip" "dropWhile is_digit (ip @ suf) = suf"
    using takeWhile_digits [OF assms(1), of suf] assms(3) by auto
  show ?thesis
    unfolding num_split_def Let_def tw using assms(2,3) by (auto split: list.splits)
qed

lemma num_split_frac:
  assumes "list_all is_digit ip" "ip \<noteq> []" "list_all is_digit fp" "fp \<noteq> []"
    and "suf = [] \<or> \<not> is_digit (hd suf)"
  shows "num_split (ip @ CHR ''.'' # fp @ suf) = Some (ip, fp, suf)"
  using takeWhile_digits [OF assms(1), of "CHR ''.'' # fp @ suf"] takeWhile_digits [OF assms(3,5)] assms(2,4)
  by (simp add: num_split_def Let_def)

lemma exact_value_cores: "exact_value True (show_nat n) = Some (of_nat n)"
  using num_split_int [OF show_nat_digits, of n "[]"]
  by (simp add: exact_value_def cpuSyntax_def rat_of_digits_def scale_exact_def)

lemma exact_value_millicores: "exact_value True (show_nat n @ ''m'') = Some (of_nat n / 1000)"
  using num_split_int [OF show_nat_digits, of n "''m''"]
  by (simp add: exact_value_def cpuSyntax_def rat_of_digits_def scale_exact_def)

lemma trim_char_right_decomp: "\<exists>k. s = trim_char_right c s @ replicate k c"
proof -
  have "rev s = takeWhile (\<lambda>d. d = c) (rev s) @ dropWhile (\<lambda>d. d = c) (rev s)" by simp
  then have "s = rev (dropWhile (\<lambda>d. d = c) (rev s)) @ rev (takeWhile (\<lambda>d. d = c) (rev s))"
    by (metis rev_append rev_rev_ident)
  moreover have "takeWhile (\<lambda>d. d = c) (rev s) = replicate (length (takeWhile (\<lambda>d. d = c) (rev s))) c"
    by (rule replicate_eqI [symmetric, THEN sym]) (auto dest: set_takeWhileD)
  ultimately show ?thesis unfolding trim_char_right_def by (metis rev_replicate)
qed

lemma trim_char_right_append:
  "d \<noteq> c \<Longrightarrow> trim_char_right c (s @ d # t) = s @ d # trim_char_right c t"
  by (simp add: trim_char_right_def dropWhile_append)

lemma trim_char_right_last: "s \<noteq> [] \<Longrightarrow> last s \<noteq> c \<Longrightarrow> trim_char_right c s = s"
  by (cases s rule: rev_cases) (simp_all add: trim_char_right_def)

lemma rat_of_digits_zeros: "rat_of_digits ip (fp @ replicate k CHR ''0'') = rat_of_digits ip fp"
proof (induction k)
  case (Suc k)
  have "replicate (Suc k) CHR ''0'' = replicate k CHR ''0'' @ ''0''" by (simp add: replicate_append_same)
  then have "rat_of_digits ip (fp @ replicate (Suc k) CHR ''0'') =
      rat_of_digits ip ((fp @ replicate k CHR ''0'') @ [CHR ''0''])" by simp
  also have "\<dots> = rat_of_digits ip (fp @ replicate k CHR ''0'')"
    by (simp add: rat_of_digits_def digit_val_def flip: append_assoc)
  finally show ?case using Suc by simp
qed simp

lemma pad3_digits: "list_all is_digit (pad3 n)"
  using show_nat_digits [of n] by (auto simp: pad3_def Let_def list_all_iff is_digit_def byte_in_def)

lemma length_pad3: "n < 1000 \<Longrightarrow> length (pad3 n) = 3"
  using length_show_nat [of n 3] by (simp add: pad3_def Let_def)

lemma read_zeros: "read_nat (replicate k CHR ''0'' @ s) = read_nat s"
proof -
  have "read_nat (replicate k CHR ''0'') = 0"
    by (induction k) (simp_all add: read_nat_def digit_val_def)
  then show ?thesis by (simp add: read_nat_append)
qed

lemma read_pad3: "read_nat (pad3 n) = n"
  by (simp add: pad3_def Let_def read_zeros)

lemma byte_suffix_k: "suffix_base ''k'' = 1000" "suffix_power ''k'' = 1"
  by (simp_all add: suffix_base_def suffix_power_def has_suffix_def suffix_def go_index_prefix)

lemma exact_value_kilobytes: "exact_value False (kilobytes n) = Some (of_nat n)"
proof -
  let ?ip = "show_nat (n div 1000)" and ?fp = "pad3 (n mod 1000)"
  define fp where "fp = trim_char_right CHR ''0'' ?fp"
  obtain k where k: "?fp = fp @ replicate k CHR ''0''"
    using trim_char_right_decomp unfolding fp_def by blast
  have dig: "list_all is_digit fp" using pad3_digits [of "n mod 1000"] unfolding k by simp
  have "rat_of_digits ?ip fp = rat_of_digits ?ip ?fp" unfolding k by (simp add: rat_of_digits_zeros)
  also have "\<dots> = of_nat (n div 1000 * 1000 + n mod 1000) / 1000"
    by (simp add: rat_of_digits_def read_nat_append length_pad3 read_pad3)
  finally have val: "rat_of_digits ?ip fp * 1000 = of_nat n" by simp
  have t: "trim_char_right CHR ''0'' (?ip @ ''.'' @ ?fp) = ?ip @ CHR ''.'' # fp"
    by (simp add: trim_char_right_append fp_def)
  have "num_split (kilobytes n) = Some (?ip, fp, ''k'')"
  proof (cases "fp = []")
    case True
    have "last ?ip \<noteq> CHR ''.''"
      using show_nat_digits [of "n div 1000"] by (metis last_in_set list_all_iff not_digit_chars(1) show_nat_not_Nil)
    then have "kilobytes n = ?ip @ ''k''"
      unfolding kilobytes_def t using True
      by (simp add: trim_char_right_def) (metis dropWhile_eq_self_iff hd_rev rev_rev_ident)
    then show ?thesis using True num_split_int [OF show_nat_digits, of "n div 1000" "''k''"] by simp
  next
    case False
    have "last (?ip @ CHR ''.'' # fp) \<noteq> CHR ''.''"
      using False dig by (simp add: list_all_iff) (metis last_in_set not_digit_chars(1))
    then have "kilobytes n = ?ip @ CHR ''.'' # fp @ ''k''"
      unfolding kilobytes_def t by (simp add: trim_char_right_last)
    then show ?thesis using num_split_frac [OF show_nat_digits _ dig False, of "n div 1000" "''k''"] by simp
  qed
  then show ?thesis
    using val by (simp add: exact_value_def byteSyntax_def byte_suffixes_def scale_exact_def byte_suffix_k)
qed

section \<open>Evaluation\<close>

lemma has_suffix_code: "has_suffix s p = prefix (rev p) (rev s)"
  by (simp add: has_suffix_def suffix_to_prefix)

lemma go_index_Cons_code:
  "go_index (c # t) sub = (if prefix sub (c # t) then Some 0 else map_option Suc (go_index t sub))"
  by (simp add: go_index_prefix go_index_Cons)

lemmas quantity_eval = normalizeBytes_def normalizeCPU_def exact_value_def cpuSyntax_def byteSyntax_def
  num_split_def is_digit_def byte_in_def byte_suffixes_def rat_of_digits_def scale_exact_def
  suffix_base_def suffix_power_def has_suffix_code go_index_Cons_code go_index_Nil read_nat_def
  digit_val_def unit_scale_def Let_def

lemma replicate_2: "replicate 2 c = [c, c]"
  by (simp add: numeral_2_eq_2)

lemmas kilobytes_eval = replicate_2 kilobytes_def trim_char_right_def pad3_def Let_def show_nat.simps digit_of_def

section \<open>Normalization\<close>

lemma int_cores: "int n mod 1000 = 0 \<longleftrightarrow> n mod 1000 = 0" "nat (int n div 1000) = n div 1000"
  by (presburger, simp add: nat_div_distrib)

lemma normalizeCPU_cases:
  assumes "normalizeCPU pq s = Inr t"
  obtains q n where "parseQuantity pq s True = Inr (q, int n)" "0 < n" "n < 2 ^ 63"
    "t = (if n mod 1000 = 0 then show_nat (n div 1000) else show_nat n @ ''m'')"
proof -
  from assms obtain q i where P: "parseQuantity pq s True = Inr (q, i)"
    and t: "t = (if i mod 1000 = 0 then show_nat (nat (i div 1000)) else show_nat (nat i) @ ''m'')"
    by (auto simp: normalizeCPU_def ok_iff split: if_splits)
  from P have i: "0 < i" "i < 2 ^ 63" using parseQuantity_ok [of pq s True q i]
    by (auto simp: unit_scale_def)
  define n where "n = nat i"
  have n: "i = int n" using i by (simp add: n_def)
  show thesis
  proof (rule that)
    show "parseQuantity pq s True = Inr (q, int n)" using P n by simp
    show "0 < n" "n < 2 ^ 63" using i n by simp_all
    show "t = (if n mod 1000 = 0 then show_nat (n div 1000) else show_nat n @ ''m'')"
      using t unfolding n by (simp add: int_cores)
  qed
qed

text \<open>A text that denotes a count of units in range is accepted with that count.\<close>

lemma parseQuantity_accepts:
  assumes "pq_exact pq" "exact_value cpu t = Some v" "v * unit_scale cpu = of_nat n" "0 < n" "n < 2 ^ 63"
    and "length t \<le> 128"
  shows "\<exists>q. parseQuantity pq t cpu = Inr (q, int n)"
proof -
  have u: "1 \<le> unit_scale cpu" by (simp add: unit_scale_def)
  have pos: "0 < v"
    using assms(3,4) by (metis of_nat_0_less_iff unit_scale_def zero_less_mult_pos2 zero_less_numeral zero_less_one)
  have "v \<le> v * unit_scale cpu" using pos u by (simp add: mult_le_cancel_left1)
  also have "\<dots> < 2 ^ 63" using assms(3,5)
    by (metis of_nat_less_iff of_nat_numeral of_nat_power)
  finally have lt: "v < 2 ^ 63" .
  have "v * 1000 = of_nat (if cpu then n else n * 1000)"
    using assms(3) by (auto simp: unit_scale_def)
  then have "v * 1000 \<in> \<int>" by (metis Ints_of_nat)
  with assms(1,2) pos lt obtain c where "pq t = Some \<lparr>q_dec = v, q_string = c\<rparr>"
    unfolding pq_exact_def by blast
  then show ?thesis
    using assms pos by (intro exI [of _ "\<lparr>q_dec = v, q_string = c\<rparr>"]) (simp add: parseQuantity_ok)
qed

lemma length_show_int64: "n < 2 ^ 63 \<Longrightarrow> length (show_nat n) \<le> 19"
  by (rule length_show_nat) simp_all

lemma normalizeCPU_again:
  assumes "pq_exact pq" "normalizeCPU pq s = Inr t"
  shows "normalizeCPU pq t = Inr t \<and>
    map_sum id snd (parseQuantity pq t True) = map_sum id snd (parseQuantity pq s True)"
  using assms(2)
proof (rule normalizeCPU_cases)
  fix q n
  assume P: "parseQuantity pq s True = Inr (q, int n)" and n: "0 < n" "n < 2 ^ 63"
    and t: "t = (if n mod 1000 = 0 then show_nat (n div 1000) else show_nat n @ ''m'')"
  have "length t \<le> 128"
    using length_show_int64 [OF le_less_trans [OF div_le_dividend n(2)], of 1000]
      length_show_int64 [OF n(2)] by (simp add: t)
  moreover have "exact_value True t = Some (of_nat n / 1000)"
  proof (cases "n mod 1000 = 0")
    case True
    then obtain k where "n = 1000 * k" by (auto elim: dvdE)
    then have "(of_nat (n div 1000) :: rat) = of_nat n / 1000" by simp
    with True show ?thesis by (simp add: t exact_value_cores)
  qed (simp add: t exact_value_millicores)
  ultimately obtain q' where P': "parseQuantity pq t True = Inr (q', int n)"
    using parseQuantity_accepts [OF assms(1), of True t "of_nat n / 1000" n] n
    by (auto simp: unit_scale_def)
  then have "normalizeCPU pq t = Inr t"
    by (auto simp: normalizeCPU_def t int_cores)
  with P P' show ?thesis by simp
qed

text \<open>A normalized CPU quantity denotes the same number of millicores and is its own normal
  form, for a quantity library that is exact within its documented precision.\<close>

theorem normalizeCPU_canonical:
  assumes "pq_exact pq" "normalizeCPU pq s = Inr t"
  shows "normalizeCPU pq t = Inr t \<and>
    map_sum id snd (parseQuantity pq t True) = map_sum id snd (parseQuantity pq s True)"
  using assms by (rule normalizeCPU_again)

lemma normalizeBytes_again:
  assumes "pq_exact pq" "pq_canonical pq" "normalizeBytes pq s = Inr t"
  shows "\<exists>q q' n. parseQuantity pq s False = Inr (q, n) \<and> parseQuantity pq t False = Inr (q', n)"
proof -
  from assms(3) obtain q i where P: "parseQuantity pq s False = Inr (q, i)"
    and t: "t = (if byteSyntax (q_string q) = None then kilobytes (nat i) else q_string q)"
    by (auto simp: normalizeBytes_def ok_iff Let_def split: if_splits)
  note Q = P [unfolded parseQuantity_ok]
  have i: "0 < i" "i < 2 ^ 63" "q_dec q = of_int i" using Q by (auto simp: unit_scale_def)
  define n where "n = nat i"
  have n: "i = int n" "0 < n" "n < 2 ^ 63" using i by (simp_all add: n_def)
  have "length t \<le> 128 \<and> exact_value False t = Some (of_nat n)"
  proof (cases "byteSyntax (q_string q) = None")
    case True
    have "length (trim_char_right c x) \<le> length x" for c x
      using trim_char_right_decomp [of x c] by (metis le_add1 length_append)
    then have L: "length (trim_char_right c (trim_char_right d x)) \<le> length x" for c d x
      by (rule order_trans) (rule \<open>\<And>c x. length (trim_char_right c x) \<le> length x\<close>)
    then have "length (kilobytes n) \<le> Suc (length (show_nat (n div 1000) @ ''.'' @ pad3 (n mod 1000)))"
      using L [of "CHR ''.''" "CHR ''0''" "show_nat (n div 1000) @ ''.'' @ pad3 (n mod 1000)"]
      unfolding kilobytes_def length_append [of _ "''k''"] by simp
    also have "\<dots> \<le> 128"
      using length_show_int64 [OF le_less_trans [OF div_le_dividend n(3)], of 1000] by (simp add: length_pad3)
    finally show ?thesis using True by (simp add: t n exact_value_kilobytes)
  next
    case False
    have q: "q_dec q = of_nat n" "pq s = Some q" using i(3) n(1) Q by simp_all
    have "(of_nat n :: rat) < 2 ^ 63" using n(3) by (metis of_nat_less_iff of_nat_numeral of_nat_power)
    then have "exact_value False (q_string q) = Some (q_dec q) \<and> length (q_string q) \<le> 128"
      using assms(2) q n(2) False unfolding pq_canonical_def by (metis Ints_of_nat of_nat_0_less_iff)
    moreover have "t = q_string q" unfolding t by (rule if_not_P [OF False])
    ultimately show ?thesis using q by simp
  qed
  then obtain q' where "parseQuantity pq t False = Inr (q', int n)"
    using parseQuantity_accepts [OF assms(1), of False t "of_nat n" n] n by (auto simp: unit_scale_def)
  with P n show ?thesis by blast
qed

text \<open>A normalized byte quantity is accepted again and denotes the same number of bytes, whether
  the library's text is used or the fallback in kilobytes.\<close>

theorem normalizeBytes_preserves:
  assumes "pq_exact pq" "pq_canonical pq" "normalizeBytes pq s = Inr t"
  shows "\<exists>q q' n. parseQuantity pq s False = Inr (q, n) \<and> parseQuantity pq t False = Inr (q', n)"
  using assms by (rule normalizeBytes_again)

text \<open>What the rest of the package reads: the scalar of a normal form is the exact value of the
  text it came from. A parse error reads as zero.\<close>

definition scalar_of :: "(string \<Rightarrow> quantity option) \<Rightarrow> string \<Rightarrow> bool \<Rightarrow> int" where
  "scalar_of pq s cpu = (case parseQuantity pq s cpu of Inl _ \<Rightarrow> 0 | Inr (_, n) \<Rightarrow> n)"

lemma parseQuantity_value:
  "parseQuantity pq s cpu = Inr (q, n) \<Longrightarrow>
     \<exists>v. exact_value cpu s = Some v \<and> v * unit_scale cpu = of_int n \<and> 0 < n"
  by (auto simp: parseQuantity_ok unit_scale_def split: if_splits)

lemma normalizeCPU_scalar:
  assumes "pq_exact pq" "normalizeCPU pq s = Inr t"
  shows "\<exists>v. exact_value True s = Some v \<and> v * unit_scale True = of_int (scalar_of pq t True) \<and>
    0 < scalar_of pq t True"
proof -
  obtain q n where P: "parseQuantity pq s True = Inr (q, n)"
    using assms(2) by (auto simp: normalizeCPU_def ok_iff)
  have "map_sum id snd (parseQuantity pq t True) = Inr n"
    using normalizeCPU_again [OF assms] P by simp
  then obtain q' where "parseQuantity pq t True = Inr (q', n)"
    by (cases "parseQuantity pq t True") auto
  then show ?thesis using parseQuantity_value [OF P] by (simp add: scalar_of_def)
qed

lemma normalizeBytes_scalar:
  assumes "pq_exact pq" "pq_canonical pq" "normalizeBytes pq s = Inr t"
  shows "\<exists>v. exact_value False s = Some v \<and> v * unit_scale False = of_int (scalar_of pq t False) \<and>
    0 < scalar_of pq t False"
proof -
  obtain q q' n where P: "parseQuantity pq s False = Inr (q, n)" "parseQuantity pq t False = Inr (q', n)"
    using normalizeBytes_again [OF assms] by blast
  then show ?thesis using parseQuantity_value [OF P(1)] by (simp add: scalar_of_def)
qed

text \<open>A quantity library that satisfies both hypotheses: exact, and never canonical in the
  code's grammar, so every text takes the fallback.\<close>

definition plain_pq :: "string \<Rightarrow> quantity option" where
  "plain_pq s = (case exact_value True s of
     Some v \<Rightarrow> Some \<lparr>q_dec = v, q_string = []\<rparr>
   | None \<Rightarrow> map_option (\<lambda>v. \<lparr>q_dec = v, q_string = []\<rparr>) (exact_value False s))"

lemma exact_value_disjoint: "exact_value True s = Some v \<Longrightarrow> exact_value False s = None"
  by (auto simp: exact_value_def cpuSyntax_def byteSyntax_def byte_suffixes_def
      split: option.splits if_splits)

lemma plain_pq_exact: "pq_exact plain_pq"
proof -
  have "\<exists>c. plain_pq s = Some \<lparr>q_dec = v, q_string = c\<rparr>" if "exact_value cpu s = Some v" for cpu s v
  proof (cases cpu)
    case False
    with that exact_value_disjoint have "exact_value True s = None" by fastforce
    with that False show ?thesis by (simp add: plain_pq_def)
  qed (use that in \<open>simp add: plain_pq_def\<close>)
  then show ?thesis by (simp add: pq_exact_def)
qed

lemma plain_pq_canonical: "pq_canonical plain_pq"
  by (auto simp: pq_canonical_def plain_pq_def byteSyntax_def num_split_def split: option.splits)

theorem normalizeCPU_canonical_witness: "normalizeCPU plain_pq ''500m'' = Inr ''500m''"
proof -
  have "parseQuantity plain_pq ''0.5'' True = Inr (\<lparr>q_dec = 1 / 2, q_string = []\<rparr>, 500)"
    by (simp add: parseQuantity_ok plain_pq_def quantity_eval)
  then have "normalizeCPU plain_pq ''0.5'' = Inr ''500m''"
    by (simp add: normalizeCPU_def show_nat.simps digit_of_def)
  from normalizeCPU_canonical [OF plain_pq_exact this] show ?thesis by blast
qed

theorem normalizeBytes_preserves_witness:
  "\<exists>q q' n. parseQuantity plain_pq ''1.5Mi'' False = Inr (q, n) \<and>
     parseQuantity plain_pq ''1572.864k'' False = Inr (q', n)"
proof -
  have "parseQuantity plain_pq ''1.5Mi'' False = Inr (\<lparr>q_dec = 1572864, q_string = []\<rparr>, 1572864)"
    by (simp add: parseQuantity_ok plain_pq_def quantity_eval)
  moreover have "kilobytes 1572864 = ''1572.864k''" by (simp add: kilobytes_eval)
  ultimately have "normalizeBytes plain_pq ''1.5Mi'' = Inr ''1572.864k''"
    by (simp add: normalizeBytes_def byteSyntax_def num_split_def)
  from normalizeBytes_preserves [OF plain_pq_exact plain_pq_canonical this] show ?thesis .
qed


text \<open>The normal form of bytes is not canonical: a binary quantity that is a whole number of
  decimal megabytes is printed by the fallback in kilobytes, and normalizing that text again gives
  the library's shorter one. The two table entries are what the library returns for these texts.\<close>

theorem normalizeBytes_not_idempotent:
  assumes "pq ''976.5625Ki'' = Some \<lparr>q_dec = 1000000, q_string = ''1000000''\<rparr>"
    and "pq ''1000k'' = Some \<lparr>q_dec = 1000000, q_string = ''1M''\<rparr>"
  shows "normalizeBytes pq ''976.5625Ki'' = Inr ''1000k'' \<and> normalizeBytes pq ''1000k'' = Inr ''1M''"
proof -
  have "exact_value False ''976.5625Ki'' = Some 1000000" "exact_value False ''1000k'' = Some 1000000"
    by (simp_all add: quantity_eval)
  then have P: "parseQuantity pq ''976.5625Ki'' False = Inr (\<lparr>q_dec = 1000000, q_string = ''1000000''\<rparr>, 1000000)"
    "parseQuantity pq ''1000k'' False = Inr (\<lparr>q_dec = 1000000, q_string = ''1M''\<rparr>, 1000000)"
    using assms by (simp_all add: parseQuantity_ok unit_scale_def)
  have "byteSyntax ''1000000'' = None" "byteSyntax ''1M'' = Some (''1'', [], ''M'')" "kilobytes 1000000 = ''1000k''"
    by (simp_all add: quantity_eval kilobytes_eval)
  with P show ?thesis by (simp add: normalizeBytes_def Let_def)
qed

definition table_pq :: "string \<Rightarrow> quantity option" where
  "table_pq s = (if s = ''976.5625Ki'' then Some \<lparr>q_dec = 1000000, q_string = ''1000000''\<rparr>
     else if s = ''1000k'' then Some \<lparr>q_dec = 1000000, q_string = ''1M''\<rparr> else None)"

theorem normalizeBytes_not_idempotent_witness:
  "normalizeBytes table_pq ''1000k'' = Inr ''1M''"
  using normalizeBytes_not_idempotent [of table_pq] by (simp add: table_pq_def)

end
