(* ===== verification/Exec_Requirements.thy ===== *)
theory Exec_Requirements
  imports Exec_Base Exec_Quantity
begin

text \<open>
  Execution requirements and allocations, \<^verbatim>\<open>pkg/execution/{requirements,packages,
  capabilities,legacy}.go\<close>: the data, the additive \<open>Overlay\<close>, and the two \<open>Normalize\<close>
  methods. A nil pointer is \<open>None\<close>; nil and empty slices are not separated by this code.

  The image reference, digest and quantity libraries are the fields of \<open>libs\<close>: a parsed reference
  is its \<^verbatim>\<open>TagNameOnly(ref).String()\<close> and the digest it is pinned to, if any.
\<close>

section \<open>Data\<close>

record libs =
  lib_quantity :: "string \<Rightarrow> quantity option"
  lib_reference :: "string \<Rightarrow> (string \<times> string option) option"
  lib_digest :: "string \<Rightarrow> bool"

record Resources =
  CPU :: "string option"
  Memory :: "string option"
  EphemeralStorage :: "string option"

record Requirements =
  Base :: "string option"
  Capabilities :: "string list"
  Packages :: "string list"
  Image :: "string option"
  Platform :: "string option"
  Resources :: Resources

record ImageFacts =
  im_Reference :: string
  im_ManifestDigest :: string
  im_ImageID :: string

record Allocation =
  al_Base :: string
  al_Capabilities :: "string list"
  al_SchemaVersion :: int
  al_Image :: ImageFacts
  al_Platform :: "string option"
  al_Resources :: Resources

datatype exec_error =
    BaseWithLegacy
  | BaseInvalid base_error
  | InvalidReference string
  | InvalidPlatform
  | InvalidCapability string
  | InvalidPackage string
  | UnsupportedPackage string
  | FieldQuantity string
  | UnsupportedAllocationVersion int
  | AllocationBaseVersion
  | InvalidManifestDigest
  | InvalidImageID
  | DigestDisagrees
  | UnsupportedSchemaVersion int
  | BaseRequiresSchema
  | InvalidResolution string
  | PayloadNotObject
  | NamespaceNotObject
  | DemandMalformed
  | NeedsConflictBase
  | NeedsConflictResource string
  | BaseNotCombinable
  | DemandNotLoaded
  | DemandInvalid

definition no_resources :: Resources where
  "no_resources = \<lparr>CPU = None, Memory = None, EphemeralStorage = None\<rparr>"

definition no_requirements :: Requirements where
  "no_requirements = \<lparr>Base = None, Capabilities = [], Packages = [], Image = None, Platform = None,
     Resources = no_resources\<rparr>"

definition SchemaVersion :: int where "SchemaVersion = 2"
definition legacyAllocationSchemaVersion :: int where "legacyAllocationSchemaVersion = 1"

section \<open>Packages and capabilities\<close>

definition ParsePackage :: "string \<Rightarrow> exec_error + string \<times> string" where
  "ParsePackage ref = (case go_cut CHR '':'' ref of
     None \<Rightarrow> Inl (InvalidPackage ref)
   | Some (manager, spec) \<Rightarrow>
       if spec = [] \<or> trim_space ref \<noteq> ref \<or> contains_any ref [CHR 0x00, CHR 0x0D, CHR 0x0A] \<or>
          has_prefix spec ''-'' \<or> go_contains spec [CHR ''$'', CHR 0x7B, CHR 0x7B]
       then Inl (InvalidPackage ref)
       else if manager \<in> {''nix'', ''pnpm'', ''uv''} then Inr (manager, spec)
       else Inl (UnsupportedPackage manager))"

definition mergePackages :: "string list \<Rightarrow> string list \<Rightarrow> string list" where
  "mergePackages base override = add_unseen (add_unseen [] base) override"

definition lower_char :: "char \<Rightarrow> bool" where
  "lower_char c \<longleftrightarrow> byte_in 97 122 c"

text \<open>The regular expression \<open>capabilityName\<close>: a lower-case letter, then letters and digits
  in runs separated by single dots, underscores, slashes or hyphens.\<close>

fun capability_rest :: "string \<Rightarrow> bool" where
  "capability_rest [] = True"
| "capability_rest (c # s) =
     (if lower_char c \<or> is_digit c then capability_rest s
      else c \<in> set ''._/-'' \<and>
        (case s of [] \<Rightarrow> False | d # t \<Rightarrow> (lower_char d \<or> is_digit d) \<and> capability_rest t))"

definition capabilityName :: "string \<Rightarrow> bool" where
  "capabilityName s = (case s of [] \<Rightarrow> False | c # t \<Rightarrow> lower_char c \<and> capability_rest t)"

definition validateCapabilities :: "string list \<Rightarrow> exec_error + unit" where
  "validateCapabilities names = forE (\<lambda>n. check (capabilityName n) (InvalidCapability n)) names"

definition mergeCapabilities :: "string list \<Rightarrow> string list \<Rightarrow> string list" where
  "mergeCapabilities base patch = sort (mergePackages base patch)"

section \<open>Overlay\<close>

definition choose_opt :: "string option \<Rightarrow> string option \<Rightarrow> string option" where
  "choose_opt base override = (case override of None \<Rightarrow> base | Some v \<Rightarrow> Some v)"

definition Overlay :: "Requirements \<Rightarrow> Requirements \<Rightarrow> Requirements" where
  "Overlay base override =
     \<lparr>Base = choose_opt (Base base) (Base override),
      Capabilities = mergeCapabilities (Capabilities base) (Capabilities override),
      Packages = mergePackages (Packages base) (Packages override),
      Image = choose_opt (Image base) (Image override),
      Platform = choose_opt (Platform base) (Platform override),
      Resources =
        \<lparr>CPU = choose_opt (CPU (Resources base)) (CPU (Resources override)),
         Memory = choose_opt (Memory (Resources base)) (Memory (Resources override)),
         EphemeralStorage = choose_opt (EphemeralStorage (Resources base)) (EphemeralStorage (Resources override))\<rparr>\<rparr>"

definition Requirements_Empty :: "Requirements \<Rightarrow> bool" where
  "Requirements_Empty r \<longleftrightarrow> Base r = None \<and> Image r = None \<and> Platform r = None \<and>
     Resources r = no_resources \<and> length (Packages r) = 0 \<and> length (Capabilities r) = 0"

section \<open>Legacy image and platform\<close>

definition normalizeReference :: "libs \<Rightarrow> string \<Rightarrow> exec_error + string" where
  "normalizeReference L value = (case lib_reference L value of
     None \<Rightarrow> Inl (InvalidReference value) | Some (s, _) \<Rightarrow> Inr s)"

definition platformComponent :: "string \<Rightarrow> bool" where
  "platformComponent s = (case s of [] \<Rightarrow> False
     | c # t \<Rightarrow> (lower_char c \<or> is_digit c) \<and>
         list_all (\<lambda>d. lower_char d \<or> is_digit d \<or> d \<in> set ''_.-'') t)"

definition normalizePlatform :: "string \<Rightarrow> exec_error + string" where
  "normalizePlatform value =
     (let parts = split_on CHR ''/'' (go_lower value) in
      if length parts < 2 \<or> length parts > 3 then Inl InvalidPlatform
      else bindE (forE (\<lambda>p. check (platformComponent p) InvalidPlatform) parts)
             (\<lambda>_. Inr (join_with ''/'' parts)))"

definition optE :: "('a \<Rightarrow> 'e + 'b) \<Rightarrow> 'a option \<Rightarrow> 'e + 'b option" where
  "optE f v = (case v of None \<Rightarrow> Inr None | Some x \<Rightarrow> bindE (f x) (\<lambda>y. Inr (Some y)))"

definition normalizeLegacyRequirements :: "libs \<Rightarrow> Requirements \<Rightarrow> exec_error + Requirements" where
  "normalizeLegacyRequirements L r =
     bindE (optE (normalizeReference L) (Image r)) (\<lambda>image.
     bindE (optE normalizePlatform (Platform r)) (\<lambda>platform.
     Inr (r\<lparr>Image := image, Platform := platform\<rparr>)))"

definition pinned_digest :: "libs \<Rightarrow> string \<Rightarrow> string option" where
  "pinned_digest L ref = Option.bind (lib_reference L ref) snd"

definition normalizeLegacyAllocation :: "libs \<Rightarrow> Allocation \<Rightarrow> exec_error + Allocation" where
  "normalizeLegacyAllocation L a =
     (let r = no_requirements\<lparr>Platform := al_Platform a,
                Image := (if im_Reference (al_Image a) \<noteq> [] then Some (im_Reference (al_Image a)) else None)\<rparr> in
      bindE (normalizeLegacyRequirements L r) (\<lambda>r.
      let a = a\<lparr>al_Platform := Platform r\<rparr>;
          a = (case Image r of None \<Rightarrow> a | Some v \<Rightarrow> a\<lparr>al_Image := (al_Image a)\<lparr>im_Reference := v\<rparr>\<rparr>) in
      bindE (check (im_ManifestDigest (al_Image a) = [] \<or> lib_digest L (im_ManifestDigest (al_Image a)))
               InvalidManifestDigest) (\<lambda>_.
      bindE (check (im_ImageID (al_Image a) = [] \<or> trim_space (im_ImageID (al_Image a)) = im_ImageID (al_Image a))
               InvalidImageID) (\<lambda>_.
      if Image r \<noteq> None \<and> im_ManifestDigest (al_Image a) \<noteq> [] \<and>
         (case pinned_digest L (im_Reference (al_Image a)) of
            None \<Rightarrow> False | Some d \<Rightarrow> d \<noteq> im_ManifestDigest (al_Image a))
      then Inl DigestDisagrees else Inr a))))"

section \<open>Normalize\<close>

definition field_quantity :: "string \<Rightarrow> (string \<Rightarrow> quantity_error + string) \<Rightarrow> string \<Rightarrow> exec_error + string" where
  "field_quantity name f v = (case f v of Inl _ \<Rightarrow> Inl (FieldQuantity name) | Inr w \<Rightarrow> Inr w)"

definition normalizeResources :: "libs \<Rightarrow> Resources \<Rightarrow> exec_error + Resources" where
  "normalizeResources L r =
     bindE (optE (field_quantity ''resources.cpu'' (normalizeCPU (lib_quantity L))) (CPU r)) (\<lambda>cpu.
     bindE (optE (field_quantity ''resources.memory'' (normalizeBytes (lib_quantity L))) (Memory r)) (\<lambda>memory.
     bindE (optE (field_quantity ''resources.ephemeral-storage'' (normalizeBytes (lib_quantity L)))
              (EphemeralStorage r)) (\<lambda>storage.
     Inr \<lparr>CPU = cpu, Memory = memory, EphemeralStorage = storage\<rparr>)))"

definition Normalize :: "libs \<Rightarrow> Requirements \<Rightarrow> exec_error + Requirements" where
  "Normalize L r =
     (let out = Overlay r no_requirements in
      bindE (case Base out of
          None \<Rightarrow> Inr ()
        | Some b \<Rightarrow>
            if Image out \<noteq> None \<or> Platform out \<noteq> None then Inl BaseWithLegacy
            else (case validateBase b False of Inl e \<Rightarrow> Inl (BaseInvalid e) | Inr _ \<Rightarrow> Inr ())) (\<lambda>_.
      bindE (normalizeLegacyRequirements L out) (\<lambda>out.
      bindE (validateCapabilities (Capabilities out)) (\<lambda>_.
      bindE (forE (\<lambda>ref. bindE (ParsePackage ref) (\<lambda>_. Inr ())) (Packages out)) (\<lambda>_.
      bindE (normalizeResources L (Resources out)) (\<lambda>res.
      Inr (out\<lparr>Resources := res\<rparr>)))))))"

definition Allocation_Normalize :: "libs \<Rightarrow> Allocation \<Rightarrow> exec_error + Allocation" where
  "Allocation_Normalize L a =
     bindE (check (al_SchemaVersion a = SchemaVersion \<or> al_SchemaVersion a = legacyAllocationSchemaVersion)
              (UnsupportedAllocationVersion (al_SchemaVersion a))) (\<lambda>_.
     bindE (if al_Base a \<noteq> [] then
              bindE (check (al_SchemaVersion a \<noteq> legacyAllocationSchemaVersion) AllocationBaseVersion) (\<lambda>_.
              case validateBase (al_Base a) True of Inl e \<Rightarrow> Inl (BaseInvalid e) | Inr _ \<Rightarrow> Inr ())
            else Inr ()) (\<lambda>_.
     bindE (Normalize L (no_requirements\<lparr>Resources := al_Resources a, Capabilities := al_Capabilities a\<rparr>)) (\<lambda>r.
     normalizeLegacyAllocation L (a\<lparr>al_Resources := Resources r, al_Capabilities := Capabilities r\<rparr>))))"

definition HasCompatibilityFacts :: "Allocation \<Rightarrow> bool" where
  "HasCompatibilityFacts a \<longleftrightarrow> al_Base a \<noteq> [] \<or> im_Reference (al_Image a) \<noteq> [] \<or>
     im_ManifestDigest (al_Image a) \<noteq> [] \<or> al_Platform a \<noteq> None \<or> al_Resources a \<noteq> no_resources \<or>
     length (al_Capabilities a) > 0"

section \<open>Merging\<close>

lemma set_mergePackages [simp]: "set (mergePackages a b) = set a \<union> set b"
  by (simp add: mergePackages_def)

lemma distinct_mergePackages [simp]: "distinct (mergePackages a b)"
  by (simp add: mergePackages_def distinct_add_unseen)

lemma set_mergeCapabilities [simp]: "set (mergeCapabilities a b) = set a \<union> set b"
  by (simp add: mergeCapabilities_def)

lemma mergeCapabilities_sorted_list: "mergeCapabilities a b = sorted_list_of_set (set a \<union> set b)"
  by (rule sorted_distinct_set_unique) (simp_all add: mergeCapabilities_def)

text \<open>The contract of a layered patch: applying patches is associative, a patch applied twice
  changes nothing more, and the empty patch only canonicalizes.\<close>

locale layered_patch =
  fixes overlay :: "'p \<Rightarrow> 'p \<Rightarrow> 'p" and empty :: 'p
  assumes overlay_assoc: "overlay (overlay a b) c = overlay a (overlay b c)"
    and overlay_repeat: "overlay (overlay a b) b = overlay a b"
    and overlay_empty_right: "overlay (overlay a b) empty = overlay a b"
    and overlay_empty_left: "overlay empty a = overlay a empty"
begin

lemma overlay_empty_mid: "overlay (overlay a empty) b = overlay a b"
  by (metis overlay_assoc overlay_empty_left overlay_empty_right)

lemma overlay_canonical_arg: "overlay a (overlay b empty) = overlay a b"
  by (metis overlay_assoc overlay_empty_right)

lemma overlay_self_arg: "overlay a (overlay b b) = overlay a b"
  by (metis overlay_assoc overlay_repeat)

lemma foldl_overlay: "foldl overlay (overlay a b) ps = overlay a (foldl overlay b ps)"
  by (induction ps arbitrary: b) (simp_all add: overlay_assoc)

end

lemma choose_opt_assoc: "choose_opt (choose_opt a b) c = choose_opt a (choose_opt b c)"
  by (simp add: choose_opt_def split: option.split)

lemma choose_opt_simps [simp]: "choose_opt None b = b" "choose_opt a None = a" "choose_opt (choose_opt a b) b = choose_opt a b"
  by (simp_all add: choose_opt_def split: option.split)

lemma add_unseen_again: "add_unseen (add_unseen acc xs) xs = add_unseen acc xs"
  by (rule add_unseen_absorb) auto

lemma add_unseen_distinct: "distinct xs \<Longrightarrow> add_unseen [] xs = xs"
  using add_unseen_distinct_id [of "[]" xs] by simp

interpretation packages: layered_patch mergePackages "[]"
  by unfold_locales
    (simp_all add: mergePackages_def add_unseen_distinct distinct_add_unseen add_unseen_add_unseen add_unseen_again)

interpretation capabilities: layered_patch mergeCapabilities "[]"
  by unfold_locales (simp_all add: mergeCapabilities_sorted_list Un_assoc)

interpretation requirements: layered_patch Overlay no_requirements
  by unfold_locales
    (simp_all add: Overlay_def no_requirements_def no_resources_def choose_opt_assoc packages.overlay_assoc
      packages.overlay_repeat packages.overlay_empty_right packages.overlay_empty_left
      capabilities.overlay_assoc capabilities.overlay_repeat capabilities.overlay_empty_right
      capabilities.overlay_empty_left packages.overlay_self_arg capabilities.overlay_self_arg
      packages.overlay_canonical_arg capabilities.overlay_canonical_arg)

text \<open>Layering patches over a base is associative, so the order in which a recipe, its nodes
  and the job are combined does not depend on how the layers are grouped; a later layer's scalar
  wins, and lists only grow.\<close>

theorem Overlay_layers:
  "Overlay (Overlay a b) c = Overlay a (Overlay b c) \<and>
   Overlay (Overlay a b) b = Overlay a b \<and>
   set (Packages (Overlay a b)) = set (Packages a) \<union> set (Packages b) \<and>
   set (Capabilities (Overlay a b)) = set (Capabilities a) \<union> set (Capabilities b) \<and>
   Base (Overlay a b) = (if Base b = None then Base a else Base b)"
  using requirements.overlay_assoc requirements.overlay_repeat
  by (simp add: Overlay_def choose_opt_def split: option.split)

end
