(* ===== verification/Scope_Context.thy ===== *)
theory Scope_Context
  imports Task_Context Exec_Requirements "HOL-Library.AList"
begin

text \<open>
  \<^verbatim>\<open>pkg/template\<close>: the contexts in which the nodes of a recipe run
  (\<^verbatim>\<open>template_resolver.go\<close>, \<^verbatim>\<open>invocation_tracker.go\<close>, \<^verbatim>\<open>execution_output.go\<close>,
  \<^verbatim>\<open>workspace.go\<close>, the views of \<^verbatim>\<open>attempt.go\<close>). Contexts share maps, counters and
  positions by pointer, so they live in a store: an address is an index into a list of the store.
  Contexts are created after their parents and never move, so a parent has the smaller address
  (\<open>well_scoped\<close>); the loops over parents say so in their guard. Random ids and the clock are
  drawn from a supply, \<open>sl_now\<close>. The values held by maps are not changed after their publication.
\<close>

section \<open>Data\<close>

datatype scope_type = RecipeScope | SequenceScope | MachineScope | NodeStateScope | OpScope

record run_output =
  run_Outputs :: "payload option"
  run_Artifacts :: "(string \<times> artifact_ref) list"
  run_Jobs :: started_jobs
  run_RunID :: string
  run_Timestamp :: nat

record step_output =
  step_Outputs :: "payload option"
  step_Artifacts :: "(string \<times> artifact_ref) list"
  step_Jobs :: started_jobs
  step_Runs :: "run_output list"

record template_data =
  tm_ContainerInputs :: payload
  tm_Sequence :: nat
  tm_States :: nat
  tm_Vars :: payload
  tm_Outputs :: payload
  tm_Transition :: transition_data
  tm_Failure :: "rfailure option"
  tm_Scope :: "string \<times> nat"
  tm_Context :: task_ctx
  tm_Locals :: payload

record last_result =
  lr_Execution :: "payload option"
  lr_Artifacts :: "artifact list"
  lr_Refs :: "artifact_ref list"
  lr_Jobs :: started_jobs

record scope_options =
  opt_Validate :: bool
  opt_CatchBeforeRetry :: bool

record scope_ctx =
  rx_Permissions :: State
  rx_GitProfile :: selection
  rx_ToolScopes :: "(string \<times> string list) list"
  rx_ExecutionNeeds :: Requirements
  rx_commit :: nat
  rx_base :: "nat option"
  rx_wcounters :: nat
  rx_caller :: "nat option"
  rx_Type :: scope_type
  rx_Options :: scope_options
  rx_Const :: bool
  rx_id :: string
  rx_Parent :: "nat option"
  rx_data :: template_data
  rx_done :: nat
  rx_path :: "string list"
  rx_counters :: nat
  rx_last :: last_result
  rx_cache :: nat

record scope_store =
  ss_ctxs :: "scope_ctx list"
  ss_maps :: "(string \<times> step_output) list list"
  ss_done :: "bool list"
  ss_counters :: "(string \<times> nat) list list"
  ss_caches :: "(string \<times> artifact) list list"
  ss_commits :: "git_commit list"
  ss_bases :: "git_base list"
  ss_draws :: nat

datatype scope_error =
    EngineFailed go_error
  | PermissionRefused perm_error
  | ErrAlreadyWritten string
  | PanicParentType scope_type
  | PanicNilParent
  | InputsRequired
  | InputsForbidden

record scope_lib =
  sl_hash :: "string \<Rightarrow> string"
  sl_now :: "nat \<Rightarrow> nat"
  sl_cell :: "string \<Rightarrow> bool"
  sl_env :: "scope_ctx \<Rightarrow> go_error option"
  sl_refs :: artifact_lib

record inline_meta =
  il_Trusted :: bool
  il_Boundary :: bool
  il_Execution :: "Requirements option"
  il_CallsitePath :: string
  il_RecipeID :: string
  il_RecipeVersion :: string
  il_SourceKind :: string
  il_Submitted :: string
  il_Resolved :: string
  il_Commit :: string
  il_SHA :: string

record internal_meta =
  im_SourceRepo :: string
  im_SourceRef :: string
  im_Authority :: "State option"
  im_Inline :: "inline_meta option"

record scope_meta =
  sm_ID :: string
  sm_Const :: bool
  sm_Perms :: "Spec option"
  sm_Internal :: "internal_meta option"

abbreviation ctx_of :: "scope_store \<Rightarrow> nat \<Rightarrow> scope_ctx" where
  "ctx_of s i \<equiv> ss_ctxs s ! i"

definition upd_ctx :: "nat \<Rightarrow> (scope_ctx \<Rightarrow> scope_ctx) \<Rightarrow> scope_store \<Rightarrow> scope_store" where
  "upd_ctx i f s = s\<lparr>ss_ctxs := (ss_ctxs s)[i := f (ctx_of s i)]\<rparr>"

definition new_ctx :: "scope_ctx \<Rightarrow> scope_store \<Rightarrow> scope_store \<times> nat" where
  "new_ctx c s = (s\<lparr>ss_ctxs := ss_ctxs s @ [c]\<rparr>, length (ss_ctxs s))"

section \<open>Invocations\<close>

definition currentPath :: "string list \<Rightarrow> string" where
  "currentPath segs = join_with ''/'' segs"

definition tracker_child :: "string list \<Rightarrow> string \<Rightarrow> string list" where
  "tracker_child segs seg = (if seg = [] then segs else segs @ [seg])"

definition nextInvocation :: "string list \<Rightarrow> nat \<Rightarrow> scope_store \<Rightarrow> scope_store \<times> (string \<times> nat)" where
  "nextInvocation segs a s =
     (let path = currentPath segs; m = ss_counters s ! a;
          n = (case map_of m path of None \<Rightarrow> 0 | Some n \<Rightarrow> n)
      in (s\<lparr>ss_counters := (ss_counters s)[a := AList.update path (Suc n) m]\<rparr>, (path, n)))"

section \<open>Creating contexts\<close>

definition scope_name :: "scope_type \<Rightarrow> string" where
  "scope_name k = (case k of OpScope \<Rightarrow> ''op'' | NodeStateScope \<Rightarrow> ''state'' | RecipeScope \<Rightarrow> ''recipe''
     | MachineScope \<Rightarrow> ''state_machine'' | SequenceScope \<Rightarrow> ''sequence'')"

definition scopeId :: "string \<Rightarrow> string \<Rightarrow> scope_type \<Rightarrow> string" where
  "scopeId ident fallback k = (if ident \<noteq> [] then ident else if fallback \<noteq> [] then fallback else scope_name k)"

definition no_result :: last_result where
  "no_result = \<lparr>lr_Execution = None, lr_Artifacts = [], lr_Refs = [],
     lr_Jobs = \<lparr>sj_GoalIDs = [], sj_JobIDs = [], sj_Items = []\<rparr>\<rparr>"

definition EmptyTransitionData :: transition_data where
  "EmptyTransitionData = NewTransitionData [] [] None"

text \<open>\<open>draw\<close> is one reading of the clock.\<close>

definition draw :: "scope_lib \<Rightarrow> scope_store \<Rightarrow> scope_store \<times> nat" where
  "draw L s = (s\<lparr>ss_draws := Suc (ss_draws s)\<rparr>, sl_now L (ss_draws s))"

definition stamped :: "string \<Rightarrow> nat \<Rightarrow> string" where
  "stamped pre n = pre @ show_int (int n)"

definition newResolutionContext :: "scope_lib \<Rightarrow> nat \<Rightarrow> string list \<Rightarrow> nat \<Rightarrow> scope_type \<Rightarrow> string \<Rightarrow> payload \<Rightarrow>
    job_ctx \<Rightarrow> scope_options \<Rightarrow> scope_store \<Rightarrow> scope_store \<times> (scope_error + nat)" where
  "newResolutionContext L commit path counters kind ident inputs job opts s =
     (let (s1, e) = draw L s; (s2, t) = draw L s1; (s3, i) = nextInvocation path counters s2;
          m = length (ss_maps s3); based = (case jx_Workspace job of None \<Rightarrow> False | Some w \<Rightarrow> wk_ScopeID w \<noteq> []);
          c = \<lparr>rx_Permissions = empty_state, rx_GitProfile = jx_GitProfile job, rx_ToolScopes = [],
            rx_ExecutionNeeds = no_requirements, rx_commit = commit,
            rx_base = (if based then Some (length (ss_bases s3)) else None),
            rx_wcounters = length (ss_counters s3), rx_caller = None, rx_Type = kind, rx_Options = opts,
            rx_Const = False, rx_id = ident, rx_Parent = None,
            rx_data = \<lparr>tm_ContainerInputs = inputs, tm_Sequence = m, tm_States = Suc m, tm_Vars = [], tm_Outputs = [],
              tm_Transition = EmptyTransitionData, tm_Failure = None, tm_Scope = (stamped ''exec-'' e, t),
              tm_Context = NewTaskExecutionContext (sl_hash L) job i (ss_commits s3 ! commit), tm_Locals = []\<rparr>,
            rx_done = length (ss_done s3), rx_path = path, rx_counters = counters, rx_last = no_result,
            rx_cache = length (ss_caches s3)\<rparr>;
          s4 = s3\<lparr>ss_maps := ss_maps s3 @ [[], []], ss_done := ss_done s3 @ [False], ss_counters := ss_counters s3 @ [[]],
            ss_caches := ss_caches s3 @ [[]], ss_bases := ss_bases s3 @ (if based then [jx_GitBase job] else [])\<rparr>
      in case sl_env L c of
           Some err \<Rightarrow> (s4, Inl (EngineFailed err))
         | None \<Rightarrow> (let (s5, a) = new_ctx c s4 in (s5, Inr a)))"

text \<open>The context of a recipe has a tracker of its own; a job without a workspace runs in that of its cell.\<close>

definition with_workspace :: "job_ctx \<Rightarrow> job_ctx" where
  "with_workspace j = (case jx_Workspace j of
     Some _ \<Rightarrow> j
   | None \<Rightarrow> j\<lparr>jx_Workspace := Some \<lparr>wk_Cell = wfc_CellName (jx_Workflow j), wk_ScopeID = [], wk_ParentScopeID = [],
       wk_Initial = [], wk_InitialHash = [], wk_RefPolicy = []\<rparr>\<rparr>)"

definition NewRecipeResolutionContext :: "scope_lib \<Rightarrow> nat \<Rightarrow> payload \<Rightarrow> job_ctx \<Rightarrow> scope_options \<Rightarrow> scope_store \<Rightarrow>
    scope_store \<times> (scope_error + nat)" where
  "NewRecipeResolutionContext L commit inputs job opts s =
     newResolutionContext L commit [] (length (ss_counters s)) RecipeScope [] inputs (with_workspace job) opts
       (s\<lparr>ss_counters := ss_counters s @ [[]]\<rparr>)"

section \<open>The Git state a context shows\<close>

definition sync_git :: "git_base option \<Rightarrow> git_commit \<Rightarrow> workspace_context option \<Rightarrow> git_task \<Rightarrow> git_task" where
  "sync_git base c w g =
     (let g1 = (case base of None \<Rightarrow> g
            | Some b \<Rightarrow> g\<lparr>gt_BaseRepo := gb_BaseRepo b, gt_BaseRef := gb_BaseRef b,
                gt_ResolvedBaseHash := gb_ResolvedBaseHash b, gt_GitAuthor := gb_GitAuthor b\<rparr>);
          g2 = g1\<lparr>gt_PersistHash := gc_PersistHash c, gt_ParentHash := gc_ParentHash c, gt_ParentRef := gc_ParentRef c\<rparr>
      in if gc_ParentHash c \<noteq> [] \<and> FollowsRef w then g2\<lparr>gt_ResolvedBaseHash := gc_ParentHash c\<rparr> else g2)"

definition map_context :: "(task_ctx \<Rightarrow> task_ctx) \<Rightarrow> scope_ctx \<Rightarrow> scope_ctx" where
  "map_context f c = c\<lparr>rx_data := (rx_data c)\<lparr>tm_Context := f (tm_Context (rx_data c))\<rparr>\<rparr>"

definition synced :: "scope_store \<Rightarrow> scope_ctx \<Rightarrow> scope_ctx" where
  "synced s c = map_context (\<lambda>t. t\<lparr>tx_Git := sync_git (map_option (\<lambda>b. ss_bases s ! b) (rx_base c))
     (ss_commits s ! rx_commit c) (tx_Workspace t) (tx_Git t)\<rparr>) c"

definition syncWorkspace :: "nat \<Rightarrow> scope_store \<Rightarrow> scope_store" where
  "syncWorkspace i s = upd_ctx i (synced s) s"

definition execution_sentinels :: "task_ctx \<Rightarrow> task_ctx" where
  "execution_sentinels t = t\<lparr>tx_Git := (tx_Git t)\<lparr>gt_Execution :=
     (''__C2_SENTINEL_GIT_EXECUTION_BASE__'', ''__C2_SENTINEL_GIT_EXECUTION_HEAD__'')\<rparr>\<rparr>"

definition TaskExecutionContext :: "nat \<Rightarrow> scope_store \<Rightarrow> scope_store \<times> task_ctx" where
  "TaskExecutionContext i s =
     (let s1 = upd_ctx i (map_context execution_sentinels) (syncWorkspace i s)
      in (s1, tm_Context (rx_data (ctx_of s1 i))))"

definition UpdateGitState :: "nat \<Rightarrow> git_commit \<Rightarrow> scope_store \<Rightarrow> scope_store" where
  "UpdateGitState i c s = s\<lparr>ss_commits := (ss_commits s)[rx_commit (ctx_of s i) := c]\<rparr>"

definition GetGitCommitContext :: "nat \<Rightarrow> scope_store \<Rightarrow> git_commit" where
  "GetGitCommitContext i s = ss_commits s ! rx_commit (ctx_of s i)"

section \<open>Child contexts\<close>

definition inlineBoundaryFrame :: "inline_meta \<Rightarrow> string \<Rightarrow> inline_frame" where
  "inlineBoundaryFrame il path =
     \<lparr>ifr_CallsitePath = il_CallsitePath il, ifr_BoundaryNodePath = path, ifr_RecipeID = il_RecipeID il,
      ifr_RecipeVersion = il_RecipeVersion il, ifr_SourceKind = il_SourceKind il, ifr_SubmittedSelector = il_Submitted il,
      ifr_ResolvedSelector = il_Resolved il, ifr_ResolvedCommit = il_Commit il, ifr_ContentSHA256 = il_SHA il\<rparr>"

definition takes_inputs :: "scope_type \<Rightarrow> bool" where
  "takes_inputs k \<longleftrightarrow> k = RecipeScope \<or> k = SequenceScope \<or> k = MachineScope"

definition inline_of :: "scope_meta \<Rightarrow> inline_meta option" where
  "inline_of m = Option.bind (sm_Internal m) im_Inline"

text \<open>The source and the authority of an included recipe: what its boundary gives to a child that is not
  a state.\<close>

definition child_source :: "scope_type \<Rightarrow> scope_meta \<Rightarrow> task_ctx \<Rightarrow> task_ctx" where
  "child_source k m t = (case sm_Internal m of
     None \<Rightarrow> t
   | Some im \<Rightarrow>
       if k \<noteq> NodeStateScope \<and> im_Inline im \<noteq> None \<and> im_SourceRepo im \<noteq> []
       then t\<lparr>tx_RecipeSource := (tx_RecipeSource t)\<lparr>rsc_Repo := im_SourceRepo im, rsc_Ref := im_SourceRef im\<rparr>\<rparr> else t)"

definition child_permissions :: "scope_lib \<Rightarrow> scope_type \<Rightarrow> scope_meta \<Rightarrow> State \<Rightarrow> perm_error + State" where
  "child_permissions L k m p = (case sm_Internal m of
     None \<Rightarrow> Inr p
   | Some im \<Rightarrow> (case im_Inline im of
       None \<Rightarrow> Inr p
     | Some il \<Rightarrow>
         if k = NodeStateScope then Inr p
         else (case im_Authority im of
           Some a \<Rightarrow> Inr a
         | None \<Rightarrow> EnterInclude (sl_cell L) p (sm_Perms m) (il_Boundary il) (il_Trusted il))))"

definition child_tools :: "scope_meta \<Rightarrow> (string \<times> string list) list \<Rightarrow> (string \<times> string list) list" where
  "child_tools m tools = (case inline_of m of
     None \<Rightarrow> tools
   | Some il \<Rightarrow> (case il_Execution il of
       None \<Rightarrow> tools
     | Some r \<Rightarrow> if Packages r = [] then tools else tools @ [(''include:'' @ il_CallsitePath il, Packages r)]))"

text \<open>What a child shares with its container: a state its machine's states and inputs, an op all of its
  container's.\<close>

definition shared_maps :: "scope_type \<Rightarrow> template_data \<Rightarrow> template_data \<Rightarrow> template_data" where
  "shared_maps k parent d = (case k of
     NodeStateScope \<Rightarrow> d\<lparr>tm_ContainerInputs := tm_ContainerInputs parent, tm_States := tm_States parent\<rparr>
   | OpScope \<Rightarrow> d\<lparr>tm_ContainerInputs := tm_ContainerInputs parent, tm_States := tm_States parent,
       tm_Sequence := tm_Sequence parent\<rparr>
   | _ \<Rightarrow> d)"

definition inherit :: "nat \<Rightarrow> scope_type \<Rightarrow> scope_meta \<Rightarrow> State \<Rightarrow> scope_ctx \<Rightarrow> scope_ctx \<Rightarrow> scope_ctx" where
  "inherit i k m perms p c =
     (let d = rx_data c; pd = rx_data p; t = child_source k m (tm_Context d);
          stack = tx_InlineStack (tm_Context pd) @ (case inline_of m of None \<Rightarrow> []
            | Some il \<Rightarrow> [inlineBoundaryFrame il (inv_NodePath (tx_Invocation t))])
      in c\<lparr>rx_Const := (rx_Const p \<or> sm_Const m), rx_GitProfile := rx_GitProfile p, rx_Permissions := perms,
        rx_ExecutionNeeds := Overlay (rx_ExecutionNeeds p) no_requirements,
        rx_ToolScopes := child_tools m (rx_ToolScopes p),
        rx_data := shared_maps k pd (d\<lparr>tm_Vars := tm_Vars pd, tm_Transition := tm_Transition pd,
          tm_Failure := tm_Failure pd, tm_Locals := tm_Locals pd, tm_Context := t\<lparr>tx_InlineStack := stack\<rparr>\<rparr>),
        rx_Parent := Some i, rx_base := rx_base p, rx_wcounters := rx_wcounters p\<rparr>)"

definition NewChildContext :: "scope_lib \<Rightarrow> nat \<Rightarrow> scope_type \<Rightarrow> scope_meta \<Rightarrow> string \<Rightarrow> payload option \<Rightarrow> scope_store \<Rightarrow>
    scope_store \<times> (scope_error + nat)" where
  "NewChildContext L i k m fallback inputs s =
     (if takes_inputs k \<and> inputs = None then (s, Inl InputsRequired)
      else if \<not> takes_inputs k \<and> inputs \<noteq> None then (s, Inl InputsForbidden)
      else let ident = scopeId (sm_ID m) fallback k; (s1, t) = TaskExecutionContext i s; p = ctx_of s1 i in
        case newResolutionContext L (rx_commit p) (tracker_child (rx_path p) ident) (rx_counters p) k ident
            (case inputs of None \<Rightarrow> [] | Some ps \<Rightarrow> ps) (JobContext t) (rx_Options p) s1 of
          (s2, Inl e) \<Rightarrow> (s2, Inl e)
        | (s2, Inr a) \<Rightarrow> (case child_permissions L k m (rx_Permissions p) of
            Inl e \<Rightarrow> (s2, Inl (PermissionRefused e))
          | Inr perms \<Rightarrow> (upd_ctx a (inherit i k m perms (ctx_of s2 i)) s2, Inr a)))"

section \<open>Views\<close>

text \<open>A view is another header of the same context: it shares everything that is shared by address.\<close>

definition ExecutionView :: "nat \<Rightarrow> scope_store \<Rightarrow> scope_store \<times> nat" where
  "ExecutionView i s = new_ctx (ctx_of s i) s"

definition WithFailure :: "nat \<Rightarrow> rfailure option \<Rightarrow> scope_store \<Rightarrow> scope_store \<times> nat" where
  "WithFailure i f s =
     new_ctx ((ctx_of s i)\<lparr>rx_data := (rx_data (ctx_of s i))\<lparr>tm_Failure := f\<rparr>\<rparr>) s"

definition view_WithLocals :: "nat \<Rightarrow> payload \<Rightarrow> scope_store \<Rightarrow> scope_store \<times> nat" where
  "view_WithLocals i ls s =
     new_ctx ((ctx_of s i)\<lparr>rx_data := (rx_data (ctx_of s i))\<lparr>tm_Locals :=
       AList.updates (map fst ls) (map snd ls) (tm_Locals (rx_data (ctx_of s i)))\<rparr>\<rparr>) s"

definition NextWorkspaceID :: "scope_lib \<Rightarrow> nat \<Rightarrow> string \<Rightarrow> scope_store \<Rightarrow> scope_store \<times> string" where
  "NextWorkspaceID L i node s =
     (let c = ctx_of s i; t = tm_Context (rx_data c); k0 = inv_NodePath (tx_Invocation t) @ ''/'' @ node;
          k = (case tx_Workspace t of None \<Rightarrow> k0 | Some w \<Rightarrow> wk_ScopeID w @ ''/'' @ k0);
          m = ss_counters s ! rx_wcounters c; n = (case map_of m k of None \<Rightarrow> 0 | Some n \<Rightarrow> n)
      in (s\<lparr>ss_counters := (ss_counters s)[rx_wcounters c := AList.update k (Suc n) m]\<rparr>,
          sl_hash L (k @ ''#'' @ show_int (int n))))"

definition own_source :: "task_ctx \<Rightarrow> task_ctx" where
  "own_source t = (let r = tx_RecipeSource t in
     t\<lparr>tx_RecipeSource := r\<lparr>rsc_Repo := (if rsc_Repo r = [] then gt_BaseRepo (tx_Git t) else rsc_Repo r),
       rsc_Ref := (if rsc_Ref r = [] then gt_BaseRef (tx_Git t) else rsc_Ref r)\<rparr>\<rparr>)"

definition workspace_ctx :: "nat \<Rightarrow> nat \<Rightarrow> nat \<Rightarrow> workspace_context \<Rightarrow> task_ctx \<Rightarrow> scope_ctx \<Rightarrow> scope_ctx" where
  "workspace_ctx i base commit ws t c =
     c\<lparr>rx_Parent := Some i, rx_caller := Some i, rx_base := Some base, rx_commit := commit,
       rx_data := (rx_data c)\<lparr>tm_Context := (own_source t)\<lparr>tx_Workspace := Some ws\<rparr>\<rparr>,
       rx_last := (rx_last c)\<lparr>lr_Execution := None, lr_Artifacts := [], lr_Refs := []\<rparr>\<rparr>"

definition WithWorkspace :: "scope_lib \<Rightarrow> nat \<Rightarrow> workspace_context \<Rightarrow> git_base \<Rightarrow> scope_store \<Rightarrow>
    scope_store \<times> (scope_error + nat)" where
  "WithWorkspace L i ws base s =
     (let (s1, t) = TaskExecutionContext i s;
          s2 = s1\<lparr>ss_bases := ss_bases s1 @ [base],
            ss_commits := ss_commits s1 @ [\<lparr>gc_ParentRef = gb_BaseRef base, gc_PersistHash = [], gc_ParentHash = []\<rparr>]\<rparr>;
          out = synced s2 (workspace_ctx i (length (ss_bases s1)) (length (ss_commits s1)) ws t (ctx_of s1 i))
      in case sl_env L out of
           Some e \<Rightarrow> (s2, Inl (EngineFailed e))
         | None \<Rightarrow> (let (s3, a) = new_ctx out s2 in (s3, Inr a)))"

text \<open>The bindings of a completed view are taken over.\<close>

definition AdoptExecution :: "nat \<Rightarrow> nat \<Rightarrow> scope_store \<Rightarrow> scope_store" where
  "AdoptExecution i src s = (let c = ctx_of s src in
     upd_ctx i (\<lambda>r. r\<lparr>rx_data := rx_data c, rx_last := rx_last c, rx_cache := rx_cache c\<rparr>) s)"

end
