(* ===== verification/Scope_Publish.thy ===== *)
theory Scope_Publish
  imports Scope_Context
begin

text \<open>
  Publication of results (\<^verbatim>\<open>execution_output.go\<close>, \<open>appendExecution\<close> and
  \<open>RememberArtifacts\<close> of \<^verbatim>\<open>template_resolver.go\<close>, \<open>PublishWorkspaceResult\<close>), and what any
  run of operations on contexts keeps: \<open>well_scoped\<close> stores, outputs that are only ever added, one
  publication per position.
\<close>

section \<open>Publication\<close>

record execution_output =
  eo_Outputs :: "payload option"
  eo_ArtifactRefs :: "(string \<times> artifact_ref) list"
  eo_Artifacts :: "artifact list"
  eo_Jobs :: started_jobs

definition remember :: "artifact_lib \<Rightarrow> artifact \<Rightarrow> (string \<times> artifact) list \<Rightarrow> (string \<times> artifact) list" where
  "remember L a m = (case af_Key a of Inl _ \<Rightarrow> m | Inr k \<Rightarrow> AList.update (Identity L (NewStoredRef k)) a m)"

definition RememberArtifacts :: "scope_lib \<Rightarrow> nat \<Rightarrow> artifact list \<Rightarrow> scope_store \<Rightarrow> scope_store" where
  "RememberArtifacts L i arts s = (let c = rx_cache (ctx_of s i) in
     s\<lparr>ss_caches := (ss_caches s)[c := fold (remember (sl_refs L)) arts (ss_caches s ! c)]\<rparr>)"

definition cached_artifacts :: "scope_lib \<Rightarrow> (string \<times> artifact) list \<Rightarrow> artifact_ref list \<Rightarrow> artifact list" where
  "cached_artifacts L m refs = List.map_filter (\<lambda>r. case StoredKey r of None \<Rightarrow> None
     | Some k \<Rightarrow> map_of m (Identity (sl_refs L) (NewStoredRef k))) refs"

definition last_of :: "scope_lib \<Rightarrow> execution_output \<Rightarrow> (string \<times> artifact) list \<Rightarrow> last_result" where
  "last_of L o' m =
     \<lparr>lr_Execution = eo_Outputs o',
      lr_Artifacts = (if eo_Artifacts o' \<noteq> [] then eo_Artifacts o' else cached_artifacts L m (map snd (eo_ArtifactRefs o'))),
      lr_Refs = map snd (eo_ArtifactRefs o'), lr_Jobs = eo_Jobs o'\<rparr>"

text \<open>Where a result goes: the parent that takes it over as its last result, and the map and the key it is
  stored under. The last two errors are panics.\<close>

definition publication :: "scope_store \<Rightarrow> nat \<Rightarrow> scope_error + nat option \<times> (nat \<times> string) option" where
  "publication s i = (let c = ctx_of s i; d = rx_data c in
     case rx_Type c of
       NodeStateScope \<Rightarrow> Inr (None, Some (tm_States d, rx_id c))
     | RecipeScope \<Rightarrow> Inr (None, None)
     | OpScope \<Rightarrow> (case rx_Parent c of
         None \<Rightarrow> Inl PanicNilParent
       | Some p \<Rightarrow> (case rx_Type (ctx_of s p) of
           SequenceScope \<Rightarrow> Inr (Some p, Some (tm_Sequence d, rx_id c))
         | MachineScope \<Rightarrow> Inr (Some p, Some (tm_States d, rx_id c))
         | NodeStateScope \<Rightarrow> Inr (Some p, Some (tm_States d, rx_id (ctx_of s p)))
         | RecipeScope \<Rightarrow> Inr (Some p, None)
         | OpScope \<Rightarrow> Inl (PanicParentType OpScope)))
     | _ \<Rightarrow> (case rx_Parent c of
         None \<Rightarrow> Inr (None, Some (if rx_Type c = SequenceScope then tm_Sequence d else tm_States d, rx_id c))
       | Some p \<Rightarrow> (let pd = rx_data (ctx_of s p) in case rx_Type (ctx_of s p) of
           RecipeScope \<Rightarrow> Inr (Some p, None)
         | SequenceScope \<Rightarrow> Inr (Some p, Some (tm_Sequence pd, rx_id c))
         | MachineScope \<Rightarrow> Inr (Some p, Some (tm_States pd, rx_id c))
         | NodeStateScope \<Rightarrow> Inr (Some p, Some (tm_States pd, rx_id (ctx_of s p)))
         | OpScope \<Rightarrow> Inl (PanicParentType OpScope))))"

definition run_of :: "scope_lib \<Rightarrow> nat \<Rightarrow> nat \<Rightarrow> step_output \<Rightarrow> run_output" where
  "run_of L n t st = \<lparr>run_Outputs = step_Outputs st, run_Artifacts = step_Artifacts st, run_Jobs = step_Jobs st,
     run_RunID = stamped ''run-'' n, run_Timestamp = t\<rparr>"

definition record_output :: "scope_lib \<Rightarrow> execution_output \<Rightarrow> nat \<Rightarrow> string \<Rightarrow> scope_store \<Rightarrow> scope_store" where
  "record_output L o' a k s = (case map_of (ss_maps s ! a) k of
     Some old \<Rightarrow> (let (s1, n) = draw L s; (s2, t) = draw L s1 in
       s2\<lparr>ss_maps := (ss_maps s2)[a := AList.update k
         \<lparr>step_Outputs = eo_Outputs o', step_Artifacts = eo_ArtifactRefs o', step_Jobs = eo_Jobs o',
          step_Runs = step_Runs old @ [run_of L n t old]\<rparr> (ss_maps s2 ! a)]\<rparr>)
   | None \<Rightarrow> s\<lparr>ss_maps := (ss_maps s)[a := AList.update k
       \<lparr>step_Outputs = eo_Outputs o', step_Artifacts = eo_ArtifactRefs o', step_Jobs = eo_Jobs o', step_Runs = []\<rparr>
       (ss_maps s ! a)]\<rparr>)"

definition set_last :: "last_result \<Rightarrow> scope_ctx \<Rightarrow> scope_ctx" where
  "set_last r c = c\<lparr>rx_last := r\<rparr>"

definition appendExecution :: "scope_lib \<Rightarrow> nat \<Rightarrow> execution_output \<Rightarrow> scope_store \<Rightarrow> scope_store \<times> scope_error option" where
  "appendExecution L i o' s =
     (let s1 = (if eo_Artifacts o' = [] then s else RememberArtifacts L i (eo_Artifacts o') s);
          r = last_of L o' (ss_caches s1 ! rx_cache (ctx_of s1 i)); s2 = upd_ctx i (set_last r) s1
      in case publication s2 i of
           Inl e \<Rightarrow> (s2, Some e)
         | Inr (up, target) \<Rightarrow>
             (let s3 = (case up of None \<Rightarrow> s2 | Some p \<Rightarrow> upd_ctx p (set_last r) s2)
              in (case target of None \<Rightarrow> s3 | Some (a, k) \<Rightarrow> record_output L o' a k s3, None)))"

definition PublishWorkspaceResult :: "nat \<Rightarrow> nat \<Rightarrow> scope_store \<Rightarrow> scope_store" where
  "PublishWorkspaceResult i from s = upd_ctx i (set_last (rx_last (ctx_of s from))) s"

text \<open>The loop over a scope and its parents that forwards the results of workspaces to their callers.\<close>

function forward_results :: "nat \<Rightarrow> scope_store \<Rightarrow> scope_store" where
  "forward_results i s =
     (let s1 = (case rx_caller (ctx_of s i) of None \<Rightarrow> s | Some c \<Rightarrow> PublishWorkspaceResult c i s)
      in case rx_Parent (ctx_of s1 i) of None \<Rightarrow> s1
         | Some p \<Rightarrow> if p < i then forward_results p s1 else s1)"
  by pat_completeness auto

termination
  by (relation "measure fst") auto

declare forward_results.simps [simp del]

definition node_path :: "scope_ctx \<Rightarrow> string" where
  "node_path c = inv_NodePath (tx_Invocation (tm_Context (rx_data c)))"

definition PublishExecution :: "scope_lib \<Rightarrow> nat \<Rightarrow> execution_output \<Rightarrow> scope_store \<Rightarrow> scope_store \<times> scope_error option" where
  "PublishExecution L i o' s =
     (let c = ctx_of s i in
      if ss_done s ! rx_done c then (s, Some (ErrAlreadyWritten (node_path c)))
      else case appendExecution L i o' (s\<lparr>ss_done := (ss_done s)[rx_done c := True]\<rparr>) of
        (s1, Some e) \<Rightarrow> (s1, Some e)
      | (s1, None) \<Rightarrow> (forward_results i s1, None))"

section \<open>Stores whose addresses are valid\<close>

definition well_ctx :: "scope_store \<Rightarrow> nat \<Rightarrow> scope_ctx \<Rightarrow> bool" where
  "well_ctx s n c \<longleftrightarrow>
     rx_commit c < length (ss_commits s) \<and> rx_counters c < length (ss_counters s) \<and>
     rx_wcounters c < length (ss_counters s) \<and> rx_done c < length (ss_done s) \<and> rx_cache c < length (ss_caches s) \<and>
     tm_Sequence (rx_data c) < length (ss_maps s) \<and> tm_States (rx_data c) < length (ss_maps s) \<and>
     (case rx_base c of None \<Rightarrow> True | Some b \<Rightarrow> b < length (ss_bases s)) \<and>
     (case rx_Parent c of None \<Rightarrow> True | Some p \<Rightarrow> p < n) \<and> (rx_caller c = None \<or> rx_caller c = rx_Parent c)"

definition well_scoped :: "scope_store \<Rightarrow> bool" where
  "well_scoped s \<longleftrightarrow> (\<forall>i < length (ss_ctxs s). well_ctx s i (ctx_of s i))"

definition store_grows :: "scope_store \<Rightarrow> scope_store \<Rightarrow> bool" where
  "store_grows s t \<longleftrightarrow> length (ss_commits s) \<le> length (ss_commits t) \<and> length (ss_counters s) \<le> length (ss_counters t) \<and>
     length (ss_done s) \<le> length (ss_done t) \<and> length (ss_caches s) \<le> length (ss_caches t) \<and>
     length (ss_maps s) \<le> length (ss_maps t) \<and> length (ss_bases s) \<le> length (ss_bases t)"

lemma store_grows_refl [simp]: "store_grows s s" by (simp add: store_grows_def)

lemma store_grows_trans: "store_grows s t \<Longrightarrow> store_grows t u \<Longrightarrow> store_grows s u" by (simp add: store_grows_def)

lemma store_grows_ctxs [simp]: "store_grows (s\<lparr>ss_ctxs := xs\<rparr>) t = store_grows s t" "store_grows s (t\<lparr>ss_ctxs := xs\<rparr>) = store_grows s t"
  by (simp_all add: store_grows_def)

lemma well_ctx_grows: "well_ctx s n c \<Longrightarrow> store_grows s t \<Longrightarrow> n \<le> m \<Longrightarrow> well_ctx t m c"
  by (auto simp: well_ctx_def store_grows_def split: option.splits)

lemma well_ctx_ctxs [simp]: "well_ctx (s\<lparr>ss_ctxs := xs\<rparr>) n c = well_ctx s n c"
  by (simp add: well_ctx_def cong: option.case_cong)

lemma well_ctx_parent: "well_ctx s n c \<Longrightarrow> rx_Parent c = Some p \<Longrightarrow> p < n"
  by (simp add: well_ctx_def)

lemma well_ctx_range:
  "well_ctx s n c \<Longrightarrow> rx_done c < length (ss_done s) \<and> tm_Sequence (rx_data c) < length (ss_maps s) \<and>
     tm_States (rx_data c) < length (ss_maps s)"
  by (simp add: well_ctx_def)

lemma well_scopedD: "well_scoped s \<Longrightarrow> i < length (ss_ctxs s) \<Longrightarrow> well_ctx s i (ctx_of s i)"
  by (simp add: well_scoped_def)

text \<open>Every operation replaces the store by one that is at least as large, with the headers changed in
  place or added at the end.\<close>

lemma well_scoped_same_ctxs: "well_scoped s \<Longrightarrow> store_grows s t \<Longrightarrow> ss_ctxs t = ss_ctxs s \<Longrightarrow> well_scoped t"
  by (auto simp: well_scoped_def intro: well_ctx_grows)

lemma well_scoped_upd_ctx:
  assumes "well_scoped s" "well_ctx s i (f (ctx_of s i))"
  shows "well_scoped (upd_ctx i f s)"
  unfolding well_scoped_def
proof (intro allI impI)
  fix j assume j: "j < length (ss_ctxs (upd_ctx i f s))"
  have g: "store_grows s (upd_ctx i f s)" by (simp add: upd_ctx_def)
  show "well_ctx (upd_ctx i f s) j (ctx_of (upd_ctx i f s) j)"
  proof (cases "j = i")
    case True
    with assms(2) g j show ?thesis by (auto simp: upd_ctx_def intro: well_ctx_grows)
  next
    case False
    with assms(1) g j show ?thesis by (auto simp: upd_ctx_def well_scoped_def intro: well_ctx_grows)
  qed
qed

lemma well_scoped_new_ctx:
  assumes "well_scoped s" "well_ctx s (length (ss_ctxs s)) c"
  shows "well_scoped (fst (new_ctx c s))"
  using assms by (auto simp: well_scoped_def new_ctx_def nth_append less_Suc_eq intro: well_ctx_grows [of s])

lemma upd_ctx_simps [simp]:
  "length (ss_ctxs (upd_ctx i f s)) = length (ss_ctxs s)" "store_grows s (upd_ctx i f s)"
  "ss_maps (upd_ctx i f s) = ss_maps s" "ss_done (upd_ctx i f s) = ss_done s"
  "ss_counters (upd_ctx i f s) = ss_counters s" "ss_caches (upd_ctx i f s) = ss_caches s"
  "ss_commits (upd_ctx i f s) = ss_commits s" "ss_bases (upd_ctx i f s) = ss_bases s"
  "ss_draws (upd_ctx i f s) = ss_draws s"
  by (simp_all add: upd_ctx_def)

lemma ctx_of_upd: "ctx_of (upd_ctx i f s) j = (if j = i \<and> i < length (ss_ctxs s) then f (ctx_of s i) else ctx_of s j)"
  by (cases "i < length (ss_ctxs s)") (auto simp: upd_ctx_def list_update_beyond)

section \<open>Operations on contexts\<close>

text \<open>The operations of a running job on the contexts it has; one on a context that does not exist does
  nothing. \<open>exec_op\<close> also says what it published: the position, the map and the key, and the output.\<close>

datatype scope_op =
    OpChild nat scope_type scope_meta string "payload option"
  | OpView nat
  | OpFailure nat "rfailure option"
  | OpLocals nat payload
  | OpWorkspace nat workspace_context git_base
  | OpWorkspaceID nat string
  | OpContext nat
  | OpGitState nat git_commit
  | OpRemember nat "artifact list"
  | OpAdopt nat nat
  | OpForward nat nat
  | OpPublish nat execution_output

type_synonym published = "nat \<times> (nat \<times> string) option \<times> execution_output"

fun exec_op :: "scope_lib \<Rightarrow> scope_op \<Rightarrow> scope_store \<Rightarrow> scope_store \<times> published list" where
  "exec_op L (OpChild i k m fb ins) s = (fst (NewChildContext L i k m fb ins s), [])"
| "exec_op L (OpView i) s = (fst (ExecutionView i s), [])"
| "exec_op L (OpFailure i f) s = (fst (WithFailure i f s), [])"
| "exec_op L (OpLocals i ls) s = (fst (view_WithLocals i ls s), [])"
| "exec_op L (OpWorkspace i w b) s = (fst (WithWorkspace L i w b s), [])"
| "exec_op L (OpWorkspaceID i n) s = (fst (NextWorkspaceID L i n s), [])"
| "exec_op L (OpContext i) s = (fst (TaskExecutionContext i s), [])"
| "exec_op L (OpGitState i c) s = (UpdateGitState i c s, [])"
| "exec_op L (OpRemember i as) s = (RememberArtifacts L i as s, [])"
| "exec_op L (OpAdopt i j) s = (AdoptExecution i j s, [])"
| "exec_op L (OpForward i j) s = (PublishWorkspaceResult i j s, [])"
| "exec_op L (OpPublish i o') s = (case PublishExecution L i o' s of
     (t, None) \<Rightarrow> (t, case publication s i of
        Inl _ \<Rightarrow> []
      | Inr (_, target) \<Rightarrow> [(rx_done (ctx_of s i), target, o')])
   | (t, Some _) \<Rightarrow> (t, []))"

fun op_ctxs :: "scope_op \<Rightarrow> nat list" where
  "op_ctxs (OpChild i k m fb ins) = [i]"
| "op_ctxs (OpView i) = [i]"
| "op_ctxs (OpFailure i f) = [i]"
| "op_ctxs (OpLocals i ls) = [i]"
| "op_ctxs (OpWorkspace i w b) = [i]"
| "op_ctxs (OpWorkspaceID i n) = [i]"
| "op_ctxs (OpContext i) = [i]"
| "op_ctxs (OpGitState i c) = [i]"
| "op_ctxs (OpRemember i as) = [i]"
| "op_ctxs (OpAdopt i j) = [i, j]"
| "op_ctxs (OpForward i j) = [i, j]"
| "op_ctxs (OpPublish i o') = [i]"

definition op_applies :: "scope_store \<Rightarrow> scope_op \<Rightarrow> bool" where
  "op_applies s p \<longleftrightarrow> (\<forall>i \<in> set (op_ctxs p). i < length (ss_ctxs s))"

fun run_ops :: "scope_lib \<Rightarrow> scope_op list \<Rightarrow> scope_store \<Rightarrow> scope_store \<times> published list" where
  "run_ops L [] s = (s, [])"
| "run_ops L (p # ps) s =
     (if op_applies s p then
        (case exec_op L p s of (s1, out) \<Rightarrow> (case run_ops L ps s1 of (t, outs) \<Rightarrow> (t, out @ outs)))
      else run_ops L ps s)"

text \<open>What a map has under a key: the results of its previous runs and the current one.\<close>

type_synonym result = "payload option \<times> (string \<times> artifact_ref) list \<times> started_jobs"

definition step_history :: "step_output \<Rightarrow> result list" where
  "step_history st = map (\<lambda>r. (run_Outputs r, run_Artifacts r, run_Jobs r)) (step_Runs st)
     @ [(step_Outputs st, step_Artifacts st, step_Jobs st)]"

definition history :: "scope_store \<Rightarrow> nat \<Rightarrow> string \<Rightarrow> result list" where
  "history s a k = (case map_of (ss_maps s ! a) k of None \<Rightarrow> [] | Some st \<Rightarrow> step_history st)"

definition result_of :: "execution_output \<Rightarrow> result" where
  "result_of o' = (eo_Outputs o', eo_ArtifactRefs o', eo_Jobs o')"

definition results_for :: "nat \<Rightarrow> string \<Rightarrow> published list \<Rightarrow> result list" where
  "results_for a k ps = map (\<lambda>p. result_of (snd (snd p))) (filter (\<lambda>p. fst (snd p) = Some (a, k)) ps)"

lemma results_for_simps [simp]:
  "results_for a k [] = []" "results_for a k (xs @ ys) = results_for a k xs @ results_for a k ys"
  "results_for a k [(pos, target, o')] = (if target = Some (a, k) then [result_of o'] else [])"
  by (simp_all add: results_for_def)

subsection \<open>Addresses stay valid\<close>

lemma draw_same [simp]:
  "ss_ctxs (fst (draw L s)) = ss_ctxs s" "ss_maps (fst (draw L s)) = ss_maps s" "ss_done (fst (draw L s)) = ss_done s"
  "ss_counters (fst (draw L s)) = ss_counters s" "ss_caches (fst (draw L s)) = ss_caches s"
  "ss_commits (fst (draw L s)) = ss_commits s" "ss_bases (fst (draw L s)) = ss_bases s"
  by (simp_all add: draw_def)

lemma nextInvocation_same [simp]:
  "ss_ctxs (fst (nextInvocation p a s)) = ss_ctxs s" "ss_maps (fst (nextInvocation p a s)) = ss_maps s"
  "ss_done (fst (nextInvocation p a s)) = ss_done s" "ss_caches (fst (nextInvocation p a s)) = ss_caches s"
  "ss_commits (fst (nextInvocation p a s)) = ss_commits s" "ss_bases (fst (nextInvocation p a s)) = ss_bases s"
  "length (ss_counters (fst (nextInvocation p a s))) = length (ss_counters s)"
  by (simp_all add: nextInvocation_def Let_def)

text \<open>The new context, and how the store grew for it.\<close>

lemma newResolutionContext_cases:
  assumes "newResolutionContext L commit path counters kind ident inputs job opts s = (t, r)"
  obtains bs where
    "ss_maps t = ss_maps s @ [[], []]" "ss_done t = ss_done s @ [False]"
    "length (ss_counters t) = Suc (length (ss_counters s))" "ss_caches t = ss_caches s @ [[]]"
    "ss_commits t = ss_commits s" "ss_bases t = ss_bases s @ bs"
    "\<And>e. r = Inl e \<Longrightarrow> ss_ctxs t = ss_ctxs s"
    "\<And>a. r = Inr a \<Longrightarrow> a = length (ss_ctxs s) \<and> (\<exists>c. ss_ctxs t = ss_ctxs s @ [c] \<and>
      rx_commit c = commit \<and> rx_counters c = counters \<and> rx_wcounters c = length (ss_counters s) \<and>
      rx_done c = length (ss_done s) \<and> rx_cache c = length (ss_caches s) \<and>
      tm_Sequence (rx_data c) = length (ss_maps s) \<and> tm_States (rx_data c) = Suc (length (ss_maps s)) \<and>
      rx_base c = (if bs = [] then None else Some (length (ss_bases s))) \<and> rx_Parent c = None \<and> rx_caller c = None \<and>
      rx_Type c = kind \<and> rx_id c = ident)"
proof -
  obtain s1 e where 1: "draw L s = (s1, e)" by fastforce
  obtain s2 u where 2: "draw L s1 = (s2, u)" by fastforce
  obtain s3 i where 3: "nextInvocation path counters s2 = (s3, i)" by (meson surj_pair)
  have same: "ss_ctxs s3 = ss_ctxs s" "ss_maps s3 = ss_maps s" "ss_done s3 = ss_done s" "ss_caches s3 = ss_caches s"
    "ss_commits s3 = ss_commits s" "ss_bases s3 = ss_bases s" "length (ss_counters s3) = length (ss_counters s)"
    using draw_same [of L s] draw_same [of L s1] nextInvocation_same [of path counters s2] 1 2 3 by simp_all
  show thesis
    by (rule that [of "if (case jx_Workspace job of None \<Rightarrow> False | Some w \<Rightarrow> wk_ScopeID w \<noteq> []) then [jx_GitBase job] else []"])
      (use assms in \<open>auto simp: newResolutionContext_def 1 2 3 same Let_def new_ctx_def split: option.splits if_splits\<close>)
qed

lemma well_ctx_map_context [simp]: "well_ctx s n (map_context f c) = well_ctx s n c"
  by (simp add: well_ctx_def map_context_def)

lemma well_ctx_set_last [simp]: "well_ctx s n (set_last r c) = well_ctx s n c"
  by (simp add: well_ctx_def set_last_def)

lemma well_ctx_synced [simp]: "well_ctx s n (synced s' c) = well_ctx s n c"
  by (simp add: synced_def)

lemma well_ctx_new_done: "well_ctx s n c \<Longrightarrow> well_ctx (s\<lparr>ss_done := (ss_done s)[p := b]\<rparr>) n c"
  by (rule well_ctx_grows) (auto simp: store_grows_def)

text \<open>What decides where a context publishes; no operation changes it for a context that exists.\<close>

definition place :: "scope_ctx \<Rightarrow> scope_type \<times> string \<times> nat option \<times> nat \<times> nat \<times> nat" where
  "place c = (rx_Type c, rx_id c, rx_Parent c, tm_Sequence (rx_data c), tm_States (rx_data c), rx_done c)"

lemma place_same [simp]: "place (map_context f c) = place c" "place (set_last r c) = place c" "place (synced s c) = place c"
  by (simp_all add: place_def map_context_def set_last_def synced_def)

text \<open>The headers, maps and positions \<open>TaskExecutionContext\<close> leaves.\<close>

lemma TaskExecutionContext_well:
  assumes "well_scoped s" "i < length (ss_ctxs s)" "TaskExecutionContext i s = (t, c)"
  shows "well_scoped t" "length (ss_ctxs t) = length (ss_ctxs s)" "ss_maps t = ss_maps s" "ss_done t = ss_done s"
    "store_grows s t" "place (ctx_of t j) = place (ctx_of s j)"
proof -
  let ?s1 = "syncWorkspace i s"
  from assms(3) have t: "t = upd_ctx i (map_context execution_sentinels) ?s1"
    by (simp add: TaskExecutionContext_def Let_def)
  have s1: "well_scoped ?s1"
    unfolding syncWorkspace_def by (rule well_scoped_upd_ctx) (use assms(1,2) in \<open>auto dest: well_scopedD\<close>)
  then show "well_scoped t"
    unfolding t by (rule well_scoped_upd_ctx) (use s1 assms(2) in \<open>auto simp: syncWorkspace_def dest: well_scopedD\<close>)
  show "length (ss_ctxs t) = length (ss_ctxs s)" "ss_maps t = ss_maps s" "ss_done t = ss_done s" "store_grows s t"
    by (simp_all add: t syncWorkspace_def store_grows_def)
  show "place (ctx_of t j) = place (ctx_of s j)"
    by (simp add: t syncWorkspace_def ctx_of_upd)
qed

text \<open>A child that was created: its place, its position and its maps.\<close>

lemma NewChildContext_ok:
  assumes "well_scoped s" "i < length (ss_ctxs s)" "NewChildContext L i k m fb ins s = (t, Inr a)"
  shows "a = length (ss_ctxs s)" "length (ss_ctxs t) = Suc (length (ss_ctxs s))" "well_scoped t"
    "ss_maps t = ss_maps s @ [[], []]" "ss_done t = ss_done s @ [False]"
    "place (ctx_of t a) = (k, scopeId (sm_ID m) fb k, Some i,
       if k = OpScope then tm_Sequence (rx_data (ctx_of s i)) else length (ss_maps s),
       if k = OpScope \<or> k = NodeStateScope then tm_States (rx_data (ctx_of s i)) else Suc (length (ss_maps s)),
       length (ss_done s))"
    "j < length (ss_ctxs s) \<Longrightarrow> place (ctx_of t j) = place (ctx_of s j)"
proof -
  obtain s1 tc where 1: "TaskExecutionContext i s = (s1, tc)" by (meson surj_pair)
  note w = TaskExecutionContext_well [OF assms(1,2) 1]
  let ?p = "ctx_of s1 i"
  let ?id = "scopeId (sm_ID m) fb k"
  obtain s2 r where 2: "newResolutionContext L (rx_commit ?p) (tracker_child (rx_path ?p) ?id) (rx_counters ?p) k ?id
      (case ins of None \<Rightarrow> [] | Some ps \<Rightarrow> ps) (JobContext tc) (rx_Options ?p) s1 = (s2, r)" by (meson surj_pair)
  from assms(3) obtain b perms where rb: "r = Inr b" and perms: "child_permissions L k m (rx_Permissions ?p) = Inr perms"
    and ta: "t = upd_ctx b (inherit i k m perms (ctx_of s2 i)) s2" "a = b"
    by (auto simp: NewChildContext_def 1 2 Let_def split: sum.splits if_splits)
  from 2 obtain bs c where c: "ss_maps s2 = ss_maps s1 @ [[], []]" "ss_done s2 = ss_done s1 @ [False]"
      "length (ss_counters s2) = Suc (length (ss_counters s1))" "ss_caches s2 = ss_caches s1 @ [[]]"
      "ss_commits s2 = ss_commits s1" "ss_bases s2 = ss_bases s1 @ bs"
      "b = length (ss_ctxs s1)" "ss_ctxs s2 = ss_ctxs s1 @ [c]" "rx_commit c = rx_commit ?p"
      "rx_counters c = rx_counters ?p" "rx_wcounters c = length (ss_counters s1)" "rx_done c = length (ss_done s1)"
      "rx_cache c = length (ss_caches s1)" "tm_Sequence (rx_data c) = length (ss_maps s1)"
      "tm_States (rx_data c) = Suc (length (ss_maps s1))"
      "rx_caller c = None" "rx_Type c = k" "rx_id c = ?id"
    by (elim newResolutionContext_cases) (auto simp: rb)
  have i1: "i < length (ss_ctxs s1)" using assms(2) w(2) by simp
  have p: "well_ctx s1 i ?p" using w(1) i1 by (rule well_scopedD)
  have ci: "ctx_of s2 i = ?p" "ctx_of s2 b = c" using i1 c(7,8) by (simp_all add: nth_append)
  have g: "store_grows s1 s2" using c by (simp add: store_grows_def)
  have wc: "well_ctx s2 b (inherit i k m perms ?p c)"
    using well_ctx_grows [OF p g order.refl] c i1
    by (auto simp: well_ctx_def inherit_def Let_def shared_maps_def split: scope_type.splits option.splits)
  have "well_scoped (s2\<lparr>ss_ctxs := ss_ctxs s1 @ [inherit i k m perms ?p c]\<rparr>)"
    unfolding well_scoped_def
  proof (intro allI impI)
    fix j
    let ?u = "s2\<lparr>ss_ctxs := ss_ctxs s1 @ [inherit i k m perms ?p c]\<rparr>"
    assume "j < length (ss_ctxs ?u)"
    then consider "j < length (ss_ctxs s1)" | "j = b" using c(7) by fastforce
    then show "well_ctx ?u j (ctx_of ?u j)"
    proof cases
      case 1
      with well_ctx_grows [OF well_scopedD [OF w(1) 1] g order.refl] show ?thesis
        by (simp add: nth_append)
    next
      case 2
      with wc show ?thesis by (simp add: c(7))
    qed
  qed
  moreover have t_eq: "t = s2\<lparr>ss_ctxs := ss_ctxs s1 @ [inherit i k m perms ?p c]\<rparr>"
    using i1 by (simp add: ta upd_ctx_def c(7,8) nth_append list_update_append)
  ultimately show "well_scoped t" by simp
  show a: "a = length (ss_ctxs s)" by (simp add: ta(2) c(7) w(2))
  show "length (ss_ctxs t) = Suc (length (ss_ctxs s))" "ss_maps t = ss_maps s @ [[], []]" "ss_done t = ss_done s @ [False]"
    by (simp_all add: t_eq w c)
  have "tm_Sequence (rx_data ?p) = tm_Sequence (rx_data (ctx_of s i))" "tm_States (rx_data ?p) = tm_States (rx_data (ctx_of s i))"
    using w(6) [of i] by (simp_all add: place_def)
  then show "place (ctx_of t a) = (k, scopeId (sm_ID m) fb k, Some i,
       if k = OpScope then tm_Sequence (rx_data (ctx_of s i)) else length (ss_maps s),
       if k = OpScope \<or> k = NodeStateScope then tm_States (rx_data (ctx_of s i)) else Suc (length (ss_maps s)),
       length (ss_done s))"
    using c w(3,4) by (auto simp: t_eq a w(2) [symmetric] place_def inherit_def Let_def shared_maps_def split: scope_type.splits)
  assume "j < length (ss_ctxs s)"
  then show "place (ctx_of t j) = place (ctx_of s j)"
    using w(2) w(6) [of j] by (simp add: t_eq nth_append)
qed

section \<open>Outputs are only ever added\<close>

definition extends :: "scope_store \<Rightarrow> published list \<Rightarrow> scope_store \<Rightarrow> bool" where
  "extends s ps t \<longleftrightarrow>
     length (ss_maps s) \<le> length (ss_maps t) \<and> length (ss_done s) \<le> length (ss_done t) \<and>
     (\<forall>a k. a < length (ss_maps s) \<longrightarrow> history t a k = history s a k @ results_for a k ps) \<and>
     (\<forall>q < length (ss_done s). ss_done s ! q \<longrightarrow> ss_done t ! q) \<and>
     distinct (map fst ps) \<and>
     (\<forall>q \<in> fst ` set ps. q < length (ss_done t) \<and> ss_done t ! q \<and> (q < length (ss_done s) \<longrightarrow> \<not> ss_done s ! q))"

lemma extends_refl [simp]: "extends s [] s" by (simp add: extends_def)

lemma extends_quiet:
  "ss_maps t = ss_maps s @ ms \<Longrightarrow> ss_done t = ss_done s @ ds \<Longrightarrow> extends s [] t"
  by (simp add: extends_def history_def nth_append)

lemma extendsD:
  assumes "extends s ps t"
  shows "length (ss_maps s) \<le> length (ss_maps t)" "length (ss_done s) \<le> length (ss_done t)"
    "a < length (ss_maps s) \<Longrightarrow> history t a k = history s a k @ results_for a k ps"
    "q < length (ss_done s) \<Longrightarrow> ss_done s ! q \<Longrightarrow> ss_done t ! q" "distinct (map fst ps)"
    "q \<in> fst ` set ps \<Longrightarrow> q < length (ss_done t) \<and> ss_done t ! q \<and> (q < length (ss_done s) \<longrightarrow> \<not> ss_done s ! q)"
  using assms unfolding extends_def by blast+

lemma extends_trans:
  assumes st: "extends s ps t" and tu: "extends t qs u"
  shows "extends s (ps @ qs) u"
  unfolding extends_def
proof (intro conjI allI impI ballI)
  show "length (ss_maps s) \<le> length (ss_maps u)" "length (ss_done s) \<le> length (ss_done u)"
    using extendsD(1,2) [OF st] extendsD(1,2) [OF tu] by simp_all
  show "history u a k = history s a k @ results_for a k (ps @ qs)" if "a < length (ss_maps s)" for a k
    using extendsD(3) [OF st that, of k] extendsD(3) [OF tu, of a k] extendsD(1) [OF st] that by simp
  show "ss_done u ! q" if "q < length (ss_done s)" "ss_done s ! q" for q
    using extendsD(4) [OF tu _ extendsD(4) [OF st that]] extendsD(2) [OF st] that by simp
  have "fst ` set ps \<inter> fst ` set qs = {}"
    using extendsD(6) [OF st] extendsD(6) [OF tu] by blast
  then show "distinct (map fst (ps @ qs))" using extendsD(5) [OF st] extendsD(5) [OF tu] by simp
  fix q assume "q \<in> fst ` set (ps @ qs)"
  then consider "q \<in> fst ` set ps" | "q \<in> fst ` set qs" by auto
  then have *: "q < length (ss_done u) \<and> ss_done u ! q \<and> (q < length (ss_done s) \<longrightarrow> \<not> ss_done s ! q)"
  proof cases
    case 1
    note q = extendsD(6) [OF st 1]
    with extendsD(4) [OF tu, of q] extendsD(2) [OF tu] show ?thesis by simp
  next
    case 2
    note q = extendsD(6) [OF tu 2]
    with extendsD(4) [OF st, of q] extendsD(2) [OF st] show ?thesis by auto
  qed
  then show "q < length (ss_done u)" "ss_done u ! q" by simp_all
  show "\<not> ss_done s ! q" if "q < length (ss_done s)" using * that by simp
qed

lemma place_fields:
  "place c = place d \<Longrightarrow> rx_Type c = rx_Type d \<and> rx_id c = rx_id d \<and> rx_Parent c = rx_Parent d \<and>
     tm_Sequence (rx_data c) = tm_Sequence (rx_data d) \<and> tm_States (rx_data c) = tm_States (rx_data d) \<and> rx_done c = rx_done d"
  by (simp add: place_def)

text \<open>The target depends on the places of the context and its parent only.\<close>

lemma publication_places:
  assumes "\<And>j. place (ctx_of s j) = place (ctx_of t j)"
  shows "publication s i = publication t i"
proof -
  have "rx_Type (ctx_of s j) = rx_Type (ctx_of t j)" "rx_id (ctx_of s j) = rx_id (ctx_of t j)"
    "rx_Parent (ctx_of s j) = rx_Parent (ctx_of t j)" "rx_done (ctx_of s j) = rx_done (ctx_of t j)"
    "tm_Sequence (rx_data (ctx_of s j)) = tm_Sequence (rx_data (ctx_of t j))"
    "tm_States (rx_data (ctx_of s j)) = tm_States (rx_data (ctx_of t j))" for j
    using place_fields [OF assms [of j]] by simp_all
  note fields = this
  show ?thesis unfolding publication_def Let_def fields ..
qed

lemma publication_target:
  assumes "well_scoped s" "i < length (ss_ctxs s)" "publication s i = Inr (up, target)"
  shows "(\<forall>p. up = Some p \<longrightarrow> p < length (ss_ctxs s))" "target = Some (a, k) \<Longrightarrow> a < length (ss_maps s)"
proof -
  have i: "well_ctx s i (ctx_of s i)" by (rule well_scopedD [OF assms(1,2)])
  have p: "well_ctx s p (ctx_of s p) \<and> p < length (ss_ctxs s)" if "rx_Parent (ctx_of s i) = Some p" for p
    using well_ctx_parent [OF i that] assms(1,2) well_scopedD [OF assms(1), of p] by simp
  from assms(3) show "\<forall>p. up = Some p \<longrightarrow> p < length (ss_ctxs s)"
    by (auto simp: publication_def Let_def p split: scope_type.splits option.splits)
  assume "target = Some (a, k)"
  then show "a < length (ss_maps s)"
    using assms(3) well_ctx_range [OF i] p [THEN conjunct1, THEN well_ctx_range]
    by (auto simp: publication_def Let_def split: scope_type.splits option.splits)
qed

lemma record_output_same [simp]:
  "ss_ctxs (record_output L o' a k s) = ss_ctxs s" "ss_done (record_output L o' a k s) = ss_done s"
  "ss_counters (record_output L o' a k s) = ss_counters s" "ss_caches (record_output L o' a k s) = ss_caches s"
  "ss_commits (record_output L o' a k s) = ss_commits s" "ss_bases (record_output L o' a k s) = ss_bases s"
  "length (ss_maps (record_output L o' a k s)) = length (ss_maps s)"
  by (simp_all add: record_output_def draw_def Let_def split: option.splits)

lemma record_output_history:
  assumes "a < length (ss_maps s)"
  shows "history (record_output L o' a k s) b j =
    history s b j @ (if b = a \<and> j = k then [result_of o'] else [])"
proof (cases "map_of (ss_maps s ! a) k")
  case None
  with assms show ?thesis
    by (cases "b = a") (auto simp: record_output_def history_def step_history_def result_of_def update_conv')
next
  case (Some old)
  with assms show ?thesis
    by (cases "b = a")
      (auto simp: record_output_def history_def step_history_def result_of_def update_conv' draw_def run_of_def Let_def)
qed

lemma RememberArtifacts_same [simp]:
  "ss_ctxs (RememberArtifacts L i as s) = ss_ctxs s" "ss_done (RememberArtifacts L i as s) = ss_done s"
  "ss_counters (RememberArtifacts L i as s) = ss_counters s" "ss_maps (RememberArtifacts L i as s) = ss_maps s"
  "ss_commits (RememberArtifacts L i as s) = ss_commits s" "ss_bases (RememberArtifacts L i as s) = ss_bases s"
  "length (ss_caches (RememberArtifacts L i as s)) = length (ss_caches s)"
  by (simp_all add: RememberArtifacts_def Let_def)

text \<open>\<open>relinks s t\<close>: \<open>t\<close> is \<open>s\<close> with other last results.\<close>

definition relinks :: "scope_store \<Rightarrow> scope_store \<Rightarrow> bool" where
  "relinks s t \<longleftrightarrow> length (ss_ctxs t) = length (ss_ctxs s) \<and> (\<forall>j. place (ctx_of t j) = place (ctx_of s j)) \<and>
     ss_maps t = ss_maps s \<and> ss_done t = ss_done s \<and> (well_scoped s \<longrightarrow> well_scoped t)"

lemma relinks_trans: "relinks s t \<Longrightarrow> relinks t u \<Longrightarrow> relinks s u"
  by (simp add: relinks_def)

lemma relinks_set_last: "i < length (ss_ctxs s) \<Longrightarrow> relinks s (upd_ctx i (set_last r) s)"
  by (simp add: relinks_def ctx_of_upd) (simp add: well_scoped_upd_ctx well_scopedD)

lemma forward_results_relinks:
  "well_scoped s \<Longrightarrow> i < length (ss_ctxs s) \<Longrightarrow> relinks s (forward_results i s)"
proof (induction i s rule: forward_results.induct)
  case (1 i s)
  let ?s1 = "case rx_caller (ctx_of s i) of None \<Rightarrow> s | Some c \<Rightarrow> PublishWorkspaceResult c i s"
  have w: "well_ctx s i (ctx_of s i)" by (rule well_scopedD [OF 1(2,3)])
  have r: "relinks s ?s1"
  proof (cases "rx_caller (ctx_of s i)")
    case None
    then show ?thesis by (simp add: relinks_def)
  next
    case (Some c)
    with w 1(3) have "c < length (ss_ctxs s)" by (auto simp: well_ctx_def split: option.splits)
    with Some show ?thesis by (simp add: PublishWorkspaceResult_def relinks_set_last)
  qed
  show ?case
  proof (cases "rx_Parent (ctx_of ?s1 i)")
    case None
    then show ?thesis using r by (subst forward_results.simps) (simp add: Let_def)
  next
    case (Some p)
    show ?thesis
    proof (cases "p < i")
      case True
      with 1(2,3) r have "relinks ?s1 (forward_results p ?s1)"
        by (intro 1(1) [OF refl Some True]) (auto simp: relinks_def)
      with r Some True show ?thesis by (subst forward_results.simps) (simp add: Let_def relinks_trans)
    next
      case False
      with Some r show ?thesis by (subst forward_results.simps) (simp add: Let_def)
    qed
  qed
qed

lemma appendExecution_extends:
  assumes "well_scoped s" "i < length (ss_ctxs s)" "appendExecution L i o' s = (t, e)"
  shows "well_scoped t" "ss_done t = ss_done s" "length (ss_ctxs t) = length (ss_ctxs s)"
    "length (ss_maps t) = length (ss_maps s)"
    "e = None \<Longrightarrow> \<exists>up target. publication s i = Inr (up, target) \<and>
       (a < length (ss_maps s) \<longrightarrow> history t a k = history s a k @ results_for a k [(pos, target, o')])"
    "e \<noteq> None \<Longrightarrow> ss_maps t = ss_maps s"
proof -
  let ?s1 = "if eo_Artifacts o' = [] then s else RememberArtifacts L i (eo_Artifacts o') s"
  let ?r = "last_of L o' (ss_caches ?s1 ! rx_cache (ctx_of ?s1 i))"
  let ?s2 = "upd_ctx i (set_last ?r) ?s1"
  have r1: "relinks s ?s1"
    using assms(1) by (auto simp: relinks_def intro: well_scoped_same_ctxs [of s] simp: store_grows_def)
  have r2: "relinks ?s1 ?s2" by (rule relinks_set_last) (use assms(2) in simp)
  have r: "relinks s ?s2" using r1 r2 by (rule relinks_trans)
  have p: "publication ?s2 i = publication s i"
    by (rule publication_places) (use r in \<open>simp add: relinks_def\<close>)
  have all: "well_scoped t \<and> ss_done t = ss_done s \<and> length (ss_ctxs t) = length (ss_ctxs s) \<and>
      length (ss_maps t) = length (ss_maps s) \<and>
      (e = None \<longrightarrow> (\<exists>up target. publication s i = Inr (up, target) \<and> (a < length (ss_maps s) \<longrightarrow>
         history t a k = history s a k @ results_for a k [(pos, target, o')]))) \<and>
      (e \<noteq> None \<longrightarrow> ss_maps t = ss_maps s)"
  proof (cases "publication s i")
    case (Inl err)
    with assms(3) p have "t = ?s2" "e = Some err" by (auto simp: appendExecution_def Let_def)
    then show ?thesis using r assms(1) by (simp add: relinks_def)
  next
    case (Inr x)
    obtain up target where x: "x = (up, target)" by fastforce
    note pub = publication_target [OF assms(1,2) Inr [unfolded x]]
    let ?s3 = "case up of None \<Rightarrow> ?s2 | Some p \<Rightarrow> upd_ctx p (set_last ?r) ?s2"
    have r3: "relinks s ?s3"
    proof (cases up)
      case None
      then show ?thesis using r by simp
    next
      case (Some q)
      with pub(1) r have "relinks ?s2 (upd_ctx q (set_last ?r) ?s2)"
        by (intro relinks_set_last) (simp add: relinks_def)
      with r have "relinks s (upd_ctx q (set_last ?r) ?s2)" by (rule relinks_trans)
      with Some show ?thesis by simp
    qed
    from assms(3) p Inr x have te: "t = (case target of None \<Rightarrow> ?s3 | Some (a, k) \<Rightarrow> record_output L o' a k ?s3)" "e = None"
      by (auto simp: appendExecution_def Let_def)
    from r3 te(1) obtain s3 where s3: "relinks s s3"
      and t: "t = (case target of None \<Rightarrow> s3 | Some (a, k) \<Rightarrow> record_output L o' a k s3)" by blast
    from s3 assms(1) have w3: "well_scoped s3" by (simp add: relinks_def)
    have same: "ss_maps s3 = ss_maps s" "ss_done s3 = ss_done s" "length (ss_ctxs s3) = length (ss_ctxs s)"
      using s3 by (simp_all add: relinks_def)
    have h3: "history s3 a k = history s a k" by (simp add: history_def same)
    show ?thesis
    proof (cases target)
      case None
      with te(2) t Inr x w3 same h3 show ?thesis by simp
    next
      case (Some bk)
      obtain b j where bk: "bk = (b, j)" by fastforce
      with Some t have tr: "t = record_output L o' b j s3" by simp
      from pub(2) [of b j] Some bk have b: "b < length (ss_maps s3)" using same by simp
      have "well_scoped t"
        by (rule well_scoped_same_ctxs [OF w3]) (simp_all add: tr store_grows_def)
      moreover have "history t a k = history s a k @ results_for a k [(pos, target, o')]"
        using record_output_history [OF b, of L o' j a k] h3 by (auto simp: tr Some bk)
      ultimately show ?thesis using Inr x te(2) same by (simp add: tr)
    qed
  qed
  from all show "well_scoped t" "ss_done t = ss_done s" "length (ss_ctxs t) = length (ss_ctxs s)"
    "length (ss_maps t) = length (ss_maps s)" by simp_all
  from all show "e = None \<Longrightarrow> \<exists>up target. publication s i = Inr (up, target) \<and>
       (a < length (ss_maps s) \<longrightarrow> history t a k = history s a k @ results_for a k [(pos, target, o')])"
    "e \<noteq> None \<Longrightarrow> ss_maps t = ss_maps s" by simp_all
qed

lemma PublishExecution_extends:
  assumes "well_scoped s" "i < length (ss_ctxs s)" "exec_op L (OpPublish i o') s = (t, ps)"
  shows "well_scoped t" "extends s ps t"
proof -
  let ?q = "rx_done (ctx_of s i)"
  let ?s1 = "s\<lparr>ss_done := (ss_done s)[?q := True]\<rparr>"
  have q: "?q < length (ss_done s)" using well_ctx_range [OF well_scopedD [OF assms(1,2)]] by simp
  have w1: "well_scoped ?s1" by (rule well_scoped_same_ctxs [OF assms(1)]) (simp_all add: store_grows_def)
  have "well_scoped t \<and> extends s ps t"
  proof (cases "ss_done s ! ?q")
    case True
    with assms show ?thesis by (auto simp: PublishExecution_def Let_def)
  next
    case False
    obtain s2 e where 2: "appendExecution L i o' ?s1 = (s2, e)" by fastforce
    have i1: "i < length (ss_ctxs ?s1)" using assms(2) by simp
    note a = appendExecution_extends [OF w1 i1 2]
    have pub: "publication ?s1 i = publication s i" by (rule publication_places) simp
    show ?thesis
    proof (cases e)
      case (Some err)
      with False assms(3) 2 have "t = s2" "ps = []" by (auto simp: PublishExecution_def Let_def)
      moreover have "extends s [] s2"
        using a(2) a(6) Some q by (auto simp: extends_def history_def nth_list_update)
      ultimately show ?thesis using a(1) by simp
    next
      case None
      from a(5) None pub obtain up target where target: "publication s i = Inr (up, target)" by fastforce
      with False assms(3) 2 None have t: "t = forward_results i s2" "ps = [(?q, target, o')]"
        by (auto simp: PublishExecution_def Let_def)
      have f: "relinks s2 t" unfolding t by (rule forward_results_relinks) (use a(1,3) assms(2) in simp_all)
      have h: "history t b k = history s b k @ results_for b k ps" if "b < length (ss_maps s)" for b k
      proof -
        from appendExecution_extends(5) [OF w1 i1 2, of b k ?q] None pub target that
        have "history s2 b k = history s b k @ results_for b k ps" by (simp add: t history_def)
        with f show ?thesis by (simp add: relinks_def history_def)
      qed
      have "ss_done t = (ss_done s)[?q := True]" "length (ss_maps t) = length (ss_maps s)"
        using f a(2,4) by (simp_all add: relinks_def)
      with q False h have "extends s ps t"
        by (simp add: extends_def t(2) nth_list_update)
      with f a(1) show ?thesis by (simp add: relinks_def)
    qed
  qed
  then show "well_scoped t" "extends s ps t" by simp_all
qed

lemma new_ctx_step:
  assumes "well_scoped s" "well_ctx s (length (ss_ctxs s)) c"
  shows "well_scoped (fst (new_ctx c s)) \<and> extends s [] (fst (new_ctx c s))"
  using well_scoped_new_ctx [OF assms] extends_quiet [of "fst (new_ctx c s)" s "[]" "[]"] by (simp add: new_ctx_def)

lemma newResolution_step:
  assumes "well_scoped s" "commit < length (ss_commits s)" "counters < length (ss_counters s)"
    "newResolutionContext L commit path counters kind ident inputs job opts s = (t, r)"
  shows "well_scoped t \<and> ss_maps t = ss_maps s @ [[], []] \<and> ss_done t = ss_done s @ [False]"
proof -
  from assms(4) show ?thesis
  proof (elim newResolutionContext_cases, cases r)
    fix bs e
    assume c: "ss_maps t = ss_maps s @ [[], []]" "ss_done t = ss_done s @ [False]"
      "length (ss_counters t) = Suc (length (ss_counters s))" "ss_caches t = ss_caches s @ [[]]"
      "ss_commits t = ss_commits s" "ss_bases t = ss_bases s @ bs" "r = Inl e" "\<And>e. r = Inl e \<Longrightarrow> ss_ctxs t = ss_ctxs s"
    then show ?thesis using well_scoped_same_ctxs [OF assms(1), of t] by (simp add: store_grows_def)
  next
    fix bs a
    assume c: "ss_maps t = ss_maps s @ [[], []]" "ss_done t = ss_done s @ [False]"
      "length (ss_counters t) = Suc (length (ss_counters s))" "ss_caches t = ss_caches s @ [[]]"
      "ss_commits t = ss_commits s" "ss_bases t = ss_bases s @ bs" "r = Inr a"
    assume "\<And>a. r = Inr a \<Longrightarrow> a = length (ss_ctxs s) \<and> (\<exists>c. ss_ctxs t = ss_ctxs s @ [c] \<and>
      rx_commit c = commit \<and> rx_counters c = counters \<and> rx_wcounters c = length (ss_counters s) \<and>
      rx_done c = length (ss_done s) \<and> rx_cache c = length (ss_caches s) \<and>
      tm_Sequence (rx_data c) = length (ss_maps s) \<and> tm_States (rx_data c) = Suc (length (ss_maps s)) \<and>
      rx_base c = (if bs = [] then None else Some (length (ss_bases s))) \<and> rx_Parent c = None \<and> rx_caller c = None \<and>
      rx_Type c = kind \<and> rx_id c = ident)"
    from this [OF c(7)] obtain d where d: "ss_ctxs t = ss_ctxs s @ [d]" and wd: "well_ctx t (length (ss_ctxs s)) d"
      using assms(2,3) c by (auto simp: well_ctx_def)
    have "store_grows s t" using c by (simp add: store_grows_def)
    with d wd assms(1) have "well_scoped t"
      by (auto simp: well_scoped_def nth_append less_Suc_eq intro: well_ctx_grows)
    with c show ?thesis by simp
  qed
qed

lemma well_ctx_data:
  "well_ctx s n c \<Longrightarrow> well_ctx s m d \<Longrightarrow> tm_Sequence x = tm_Sequence (rx_data d) \<Longrightarrow> tm_States x = tm_States (rx_data d) \<Longrightarrow>
   well_ctx s n (c\<lparr>rx_data := x\<rparr>)"
  by (simp add: well_ctx_def)

lemma WithWorkspace_step:
  assumes "well_scoped s" "i < length (ss_ctxs s)"
  shows "well_scoped (fst (WithWorkspace L i w b s)) \<and> extends s [] (fst (WithWorkspace L i w b s))"
proof -
  obtain s1 tc where 1: "TaskExecutionContext i s = (s1, tc)" by (meson surj_pair)
  note t = TaskExecutionContext_well [OF assms 1]
  let ?c = "\<lparr>gc_ParentRef = gb_BaseRef b, gc_PersistHash = [], gc_ParentHash = []\<rparr>"
  let ?s2 = "s1\<lparr>ss_bases := ss_bases s1 @ [b], ss_commits := ss_commits s1 @ [?c]\<rparr>"
  have w2: "well_scoped ?s2" by (rule well_scoped_same_ctxs [OF t(1)]) (simp_all add: store_grows_def)
  have i1: "i < length (ss_ctxs s1)" using assms(2) t(2) by simp
  have e: "extends s [] ?s2" by (rule extends_quiet [of _ _ "[]" "[]"]) (simp_all add: t)
  let ?out = "workspace_ctx i (length (ss_bases s1)) (length (ss_commits s1)) w tc (ctx_of s1 i)"
  have "well_ctx ?s2 (length (ss_ctxs ?s2)) ?out"
    using well_scopedD [OF t(1) i1] i1 by (simp add: well_ctx_def workspace_ctx_def)
  then have n: "well_ctx ?s2 (length (ss_ctxs ?s2)) (synced ?s2 ?out)" by simp
  show ?thesis
  proof (cases "sl_env L (synced ?s2 ?out)")
    case (Some err)
    with w2 e show ?thesis by (simp add: WithWorkspace_def 1 Let_def)
  next
    case None
    from new_ctx_step [OF w2 n] e None show ?thesis
      by (auto simp: WithWorkspace_def 1 Let_def new_ctx_def intro: extends_trans [where ps = "[]" and qs = "[]", simplified])
  qed
qed

lemma NewChildContext_step:
  assumes "well_scoped s" "i < length (ss_ctxs s)"
  shows "well_scoped (fst (NewChildContext L i k m fb ins s)) \<and> extends s [] (fst (NewChildContext L i k m fb ins s))"
proof -
  obtain t r where tr: "NewChildContext L i k m fb ins s = (t, r)" by fastforce
  show ?thesis
  proof (cases r)
    case (Inr a)
    note n = NewChildContext_ok [OF assms tr [unfolded Inr]]
    with extends_quiet [OF n(4,5)] tr show ?thesis by simp
  next
    case (Inl e)
    obtain s1 tc where 1: "TaskExecutionContext i s = (s1, tc)" by (meson surj_pair)
    note w = TaskExecutionContext_well [OF assms 1]
    have i1: "i < length (ss_ctxs s1)" using assms(2) w(2) by simp
    let ?p = "ctx_of s1 i"
    let ?id = "scopeId (sm_ID m) fb k"
    obtain s2 q where 2: "newResolutionContext L (rx_commit ?p) (tracker_child (rx_path ?p) ?id) (rx_counters ?p) k ?id
        (case ins of None \<Rightarrow> [] | Some ps \<Rightarrow> ps) (JobContext tc) (rx_Options ?p) s1 = (s2, q)" by (meson surj_pair)
    have "t = s \<or> t = s2" using tr Inl by (auto simp: NewChildContext_def 1 2 Let_def split: sum.splits if_splits)
    moreover have "well_scoped s2 \<and> ss_maps s2 = ss_maps s @ [[], []] \<and> ss_done s2 = ss_done s @ [False]"
      using newResolution_step [OF w(1) _ _ 2] well_scopedD [OF w(1) i1] w(3,4) by (simp add: well_ctx_def)
    then have "well_scoped s2 \<and> extends s [] s2" using extends_quiet by blast
    ultimately show ?thesis using assms(1) tr by auto
  qed
qed

text \<open>One operation, and any run.\<close>

lemma exec_op_step:
  assumes "well_scoped s" "op_applies s p" "exec_op L p s = (t, ps)"
  shows "well_scoped t" "extends s ps t"
proof -
  have view: "well_scoped (fst (new_ctx ((ctx_of s i)\<lparr>rx_data := d\<rparr>) s)) \<and> extends s [] (fst (new_ctx ((ctx_of s i)\<lparr>rx_data := d\<rparr>) s))"
    if "i < length (ss_ctxs s)" "tm_Sequence d = tm_Sequence (rx_data (ctx_of s i))" "tm_States d = tm_States (rx_data (ctx_of s i))" for i d
  proof -
    have "well_ctx s (length (ss_ctxs s)) (ctx_of s i)"
      by (rule well_ctx_grows [OF well_scopedD [OF assms(1) that(1)] store_grows_refl]) (use that(1) in simp)
    from new_ctx_step [OF assms(1) well_ctx_data [OF this this that(2,3)]] show ?thesis .
  qed
  have quiet: "well_scoped u \<and> extends s [] u" if "ss_ctxs u = ss_ctxs s" "store_grows s u" "ss_maps u = ss_maps s" "ss_done u = ss_done s" for u
    using well_scoped_same_ctxs [OF assms(1) that(2,1)] extends_quiet [of u s "[]" "[]"] that by simp
  have upd: "well_scoped (upd_ctx i f s) \<and> extends s [] (upd_ctx i f s)" if "well_ctx s i (f (ctx_of s i))" for i f
    using well_scoped_upd_ctx [of s i f] assms(1) that extends_quiet [of "upd_ctx i f s" s "[]" "[]"] by simp
  have "well_scoped t \<and> extends s ps t"
  proof (cases p)
    case (OpChild i k m fb ins)
    with assms NewChildContext_step [of s i L k m fb ins] show ?thesis by (auto simp: op_applies_def)
  next
    case (OpView i)
    with assms view [of i "rx_data (ctx_of s i)"] show ?thesis by (auto simp: op_applies_def ExecutionView_def)
  next
    case (OpFailure i f)
    with assms view [of i] show ?thesis by (auto simp: op_applies_def WithFailure_def)
  next
    case (OpLocals i ls)
    with assms view [of i] show ?thesis by (auto simp: op_applies_def view_WithLocals_def)
  next
    case (OpWorkspace i w b)
    with assms WithWorkspace_step [of s i L w b] show ?thesis by (auto simp: op_applies_def)
  next
    case (OpWorkspaceID i n)
    with assms(3) have "t = fst (NextWorkspaceID L i n s)" "ps = []" by auto
    then show ?thesis using quiet [of t] by (simp add: NextWorkspaceID_def Let_def store_grows_def)
  next
    case (OpContext i)
    obtain u c where u: "TaskExecutionContext i s = (u, c)" by (meson surj_pair)
    from OpContext assms(2) have "i < length (ss_ctxs s)" by (simp add: op_applies_def)
    from TaskExecutionContext_well [OF assms(1) this u] extends_quiet [of u s "[]" "[]"] OpContext u assms(3)
    show ?thesis by auto
  next
    case (OpGitState i c)
    with assms(3) have "t = UpdateGitState i c s" "ps = []" by auto
    then show ?thesis using quiet [of t] by (simp add: UpdateGitState_def store_grows_def)
  next
    case (OpRemember i as)
    with assms(3) show ?thesis using quiet [of t] by (auto simp: store_grows_def)
  next
    case (OpAdopt i j)
    with assms show ?thesis using upd [of i] well_scopedD [OF assms(1), of i] well_scopedD [OF assms(1), of j]
      by (auto simp: op_applies_def AdoptExecution_def Let_def well_ctx_def)
  next
    case (OpForward i j)
    with assms show ?thesis using upd [of i] well_scopedD [OF assms(1), of i]
      by (auto simp: op_applies_def PublishWorkspaceResult_def)
  next
    case (OpPublish i o')
    with assms PublishExecution_extends [of s i L o' t ps] show ?thesis by (simp add: op_applies_def)
  qed
  then show "well_scoped t" "extends s ps t" by simp_all
qed

lemma run_ops_extends:
  "well_scoped s \<Longrightarrow> run_ops L ops s = (t, ps) \<Longrightarrow> well_scoped t \<and> extends s ps t"
proof (induction ops arbitrary: s t ps)
  case (Cons p ops)
  show ?case
  proof (cases "op_applies s p")
    case True
    obtain s1 out where 1: "exec_op L p s = (s1, out)" by fastforce
    obtain u outs where 2: "run_ops L ops s1 = (u, outs)" by fastforce
    note e = exec_op_step [OF Cons.prems(1) True 1]
    from True 1 2 Cons.prems(2) have t: "t = u" "ps = out @ outs" by auto
    from Cons.IH [OF e(1) 2] t show ?thesis using extends_trans [OF e(2)] by simp
  next
    case False
    with Cons show ?thesis by simp
  qed
qed simp

end
