(* ===== verification/Scope_Lookup.thy ===== *)
theory Scope_Lookup
  imports Scope_Publish
begin

text \<open>
  What templates read of other nodes' results, and the properties of scopes. The functions
  \<open>state_exists\<close>, \<open>state_output\<close> and \<open>state_field\<close>
  (\<^verbatim>\<open>state_lookup_helpers.go\<close>), and the snapshot from which the defaults of an
  extension are resolved inside a task (\<^verbatim>\<open>deferred_inputs.go\<close>), which passes through JSON.
\<close>

section \<open>Lookups\<close>

text \<open>A state with one run without an id and a time is a placeholder of validation; the zero time is 0.\<close>

definition isValidationPlaceholderState :: "step_output \<Rightarrow> bool" where
  "isValidationPlaceholderState st = (case step_Runs st of
     [r] \<Rightarrow> run_RunID r = [] \<and> run_Timestamp r = 0
   | _ \<Rightarrow> False)"

definition stateExists :: "(string \<times> step_output) list \<Rightarrow> string \<Rightarrow> bool" where
  "stateExists states k \<longleftrightarrow> trim_space k \<noteq> [] \<and>
     (case map_of states k of None \<Rightarrow> False | Some st \<Rightarrow> \<not> isValidationPlaceholderState st)"

definition outputs_value :: "step_output \<Rightarrow> gval" where
  "outputs_value st = GMap (case step_Outputs st of None \<Rightarrow> [] | Some m \<Rightarrow> m)"

fun walk_path :: "gval \<Rightarrow> string list \<Rightarrow> gval option" where
  "walk_path v [] = Some v"
| "walk_path v (seg # segs) =
     (if seg = [] then None
      else case v of GMap m \<Rightarrow> (case map_of m seg of None \<Rightarrow> None | Some w \<Rightarrow> walk_path w segs) | _ \<Rightarrow> None)"

definition stateOutput :: "(string \<times> step_output) list \<Rightarrow> string \<Rightarrow> string \<Rightarrow> gval option" where
  "stateOutput states k path =
     (if \<not> stateExists states k then None
      else case map_of states k of
        None \<Rightarrow> None
      | Some st \<Rightarrow> if trim_space path = [] then Some (outputs_value st)
          else walk_path (outputs_value st) (split_on CHR ''.'' path))"

definition stateField :: "(string \<times> step_output) list \<Rightarrow> string \<Rightarrow> string \<Rightarrow> gval option" where
  "stateField states k f =
     (if trim_space f = [] \<or> \<not> stateExists states k then None
      else case map_of states k of
        None \<Rightarrow> None
      | Some st \<Rightarrow> (case Option.bind (step_Outputs st) (\<lambda>m. map_of m ''fields'') of
          Some (GMap fs) \<Rightarrow> map_of fs f
        | _ \<Rightarrow> None))"

section \<open>The snapshot for deferred defaults\<close>

definition strip_run :: "run_output \<Rightarrow> run_output" where
  "strip_run r = r\<lparr>run_RunID := [], run_Timestamp := 0\<rparr>"

definition strip_steps :: "(string \<times> step_output) list \<Rightarrow> (string \<times> step_output) list" where
  "strip_steps m = map (\<lambda>(k, st). (k, st\<lparr>step_Runs := map strip_run (step_Runs st)\<rparr>)) m"

record input_snapshot =
  sn_Data :: template_data
  sn_Sequence :: "(string \<times> step_output) list"
  sn_States :: "(string \<times> step_output) list"

definition InputSnapshot :: "nat \<Rightarrow> scope_store \<Rightarrow> input_snapshot" where
  "InputSnapshot i s = (let d = rx_data (ctx_of s i) in
     \<lparr>sn_Data = d\<lparr>tm_Scope := ([], 0)\<rparr>, sn_Sequence = strip_steps (ss_maps s ! tm_Sequence d),
      sn_States = strip_steps (ss_maps s ! tm_States d)\<rparr>)"

lemma map_of_strip: "map_of (strip_steps m) k = map_option (\<lambda>st. st\<lparr>step_Runs := map strip_run (step_Runs st)\<rparr>) (map_of m k)"
  by (induction m) (auto simp: strip_steps_def)

text \<open>The snapshot keeps the results of all runs.\<close>

lemma strip_history: "step_history (st\<lparr>step_Runs := map strip_run (step_Runs st)\<rparr>) = step_history st"
  by (simp add: step_history_def strip_run_def comp_def)

section \<open>Counters\<close>

text \<open>The number a path was last given; no operation takes one back.\<close>

definition next_seq :: "scope_store \<Rightarrow> nat \<Rightarrow> string \<Rightarrow> nat" where
  "next_seq s a p = (case map_of (ss_counters s ! a) p of None \<Rightarrow> 0 | Some n \<Rightarrow> n)"

definition counts_on :: "scope_store \<Rightarrow> scope_store \<Rightarrow> bool" where
  "counts_on s t \<longleftrightarrow> length (ss_counters s) \<le> length (ss_counters t) \<and>
     (\<forall>a < length (ss_counters s). \<forall>p. next_seq s a p \<le> next_seq t a p)"

lemma counts_on_refl [simp]: "counts_on s s" by (simp add: counts_on_def)

lemma counts_on_trans: "counts_on s t \<Longrightarrow> counts_on t u \<Longrightarrow> counts_on s u"
  unfolding counts_on_def by (meson le_trans order.strict_trans2)

lemma counts_on_same: "ss_counters t = ss_counters s @ cs \<Longrightarrow> counts_on s t"
  by (simp add: counts_on_def next_seq_def nth_append)

lemma counts_on_update:
  "ss_counters t = (ss_counters s)[a := AList.update p (Suc (next_seq s a p)) (ss_counters s ! a)] \<Longrightarrow> counts_on s t"
  unfolding counts_on_def
proof (intro conjI allI impI)
  assume t: "ss_counters t = (ss_counters s)[a := AList.update p (Suc (next_seq s a p)) (ss_counters s ! a)]"
  then show "length (ss_counters s) \<le> length (ss_counters t)" by simp
  fix b q assume b: "b < length (ss_counters s)"
  show "next_seq s b q \<le> next_seq t b q"
    using b by (cases "b = a"; cases "q = p") (simp_all add: next_seq_def t update_conv')
qed

lemma nextInvocation_eq:
  "nextInvocation segs a s =
     (s\<lparr>ss_counters := (ss_counters s)[a := AList.update (currentPath segs) (Suc (next_seq s a (currentPath segs))) (ss_counters s ! a)]\<rparr>,
      (currentPath segs, next_seq s a (currentPath segs)))"
  by (simp add: nextInvocation_def next_seq_def Let_def)

lemma newResolutionContext_counters:
  assumes "newResolutionContext L commit path counters kind ident inputs job opts s = (t, r)"
  shows "ss_counters t = (ss_counters s)[counters := AList.update (currentPath path)
    (Suc (next_seq s counters (currentPath path))) (ss_counters s ! counters)] @ [[]]"
  using assms by (auto simp: newResolutionContext_def nextInvocation_eq draw_def next_seq_def new_ctx_def Let_def
      split: option.splits if_splits)

lemma newResolutionContext_invocation:
  assumes "newResolutionContext L commit path counters kind ident inputs job opts s = (t, r)"
    "counters < length (ss_counters s)"
  shows "counts_on s t" "next_seq t counters (currentPath path) = Suc (next_seq s counters (currentPath path))"
    "r = Inr a \<Longrightarrow> a = length (ss_ctxs s) \<and> length (ss_ctxs t) = Suc a \<and> rx_counters (ctx_of t a) = counters \<and>
       tx_Invocation (tm_Context (rx_data (ctx_of t a))) =
         \<lparr>inv_Hash = GetInvocationHash (sl_hash L) (currentPath path, next_seq s counters (currentPath path)),
          inv_NodePath = currentPath path, inv_Seq = next_seq s counters (currentPath path)\<rparr>"
proof -
  let ?cs = "(ss_counters s)[counters := AList.update (currentPath path) (Suc (next_seq s counters (currentPath path))) (ss_counters s ! counters)] @ [[]]"
  note t = newResolutionContext_counters [OF assms(1)]
  let ?s' = "s\<lparr>ss_counters := butlast ?cs\<rparr>"
  have "counts_on s ?s'" by (rule counts_on_update) simp
  moreover have "counts_on ?s' t" by (rule counts_on_same [of _ _ "[[]]"]) (simp add: t)
  ultimately show "counts_on s t" by (rule counts_on_trans)
  show "next_seq t counters (currentPath path) = Suc (next_seq s counters (currentPath path))"
    using assms(2) by (simp add: next_seq_def [of t] t nth_append update_conv')
  assume "r = Inr a"
  with assms(1) show "a = length (ss_ctxs s) \<and> length (ss_ctxs t) = Suc a \<and> rx_counters (ctx_of t a) = counters \<and>
       tx_Invocation (tm_Context (rx_data (ctx_of t a))) =
         \<lparr>inv_Hash = GetInvocationHash (sl_hash L) (currentPath path, next_seq s counters (currentPath path)),
          inv_NodePath = currentPath path, inv_Seq = next_seq s counters (currentPath path)\<rparr>"
    by (auto simp: newResolutionContext_def nextInvocation_eq draw_def next_seq_def new_ctx_def Let_def
        NewTaskExecutionContext_def split: option.splits if_splits)
qed

lemma TaskExecutionContext_counters: "ss_counters (fst (TaskExecutionContext i s)) = ss_counters s"
  by (simp add: TaskExecutionContext_def Let_def syncWorkspace_def)

lemma NewChildContext_counts:
  assumes "well_scoped s" "i < length (ss_ctxs s)" "NewChildContext L i k m fb ins s = (t, r)"
  shows "counts_on s t"
    "r = Inr a \<Longrightarrow> \<exists>path. let inv = tx_Invocation (tm_Context (rx_data (ctx_of t a))) in
      inv_NodePath inv = path \<and> inv_Seq inv = next_seq s (rx_counters (ctx_of t a)) path \<and>
      next_seq t (rx_counters (ctx_of t a)) path = Suc (next_seq s (rx_counters (ctx_of t a)) path) \<and>
      rx_counters (ctx_of t a) < length (ss_counters s) \<and>
      inv_Hash inv = GetInvocationHash (sl_hash L) (inv_NodePath inv, inv_Seq inv)"
proof -
  obtain s1 tc where 1: "TaskExecutionContext i s = (s1, tc)" by (meson surj_pair)
  note w = TaskExecutionContext_well [OF assms(1,2) 1]
  have c1: "ss_counters s1 = ss_counters s" using TaskExecutionContext_counters [of i s] 1 by simp
  have i1: "i < length (ss_ctxs s1)" using assms(2) w(2) by simp
  let ?p = "ctx_of s1 i"
  let ?id = "scopeId (sm_ID m) fb k"
  let ?path = "currentPath (tracker_child (rx_path ?p) ?id)"
  obtain s2 q where 2: "newResolutionContext L (rx_commit ?p) (tracker_child (rx_path ?p) ?id) (rx_counters ?p) k ?id
      (case ins of None \<Rightarrow> [] | Some ps \<Rightarrow> ps) (JobContext tc) (rx_Options ?p) s1 = (s2, q)" by (meson surj_pair)
  have r: "rx_counters ?p < length (ss_counters s1)" using well_scopedD [OF w(1) i1] by (simp add: well_ctx_def)
  note n = newResolutionContext_invocation [OF 2 r]
  have n1: "counts_on s s2" using n(1) by (simp add: counts_on_def c1 next_seq_def)
  have cases: "t = s \<or> ss_counters t = ss_counters s2"
    using assms(3) by (auto simp: NewChildContext_def 1 2 Let_def split: sum.splits if_splits)
  then show "counts_on s t" using n1 by (auto simp: counts_on_def next_seq_def)
  assume "r = Inr a"
  with assms(3) obtain b perms where b: "q = Inr b" "a = b" "t = upd_ctx b (inherit i k m perms (ctx_of s2 i)) s2"
    by (auto simp: NewChildContext_def 1 2 Let_def split: sum.splits if_splits)
  note nb = n(3) [OF b(1)]
  then have nb2: "rx_counters (ctx_of s2 b) = rx_counters ?p" "b < length (ss_ctxs s2)" by (blast, simp)
  have "tx_Invocation (child_source k m t) = tx_Invocation t" for t
    by (simp add: child_source_def split: option.splits)
  moreover have "tm_Context (shared_maps k d d') = tm_Context d'" for d d'
    by (simp add: shared_maps_def split: scope_type.split)
  ultimately
  have inv: "tx_Invocation (tm_Context (rx_data (ctx_of t a))) = tx_Invocation (tm_Context (rx_data (ctx_of s2 b)))"
    "rx_counters (ctx_of t a) = rx_counters ?p"
    using nb2 by (simp_all add: b ctx_of_upd inherit_def Let_def)
  show "\<exists>path. let inv = tx_Invocation (tm_Context (rx_data (ctx_of t a))) in
      inv_NodePath inv = path \<and> inv_Seq inv = next_seq s (rx_counters (ctx_of t a)) path \<and>
      next_seq t (rx_counters (ctx_of t a)) path = Suc (next_seq s (rx_counters (ctx_of t a)) path) \<and>
      rx_counters (ctx_of t a) < length (ss_counters s) \<and>
      inv_Hash inv = GetInvocationHash (sl_hash L) (inv_NodePath inv, inv_Seq inv)"
  proof -
    have e: "next_seq s1 c p = next_seq s c p" "next_seq t c p = next_seq s2 c p" for c p
      by (simp_all add: next_seq_def c1 b(3))
    from nb have "tx_Invocation (tm_Context (rx_data (ctx_of s2 b))) =
         \<lparr>inv_Hash = GetInvocationHash (sl_hash L) (?path, next_seq s1 (rx_counters ?p) ?path),
          inv_NodePath = ?path, inv_Seq = next_seq s1 (rx_counters ?p) ?path\<rparr>" by blast
    with n(2) r show ?thesis by (intro exI [of _ ?path]) (simp add: inv Let_def e c1)
  qed
qed

lemma exec_op_counts:
  assumes "well_scoped s" "op_applies s p" "exec_op L p s = (t, ps)"
  shows "counts_on s t"
proof -
  have same: "counts_on s u" if "ss_counters u = ss_counters s" for u
    using counts_on_same [of u s "[]"] that by simp
  show ?thesis
  proof (cases p)
    case (OpChild i k m fb ins)
    obtain u r where u: "NewChildContext L i k m fb ins s = (u, r)" by fastforce
    with OpChild assms NewChildContext_counts(1) [OF assms(1) _ u] show ?thesis by (simp add: op_applies_def)
  next
    case (OpWorkspace i w b)
    obtain s1 tc where 1: "TaskExecutionContext i s = (s1, tc)" by (meson surj_pair)
    have "ss_counters s1 = ss_counters s" using TaskExecutionContext_counters [of i s] 1 by simp
    then have "ss_counters (fst (WithWorkspace L i w b s)) = ss_counters s"
      by (simp add: WithWorkspace_def 1 Let_def new_ctx_def split: option.split)
    with OpWorkspace assms(3) show ?thesis by (auto intro: same)
  next
    case (OpWorkspaceID i n)
    let ?c = "ctx_of s i"
    let ?t = "tm_Context (rx_data ?c)"
    let ?k = "(case tx_Workspace ?t of None \<Rightarrow> [] | Some w \<Rightarrow> wk_ScopeID w @ ''/'') @ inv_NodePath (tx_Invocation ?t) @ ''/'' @ n"
    from OpWorkspaceID have "t = fst (NextWorkspaceID L i n s)" using assms(3) by simp
    then have "ss_counters t = (ss_counters s)[rx_wcounters ?c :=
        AList.update ?k (Suc (next_seq s (rx_wcounters ?c) ?k)) (ss_counters s ! rx_wcounters ?c)]"
      by (simp add: NextWorkspaceID_def Let_def next_seq_def split: option.splits)
    then show ?thesis by (rule counts_on_update)
  next
    case (OpContext i)
    with assms(3) same [of t] TaskExecutionContext_counters [of i s] show ?thesis by auto
  next
    case (OpPublish i o')
    have f: "ss_counters (forward_results j u) = ss_counters u" for j u
    proof (induction j u rule: forward_results.induct)
      case (1 i s)
      then show ?case
        by (subst forward_results.simps) (auto simp: Let_def PublishWorkspaceResult_def split: option.splits)
    qed
    have a: "ss_counters (fst (appendExecution L i o' u)) = ss_counters u" for u
      by (auto simp: appendExecution_def Let_def split: sum.split option.split prod.split)
    have "ss_counters (fst (PublishExecution L i o' s)) = ss_counters s"
      using a [of "s\<lparr>ss_done := (ss_done s)[rx_done (ctx_of s i) := True]\<rparr>"]
      by (auto simp: PublishExecution_def Let_def f split: prod.split option.split)
    moreover have "t = fst (PublishExecution L i o' s)" using OpPublish assms(3) by (auto split: prod.splits option.splits)
    ultimately show ?thesis by (simp add: same)
  qed (use assms(3) in \<open>auto simp: ExecutionView_def WithFailure_def view_WithLocals_def new_ctx_def UpdateGitState_def
      AdoptExecution_def PublishWorkspaceResult_def Let_def intro!: same\<close>)
qed

lemma run_ops_counts: "well_scoped s \<Longrightarrow> run_ops L ops s = (t, ps) \<Longrightarrow> counts_on s t"
proof (induction ops arbitrary: s t ps)
  case (Cons p ops)
  show ?case
  proof (cases "op_applies s p")
    case True
    obtain s1 out where 1: "exec_op L p s = (s1, out)" by fastforce
    obtain u outs where 2: "run_ops L ops s1 = (u, outs)" by fastforce
    from True 1 2 Cons.prems(2) have t: "t = u" by auto
    from Cons.IH [OF exec_op_step(1) [OF Cons.prems(1) True 1] 2] t exec_op_counts [OF Cons.prems(1) True 1]
    show ?thesis by (blast intro: counts_on_trans)
  next
    case False
    with Cons show ?thesis by simp
  qed
qed simp

section \<open>Properties\<close>

text \<open>C11. Along every run of operations on contexts - creating children, taking views, entering
  workspaces, adopting views, publishing - what a map has under a key grows exactly by the outputs
  published there, in their order, and nothing else changes it. No position is published twice, and none
  that was written before: a replayed or repeated completion of an invocation has no effect.\<close>

theorem outputs_once_in_order:
  assumes "well_scoped s" "run_ops L ops s = (t, ps)" "a < length (ss_maps s)"
  shows "history t a k = history s a k @ results_for a k ps \<and> distinct (map fst ps) \<and>
    (\<forall>q. q \<in> fst ` set ps \<and> q < length (ss_done s) \<longrightarrow> \<not> ss_done s ! q)"
  using extendsD [of s ps t] run_ops_extends [OF assms(1,2)] assms(3) by blast


text \<open>C38. Inside a task, the defaults of an extension are resolved against a snapshot in which
  the runs have lost their ids and times, and one run without them is how a placeholder is recognized. So a
  state that ran exactly twice does not exist for \<^verbatim>\<open>state_exists\<close>, \<^verbatim>\<open>state_output\<close> and
  \<^verbatim>\<open>state_field\<close> there, although it does outside the task.\<close>

theorem deferred_state_lost:
  "stateExists (sn_States (InputSnapshot i s)) k \<longleftrightarrow>
     stateExists (ss_maps s ! tm_States (rx_data (ctx_of s i))) k \<and>
     length (history s (tm_States (rx_data (ctx_of s i))) k) \<noteq> 2"
proof (cases "map_of (ss_maps s ! tm_States (rx_data (ctx_of s i))) k")
  case None
  then show ?thesis by (simp add: InputSnapshot_def Let_def stateExists_def map_of_strip)
next
  case (Some st)
  then show ?thesis
    by (cases "step_Runs st" rule: remdups_adj.cases)
      (auto simp: InputSnapshot_def Let_def stateExists_def map_of_strip isValidationPlaceholderState_def strip_run_def
        history_def step_history_def)
qed

text \<open>C36. No two invocations of a run are the same: a context that is created after another and
  counts with it has another path or another sequence number, whatever happened in between - also when
  a state is visited again, or an identifier contains a slash. The invocation hash, by which tasks and
  child jobs are told apart, is taken over exactly these two.\<close>

theorem invocations_distinct:
  assumes "well_scoped s" "i < length (ss_ctxs s)" "NewChildContext L i k m fb ins s = (t, Inr a)"
    "run_ops L ops t = (u, ps)" "j < length (ss_ctxs u)" "NewChildContext L j k' m' fb' ins' u = (v, Inr b)"
    "rx_counters (ctx_of v b) = rx_counters (ctx_of t a)"
  shows "let x = tx_Invocation (tm_Context (rx_data (ctx_of t a))); y = tx_Invocation (tm_Context (rx_data (ctx_of v b))) in
    (inv_NodePath x, inv_Seq x) \<noteq> (inv_NodePath y, inv_Seq y) \<and>
    inv_Hash x = GetInvocationHash (sl_hash L) (inv_NodePath x, inv_Seq x) \<and>
    inv_Hash y = GetInvocationHash (sl_hash L) (inv_NodePath y, inv_Seq y)"
proof -
  note n = NewChildContext_ok [OF assms(1,2,3)]
  have w: "well_scoped u" using run_ops_extends [OF n(3) assms(4)] by simp
  let ?c = "rx_counters (ctx_of t a)"
  have c: "?c < length (ss_counters t)"
    using NewChildContext_counts [OF assms(1,2,3)] by (auto simp: Let_def counts_on_def)
  have mono: "next_seq t ?c p \<le> next_seq u ?c p" for p
    using run_ops_counts [OF n(3) assms(4)] c by (simp add: counts_on_def)
  from NewChildContext_counts(2) [OF assms(1,2,3) refl] NewChildContext_counts(2) [OF w assms(5,6) refl] mono
  show ?thesis unfolding assms(7) by (auto simp: Let_def) (metis Suc_n_not_le_n)
qed

end
