(* ===== verification/Scope_Restart.thy ===== *)
theory Scope_Restart
  imports Scope_Lookup
begin

text \<open>
  \<^verbatim>\<open>pkg/template/context_patch.go\<close> and the restart half of \<^verbatim>\<open>attempt.go\<close>: merge
  patches, their application to a context and its parents, the copy of a graph of contexts a restarted
  scope runs on, and its adoption. The JSON codec of a job context is the record \<open>restart_lib\<close>; a copy
  through JSON of values is the values. A nil receiver is \<open>None\<close>.
\<close>

section \<open>Merge patches\<close>

text \<open>A deep copy, which as a value is the map itself.\<close>

fun cloneAnyMap :: "payload \<Rightarrow> payload" where
  "cloneAnyMap [] = []"
| "cloneAnyMap ((k, GMap n) # m) = (k, GMap (cloneAnyMap n)) # cloneAnyMap m"
| "cloneAnyMap ((k, v) # m) = (k, v) # cloneAnyMap m"

lemma cloneAnyMap_id [simp]: "cloneAnyMap m = m"
  by (induction m rule: cloneAnyMap.induct) auto

function applyMapMergePatch :: "payload \<Rightarrow> payload \<Rightarrow> payload" where
  "applyMapMergePatch dst [] = dst"
| "applyMapMergePatch dst ((k, v) # patch) = applyMapMergePatch
     (case v of
        GNil \<Rightarrow> AList.delete k dst
      | GMap pmap \<Rightarrow> (case map_of dst k of
          Some (GMap existing) \<Rightarrow> AList.update k (GMap (applyMapMergePatch existing pmap)) dst
        | _ \<Rightarrow> AList.update k (GMap (cloneAnyMap pmap)) dst)
      | _ \<Rightarrow> AList.update k v dst) patch"
  by pat_completeness auto

termination
  by (relation "measure (\<lambda>(dst, patch). size (GMap patch))") auto

text \<open>RFC 7396, for objects: a member that is an object is merged into the target's member, or into an
  empty object if that is none.\<close>

function rfc_merge :: "payload \<Rightarrow> payload \<Rightarrow> payload" where
  "rfc_merge target [] = target"
| "rfc_merge target ((k, v) # patch) = rfc_merge
     (case v of
        GNil \<Rightarrow> AList.delete k target
      | GMap pmap \<Rightarrow> AList.update k (GMap (rfc_merge
          (case map_of target k of Some (GMap existing) \<Rightarrow> existing | _ \<Rightarrow> []) pmap)) target
      | _ \<Rightarrow> AList.update k v target) patch"
  by pat_completeness auto

termination
  by (relation "measure (\<lambda>(target, patch). size (GMap patch))") auto

text \<open>Objects: every key occurs once, at every depth. \<open>null_free\<close>: no member is null, at any depth.\<close>

fun proper_object :: "payload \<Rightarrow> bool" where
  "proper_object [] = True"
| "proper_object ((k, GMap n) # m) = (k \<notin> fst ` set m \<and> proper_object n \<and> proper_object m)"
| "proper_object ((k, v) # m) = (k \<notin> fst ` set m \<and> proper_object m)"

fun null_free :: "payload \<Rightarrow> bool" where
  "null_free [] = True"
| "null_free ((k, GMap n) # m) = (null_free n \<and> null_free m)"
| "null_free ((k, v) # m) = (v \<noteq> GNil \<and> null_free m)"

text \<open>Nulls only where they delete a member of an object that is there: at the top of the patch.\<close>

definition top_nulls :: "payload \<Rightarrow> bool" where
  "top_nulls patch \<longleftrightarrow> (\<forall>(k, v) \<in> set patch. case v of GMap n \<Rightarrow> null_free n | _ \<Rightarrow> True)"

lemma proper_object_keys: "proper_object ((k, v) # m) \<Longrightarrow> k \<notin> fst ` set m \<and> proper_object m"
  by (cases v) auto

lemma update_new: "k \<notin> fst ` set m \<Longrightarrow> AList.update k v m = m @ [(k, v)]"
  by (induction m) auto

text \<open>Merging an object into an empty one copies it, exactly if there is no null in it.\<close>

lemma rfc_merge_fresh:
  "proper_object patch \<Longrightarrow> fst ` set m \<inter> fst ` set patch = {} \<Longrightarrow> null_free patch \<Longrightarrow> rfc_merge m patch = m @ patch"
proof (induction m patch rule: rfc_merge.induct)
  case (2 m k v patch)
  have new: "map_of m k = None" "k \<notin> fst ` set m" using 2(4) by (auto simp: map_of_eq_None_iff)
  note keys = proper_object_keys [OF 2(3)]
  show ?case
  proof (cases v)
    case (GMap n)
    with 2(3,5) new 2(1) [OF GMap] have n: "rfc_merge [] n = n" by simp
    from 2(2) GMap keys 2(4,5) new show ?thesis by (simp add: n update_new)
  qed (use 2(2,4,5) keys new in \<open>simp_all add: update_new\<close>)
qed simp

text \<open>The code follows the RFC for patches whose nulls are at the top.\<close>

lemma merge_top_nulls:
  "proper_object patch \<Longrightarrow> top_nulls patch \<Longrightarrow> applyMapMergePatch dst patch = rfc_merge dst patch"
proof (induction dst patch rule: applyMapMergePatch.induct)
  case (2 dst k v patch)
  note keys = proper_object_keys [OF 2(3)]
  have tail: "top_nulls patch" using 2(4) by (simp add: top_nulls_def)
  show ?case
  proof (cases v)
    case (GMap n)
    with 2(3,4) have n: "proper_object n" "null_free n" by (simp_all add: top_nulls_def)
    have "top_nulls n"
      using n(2) by (induction n rule: null_free.induct) (auto simp: top_nulls_def)
    with n 2(1) [OF GMap] have sub: "map_of dst k = Some (GMap e) \<Longrightarrow> applyMapMergePatch e n = rfc_merge e n" for e by simp
    have fresh: "rfc_merge [] n = n" using rfc_merge_fresh [of n "[]"] n by simp
    from 2(2) keys tail GMap sub fresh show ?thesis
      by (cases "map_of dst k") (auto split: gval.splits)
  qed (use 2(2) keys tail in simp_all)
qed simp

text \<open>What is under a key afterwards, whatever order the patch is gone through in.\<close>

definition merged_member :: "(payload \<Rightarrow> payload \<Rightarrow> payload) \<Rightarrow> (payload \<Rightarrow> payload) \<Rightarrow> gval option \<Rightarrow> gval option \<Rightarrow> gval option" where
  "merged_member merge fresh old v = (case v of
     None \<Rightarrow> old
   | Some GNil \<Rightarrow> None
   | Some (GMap n) \<Rightarrow> Some (GMap (case old of Some (GMap e) \<Rightarrow> merge e n | _ \<Rightarrow> fresh n))
   | Some w \<Rightarrow> Some w)"

lemma rfc_lookup:
  "proper_object patch \<Longrightarrow>
   map_of (rfc_merge dst patch) k = merged_member rfc_merge (rfc_merge []) (map_of dst k) (map_of patch k)"
proof (induction dst patch rule: rfc_merge.induct)
  case (1 dst)
  show ?case by (simp add: merged_member_def)
next
  case (2 dst j v patch)
  note keys = proper_object_keys [OF 2(3)]
  have j: "map_of patch j = None" using keys by (simp add: map_of_eq_None_iff)
  show ?case
    using 2(2) keys j by (cases v; cases "k = j")
      (auto simp: merged_member_def update_conv' delete_conv' split: option.splits gval.splits)
qed

lemma merge_lookup:
  "proper_object patch \<Longrightarrow>
   map_of (applyMapMergePatch dst patch) k = merged_member applyMapMergePatch (\<lambda>n. n) (map_of dst k) (map_of patch k)"
proof (induction dst patch rule: applyMapMergePatch.induct)
  case (1 dst)
  show ?case by (simp add: merged_member_def)
next
  case (2 dst j v patch)
  note keys = proper_object_keys [OF 2(3)]
  have j: "map_of patch j = None" using keys by (simp add: map_of_eq_None_iff)
  show ?case
    using 2(2) keys j by (cases v; cases "k = j")
      (auto simp: merged_member_def update_conv' delete_conv' split: option.splits gval.splits)
qed

text \<open>The RFC's merge leaves no null that was not there.\<close>

lemma null_free_entries: "null_free m \<longleftrightarrow> (\<forall>v \<in> snd ` set m. v \<noteq> GNil \<and> (\<forall>n. v = GMap n \<longrightarrow> null_free n))"
  by (induction m rule: null_free.induct) auto

lemma in_update: "x \<in> set (AList.update k v m) \<Longrightarrow> x = (k, v) \<or> x \<in> set m"
  by (induction m) (auto split: if_splits)

lemma null_free_update: "null_free m \<Longrightarrow> v \<noteq> GNil \<Longrightarrow> (\<And>n. v = GMap n \<Longrightarrow> null_free n) \<Longrightarrow> null_free (AList.update k v m)"
  unfolding null_free_entries [of m] null_free_entries [of "AList.update k v m"]
  by (auto dest!: in_update)

lemma null_free_plain: "null_free m \<Longrightarrow> v \<noteq> GNil \<Longrightarrow> \<forall>n. v \<noteq> GMap n \<Longrightarrow> null_free (AList.update k v m)"
  by (rule null_free_update) auto

lemma null_free_delete: "null_free m \<Longrightarrow> null_free (AList.delete k m)"
  unfolding null_free_entries [of m] null_free_entries [of "AList.delete k m"] by (auto simp: AList.delete_eq)

lemma rfc_null_free: "null_free dst \<Longrightarrow> null_free (rfc_merge dst patch)"
proof (induction dst patch rule: rfc_merge.induct)
  case (2 dst j v patch)
  show ?case
  proof (cases v)
    case (GMap n)
    have "null_free (case map_of dst j of Some (GMap existing) \<Rightarrow> existing | _ \<Rightarrow> [])"
      using 2(3) unfolding null_free_entries [of dst] by (auto split: option.split gval.split dest!: map_of_SomeD)
    from 2(1) [OF GMap this] have sub: "null_free (rfc_merge (case map_of dst j of Some (GMap existing) \<Rightarrow> existing | _ \<Rightarrow> []) n)" .
    have "null_free (AList.update j (GMap (rfc_merge (case map_of dst j of Some (GMap existing) \<Rightarrow> existing | _ \<Rightarrow> []) n)) dst)"
      by (rule null_free_update [OF 2(3)]) (use sub in auto)
    with 2(2) GMap show ?thesis by simp
  qed (use 2(2,3) in \<open>simp_all add: null_free_plain null_free_delete\<close>)
qed simp

lemma rfc_fresh_iff: "proper_object n \<Longrightarrow> rfc_merge [] n = n \<longleftrightarrow> null_free n"
  using rfc_null_free [of "[]" n] rfc_merge_fresh [of n "[]"] by auto

section \<open>Patches of a context\<close>

record scope_patch =
  sp_Container :: string
  sp_ID :: string
  sp_Outputs :: payload

record context_patch =
  cp_Job :: payload
  cp_Scopes :: "scope_patch list"

datatype patch_error =
    NilContext
  | WorkspacePatched
  | ResolutionPatched
  | JobCodec go_error
  | PatchIDRequired
  | BadContainer
  | CloneCodec go_error
  | CloneEngine go_error

record restart_lib =
  rl_marshal :: "job_ctx \<Rightarrow> go_error + payload"
  rl_unmarshal :: "payload \<Rightarrow> go_error + job_ctx"
  rl_data :: "scope_ctx \<Rightarrow> go_error option"

definition no_step :: step_output where
  "no_step = \<lparr>step_Outputs = None, step_Artifacts = [],
     step_Jobs = \<lparr>sj_GoalIDs = [], sj_JobIDs = [], sj_Items = []\<rparr>, step_Runs = []\<rparr>"

definition applyStepOutputsPatch :: "string \<Rightarrow> payload \<Rightarrow> (string \<times> step_output) list \<Rightarrow> (string \<times> step_output) list" where
  "applyStepOutputsPatch k patch m =
     (if patch = [] then m
      else let st = (case map_of m k of None \<Rightarrow> no_step | Some st \<Rightarrow> st);
               old = (case step_Outputs st of None \<Rightarrow> [] | Some p \<Rightarrow> p)
           in AList.update k (st\<lparr>step_Outputs := Some (applyMapMergePatch old patch)\<rparr>) m)"

definition applyJobMergePatch :: "restart_lib \<Rightarrow> job_ctx \<Rightarrow> payload \<Rightarrow> patch_error + job_ctx" where
  "applyJobMergePatch R j patch = map_sum JobCodec id
     (bindE (rl_marshal R j) (\<lambda>base. rl_unmarshal R (applyMapMergePatch base patch)))"

definition applyJobContextToTaskExecutionContext :: "job_ctx \<Rightarrow> task_ctx \<Rightarrow> task_ctx" where
  "applyJobContextToTaskExecutionContext j t = (let g = jx_GitBase j in
     t\<lparr>tx_Environment := jx_Environment j, tx_Workflow := jx_Workflow j,
       tx_Git := (tx_Git t)\<lparr>gt_BaseRepo := gb_BaseRepo g, gt_BaseRef := gb_BaseRef g,
         gt_ResolvedBaseHash := gb_ResolvedBaseHash g, gt_GitAuthor := gb_GitAuthor g\<rparr>\<rparr>)"

text \<open>One context of the loop over the parents: contexts of another workspace do not get the Git part.\<close>

definition patch_context :: "restart_lib \<Rightarrow> nat \<Rightarrow> payload \<Rightarrow> nat \<Rightarrow> scope_store \<Rightarrow> scope_store \<times> patch_error option" where
  "patch_context R commit job i s =
     (let patch = (if rx_commit (ctx_of s i) \<noteq> commit then AList.delete ''git'' (cloneAnyMap job) else cloneAnyMap job);
          (s1, t) = TaskExecutionContext i s
      in case applyJobMergePatch R (JobContext t) patch of
           Inl e \<Rightarrow> (s1, Some e)
         | Inr j \<Rightarrow> (let s2 = upd_ctx i (map_context (applyJobContextToTaskExecutionContext j)) s1; c = ctx_of s2 i
             in (case rx_base c of
                  Some b \<Rightarrow> if rx_commit c = commit then s2\<lparr>ss_bases := (ss_bases s2)[b := jx_GitBase j]\<rparr> else s2
                | None \<Rightarrow> s2, None)))"

function patch_up :: "restart_lib \<Rightarrow> nat \<Rightarrow> payload \<Rightarrow> nat \<Rightarrow> scope_store \<Rightarrow> scope_store \<times> patch_error option" where
  "patch_up R commit job i s = (case patch_context R commit job i s of
     (s1, Some e) \<Rightarrow> (s1, Some e)
   | (s1, None) \<Rightarrow> (case rx_Parent (ctx_of s1 i) of
       None \<Rightarrow> (s1, None)
     | Some p \<Rightarrow> if p < i then patch_up R commit job p s1 else (s1, None)))"
  by pat_completeness auto

termination
  by (relation "measure (\<lambda>(R, commit, job, i, s). i)") auto

declare patch_up.simps [simp del]

fun patch_scopes :: "nat \<Rightarrow> scope_patch list \<Rightarrow> scope_store \<Rightarrow> scope_store \<times> patch_error option" where
  "patch_scopes i [] s = (s, None)"
| "patch_scopes i (p # ps) s =
     (let d = rx_data (ctx_of s i);
          put = (\<lambda>a. s\<lparr>ss_maps := (ss_maps s)[a := applyStepOutputsPatch (sp_ID p) (sp_Outputs p) (ss_maps s ! a)]\<rparr>)
      in if sp_ID p = [] then (s, Some PatchIDRequired)
         else if sp_Container p = ''sequence'' then patch_scopes i ps (put (tm_Sequence d))
         else if sp_Container p = ''states'' then patch_scopes i ps (put (tm_States d))
         else (s, Some BadContainer))"

definition ApplyContextPatch :: "restart_lib \<Rightarrow> nat option \<Rightarrow> context_patch \<Rightarrow> scope_store \<Rightarrow> scope_store \<times> patch_error option" where
  "ApplyContextPatch R rc p s = (case rc of
     None \<Rightarrow> (s, Some NilContext)
   | Some i \<Rightarrow>
       if map_of (cp_Job p) ''workspace'' \<noteq> None then (s, Some WorkspacePatched)
       else if map_of (cp_Job p) ''cell_resolution'' \<noteq> None then (s, Some ResolutionPatched)
       else (case (if cp_Job p = [] then (s, None) else patch_up R (rx_commit (ctx_of s i)) (cp_Job p) i s) of
         (s1, Some e) \<Rightarrow> (s1, Some e)
       | (s1, None) \<Rightarrow> patch_scopes i (cp_Scopes p) s1))"

section \<open>The copy for a restart\<close>

text \<open>\<open>nodes\<close> and \<open>commits\<close> remember the copies made so far; all copies count in the two
  counters given. A parent is copied before its child here, so that it has the smaller address.\<close>

type_synonym clones = "scope_store \<times> (nat \<times> nat) list \<times> (nat \<times> nat) list"

definition copy_commit :: "nat \<Rightarrow> clones \<Rightarrow> clones \<times> nat" where
  "copy_commit c st = (case st of (s, nodes, commits) \<Rightarrow> (case map_of commits c of
     Some c' \<Rightarrow> (st, c')
   | None \<Rightarrow> (let c' = length (ss_commits s) in
       ((s\<lparr>ss_commits := ss_commits s @ [ss_commits s ! c]\<rparr>, nodes, (c, c') # commits), c'))))"

definition copied_data :: "nat option \<Rightarrow> scope_store \<Rightarrow> scope_type \<Rightarrow> nat \<Rightarrow> template_data \<Rightarrow> template_data" where
  "copied_data p s k m d = (let d1 = d\<lparr>tm_Sequence := m, tm_States := Suc m\<rparr> in
     case p of None \<Rightarrow> d1 | Some p \<Rightarrow> shared_maps k (rx_data (ctx_of s p)) d1)"

definition copy_ctx :: "nat \<Rightarrow> nat \<Rightarrow> nat option \<Rightarrow> nat option \<Rightarrow> nat \<Rightarrow> nat \<Rightarrow> scope_store \<Rightarrow> scope_store \<times> scope_ctx" where
  "copy_ctx counters wcounters parent caller commit i s =
     (let c = ctx_of s i; d = rx_data c;
          c' = c\<lparr>rx_done := length (ss_done s), rx_Parent := parent, rx_caller := caller, rx_commit := commit,
            rx_base := map_option (\<lambda>_. length (ss_bases s)) (rx_base c), rx_wcounters := wcounters,
            rx_counters := counters, rx_cache := length (ss_caches s),
            rx_data := copied_data parent s (rx_Type c) (length (ss_maps s)) d\<rparr>
      in (s\<lparr>ss_done := ss_done s @ [ss_done s ! rx_done c],
           ss_maps := ss_maps s @ [ss_maps s ! tm_Sequence d, ss_maps s ! tm_States d],
           ss_bases := ss_bases s @ (case rx_base c of None \<Rightarrow> [] | Some b \<Rightarrow> [ss_bases s ! b]),
           ss_caches := ss_caches s @ [ss_caches s ! rx_cache c]\<rparr>, c'))"

function clone_node :: "scope_lib \<Rightarrow> restart_lib \<Rightarrow> nat \<Rightarrow> nat \<Rightarrow> nat \<Rightarrow> clones \<Rightarrow> clones \<times> (patch_error + nat)" where
  "clone_node L R counters wcounters i st = (case map_of (fst (snd st)) i of
     Some v \<Rightarrow> (st, Inr v)
   | None \<Rightarrow> (let c = ctx_of (fst st) i in case rl_data R c of
       Some e \<Rightarrow> (st, Inl (CloneCodec e))
     | None \<Rightarrow>
         (case (case rx_Parent c of
             None \<Rightarrow> (st, Inr None)
           | Some p \<Rightarrow> if p < i
               then (case clone_node L R counters wcounters p st of (st1, r) \<Rightarrow> (st1, map_sum id Some r)) else (st, Inr None)) of
           (st1, Inl e) \<Rightarrow> (st1, Inl e)
         | (st1, Inr parent) \<Rightarrow>
             (case (case rx_caller c of
                 None \<Rightarrow> (st1, Inr None)
               | Some p \<Rightarrow> if p < i
                   then (case clone_node L R counters wcounters p st1 of (st2, r) \<Rightarrow> (st2, map_sum id Some r)) else (st1, Inr None)) of
               (st2, Inl e) \<Rightarrow> (st2, Inl e)
             | (st2, Inr caller) \<Rightarrow>
                 (let (st3, commit) = copy_commit (rx_commit c) st2;
                      (s4, c') = copy_ctx counters wcounters parent caller commit i (fst st3)
                  in case sl_env L c' of
                       Some e \<Rightarrow> ((s4, snd st3), Inl (CloneEngine e))
                     | None \<Rightarrow> (let (s5, v) = new_ctx c' s4 in
                         ((s5, (i, v) # fst (snd st3), snd (snd st3)), Inr v)))))))"
  by pat_completeness auto

termination
  by (relation "measure (\<lambda>(L, R, counters, wcounters, i, st). i)") auto

declare clone_node.simps [simp del]

definition CloneForRestart :: "scope_lib \<Rightarrow> restart_lib \<Rightarrow> nat \<Rightarrow> scope_store \<Rightarrow> scope_store \<times> (patch_error + nat)" where
  "CloneForRestart L R i s =
     (let n = length (ss_counters s); c = ctx_of s i;
          s1 = s\<lparr>ss_counters := ss_counters s @ [ss_counters s ! rx_counters c, ss_counters s ! rx_wcounters c]\<rparr>
      in case clone_node L R n (Suc n) i (s1, [], []) of (st, r) \<Rightarrow> (fst st, r))"

text \<open>\<^verbatim>\<open>clear\<close> and then \<^verbatim>\<open>maps.Copy\<close>: a map copied onto itself is emptied.\<close>

definition clear_and_copy :: "nat \<Rightarrow> nat \<Rightarrow> ('k \<times> 'v) list list \<Rightarrow> ('k \<times> 'v) list list" where
  "clear_and_copy dst src ms = (let ms1 = ms[dst := []] in ms1[dst := ms1 ! src])"

definition adopt_ctx :: "nat \<Rightarrow> nat \<Rightarrow> scope_store \<Rightarrow> scope_store" where
  "adopt_ctx i src s =
     (let r = ctx_of s i; c = ctx_of s src; q = tm_Sequence (rx_data r); t = tm_States (rx_data r);
          s1 = s\<lparr>ss_maps := clear_and_copy t (tm_States (rx_data c)) (clear_and_copy q (tm_Sequence (rx_data c)) (ss_maps s)),
            ss_commits := (ss_commits s)[rx_commit r := ss_commits s ! rx_commit c],
            ss_counters := clear_and_copy (rx_wcounters r) (rx_wcounters c)
              (clear_and_copy (rx_counters r) (rx_counters c) (ss_counters s))\<rparr>
      in upd_ctx i (\<lambda>r. r\<lparr>rx_data := (rx_data c)\<lparr>tm_Sequence := q, tm_States := t\<rparr>, rx_done := rx_done c,
           rx_last := rx_last c, rx_cache := rx_cache c\<rparr>) s1)"

function AdoptRestart :: "nat option \<Rightarrow> nat option \<Rightarrow> scope_store \<Rightarrow> scope_store" where
  "AdoptRestart rc src s = (case (rc, src) of
     (Some i, Some j) \<Rightarrow>
       adopt_ctx i j (case rx_Parent (ctx_of s i) of
         Some p \<Rightarrow> if p < i then AdoptRestart (Some p) (rx_Parent (ctx_of s j)) s else s
       | None \<Rightarrow> s)
   | _ \<Rightarrow> s)"
  by pat_completeness auto

termination
  by (relation "measure (\<lambda>(rc, src, s). case rc of None \<Rightarrow> 0 | Some i \<Rightarrow> Suc i)") auto

declare AdoptRestart.simps [simp del]

end
