(* ===== verification/Restart_Safety.thy ===== *)
theory Restart_Safety
  imports Scope_Restart
begin

text \<open>
  Properties of merge patches and restarts: the merge against RFC 7396, the isolation of a restarted
  attempt from the contexts it was copied from, and what its adoption loses.
\<close>

section \<open>Detached regions of a store\<close>

text \<open>\<open>kept s0 t\<close>: nothing that was in \<open>s0\<close> is changed in \<open>t\<close>. \<open>own s0 c\<close>: the header \<open>c\<close> refers
  to nothing of \<open>s0\<close>.\<close>

definition kept :: "scope_store \<Rightarrow> scope_store \<Rightarrow> bool" where
  "kept s0 t \<longleftrightarrow> prefix (ss_ctxs s0) (ss_ctxs t) \<and> prefix (ss_maps s0) (ss_maps t) \<and> prefix (ss_done s0) (ss_done t) \<and>
     prefix (ss_counters s0) (ss_counters t) \<and> prefix (ss_caches s0) (ss_caches t) \<and>
     prefix (ss_commits s0) (ss_commits t) \<and> prefix (ss_bases s0) (ss_bases t)"

definition own :: "scope_store \<Rightarrow> scope_ctx \<Rightarrow> bool" where
  "own s0 c \<longleftrightarrow> length (ss_commits s0) \<le> rx_commit c \<and> length (ss_counters s0) \<le> rx_counters c \<and>
     length (ss_counters s0) \<le> rx_wcounters c \<and> length (ss_done s0) \<le> rx_done c \<and> length (ss_caches s0) \<le> rx_cache c \<and>
     length (ss_maps s0) \<le> tm_Sequence (rx_data c) \<and> length (ss_maps s0) \<le> tm_States (rx_data c) \<and>
     (\<forall>b. rx_base c = Some b \<longrightarrow> length (ss_bases s0) \<le> b) \<and> (\<forall>p. rx_Parent c = Some p \<longrightarrow> length (ss_ctxs s0) \<le> p) \<and>
     (\<forall>p. rx_caller c = Some p \<longrightarrow> length (ss_ctxs s0) \<le> p)"

definition detached :: "scope_store \<Rightarrow> scope_store \<Rightarrow> bool" where
  "detached s0 t \<longleftrightarrow> kept s0 t \<and> (\<forall>j. length (ss_ctxs s0) \<le> j \<and> j < length (ss_ctxs t) \<longrightarrow> own s0 (ctx_of t j))"

lemma own_links:
  "own s0 c \<Longrightarrow> rx_Parent c = Some p \<Longrightarrow> length (ss_ctxs s0) \<le> p"
  "own s0 c \<Longrightarrow> rx_caller c = Some p \<Longrightarrow> length (ss_ctxs s0) \<le> p"
  "own s0 c \<Longrightarrow> length (ss_maps s0) \<le> tm_Sequence (rx_data c) \<and> length (ss_maps s0) \<le> tm_States (rx_data c)"
  "own s0 c \<Longrightarrow> length (ss_done s0) \<le> rx_done c" "own s0 c \<Longrightarrow> length (ss_caches s0) \<le> rx_cache c"
  by (simp_all add: own_def)

lemma prefix_update: "prefix xs ys \<Longrightarrow> length xs \<le> k \<Longrightarrow> prefix xs (ys[k := v])"
  by (auto simp: prefix_def list_update_append)

lemma prefix_more: "prefix xs ys \<Longrightarrow> prefix xs (ys @ zs)"
  by (auto simp: prefix_def)

lemma detached_kept: "detached s0 t \<Longrightarrow> kept s0 t" by (simp add: detached_def)

lemma detached_own: "detached s0 t \<Longrightarrow> length (ss_ctxs s0) \<le> j \<Longrightarrow> j < length (ss_ctxs t) \<Longrightarrow> own s0 (ctx_of t j)"
  by (simp add: detached_def)

text \<open>Changes outside the headers; a header changed in place; a new header.\<close>

lemma detached_store: "detached s0 t \<Longrightarrow> ss_ctxs u = ss_ctxs t \<Longrightarrow> kept s0 u \<Longrightarrow> detached s0 u"
  by (simp add: detached_def)

lemma detached_upd:
  assumes "detached s0 t" "length (ss_ctxs s0) \<le> i" "i < length (ss_ctxs t) \<Longrightarrow> own s0 (f (ctx_of t i))"
  shows "detached s0 (upd_ctx i f t)"
proof -
  have "kept s0 (upd_ctx i f t)" using assms by (simp add: detached_def kept_def upd_ctx_def prefix_update)
  then show ?thesis using assms by (auto simp: detached_def ctx_of_upd)
qed

lemma detached_new:
  assumes "detached s0 t" "own s0 c"
  shows "detached s0 (fst (new_ctx c t))"
  using assms by (auto simp: detached_def kept_def new_ctx_def nth_append less_Suc_eq intro: prefix_more)

lemma kept_length: "kept s0 t \<Longrightarrow> length (ss_ctxs s0) \<le> length (ss_ctxs t) \<and> length (ss_maps s0) \<le> length (ss_maps t) \<and>
    length (ss_done s0) \<le> length (ss_done t) \<and> length (ss_counters s0) \<le> length (ss_counters t) \<and>
    length (ss_caches s0) \<le> length (ss_caches t) \<and> length (ss_commits s0) \<le> length (ss_commits t) \<and>
    length (ss_bases s0) \<le> length (ss_bases t)"
  unfolding kept_def by (simp add: prefix_length_le)

lemma own_context [simp]: "own s0 (map_context f c) = own s0 c" "own s0 (synced s c) = own s0 c" "own s0 (set_last r c) = own s0 c"
  by (simp_all add: own_def map_context_def synced_def set_last_def)

lemma detached_upd_simple:
  assumes "detached s0 t" "length (ss_ctxs s0) \<le> i" "\<And>c. own s0 (f c) = own s0 c"
  shows "detached s0 (upd_ctx i f t)"
  by (rule detached_upd [OF assms(1,2)]) (use assms in \<open>auto dest: detached_own\<close>)

subsection \<open>Operations stay in their region\<close>

lemma TaskExecutionContext_detached:
  assumes "detached s0 s" "length (ss_ctxs s0) \<le> i"
  shows "detached s0 (fst (TaskExecutionContext i s))"
  using assms unfolding TaskExecutionContext_def syncWorkspace_def Let_def fst_conv
  by (intro detached_upd_simple) simp_all

lemma TaskExecutionContext_length: "length (ss_ctxs (fst (TaskExecutionContext i s))) = length (ss_ctxs s)"
  by (simp add: TaskExecutionContext_def Let_def syncWorkspace_def)

lemma newResolutionContext_detached:
  assumes d: "detached s0 s" and c: "length (ss_commits s0) \<le> commit" "length (ss_counters s0) \<le> counters"
    and n: "newResolutionContext L commit path counters kind ident inputs job opts s = (t, r)"
  shows "detached s0 t" "r = Inr a \<Longrightarrow> a = length (ss_ctxs s)"
proof -
  have k: "kept s0 s" using d by (rule detached_kept)
  note l = kept_length [OF k]
  obtain bs where cs: "ss_maps t = ss_maps s @ [[], []]" "ss_done t = ss_done s @ [False]"
    "ss_caches t = ss_caches s @ [[]]" "ss_commits t = ss_commits s" "ss_bases t = ss_bases s @ bs"
    and inl: "\<And>e. r = Inl e \<Longrightarrow> ss_ctxs t = ss_ctxs s"
    and inr: "\<And>a. r = Inr a \<Longrightarrow> a = length (ss_ctxs s) \<and> (\<exists>c. ss_ctxs t = ss_ctxs s @ [c] \<and> own s0 c)"
    using n c l by (elim newResolutionContext_cases) (fastforce simp: own_def)
  have k': "kept s0 (t\<lparr>ss_ctxs := ss_ctxs s\<rparr>)"
    using k c(2) by (auto simp: kept_def cs newResolutionContext_counters [OF n] intro: prefix_more prefix_update)
  have d': "detached s0 (t\<lparr>ss_ctxs := ss_ctxs s\<rparr>)"
    by (rule detached_store [OF d _ k']) simp
  show "detached s0 t"
  proof (cases r)
    case (Inl e)
    with d' inl show ?thesis by (metis scope_store.surjective scope_store.update_convs(1))
  next
    case (Inr a)
    from inr [OF Inr] obtain c where c: "ss_ctxs t = ss_ctxs s @ [c]" "own s0 c" by blast
    have "t\<lparr>ss_ctxs := ss_ctxs s @ [c]\<rparr> = t" using c(1) by (cases t) simp
    with detached_new [OF d' c(2)] show ?thesis by (simp add: new_ctx_def)
  qed
  show "r = Inr a \<Longrightarrow> a = length (ss_ctxs s)" using inr by blast
qed

lemma NewChildContext_detached:
  assumes "detached s0 s" "length (ss_ctxs s0) \<le> i" "i < length (ss_ctxs s)"
  shows "detached s0 (fst (NewChildContext L i k m fb ins s))"
proof -
  obtain s1 tc where 1: "TaskExecutionContext i s = (s1, tc)" by (meson surj_pair)
  have d1: "detached s0 s1" using TaskExecutionContext_detached [OF assms(1,2)] 1 by simp
  have i1: "i < length (ss_ctxs s1)" using TaskExecutionContext_length [of i s] 1 assms(3) by simp
  let ?p = "ctx_of s1 i"
  let ?id = "scopeId (sm_ID m) fb k"
  have p: "own s0 ?p" using d1 assms(2) i1 by (rule detached_own)
  then have r: "length (ss_commits s0) \<le> rx_commit ?p" "length (ss_counters s0) \<le> rx_counters ?p" by (simp_all add: own_def)
  obtain s2 q where 2: "newResolutionContext L (rx_commit ?p) (tracker_child (rx_path ?p) ?id) (rx_counters ?p) k ?id
      (case ins of None \<Rightarrow> [] | Some ps \<Rightarrow> ps) (JobContext tc) (rx_Options ?p) s1 = (s2, q)" by (meson surj_pair)
  have d2: "detached s0 s2" and a: "\<And>a. q = Inr a \<Longrightarrow> a = length (ss_ctxs s1)"
    using newResolutionContext_detached [OF d1 r 2] by blast+
  have own: "own s0 (inherit i k m perms (ctx_of s2 i) c)" if "own s0 c" for perms c
  proof -
    have len: "length (ss_ctxs s1) \<le> length (ss_ctxs s2)"
      using 2 by (elim newResolutionContext_cases; cases q) auto
    have "own s0 (ctx_of s2 i)" by (rule detached_own [OF d2 assms(2)]) (use i1 len in simp)
    with that assms(2) show ?thesis
      by (auto simp: own_def inherit_def Let_def shared_maps_def split: scope_type.split)
  qed
  have new: "length (ss_ctxs s0) \<le> a \<Longrightarrow> detached s0 (upd_ctx a (inherit i k m perms (ctx_of s2 i)) s2)" for a perms
    by (rule detached_upd [OF d2]) (auto intro: own detached_own [OF d2])
  have l: "length (ss_ctxs s0) \<le> length (ss_ctxs s1)" using kept_length [OF detached_kept [OF d1]] by simp
  show ?thesis
    using assms(1) d2 new a l by (auto simp: NewChildContext_def 1 2 Let_def split: sum.split)
qed

lemma WithWorkspace_detached:
  assumes "detached s0 s" "length (ss_ctxs s0) \<le> i" "i < length (ss_ctxs s)"
  shows "detached s0 (fst (WithWorkspace L i w b s))"
proof -
  obtain s1 tc where 1: "TaskExecutionContext i s = (s1, tc)" by (meson surj_pair)
  have d1: "detached s0 s1" using TaskExecutionContext_detached [OF assms(1,2)] 1 by simp
  have i1: "i < length (ss_ctxs s1)" using TaskExecutionContext_length [of i s] 1 assms(3) by simp
  have p: "own s0 (ctx_of s1 i)" using d1 assms(2) i1 by (rule detached_own)
  let ?s2 = "s1\<lparr>ss_bases := ss_bases s1 @ [b],
            ss_commits := ss_commits s1 @ [\<lparr>gc_ParentRef = gb_BaseRef b, gc_PersistHash = [], gc_ParentHash = []\<rparr>]\<rparr>"
  have k: "kept s0 s1" using d1 by (rule detached_kept)
  then have "kept s0 ?s2" by (auto simp: kept_def intro: prefix_more)
  then have d2: "detached s0 ?s2" by (intro detached_store [OF d1]) simp_all
  have "own s0 (synced ?s2 (workspace_ctx i (length (ss_bases s1)) (length (ss_commits s1)) w tc (ctx_of s1 i)))"
    unfolding own_context using p assms(2) kept_length [OF k] by (simp add: own_def workspace_ctx_def)
  from d2 detached_new [OF d2 this] show ?thesis
    by (simp add: WithWorkspace_def 1 Let_def new_ctx_def split: option.split)
qed

lemma record_output_detached:
  assumes "detached s0 s" "length (ss_maps s0) \<le> a"
  shows "detached s0 (record_output L o' a k s)"
proof (rule detached_store [OF assms(1)])
  show "kept s0 (record_output L o' a k s)"
    using detached_kept [OF assms(1)] assms(2)
    by (cases "map_of (ss_maps s ! a) k") (simp_all add: kept_def record_output_def draw_def Let_def prefix_update)
qed simp

lemma publication_own:
  assumes "detached s0 s" "length (ss_ctxs s0) \<le> i" "i < length (ss_ctxs s)" "publication s i = Inr (up, target)" "well_scoped s"
  shows "up = Some p \<Longrightarrow> length (ss_ctxs s0) \<le> p" "target = Some (a, k) \<Longrightarrow> length (ss_maps s0) \<le> a"
proof -
  have c: "own s0 (ctx_of s i)" by (rule detached_own [OF assms(1-3)])
  have w: "well_ctx s i (ctx_of s i)" by (rule well_scopedD [OF assms(5,3)])
  have p: "length (ss_ctxs s0) \<le> p \<and> own s0 (ctx_of s p)" if "rx_Parent (ctx_of s i) = Some p" for p
    using own_links(1) [OF c that] well_ctx_parent [OF w that] assms(3) detached_own [OF assms(1)] by simp
  have maps: "length (ss_maps s0) \<le> tm_Sequence (rx_data (ctx_of s p)) \<and> length (ss_maps s0) \<le> tm_States (rx_data (ctx_of s p))"
    if "rx_Parent (ctx_of s i) = Some p" for p
    using own_links(3) p [OF that] by blast
  show "up = Some p \<Longrightarrow> length (ss_ctxs s0) \<le> p"
    using assms(4) p by (auto simp: publication_def Let_def split: scope_type.splits option.splits)
  show "target = Some (a, k) \<Longrightarrow> length (ss_maps s0) \<le> a"
    using assms(4) own_links(3) [OF c] maps by (auto simp: publication_def Let_def split: scope_type.splits option.splits)
qed

lemma forward_results_detached:
  "detached s0 s \<Longrightarrow> length (ss_ctxs s0) \<le> i \<Longrightarrow> i < length (ss_ctxs s) \<Longrightarrow> detached s0 (forward_results i s)"
proof (induction i s rule: forward_results.induct)
  case (1 i s)
  let ?s1 = "case rx_caller (ctx_of s i) of None \<Rightarrow> s | Some c \<Rightarrow> PublishWorkspaceResult c i s"
  have o1: "own s0 (ctx_of s i)" using 1(2-4) by (rule detached_own)
  have d1: "detached s0 ?s1"
    using 1(2) own_links(2) [OF o1] by (auto simp: PublishWorkspaceResult_def intro!: detached_upd_simple split: option.split)
  have l1: "length (ss_ctxs ?s1) = length (ss_ctxs s)" by (simp add: PublishWorkspaceResult_def split: option.split)
  show ?case
  proof (cases "rx_Parent (ctx_of ?s1 i)")
    case None
    then show ?thesis using d1 by (subst forward_results.simps) (simp add: Let_def)
  next
    case (Some p)
    have "own s0 (ctx_of ?s1 i)" by (rule detached_own [OF d1 1(3)]) (use l1 1(4) in simp)
    then have "length (ss_ctxs s0) \<le> p" using Some by (rule own_links(1))
    with 1(1) [OF refl Some] d1 l1 1(4) Some show ?thesis
      by (subst forward_results.simps) (simp add: Let_def)
  qed
qed

lemma RememberArtifacts_detached:
  assumes "detached s0 s" "length (ss_ctxs s0) \<le> i" "i < length (ss_ctxs s)"
  shows "detached s0 (RememberArtifacts L i as s)"
proof (rule detached_store [OF assms(1)])
  show "kept s0 (RememberArtifacts L i as s)"
    using detached_kept [OF assms(1)] own_links(5) [OF detached_own [OF assms]]
    by (simp add: kept_def RememberArtifacts_def Let_def prefix_update)
qed simp

lemma PublishExecution_detached:
  assumes d: "detached s0 s" "length (ss_ctxs s0) \<le> i" "i < length (ss_ctxs s)" and w: "well_scoped s"
  shows "detached s0 (fst (PublishExecution L i o' s))"
proof -
  let ?s = "s\<lparr>ss_done := (ss_done s)[rx_done (ctx_of s i) := True]\<rparr>"
  have w1: "well_scoped ?s" by (rule well_scoped_same_ctxs [OF w]) (simp_all add: store_grows_def)
  have "kept s0 ?s" using detached_kept [OF d(1)] own_links(4) [OF detached_own [OF d]]
    by (simp add: kept_def prefix_update)
  then have d1: "detached s0 ?s" by (intro detached_store [OF d(1)]) simp_all
  let ?s1 = "if eo_Artifacts o' = [] then ?s else RememberArtifacts L i (eo_Artifacts o') ?s"
  have d2: "detached s0 ?s1" using d1 RememberArtifacts_detached [OF d1] d(2,3) by simp
  have w2: "well_scoped ?s1"
    using w1 well_scoped_same_ctxs [OF w1, of "RememberArtifacts L i (eo_Artifacts o') ?s"] by (simp add: store_grows_def)
  let ?r = "last_of L o' (ss_caches ?s1 ! rx_cache (ctx_of ?s1 i))"
  let ?s2 = "upd_ctx i (set_last ?r) ?s1"
  have d3: "detached s0 ?s2" using d2 d(2) by (rule detached_upd_simple) simp
  have i2: "i < length (ss_ctxs ?s1)" "i < length (ss_ctxs ?s2)" using d(3) by simp_all
  have w3: "well_scoped ?s2" using relinks_set_last [OF i2(1)] w2 by (simp add: relinks_def)
  have d4: "detached s0 (fst (appendExecution L i o' ?s))"
  proof (cases "publication ?s2 i")
    case (Inl e)
    then show ?thesis using d3 by (simp add: appendExecution_def Let_def)
  next
    case (Inr x)
    obtain up target where x: "x = (up, target)" by fastforce
    note pub = publication_own [OF d3 d(2) i2(2) Inr [unfolded x] w3]
    have d5: "detached s0 (case up of None \<Rightarrow> ?s2 | Some p \<Rightarrow> upd_ctx p (set_last ?r) ?s2)"
      using d3 pub(1) by (cases up) (simp_all add: detached_upd_simple)
    show ?thesis
    proof (cases target)
      case None
      with Inr x d5 show ?thesis by (simp add: appendExecution_def Let_def)
    next
      case (Some ak)
      obtain a k where ak: "ak = (a, k)" by fastforce
      from record_output_detached [OF d5 pub(2) [OF Some [unfolded ak]], of L o' k] Inr x Some ak show ?thesis
        by (simp add: appendExecution_def Let_def)
    qed
  qed
  obtain s4 e where 4: "appendExecution L i o' ?s = (s4, e)" by fastforce
  have "length (ss_ctxs s4) = length (ss_ctxs s)" using appendExecution_extends(3) [OF w1 _ 4] d(3) by simp
  with d4 4 d(1) forward_results_detached [of s0 s4 i] d(2,3) show ?thesis
    by (auto simp: PublishExecution_def Let_def split: option.split)
qed

lemma exec_op_detached:
  assumes "detached s0 s" "well_scoped s" "op_applies s p" "\<forall>i \<in> set (op_ctxs p). length (ss_ctxs s0) \<le> i"
  shows "detached s0 (fst (exec_op L p s))"
proof -
  have view: "detached s0 (fst (new_ctx ((ctx_of s i)\<lparr>rx_data := d\<rparr>) s))"
    if "length (ss_ctxs s0) \<le> i" "i < length (ss_ctxs s)" "tm_Sequence d = tm_Sequence (rx_data (ctx_of s i))"
      "tm_States d = tm_States (rx_data (ctx_of s i))" for i d
    using detached_own [OF assms(1) that(1,2)] that by (intro detached_new [OF assms(1)]) (simp add: own_def)
  show ?thesis
  proof (cases p)
    case (OpChild i k m fb ins)
    with assms show ?thesis by (simp add: op_applies_def NewChildContext_detached)
  next
    case (OpView i)
    with assms view [of i "rx_data (ctx_of s i)"] show ?thesis by (simp add: op_applies_def ExecutionView_def)
  next
    case (OpFailure i f)
    with assms view [of i] show ?thesis by (simp add: op_applies_def WithFailure_def)
  next
    case (OpLocals i ls)
    with assms view [of i] show ?thesis by (simp add: op_applies_def view_WithLocals_def)
  next
    case (OpWorkspace i w b)
    with assms show ?thesis by (simp add: op_applies_def WithWorkspace_detached)
  next
    case (OpWorkspaceID i n)
    then have "length (ss_counters s0) \<le> rx_wcounters (ctx_of s i)"
      using assms detached_own [OF assms(1), of i] by (simp add: op_applies_def own_def)
    with detached_kept [OF assms(1)] have "kept s0 (fst (NextWorkspaceID L i n s))"
      by (simp add: kept_def NextWorkspaceID_def Let_def prefix_update)
    then have "detached s0 (fst (NextWorkspaceID L i n s))"
      by (rule detached_store [OF assms(1), rotated]) (simp add: NextWorkspaceID_def Let_def)
    with OpWorkspaceID show ?thesis by simp
  next
    case (OpContext i)
    with assms show ?thesis by (simp add: TaskExecutionContext_detached)
  next
    case (OpGitState i c)
    then have "length (ss_commits s0) \<le> rx_commit (ctx_of s i)"
      using assms detached_own [OF assms(1), of i] by (simp add: op_applies_def own_def)
    with detached_kept [OF assms(1)] have "kept s0 (UpdateGitState i c s)"
      by (simp add: kept_def UpdateGitState_def prefix_update)
    then have "detached s0 (UpdateGitState i c s)"
      by (rule detached_store [OF assms(1), rotated]) (simp add: UpdateGitState_def)
    with OpGitState show ?thesis by simp
  next
    case (OpRemember i as)
    with assms show ?thesis by (simp add: op_applies_def RememberArtifacts_detached)
  next
    case (OpAdopt i j)
    with assms have ij: "length (ss_ctxs s0) \<le> i" "length (ss_ctxs s0) \<le> j" "j < length (ss_ctxs s)"
      by (simp_all add: op_applies_def)
    have "detached s0 (AdoptExecution i j s)"
      unfolding AdoptExecution_def Let_def
      by (rule detached_upd [OF assms(1) ij(1)]) (use detached_own [OF assms(1) ij(2,3)] detached_own [OF assms(1) ij(1)]
        in \<open>simp add: own_def\<close>)
    with OpAdopt show ?thesis by simp
  next
    case (OpForward i j)
    with assms show ?thesis by (simp add: PublishWorkspaceResult_def detached_upd_simple)
  next
    case (OpPublish i o')
    obtain t e where t: "PublishExecution L i o' s = (t, e)" by fastforce
    with OpPublish assms PublishExecution_detached [of s0 s i L o'] show ?thesis
      by (cases e) (simp_all add: op_applies_def)
  qed
qed

lemma run_ops_detached:
  "detached s0 s \<Longrightarrow> well_scoped s \<Longrightarrow> \<forall>p \<in> set ops. \<forall>i \<in> set (op_ctxs p). length (ss_ctxs s0) \<le> i \<Longrightarrow>
   detached s0 (fst (run_ops L ops s))"
proof (induction ops arbitrary: s)
  case (Cons p ops)
  show ?case
  proof (cases "op_applies s p")
    case True
    obtain s1 out where 1: "exec_op L p s = (s1, out)" by fastforce
    have "detached s0 s1" using exec_op_detached [OF Cons.prems(1,2) True, of L] Cons.prems(3) 1 by simp
    with Cons.IH [OF this exec_op_step(1) [OF Cons.prems(2) True 1]] Cons.prems(3) True 1 show ?thesis
      by (cases "run_ops L ops s1") simp
  next
    case False
    with Cons show ?thesis by simp
  qed
qed simp

subsection \<open>The copy is detached\<close>

definition clone_inv :: "scope_store \<Rightarrow> nat \<Rightarrow> clones \<Rightarrow> bool" where
  "clone_inv s0 n st \<longleftrightarrow> detached s0 (fst st) \<and> well_scoped (fst st) \<and>
     (\<forall>i v. map_of (fst (snd st)) i = Some v \<longrightarrow> length (ss_ctxs s0) \<le> v \<and> v < length (ss_ctxs (fst st))) \<and>
     (\<forall>c v. map_of (snd (snd st)) c = Some v \<longrightarrow> length (ss_commits s0) \<le> v \<and> v < length (ss_commits (fst st))) \<and>
     length (ss_counters s0) \<le> n \<and> Suc n < length (ss_counters (fst st))"

lemma copy_commit_inv:
  assumes "clone_inv s0 n st" "copy_commit c st = (st', v)"
  shows "clone_inv s0 n st' \<and> length (ss_commits s0) \<le> v \<and> v < length (ss_commits (fst st')) \<and>
    ss_ctxs (fst st') = ss_ctxs (fst st) \<and> fst (snd st') = fst (snd st)"
proof -
  obtain s nodes commits where st: "st = (s, nodes, commits)" by (metis surj_pair)
  show ?thesis
  proof (cases "map_of commits c")
    case (Some w)
    with assms st show ?thesis by (auto simp: copy_commit_def clone_inv_def)
  next
    case None
    let ?s = "s\<lparr>ss_commits := ss_commits s @ [ss_commits s ! c]\<rparr>"
    from assms(1) st have d: "detached s0 s" "well_scoped s" by (simp_all add: clone_inv_def)
    have "kept s0 ?s" using detached_kept [OF d(1)] by (simp add: kept_def prefix_more)
    then have "detached s0 ?s" by (intro detached_store [OF d(1)]) simp_all
    moreover have "well_scoped ?s" by (rule well_scoped_same_ctxs [OF d(2)]) (simp_all add: store_grows_def)
    ultimately show ?thesis
      using assms st None kept_length [OF detached_kept [OF d(1)]]
      by (auto simp: copy_commit_def clone_inv_def Let_def less_Suc_eq split: if_splits)
  qed
qed

lemma copy_ctx_step:
  assumes inv: "clone_inv s0 n st" and i: "i < length (ss_ctxs s0)" and w0: "well_ctx s0 i (ctx_of s0 i)"
    and parent: "\<And>p. parent = Some p \<Longrightarrow> length (ss_ctxs s0) \<le> p \<and> p < length (ss_ctxs (fst st))"
    and caller: "caller = None \<or> caller = parent"
    and commit: "length (ss_commits s0) \<le> commit" "commit < length (ss_commits (fst st))"
    and copy: "copy_ctx n (Suc n) parent caller commit i (fst st) = (t, c)"
  shows "detached s0 t" "well_scoped t" "own s0 c" "well_ctx t (length (ss_ctxs t)) c" "ss_ctxs t = ss_ctxs (fst st)"
    "ss_counters t = ss_counters (fst st)" "ss_commits t = ss_commits (fst st)"
proof -
  let ?s = "fst st"
  from inv have d: "detached s0 ?s" and w: "well_scoped ?s" and n: "length (ss_counters s0) \<le> n" "Suc n < length (ss_counters ?s)"
    by (simp_all add: clone_inv_def)
  have k: "kept s0 ?s" by (rule detached_kept [OF d])
  note l = kept_length [OF k]
  have eqs: "ss_ctxs t = ss_ctxs ?s" "ss_counters t = ss_counters ?s" "ss_commits t = ss_commits ?s"
    "ss_maps t = ss_maps ?s @ [ss_maps ?s ! tm_Sequence (rx_data (ctx_of ?s i)), ss_maps ?s ! tm_States (rx_data (ctx_of ?s i))]"
    "ss_done t = ss_done ?s @ [ss_done ?s ! rx_done (ctx_of ?s i)]"
    "ss_caches t = ss_caches ?s @ [ss_caches ?s ! rx_cache (ctx_of ?s i)]"
    "ss_bases t = ss_bases ?s @ (case rx_base (ctx_of ?s i) of None \<Rightarrow> [] | Some b \<Rightarrow> [ss_bases ?s ! b])"
    using copy by (auto simp: copy_ctx_def Let_def)
  then show "ss_ctxs t = ss_ctxs ?s" "ss_counters t = ss_counters ?s" "ss_commits t = ss_commits ?s" by simp_all
  have "kept s0 t" using k by (simp add: kept_def eqs prefix_more)
  then show "detached s0 t" by (rule detached_store [OF d eqs(1)])
  have g: "store_grows ?s t" by (simp add: store_grows_def eqs)
  show "well_scoped t" by (rule well_scoped_same_ctxs [OF w g eqs(1)])
  have p: "well_ctx ?s q (ctx_of ?s q)" "own s0 (ctx_of ?s q)" if "parent = Some q" for q
    using parent [OF that] well_scopedD [OF w] detached_own [OF d] by simp_all
  have c: "c = (ctx_of ?s i)\<lparr>rx_done := length (ss_done ?s), rx_Parent := parent, rx_caller := caller, rx_commit := commit,
      rx_base := map_option (\<lambda>_. length (ss_bases ?s)) (rx_base (ctx_of ?s i)), rx_wcounters := Suc n, rx_counters := n,
      rx_cache := length (ss_caches ?s),
      rx_data := copied_data parent ?s (rx_Type (ctx_of ?s i)) (length (ss_maps ?s)) (rx_data (ctx_of ?s i))\<rparr>"
    using copy by (auto simp: copy_ctx_def Let_def)
  have data: "length (ss_maps s0) \<le> tm_Sequence (rx_data c) \<and> length (ss_maps s0) \<le> tm_States (rx_data c) \<and>
      tm_Sequence (rx_data c) < length (ss_maps t) \<and> tm_States (rx_data c) < length (ss_maps t)"
  proof (cases parent)
    case None
    then show ?thesis using l by (simp add: c copied_data_def eqs)
  next
    case (Some q)
    from own_links(3) [OF p(2) [OF Some]] well_ctx_range [OF p(1) [OF Some]] l Some show ?thesis
      by (simp add: c copied_data_def Let_def shared_maps_def eqs split: scope_type.split)
  qed
  show "own s0 c" using data l n(1) commit(1) parent caller by (auto simp: own_def c)
  show "well_ctx t (length (ss_ctxs t)) c"
    using data n(2) commit(2) parent caller by (auto simp: well_ctx_def c eqs split: option.split)
qed

lemma clone_node_inv:
  assumes "well_scoped s0" "clone_inv s0 n st" "i < length (ss_ctxs s0)" "clone_node L R n (Suc n) i st = (st', r)"
  shows "clone_inv s0 n st' \<and> (\<forall>v. r = Inr v \<longrightarrow> map_of (fst (snd st')) i = Some v)"
  using assms(2-)
proof (induction i arbitrary: st st' r rule: less_induct)
  case (less i)
  show ?case
  proof (cases "map_of (fst (snd st)) i")
    case (Some v)
    with less.prems(1,3) show ?thesis by (auto simp: clone_node.simps [of L R n "Suc n" i st])
  next
    case None
    let ?c = "ctx_of (fst st) i"
    from less.prems(1) have k: "kept s0 (fst st)" by (simp add: clone_inv_def detached_def)
    have c: "?c = ctx_of s0 i" using k less.prems(2) by (auto simp: kept_def prefix_def nth_append)
    have w0: "well_ctx s0 i (ctx_of s0 i)" using assms(1) less.prems(2) by (rule well_scopedD)
    have small: "p < i" if "rx_Parent ?c = Some p" for p using well_ctx_parent [OF w0] that c by simp
    show ?thesis
    proof (cases "rl_data R ?c")
      case (Some e)
      with None less.prems(1,3) show ?thesis by (auto simp: clone_node.simps [of L R n "Suc n" i st] Let_def)
    next
      case ok: None
      obtain st1 r1 where 1: "(case rx_Parent ?c of None \<Rightarrow> (st, Inr None)
           | Some p \<Rightarrow> if p < i then (case clone_node L R n (Suc n) p st of (st1, r) \<Rightarrow> (st1, map_sum id Some r)) else (st, Inr None)) = (st1, r1)"
        by (meson surj_pair)
      have inv1: "clone_inv s0 n st1" and r1: "\<And>q. r1 = Inr q \<Longrightarrow> (case rx_Parent ?c of None \<Rightarrow> q = None
           | Some p \<Rightarrow> (\<exists>v. q = Some v \<and> map_of (fst (snd st1)) p = Some v))"
      proof -
        have "clone_inv s0 n st1 \<and> (\<forall>q. r1 = Inr q \<longrightarrow> (case rx_Parent ?c of None \<Rightarrow> q = None
           | Some p \<Rightarrow> (\<exists>v. q = Some v \<and> map_of (fst (snd st1)) p = Some v)))"
        proof (cases "rx_Parent ?c")
          case None
          with 1 less.prems(1) show ?thesis by auto
        next
          case (Some p)
          obtain st2 r2 where 2: "clone_node L R n (Suc n) p st = (st2, r2)" by (meson surj_pair)
          from less.IH [OF small [OF Some] less.prems(1) _ 2] less.prems(2) small [OF Some] 1 2 Some show ?thesis
            by (cases r2) auto
        qed
        then show "clone_inv s0 n st1" "\<And>q. r1 = Inr q \<Longrightarrow> (case rx_Parent ?c of None \<Rightarrow> q = None
           | Some p \<Rightarrow> (\<exists>v. q = Some v \<and> map_of (fst (snd st1)) p = Some v))" by blast+
      qed
      show ?thesis
      proof (cases r1)
        case (Inl e)
        with None ok 1 less.prems(3) inv1 show ?thesis
          by (auto simp: clone_node.simps [of L R n "Suc n" i st] Let_def)
      next
        case (Inr parent)
        note par = r1 [OF Inr]
        have caller: "(case rx_caller ?c of None \<Rightarrow> (st1, Inr None)
             | Some p \<Rightarrow> if p < i then (case clone_node L R n (Suc n) p st1 of (st2, r) \<Rightarrow> (st2, map_sum id Some r)) else (st1, Inr None))
           = (st1, Inr (if rx_caller ?c = None then None else parent))"
        proof (cases "rx_caller ?c")
          case (Some p)
          then have "rx_Parent ?c = Some p" using w0 c by (auto simp: well_ctx_def)
          with par small Some obtain v where "p < i" "parent = Some v" "map_of (fst (snd st1)) p = Some v" by auto
          then show ?thesis by (simp add: Some clone_node.simps [of L R n "Suc n" p st1])
        qed simp
        let ?caller = "if rx_caller ?c = None then None else parent"
        obtain st3 commit where 3: "copy_commit (rx_commit ?c) st1 = (st3, commit)" by (meson surj_pair)
        note cc = copy_commit_inv [OF inv1 3]
        obtain s4 c' where 4: "copy_ctx n (Suc n) parent ?caller commit i (fst st3) = (s4, c')" by (meson surj_pair)
        have pr: "length (ss_ctxs s0) \<le> p \<and> p < length (ss_ctxs (fst st3))" if "parent = Some p" for p
          using par that inv1 cc by (auto simp: clone_inv_def split: option.splits)
        note s4 = copy_ctx_step [OF conjunct1 [OF cc] less.prems(2) w0 pr _ _ _ 4]
        have s4': "detached s0 s4" "well_scoped s4" "own s0 c'" "well_ctx s4 (length (ss_ctxs s4)) c'"
          "ss_ctxs s4 = ss_ctxs (fst st3)" "ss_counters s4 = ss_counters (fst st3)" "ss_commits s4 = ss_commits (fst st3)"
          using s4 cc by auto
        have len: "length (ss_ctxs s0) \<le> length (ss_ctxs s4)" using kept_length [OF detached_kept [OF s4'(1)]] by simp
        have inv4: "clone_inv s0 n (s4, snd st3)" using cc s4' unfolding clone_inv_def fst_conv snd_conv by metis
        show ?thesis
        proof (cases "sl_env L c'")
          case (Some e)
          with None ok 1 Inr caller 3 4 less.prems(3) inv4 show ?thesis
            by (auto simp: clone_node.simps [of L R n "Suc n" i st] Let_def)
        next
          case env: None
          obtain s5 v where 5: "new_ctx c' s4 = (s5, v)" by (meson surj_pair)
          have "detached s0 s5" "well_scoped s5" using detached_new [OF s4'(1,3)] well_scoped_new_ctx [OF s4'(2,4)] 5 by simp_all
          moreover have "v = length (ss_ctxs s4)" "s5 = s4\<lparr>ss_ctxs := ss_ctxs s4 @ [c']\<rparr>" using 5 by (auto simp: new_ctx_def)
          ultimately have "clone_inv s0 n (s5, (i, v) # fst (snd st3), snd (snd st3))"
            using inv4 len by (auto simp: clone_inv_def less_Suc_eq)
          with None ok 1 Inr caller 3 4 5 env less.prems(3) show ?thesis
            by (auto simp: clone_node.simps [of L R n "Suc n" i st] Let_def)
        qed
      qed
    qed
  qed
qed

subsection \<open>Patches stay in their region\<close>

lemma patch_context_step:
  assumes "detached s0 s" "well_scoped s" "length (ss_ctxs s0) \<le> i" "i < length (ss_ctxs s)"
    "patch_context R commit job i s = (t, e)"
  shows "detached s0 t \<and> well_scoped t \<and> length (ss_ctxs t) = length (ss_ctxs s)"
proof -
  obtain s1 tc where 1: "TaskExecutionContext i s = (s1, tc)" by (meson surj_pair)
  have d1: "detached s0 s1" using TaskExecutionContext_detached [OF assms(1,3)] 1 by simp
  note w1 = TaskExecutionContext_well [OF assms(2,4) 1]
  let ?patch = "if rx_commit (ctx_of s i) \<noteq> commit then AList.delete ''git'' (cloneAnyMap job) else cloneAnyMap job"
  show ?thesis
  proof (cases "applyJobMergePatch R (JobContext tc) ?patch")
    case (Inl err)
    with assms(5) 1 d1 w1 show ?thesis by (auto simp: patch_context_def Let_def)
  next
    case (Inr j)
    let ?s2 = "upd_ctx i (map_context (applyJobContextToTaskExecutionContext j)) s1"
    have d2: "detached s0 ?s2" using d1 assms(3) by (rule detached_upd_simple) simp
    have i1: "i < length (ss_ctxs s1)" using assms(4) w1(2) by simp
    have w2: "well_scoped ?s2" by (rule well_scoped_upd_ctx [OF w1(1)]) (use well_scopedD [OF w1(1) i1] in simp)
    have o2: "own s0 (ctx_of ?s2 i)" by (rule detached_own [OF d2 assms(3)]) (use i1 in simp)
    have t: "t = ?s2 \<or> (\<exists>b. rx_base (ctx_of ?s2 i) = Some b \<and> t = ?s2\<lparr>ss_bases := (ss_bases ?s2)[b := jx_GitBase j]\<rparr>)"
      using assms(5) 1 Inr by (auto simp: patch_context_def Let_def split: option.splits if_splits)
    then show ?thesis
    proof
      assume "t = ?s2"
      with d2 w2 w1(2) show ?thesis by simp
    next
      assume "\<exists>b. rx_base (ctx_of ?s2 i) = Some b \<and> t = ?s2\<lparr>ss_bases := (ss_bases ?s2)[b := jx_GitBase j]\<rparr>"
      then obtain b where b: "rx_base (ctx_of ?s2 i) = Some b" and t: "t = ?s2\<lparr>ss_bases := (ss_bases ?s2)[b := jx_GitBase j]\<rparr>" by blast
      have "kept s0 t" using detached_kept [OF d2] o2 b by (simp add: t kept_def own_def prefix_update)
      then have "detached s0 t" by (rule detached_store [OF d2, rotated]) (simp add: t)
      moreover have "well_scoped t" by (rule well_scoped_same_ctxs [OF w2]) (simp_all add: t store_grows_def)
      ultimately show ?thesis using w1(2) by (simp add: t)
    qed
  qed
qed

lemma patch_up_step:
  "detached s0 s \<Longrightarrow> well_scoped s \<Longrightarrow> length (ss_ctxs s0) \<le> i \<Longrightarrow> i < length (ss_ctxs s) \<Longrightarrow> patch_up R commit job i s = (t, e) \<Longrightarrow>
   detached s0 t \<and> well_scoped t \<and> length (ss_ctxs t) = length (ss_ctxs s)"
proof (induction i arbitrary: s t e rule: less_induct)
  case (less i)
  obtain s1 e1 where 1: "patch_context R commit job i s = (s1, e1)" by fastforce
  note c = patch_context_step [OF less.prems(1-4) 1]
  show ?case
  proof (cases "e1 = None \<and> (\<exists>p. rx_Parent (ctx_of s1 i) = Some p \<and> p < i)")
    case True
    then obtain p where p: "rx_Parent (ctx_of s1 i) = Some p" "p < i" by blast
    from True p less.prems(5) 1 have r: "patch_up R commit job p s1 = (t, e)" by (simp add: patch_up.simps [of R commit job i s])
    have "own s0 (ctx_of s1 i)" by (rule detached_own [of s0 s1]) (use c less.prems in auto)
    then have "length (ss_ctxs s0) \<le> p" using p(1) by (rule own_links(1))
    with less.IH [OF p(2) _ _ _ _ r] c less.prems(4) p(2) show ?thesis by simp
  next
    case False
    with less.prems(5) 1 c show ?thesis
      by (auto simp: patch_up.simps [of R commit job i s] split: option.splits if_splits)
  qed
qed

lemma patch_scopes_step:
  "detached s0 s \<Longrightarrow> well_scoped s \<Longrightarrow> length (ss_ctxs s0) \<le> i \<Longrightarrow> i < length (ss_ctxs s) \<Longrightarrow> patch_scopes i ps s = (t, e) \<Longrightarrow>
   detached s0 t \<and> well_scoped t \<and> length (ss_ctxs t) = length (ss_ctxs s)"
proof (induction ps arbitrary: s)
  case (Cons p ps)
  have put: "detached s0 (s\<lparr>ss_maps := (ss_maps s)[a := m]\<rparr>) \<and> well_scoped (s\<lparr>ss_maps := (ss_maps s)[a := m]\<rparr>)"
    if "length (ss_maps s0) \<le> a" for a m
  proof -
    have "kept s0 (s\<lparr>ss_maps := (ss_maps s)[a := m]\<rparr>)"
      using detached_kept [OF Cons.prems(1)] that by (simp add: kept_def prefix_update)
    then have "detached s0 (s\<lparr>ss_maps := (ss_maps s)[a := m]\<rparr>)"
      by (rule detached_store [OF Cons.prems(1), rotated]) simp
    moreover have "well_scoped (s\<lparr>ss_maps := (ss_maps s)[a := m]\<rparr>)"
      by (rule well_scoped_same_ctxs [OF Cons.prems(2)]) (simp_all add: store_grows_def)
    ultimately show ?thesis by simp
  qed
  note o = own_links(3) [OF detached_own [OF Cons.prems(1,3,4)]]
  note p1 = put [OF conjunct1 [OF o]] and p2 = put [OF conjunct2 [OF o]]
  from Cons.prems(5) consider "t = s"
    | m where "patch_scopes i ps (s\<lparr>ss_maps := (ss_maps s)[tm_Sequence (rx_data (ctx_of s i)) := m]\<rparr>) = (t, e)"
    | m where "patch_scopes i ps (s\<lparr>ss_maps := (ss_maps s)[tm_States (rx_data (ctx_of s i)) := m]\<rparr>) = (t, e)"
    by (auto simp: Let_def split: if_splits)
  then show ?case
  proof cases
    case 1
    with Cons.prems show ?thesis by simp
  next
    case (2 m)
    from Cons.IH [OF _ _ Cons.prems(3) _ 2] p1 [of m] Cons.prems(4) show ?thesis by simp
  next
    case (3 m)
    from Cons.IH [OF _ _ Cons.prems(3) _ 3] p2 [of m] Cons.prems(4) show ?thesis by simp
  qed
qed simp

lemma ApplyContextPatch_step:
  assumes "detached s0 s" "well_scoped s" "length (ss_ctxs s0) \<le> i" "i < length (ss_ctxs s)"
    "ApplyContextPatch R (Some i) p s = (t, e)"
  shows "detached s0 t \<and> well_scoped t"
proof -
  obtain s1 e1 where 1: "(if cp_Job p = [] then (s, None) else patch_up R (rx_commit (ctx_of s i)) (cp_Job p) i s) = (s1, e1)"
    by fastforce
  have s1: "detached s0 s1 \<and> well_scoped s1 \<and> length (ss_ctxs s1) = length (ss_ctxs s)"
    using 1 assms(1,2) patch_up_step [OF assms(1-4)] by (auto split: if_splits)
  obtain s2 e2 where 2: "patch_scopes i (cp_Scopes p) s1 = (s2, e2)" by fastforce
  have "detached s0 s2 \<and> well_scoped s2" using patch_scopes_step [OF _ _ assms(3) _ 2] s1 assms(4) by simp
  with assms(1,2,5) s1 1 2 show ?thesis
    by (auto simp: ApplyContextPatch_def split: if_splits option.splits)
qed

lemma CloneForRestart_step:
  assumes "well_scoped s" "i < length (ss_ctxs s)" "CloneForRestart L R i s = (t, r)"
  shows "detached s t" "well_scoped t" "r = Inr f \<Longrightarrow> length (ss_ctxs s) \<le> f \<and> f < length (ss_ctxs t)"
proof -
  let ?n = "length (ss_counters s)"
  let ?c = "ctx_of s i"
  let ?s1 = "s\<lparr>ss_counters := ss_counters s @ [ss_counters s ! rx_counters ?c, ss_counters s ! rx_wcounters ?c]\<rparr>"
  obtain st where st: "clone_node L R ?n (Suc ?n) i (?s1, [], []) = (st, r)" "t = fst st"
    using assms(3) by (auto simp: CloneForRestart_def Let_def split: prod.splits)
  have "detached s ?s1" by (auto simp: detached_def kept_def)
  moreover have "well_scoped ?s1" by (rule well_scoped_same_ctxs [OF assms(1)]) (simp_all add: store_grows_def)
  ultimately have "clone_inv s ?n (?s1, [], [])" by (simp add: clone_inv_def)
  from clone_node_inv [OF assms(1) this assms(2) st(1)]
  show "detached s t" "well_scoped t" "r = Inr f \<Longrightarrow> length (ss_ctxs s) \<le> f \<and> f < length (ss_ctxs t)"
    unfolding st(2) clone_inv_def by auto
qed

section \<open>Properties\<close>

text \<open>C12. A restarted attempt is isolated. Whatever patch is applied to the copy, and whatever is
  then done with the copy and the contexts made from it - children, views, workspaces, publications,
  changes of the Git state - every context, map, position, counter and Git state there was before is as it
  was, until the attempt is adopted.\<close>

theorem restart_isolated:
  assumes "well_scoped s" "i < length (ss_ctxs s)" "CloneForRestart L R i s = (t, Inr f)"
    "ApplyContextPatch R (Some f) p t = (t', e)" "\<forall>x \<in> set ops. \<forall>j \<in> set (op_ctxs x). length (ss_ctxs s) \<le> j"
    "run_ops L ops t' = (u, ps)"
  shows "prefix (ss_ctxs s) (ss_ctxs u) \<and> prefix (ss_maps s) (ss_maps u) \<and> prefix (ss_done s) (ss_done u) \<and>
    prefix (ss_counters s) (ss_counters u) \<and> prefix (ss_commits s) (ss_commits u) \<and> prefix (ss_bases s) (ss_bases u)"
proof -
  note c = CloneForRestart_step [OF assms(1-3)]
  from ApplyContextPatch_step [OF c(1,2) _ _ assms(4)] c(3) [OF refl] have "detached s t' \<and> well_scoped t'" by simp
  with run_ops_detached [of s t' ops L] assms(5,6) have "kept s u" by (simp add: detached_kept)
  then show ?thesis by (simp add: kept_def)
qed


text \<open>The adoption goes through the parents, which have smaller addresses, and leaves the bases.\<close>

lemma adopt_ctx_same:
  "ss_bases (adopt_ctx i src s) = ss_bases s" "length (ss_ctxs (adopt_ctx i src s)) = length (ss_ctxs s)"
  "rx_base (ctx_of (adopt_ctx i src s) j) = rx_base (ctx_of s j)"
  by (simp_all add: adopt_ctx_def Let_def ctx_of_upd)

lemma AdoptRestart_same:
  "ss_bases (AdoptRestart rc src s) = ss_bases s \<and> length (ss_ctxs (AdoptRestart rc src s)) = length (ss_ctxs s) \<and>
   rx_base (ctx_of (AdoptRestart rc src s) j) = rx_base (ctx_of s j)"
proof (induction rc src s rule: AdoptRestart.induct)
  case (1 rc src s)
  show ?case
  proof (cases "rc = None \<or> src = None")
    case True
    then have "AdoptRestart rc src s = s" by (auto simp: AdoptRestart.simps [of rc src s] split: option.split)
    then show ?thesis by simp
  next
    case False
    then obtain i k where ik: "rc = Some i" "src = Some k" by auto
    show ?thesis
    proof (cases "\<exists>p. rx_Parent (ctx_of s i) = Some p \<and> p < i")
      case True
      then obtain p where p: "rx_Parent (ctx_of s i) = Some p" "p < i" by blast
      have "AdoptRestart rc src s = adopt_ctx i k (AdoptRestart (Some p) (rx_Parent (ctx_of s k)) s)"
        unfolding ik by (subst AdoptRestart.simps) (simp add: p)
      with 1 [OF refl ik p] show ?thesis by (simp add: adopt_ctx_same)
    next
      case False
      then have "AdoptRestart rc src s = adopt_ctx i k s"
        unfolding ik by (subst AdoptRestart.simps) (auto split: option.split)
      then show ?thesis by (simp add: adopt_ctx_same)
    qed
  qed
qed

text \<open>In a workspace, a restart patch of the Git base is lost when the attempt is adopted: whatever
  the copy's context says, the next context of the adopting scope shows the repository, the ref and the
  author the workspace had before, because the base of the workspace is not adopted.\<close>

theorem restart_git_patch_lost:
  assumes "i < length (ss_ctxs s)" "rx_base (ctx_of s i) = Some b"
  shows "let g = tx_Git (snd (TaskExecutionContext i (AdoptRestart (Some i) src s))) in
    gt_BaseRepo g = gb_BaseRepo (ss_bases s ! b) \<and> gt_BaseRef g = gb_BaseRef (ss_bases s ! b) \<and>
    gt_GitAuthor g = gb_GitAuthor (ss_bases s ! b)"
proof -
  let ?t = "AdoptRestart (Some i) src s"
  have t: "i < length (ss_ctxs ?t)" "rx_base (ctx_of ?t i) = Some b" "ss_bases ?t = ss_bases s"
    using AdoptRestart_same [of "Some i" src s i] assms(1,2) by simp_all
  then show ?thesis
    by (simp add: TaskExecutionContext_def Let_def syncWorkspace_def ctx_of_upd map_context_def synced_def
        execution_sentinels_def sync_git_def)
qed

end
