(* ===== verification/Scope_Witness.thy ===== *)
theory Scope_Witness
  imports Restart_Safety
begin

text \<open>
  A recipe with a sequence, two visits of one step, a workspace and a restart: the instances at which the
  properties of scopes and restarts are applied.
\<close>

section \<open>A store\<close>

definition ex_scope_lib :: scope_lib where
  "ex_scope_lib = \<lparr>sl_hash = (\<lambda>x. x), sl_now = Suc, sl_cell = (\<lambda>_. True), sl_env = (\<lambda>_. None),
     sl_refs = \<lparr>al_key_error = (\<lambda>_. None), al_decode = (\<lambda>_. None), al_compact = (\<lambda>x. x), al_sha = (\<lambda>x. x)\<rparr>\<rparr>"

definition ex_paths :: path_context where
  "ex_paths = \<lparr>pth_Workdir = [], pth_WorktreePath = [], pth_Inbox = [], pth_Outbox = []\<rparr>"

definition ex_job :: job_ctx where
  "ex_job = \<lparr>jx_Permissions = None, jx_GitProfile = unset_selection, jx_InitialCommit = None, jx_RestoreArtifact = None,
     jx_Workspace = None, jx_CellResolution = None,
     jx_Environment = \<lparr>env_WorktreePath = [], env_WorkdirPath = [], env_ArtifactInbox = [], env_ArtifactOutbox = [],
       env_Host = ex_paths, env_Op = ex_paths\<rparr>,
     jx_Artifacts = [], jx_Workflow = \<lparr>wfc_GoalID = [], wfc_CellID = [], wfc_CellName = ''cell'', wfc_JobID = [], wfc_ProjectId = []\<rparr>,
     jx_GitBase = \<lparr>gb_BaseRepo = ''repo'', gb_BaseRef = ''main'', gb_ResolvedBaseHash = [], gb_GitAuthor = []\<rparr>,
     jx_RecipeSource = \<lparr>rsc_Repo = [], rsc_Ref = [], rsc_Path = [], rsc_Selector = []\<rparr>, jx_RestoreName = []\<rparr>"

definition ex_empty :: scope_store where
  "ex_empty = \<lparr>ss_ctxs = [], ss_maps = [], ss_done = [], ss_counters = [], ss_caches = [],
     ss_commits = [\<lparr>gc_ParentRef = [], gc_PersistHash = [], gc_ParentHash = []\<rparr>], ss_bases = [], ss_draws = 0\<rparr>"

definition ex_opts :: scope_options where
  "ex_opts = \<lparr>opt_Validate = False, opt_CatchBeforeRetry = False\<rparr>"

definition ex_meta :: "string \<Rightarrow> scope_meta" where
  "ex_meta n = \<lparr>sm_ID = n, sm_Const = False, sm_Perms = None, sm_Internal = None\<rparr>"

definition ex_root :: scope_store where
  "ex_root = fst (NewRecipeResolutionContext ex_scope_lib 0 [] ex_job ex_opts ex_empty)"

definition ex_seq :: scope_store where
  "ex_seq = fst (NewChildContext ex_scope_lib 0 SequenceScope (ex_meta ''seq'') [] (Some []) ex_root)"

definition ex_out :: "string \<Rightarrow> execution_output" where
  "ex_out v = \<lparr>eo_Outputs = Some [(''v'', GStr v)], eo_ArtifactRefs = [], eo_Artifacts = [], eo_Jobs = EmptyStartedJobsContext\<rparr>"

definition ex_scope_ops :: "scope_op list" where
  "ex_scope_ops = [OpChild 1 OpScope (ex_meta ''step'') [] None, OpView 2, OpPublish 2 (ex_out ''a''), OpPublish 3 (ex_out ''b''),
     OpChild 1 OpScope (ex_meta ''step'') [] None, OpPublish 4 (ex_out ''c'')]"

section \<open>Scopes\<close>

lemma ex_seq_well: "well_scoped ex_seq" "length (ss_ctxs ex_seq) = 2" "length (ss_maps ex_seq) = 4"
  by code_simp+

theorem outputs_once_in_order_witness:
  "let run = run_ops ex_scope_lib ex_scope_ops ex_seq in
     history (fst run) 2 ''step'' = history ex_seq 2 ''step'' @ results_for 2 ''step'' (snd run) \<and>
     results_for 2 ''step'' (snd run) = [result_of (ex_out ''a''), result_of (ex_out ''c'')]"
proof -
  have "results_for 2 ''step'' (snd (run_ops ex_scope_lib ex_scope_ops ex_seq)) = [result_of (ex_out ''a''), result_of (ex_out ''c'')]"
    by code_simp
  with outputs_once_in_order [OF ex_seq_well(1) prod.collapse [symmetric], of 2 ex_scope_lib ex_scope_ops "''step''"] ex_seq_well(3)
  show ?thesis by (simp add: Let_def)
qed

definition ex_op :: "scope_store \<times> (scope_error + nat)" where
  "ex_op = NewChildContext ex_scope_lib 1 OpScope (ex_meta ''step'') [] None ex_seq"


lemma ex_op_ok: "NewChildContext ex_scope_lib 1 OpScope (ex_meta ''step'') [] None ex_seq = (fst ex_op, Inr 2)"
proof -
  have "snd ex_op = Inr 2" by code_simp
  then show ?thesis unfolding ex_op_def by (metis prod.collapse)
qed



definition ex_again :: "scope_store \<times> (scope_error + nat)" where
  "ex_again = NewChildContext ex_scope_lib 1 OpScope (ex_meta ''step'') [] None (fst (run_ops ex_scope_lib [OpPublish 2 (ex_out ''a'')] (fst ex_op)))"

theorem invocations_distinct_witness:
  "let x = tx_Invocation (tm_Context (rx_data (ctx_of (fst ex_op) 2))); y = tx_Invocation (tm_Context (rx_data (ctx_of (fst ex_again) 3)))
   in inv_NodePath x = inv_NodePath y \<and> (inv_NodePath x, inv_Seq x) \<noteq> (inv_NodePath y, inv_Seq y)"
proof -
  let ?u = "fst (run_ops ex_scope_lib [OpPublish 2 (ex_out ''a'')] (fst ex_op))"
  have "snd ex_again = Inr 3" by code_simp
  then have again: "NewChildContext ex_scope_lib 1 OpScope (ex_meta ''step'') [] None ?u = (fst ex_again, Inr 3)"
    unfolding ex_again_def by (metis prod.collapse)
  have facts: "1 < length (ss_ctxs ?u)" "rx_counters (ctx_of (fst ex_again) 3) = rx_counters (ctx_of (fst ex_op) 2)"
    "inv_NodePath (tx_Invocation (tm_Context (rx_data (ctx_of (fst ex_op) 2)))) =
       inv_NodePath (tx_Invocation (tm_Context (rx_data (ctx_of (fst ex_again) 3))))"
    by code_simp+
  from invocations_distinct [OF ex_seq_well(1) _ ex_op_ok prod.collapse [symmetric] facts(1) again facts(2)] ex_seq_well(2) facts(3)
  show ?thesis by (simp add: Let_def)
qed

section \<open>Restarts\<close>

text \<open>A codec that carries the ref.\<close>

definition ex_restart :: restart_lib where
  "ex_restart = \<lparr>rl_marshal = (\<lambda>j. Inr [(''git'', GMap [(''ref'', GStr (gb_BaseRef (jx_GitBase j)))])]),
     rl_unmarshal = (\<lambda>m. Inr (case map_of m ''git'' of
        Some (GMap g) \<Rightarrow> (case map_of g ''ref'' of
           Some (GStr r) \<Rightarrow> ex_job\<lparr>jx_GitBase := (jx_GitBase ex_job)\<lparr>gb_BaseRef := r\<rparr>\<rparr> | _ \<Rightarrow> ex_job)
      | _ \<Rightarrow> ex_job)),
     rl_data = (\<lambda>_. None)\<rparr>"

definition ex_ws :: workspace_context where
  "ex_ws = \<lparr>wk_Cell = ''cell'', wk_ScopeID = ''ws'', wk_ParentScopeID = [], wk_Initial = [], wk_InitialHash = ''h'', wk_RefPolicy = []\<rparr>"

definition ex_scoped :: scope_store where
  "ex_scoped = fst (WithWorkspace ex_scope_lib 1 ex_ws \<lparr>gb_BaseRepo = ''repo'', gb_BaseRef = ''main'', gb_ResolvedBaseHash = ''h'', gb_GitAuthor = []\<rparr> ex_seq)"

definition ex_clone :: "scope_store \<times> (patch_error + nat)" where
  "ex_clone = CloneForRestart ex_scope_lib ex_restart 2 ex_scoped"

definition ex_patch :: context_patch where
  "ex_patch = \<lparr>cp_Job = [(''git'', GMap [(''ref'', GStr ''new'')])],
     cp_Scopes = [\<lparr>sp_Container = ''sequence'', sp_ID = ''step'', sp_Outputs = [(''v'', GStr ''x'')]\<rparr>]\<rparr>"

definition ex_patched :: "scope_store \<times> patch_error option" where
  "ex_patched = ApplyContextPatch ex_restart (Some 5) ex_patch (fst ex_clone)"

definition ex_retry :: "scope_op list" where
  "ex_retry = [OpChild 5 OpScope (ex_meta ''step'') [] None, OpPublish 6 (ex_out ''d'')]"

theorem restart_isolated_witness:
  "snd ex_patched = None \<and> length (snd (run_ops ex_scope_lib ex_retry (fst ex_patched))) = 1 \<and>
   prefix (ss_maps ex_scoped) (ss_maps (fst (run_ops ex_scope_lib ex_retry (fst ex_patched))))"
proof -
  have "snd ex_clone = Inr 5" by code_simp
  then have clone: "CloneForRestart ex_scope_lib ex_restart 2 ex_scoped = (fst ex_clone, Inr 5)"
    unfolding ex_clone_def by (metis prod.collapse)
  have patch: "ApplyContextPatch ex_restart (Some 5) ex_patch (fst ex_clone) = (fst ex_patched, snd ex_patched)"
    by (simp add: ex_patched_def)
  have facts: "well_scoped ex_scoped" "2 < length (ss_ctxs ex_scoped)"
    "\<forall>x \<in> set ex_retry. \<forall>j \<in> set (op_ctxs x). length (ss_ctxs ex_scoped) \<le> j" "snd ex_patched = None"
    "length (snd (run_ops ex_scope_lib ex_retry (fst ex_patched))) = 1"
    by code_simp+
  from restart_isolated [OF facts(1,2) clone patch facts(3) prod.collapse [symmetric]] facts(4,5) show ?thesis by simp
qed


theorem restart_git_patch_lost_witness:
  "gt_BaseRef (tx_Git (snd (TaskExecutionContext 5 (fst ex_patched)))) = ''new'' \<and>
   gt_BaseRef (tx_Git (snd (TaskExecutionContext 2 (AdoptRestart (Some 2) (Some 5) (fst ex_patched))))) = ''main''"
proof -
  have facts: "2 < length (ss_ctxs (fst ex_patched))" "rx_base (ctx_of (fst ex_patched) 2) = Some 0"
    "gb_BaseRef (ss_bases (fst ex_patched) ! 0) = ''main''"
    "gt_BaseRef (tx_Git (snd (TaskExecutionContext 5 (fst ex_patched)))) = ''new''"
    by code_simp+
  from restart_git_patch_lost [OF facts(1,2), of "Some 5"] facts(3,4) show ?thesis by (simp add: Let_def)
qed

end
