(* ===== verification/Artifact_Bind.thy ===== *)
theory Artifact_Bind
  imports Artifact_Ref Go_Path "HOL-Library.AList"
begin

text \<open>
  \<^verbatim>\<open>pkg/worker/compiler/artifact_bindings.go\<close>: how the artifacts a node names are bound to the
  files of an op's inbox. A name binds one artifact, to itself or, with a slash at the end, into a
  directory; or it binds a set, into the directory of that name. Values are what templates give: plain
  values, lists and maps, references and keys as native structs, and values of CEL. The JSON decoders are
  operations of \<open>bind_lib\<close>. A map is a list of entries with distinct keys; a nil pointer is
  \<open>None\<close>.
\<close>

section \<open>Values\<close>

datatype bind_value =
    BScalar gval
  | BRef "artifact_ref option"
  | BKey "artifact_key option"
  | BRefs "artifact_ref option list"
  | BKeys "artifact_key option list"
  | BRefMap "(string \<times> artifact_ref) list"
  | BRefPtrMap "(string \<times> artifact_ref option) list"
  | BKeyMap "(string \<times> artifact_key option) list"
  | BList "bind_value list"
  | BMap "(string \<times> bind_value) list"
  | BCelNull
  | BCelList "bind_value list"
  | BCelMap "(string option \<times> bind_value) list"
  | BCelOther bind_value

record bind_lib =
  bl_refs :: artifact_lib
  bl_decode_value :: "(string \<times> bind_value) list \<Rightarrow> go_error + artifact_ref"
  bl_decode_ref :: "(string \<times> bind_value) list \<Rightarrow> artifact_ref option"
  bl_decode_key :: "(string \<times> bind_value) list \<Rightarrow> artifact_key option"

section \<open>Names\<close>

definition back_slash :: char where "back_slash = CHR 0x5C"

definition path_segments :: "string \<Rightarrow> string list" where
  "path_segments s = filter (\<lambda>p. p \<noteq> []) (concat (map (split_on back_slash) (split_on CHR ''/'' s)))"

definition validateArtifactBindingName :: "string \<Rightarrow> go_error + unit" where
  "validateArtifactBindingName name =
     (if name = [] then Inl (errorf ''name cannot be empty'')
      else if has_prefix name ''/'' then Inl (errorf ''name must be relative'')
      else if ''..'' \<in> set (path_segments name) then Inl (errorf (''name must not contain '' @ [CHR 0x27] @ ''..'' @ [CHR 0x27] @ '' segments''))
      else Inr ())"

definition hasTrailingSlash :: "string \<Rightarrow> bool" where
  "hasTrailingSlash name \<longleftrightarrow> has_suffix name ''/'' \<or> has_suffix name [back_slash]"

definition trim_slashes :: "string \<Rightarrow> string" where
  "trim_slashes s = rev (dropWhile (\<lambda>c. c = CHR ''/'' \<or> c = back_slash) (rev s))"

definition artifactBindingPrefix :: "string \<Rightarrow> go_error + string" where
  "artifactBindingPrefix name =
     bindE (validateArtifactBindingName name) (\<lambda>_.
     Inr (if path_clean name = ''.'' then [] else trim_slashes (path_clean name)))"

text \<open>\<^verbatim>\<open>filepath.Join\<close> of two parts.\<close>

definition path_join :: "string \<Rightarrow> string \<Rightarrow> string" where
  "path_join a b = (if a = [] then (if b = [] then [] else path_clean b)
     else if b = [] then path_clean a else path_clean (a @ ''/'' @ b))"

definition joinArtifactBindingPath :: "string \<Rightarrow> string \<Rightarrow> go_error + string" where
  "joinArtifactBindingPath pre artifact =
     (if trim_space artifact = [] then Inl (errorf ''artifact name cannot be empty'')
      else bindE (wrapping ''invalid artifact name: '' (validateArtifactBindingName artifact)) (\<lambda>_.
       let name = (if pre = [] then artifact else path_join pre artifact) in
       bindE (validateArtifactBindingName name) (\<lambda>_. Inr (path_clean name))))"

definition materializedExplicitBindingName :: "string \<Rightarrow> artifact_ref \<Rightarrow> go_error + string" where
  "materializedExplicitBindingName name r =
     (if ar_Kind r = value_kind \<and> (hasTrailingSlash name \<or> path_clean name = ''.'')
      then Inl (errorf ''value artifact requires an explicit file destination'')
      else if hasTrailingSlash name
      then bindE (artifactBindingPrefix name) (\<lambda>pre. joinArtifactBindingPath pre (NameValue r))
      else bindE (validateArtifactBindingName name) (\<lambda>_. Inr (path_clean name)))"

section \<open>References\<close>

definition valid_ref :: "bind_lib \<Rightarrow> artifact_ref \<Rightarrow> go_error + artifact_ref" where
  "valid_ref B r = bindE (ref_Validate (bl_refs B) r) (\<lambda>_. Inr r)"

definition valid_key :: "bind_lib \<Rightarrow> artifact_key \<Rightarrow> go_error + artifact_ref" where
  "valid_key B k = (case al_key_error (bl_refs B) k of Some e \<Rightarrow> Inl e | None \<Rightarrow> Inr (NewStoredRef k))"

definition zero_key :: artifact_key where
  "zero_key = \<lparr>ak_job = [], ak_ordinal = 0, ak_name = [], ak_size = 0\<rparr>"

definition coerceArtifactRefFromMap :: "bind_lib \<Rightarrow> (string \<times> bind_value) list \<Rightarrow> go_error + artifact_ref" where
  "coerceArtifactRefFromMap B m =
     (let as_key = (case bl_decode_key B m of
            Some k \<Rightarrow> if k \<noteq> zero_key then valid_key B k else Inl (errorf ''expected artifact ref'')
          | None \<Rightarrow> Inl (errorf ''expected artifact ref''))
      in case bl_decode_ref B m of
        Some r \<Rightarrow> if ar_Kind r \<noteq> [] \<or> ar_Name r \<noteq> [] \<or> ar_Stored r \<noteq> None \<or> ar_External r \<noteq> None
          then valid_ref B r else as_key
      | None \<Rightarrow> as_key)"

definition names_value :: "(string \<times> bind_value) list \<Rightarrow> bool" where
  "names_value m \<longleftrightarrow> map_of m ''kind'' = Some (BScalar (GStr value_kind))"

fun coerceArtifactRef :: "bind_lib \<Rightarrow> bind_value \<Rightarrow> go_error + artifact_ref" where
  "coerceArtifactRef B (BRef None) = Inl (errorf ''artifact ref is nil'')"
| "coerceArtifactRef B (BRef (Some r)) = valid_ref B r"
| "coerceArtifactRef B (BKey None) = Inl (errorf ''artifact key is nil'')"
| "coerceArtifactRef B (BKey (Some k)) = valid_key B k"
| "coerceArtifactRef B (BMap m) =
     (if names_value m then bindE (wrapping ''invalid value artifact descriptor: '' (bl_decode_value B m)) (valid_ref B)
      else coerceArtifactRefFromMap B m)"
| "coerceArtifactRef B BCelNull = Inl (errorf ''artifact ref is nil'')"
| "coerceArtifactRef B (BCelList vs) = Inl (errorf ''expected artifact ref, got artifact set'')"
| "coerceArtifactRef B (BCelMap m) = Inl (errorf ''expected artifact ref, got artifact set'')"
| "coerceArtifactRef B (BCelOther v) = coerceArtifactRef B v"
| "coerceArtifactRef B v = Inl (errorf ''expected artifact ref'')"

definition coerceArtifactRefFromRefVal :: "bind_lib \<Rightarrow> bind_value \<Rightarrow> go_error + artifact_ref" where
  "coerceArtifactRefFromRefVal B v =
     (if v = BCelNull then Inl (errorf ''artifact ref is nil'') else coerceArtifactRef B v)"

definition named_value :: "string \<Rightarrow> artifact_ref \<Rightarrow> artifact_ref" where
  "named_value name r = (if ar_Kind r = value_kind \<and> ar_Name r = [] then r\<lparr>ar_Name := name\<rparr> else r)"

text \<open>The entries of a map in the order of their keys.\<close>

definition sorted_entries :: "(string \<times> 'v) list \<Rightarrow> (string \<times> 'v) list" where
  "sorted_entries m = map (\<lambda>k. (k, the (map_of m k))) (sort (map fst m))"

fun cel_keys :: "(string option \<times> 'v) list \<Rightarrow> go_error + (string \<times> 'v) list" where
  "cel_keys [] = Inr []"
| "cel_keys ((None, v) # m) = Inl (errorf ''artifact set map key is not a string'')"
| "cel_keys ((Some k, v) # m) = bindE (cel_keys m) (\<lambda>m'. Inr ((k, v) # m'))"

fun coerceArtifactSet :: "bind_lib \<Rightarrow> bind_value \<Rightarrow> go_error + artifact_ref list" where
  "coerceArtifactSet B (BScalar v) = (if v = GNil then Inr [] else Inl (errorf ''expected artifact set''))"
| "coerceArtifactSet B (BRefs rs) = mapE (valid_ref B) (List.map_filter id rs)"
| "coerceArtifactSet B (BKeys ks) = mapE (valid_key B) (List.map_filter id ks)"
| "coerceArtifactSet B (BList vs) = mapE (coerceArtifactRef B) vs"
| "coerceArtifactSet B (BRefMap m) = mapE (\<lambda>(k, r). valid_ref B (named_value k r)) (sorted_entries m)"
| "coerceArtifactSet B (BRefPtrMap m) = mapE (valid_ref B) (List.map_filter snd (sorted_entries m))"
| "coerceArtifactSet B (BKeyMap m) = mapE (valid_key B) (List.map_filter snd (sorted_entries m))"
| "coerceArtifactSet B (BMap m) =
     mapE (\<lambda>(k, v). bindE (coerceArtifactRef B v) (\<lambda>r. Inr (named_value k r))) (sorted_entries m)"
| "coerceArtifactSet B BCelNull = Inr []"
| "coerceArtifactSet B (BCelList vs) = mapE (coerceArtifactRefFromRefVal B) vs"
| "coerceArtifactSet B (BCelMap m) =
     bindE (cel_keys m) (\<lambda>m'. mapE (\<lambda>(k, v). coerceArtifactRefFromRefVal B v) (sorted_entries m'))"
| "coerceArtifactSet B (BCelOther v) = (case coerceArtifactRef B v of
     Inl _ \<Rightarrow> Inl (errorf ''expected artifact set'') | Inr r \<Rightarrow> Inr [r])"
| "coerceArtifactSet B v = Inl (errorf ''expected artifact set'')"

section \<open>Claims\<close>

text \<open>\<open>bc_out\<close> are the bindings, \<open>bc_claims\<close> the destinations and what claimed them.\<close>

record bind_acc =
  bc_out :: "(string \<times> artifact_ref) list"
  bc_claims :: "string list"

definition artifactBindingPathContains :: "string \<Rightarrow> string \<Rightarrow> bool" where
  "artifactBindingPathContains parent child \<longleftrightarrow>
     parent \<noteq> child \<and> has_prefix (path_clean child) (path_clean parent @ ''/'')"

datatype bind_error =
    BindNameEmpty
  | BindInvalid string go_error
  | BindTwice string
  | BindConflict string string
  | BindResolve go_error

definition acc_add :: "string \<Rightarrow> string \<Rightarrow> artifact_ref \<Rightarrow> bind_acc \<Rightarrow> bind_error + bind_acc" where
  "acc_add name materialized r acc =
     (case validateArtifactBindingName name of Inl e \<Rightarrow> Inl (BindInvalid name e) | Inr _ \<Rightarrow>
      (case validateArtifactBindingName materialized of Inl e \<Rightarrow> Inl (BindInvalid materialized e) | Inr _ \<Rightarrow>
       (let dest = path_clean materialized in
        if dest \<in> set (bc_claims acc) then Inl (BindTwice dest)
        else case find (\<lambda>c. artifactBindingPathContains c dest \<or> artifactBindingPathContains dest c) (bc_claims acc) of
          Some c \<Rightarrow> Inl (BindConflict dest c)
        | None \<Rightarrow> Inr \<lparr>bc_out = AList.update name r (bc_out acc), bc_claims = dest # bc_claims acc\<rparr>)))"

definition expand_one :: "string \<Rightarrow> string \<Rightarrow> bind_acc \<Rightarrow> artifact_ref \<Rightarrow> bind_error + bind_acc" where
  "expand_one name pre acc r = (case joinArtifactBindingPath pre (NameValue r) of
     Inl e \<Rightarrow> Inl (BindInvalid name e)
   | Inr m \<Rightarrow> acc_add m m r acc)"

definition bind_one :: "bind_lib \<Rightarrow> bind_acc \<Rightarrow> string \<times> bind_value \<Rightarrow> bind_error + bind_acc" where
  "bind_one B acc e = (case e of (name, v) \<Rightarrow>
     if name = [] then Inl BindNameEmpty
     else case coerceArtifactRef B v of
       Inr r0 \<Rightarrow> (let r = named_value name r0 in case materializedExplicitBindingName name r of
           Inl e \<Rightarrow> Inl (BindInvalid name e)
         | Inr m \<Rightarrow> acc_add name m r acc)
     | Inl _ \<Rightarrow> (case coerceArtifactSet B v of
         Inl e \<Rightarrow> Inl (BindInvalid name e)
       | Inr rs \<Rightarrow> (case artifactBindingPrefix name of
           Inl e \<Rightarrow> Inl (BindInvalid name e)
         | Inr pre \<Rightarrow> runE (expand_one name pre) acc rs)))"

definition bindResolvedArtifacts :: "bind_lib \<Rightarrow> (string \<times> bind_value) list \<Rightarrow> bind_error + (string \<times> artifact_ref) list" where
  "bindResolvedArtifacts B m =
     bindE (runE (bind_one B) \<lparr>bc_out = [], bc_claims = []\<rparr> (sorted_entries m)) (\<lambda>acc. Inr (bc_out acc))"

definition resolveArtifactBindings ::
  "bind_lib \<Rightarrow> ((string \<times> gval) list \<Rightarrow> go_error + (string \<times> bind_value) list) \<Rightarrow> (string \<times> gval) list \<Rightarrow>
   bind_error + (string \<times> artifact_ref) list" where
  "resolveArtifactBindings B resolve m =
     (if m = [] then Inr [] else bindE (map_sum BindResolve id (resolve m)) (bindResolvedArtifacts B))"

end
