(* ===== verification/Path_Parts.thy ===== *)
theory Path_Parts
  imports Go_Path
begin

text \<open>
  Lexical facts about paths: the parts of a path that count, the paths that
  \<^verbatim>\<open>Clean\<close> gives for texts without a double dot, and what is below a directory.
\<close>

definition parts :: "string \<Rightarrow> string list" where
  "parts s = filter (\<lambda>p. p \<noteq> [] \<and> p \<noteq> ''.'') (split_on CHR ''/'' s)"

definition rel_path :: "string list \<Rightarrow> string" where
  "rel_path ps = (if ps = [] then ''.'' else join_with ''/'' ps)"

definition good_parts :: "string list \<Rightarrow> bool" where
  "good_parts ps \<longleftrightarrow> list_all (\<lambda>p. plain_component p \<and> CHR ''/'' \<notin> set p) ps"

lemma good_parts_simps [simp]:
  "good_parts []" "good_parts (p # ps) \<longleftrightarrow> plain_component p \<and> CHR ''/'' \<notin> set p \<and> good_parts ps"
  "good_parts (ps @ qs) \<longleftrightarrow> good_parts ps \<and> good_parts qs"
  by (simp_all add: good_parts_def)

lemma good_parts_parts: "''..'' \<notin> set (split_on CHR ''/'' s) \<Longrightarrow> good_parts (parts s)"
  by (auto simp: good_parts_def list_all_iff parts_def plain_component_def dest: split_on_parts)

lemma clean_parts_no_dots:
  "''..'' \<notin> set ps \<Longrightarrow> clean_parts rooted st ps = rev st @ filter (\<lambda>p. p \<noteq> [] \<and> p \<noteq> ''.'') ps"
  by (induction ps arbitrary: st) auto

text \<open>The components of joined parts.\<close>

lemma split_joined: "good_parts ps \<Longrightarrow> ps \<noteq> [] \<Longrightarrow> split_on CHR ''/'' (join_with ''/'' ps) = ps"
proof (induction ps)
  case (Cons p ps)
  then have p: "CHR ''/'' \<notin> set p" by simp
  show ?case
  proof (cases ps)
    case Nil
    with p show ?thesis by (simp add: split_on_no_sep)
  next
    case (Cons q qs)
    with Cons.IH Cons.prems p show ?thesis
      using split_on_append [of "CHR ''/''" p "join_with ''/'' ps"] by (simp add: split_on_no_sep)
  qed
qed simp

lemma filter_good: "good_parts ps \<Longrightarrow> filter (\<lambda>p. p \<noteq> [] \<and> p \<noteq> ''.'') ps = ps"
  by (induction ps) (auto simp: plain_component_def)

lemma parts_rel_path: "good_parts ps \<Longrightarrow> parts (rel_path ps) = ps"
  by (auto simp: parts_def rel_path_def split_joined filter_good)

lemma no_dots_good: "good_parts ps \<Longrightarrow> ''..'' \<notin> set ps"
  by (auto simp: good_parts_def list_all_iff plain_component_def)

lemma no_dots_rel_path: "good_parts ps \<Longrightarrow> ''..'' \<notin> set (split_on CHR ''/'' (rel_path ps))"
  using no_dots_good by (auto simp: rel_path_def split_joined)

lemma join_head: "good_parts ps \<Longrightarrow> ps \<noteq> [] \<Longrightarrow> \<exists>c t. join_with ''/'' ps = c # t \<and> c \<noteq> CHR ''/''"
proof (cases ps)
  case (Cons p qs)
  assume "good_parts ps"
  with Cons obtain c t where "p = c # t" "c \<noteq> CHR ''/''"
    by (cases p) (auto simp: plain_component_def)
  with Cons show ?thesis by (cases qs) auto
qed simp

lemma rel_path_relative: "good_parts ps \<Longrightarrow> \<not> has_prefix (rel_path ps) ''/''"
  using join_head [of ps] by (auto simp: rel_path_def has_prefix_def)

lemma join_last:
  assumes "good_parts ps" "ps \<noteq> []"
  shows "join_with ''/'' ps \<noteq> [] \<and> last (join_with ''/'' ps) \<noteq> CHR ''/''"
  using assms
proof (induction ps)
  case (Cons p ps)
  then have p: "p \<noteq> []" "last p \<noteq> CHR ''/''" by (auto simp: plain_component_def dest: last_in_set)
  show ?case
  proof (cases ps)
    case Nil
    with p show ?thesis by simp
  next
    case (Cons q qs)
    with Cons.IH Cons.prems show ?thesis by simp
  qed
qed simp

lemma path_clean_relative:
  assumes "\<not> has_prefix s ''/''" "''..'' \<notin> set (split_on CHR ''/'' s)"
  shows "path_clean s = rel_path (parts s)"
proof -
  have "join_with ''/'' (parts s) = [] \<longleftrightarrow> parts s = []"
    using join_last [OF good_parts_parts [OF assms(2)]] by auto
  with assms show ?thesis by (simp add: path_clean_def Let_def clean_parts_no_dots parts_def rel_path_def)
qed

text \<open>A directory given by an absolute path in its clean form.\<close>

definition clean_dir :: "string \<Rightarrow> bool" where
  "clean_dir d \<longleftrightarrow> (case split_on CHR ''/'' d of p # ps \<Rightarrow> p = [] \<and> ps \<noteq> [] \<and> list_all plain_component ps | [] \<Rightarrow> False)"

definition abs_path :: "string list \<Rightarrow> string" where
  "abs_path ps = ''/'' @ join_with ''/'' ps"

lemma split_abs_path: "good_parts ps \<Longrightarrow> ps \<noteq> [] \<Longrightarrow> split_on CHR ''/'' (abs_path ps) = [] # ps"
  by (simp add: abs_path_def split_joined)

lemma clean_dirE:
  assumes "clean_dir d"
  obtains ps where "good_parts ps" "ps \<noteq> []" "d = abs_path ps" "split_on CHR ''/'' d = [] # ps"
proof -
  from assms obtain ps where ps: "split_on CHR ''/'' d = [] # ps" "ps \<noteq> []" "list_all plain_component ps"
    by (auto simp: clean_dir_def split: list.splits)
  then have "good_parts ps"
    using split_on_parts [of _ "CHR ''/''" d] by (auto simp: good_parts_def list_all_iff)
  moreover have "d = abs_path ps"
    using join_split [of "CHR ''/''" d] ps(1,2) by (cases ps) (simp_all add: abs_path_def)
  ultimately show thesis using that ps by blast
qed

lemma path_clean_abs:
  assumes "good_parts ps" "ps \<noteq> []"
  shows "path_clean (abs_path ps) = abs_path ps"
proof -
  have "clean_parts True [] (split_on CHR ''/'' (abs_path ps)) = ps"
    using assms by (simp add: split_abs_path clean_parts_no_dots no_dots_good filter_good)
  then show ?thesis by (simp add: path_clean_def Let_def abs_path_def has_prefix_def)
qed

lemma path_clean_below:
  assumes "good_parts is" "is \<noteq> []" "''..'' \<notin> set (split_on CHR ''/'' s)"
  shows "path_clean (abs_path is @ ''/'' @ s) = abs_path (is @ parts s)"
proof -
  have "split_on CHR ''/'' (abs_path is @ ''/'' @ s) = ([] # is) @ split_on CHR ''/'' s"
    using split_on_append [of "CHR ''/''" "abs_path is" s] assms by (simp add: split_abs_path)
  then have "clean_parts True [] (split_on CHR ''/'' (abs_path is @ ''/'' @ s)) = is @ parts s"
    using assms no_dots_good [OF assms(1)] by (simp add: clean_parts_no_dots filter_good parts_def)
  then show ?thesis by (simp add: path_clean_def Let_def abs_path_def has_prefix_def)
qed

lemma abs_path_below: "good_parts is \<Longrightarrow> is \<noteq> [] \<Longrightarrow> has_prefix (abs_path (is @ qs)) (abs_path is @ ''/'') \<longleftrightarrow> qs \<noteq> []"
  by (cases qs) (auto simp: abs_path_def has_prefix_def join_append dest: prefix_length_le)

text \<open>Below a directory, by components.\<close>

lemma below_iff: "has_prefix s (d @ ''/'') \<or> s = d \<longleftrightarrow> prefix (split_on CHR ''/'' d) (split_on CHR ''/'' s)"
  using split_prefix_iff [of s d "CHR ''/''"] by (auto simp: has_prefix_def)

lemma strictly_below: "has_prefix s (d @ ''/'') \<longleftrightarrow> strict_prefix (split_on CHR ''/'' d) (split_on CHR ''/'' s)"
proof -
  have "split_on CHR ''/'' d = split_on CHR ''/'' s \<longleftrightarrow> d = s" by (metis join_split)
  moreover have "\<not> has_prefix d (d @ ''/'')" by (auto simp: has_prefix_def dest: prefix_length_le)
  ultimately show ?thesis using below_iff [of s d] by (auto simp: strict_prefix_def)
qed

lemma rel_path_contains:
  assumes "good_parts ps" "good_parts qs" "ps \<noteq> []" "qs \<noteq> []"
  shows "has_prefix (rel_path qs) (rel_path ps @ ''/'') \<longleftrightarrow> strict_prefix ps qs"
  using assms by (simp add: strictly_below rel_path_def split_joined)

lemma rel_path_inj: "good_parts ps \<Longrightarrow> good_parts qs \<Longrightarrow> rel_path ps = rel_path qs \<longleftrightarrow> ps = qs"
  by (metis parts_rel_path)

end
