(* ===== verification/Bind_Plan.thy ===== *)
theory Bind_Plan
  imports Artifact_Bind Path_Parts
begin

text \<open>
  What an accepted plan of bindings promises: the parts below the inbox at which each binding lands, none
  of them at or below another's.
\<close>

definition landing :: "string \<Rightarrow> artifact_ref \<Rightarrow> string list" where
  "landing name r = parts name @ (if hasTrailingSlash name then parts (NameValue r) else [])"

definition plain_name :: "string \<Rightarrow> bool" where
  "plain_name s \<longleftrightarrow> back_slash \<notin> set s"

definition plain_binding :: "string \<times> artifact_ref \<Rightarrow> bool" where
  "plain_binding b \<longleftrightarrow> plain_name (fst b) \<and> plain_name (NameValue (snd b))"

section \<open>Names\<close>

lemma split_on_subset: "p \<in> set (split_on d s) \<Longrightarrow> set p \<subseteq> set s"
proof -
  have "\<Union> (set ` set (split_on d s)) \<subseteq> set s"
  proof (induction s)
    case (Cons c s)
    then show ?case by (cases "split_on d s") (simp_all, blast)
  qed simp
  then show "p \<in> set (split_on d s) \<Longrightarrow> set p \<subseteq> set s" by blast
qed

lemma segments_plain: "plain_name s \<Longrightarrow> path_segments s = filter (\<lambda>p. p \<noteq> []) (split_on CHR ''/'' s)"
proof -
  assume "plain_name s"
  then have "split_on back_slash p = [p]" if "p \<in> set (split_on CHR ''/'' s)" for p
    using split_on_subset [OF that] by (intro split_on_no_sep) (auto simp: plain_name_def)
  then have "map (split_on back_slash) (split_on CHR ''/'' s) = map (\<lambda>p. [p]) (split_on CHR ''/'' s)" by simp
  then have "concat (map (split_on back_slash) (split_on CHR ''/'' s)) = split_on CHR ''/'' s"
    by (simp only: concat_map_singleton) simp
  then show ?thesis by (simp add: path_segments_def)
qed

lemma valid_name:
  "validateArtifactBindingName s = Inr () \<longleftrightarrow> s \<noteq> [] \<and> \<not> has_prefix s ''/'' \<and> ''..'' \<notin> set (path_segments s)"
  by (simp add: validateArtifactBindingName_def)

lemma valid_plain:
  "validateArtifactBindingName s = Inr () \<Longrightarrow> plain_name s \<Longrightarrow>
     s \<noteq> [] \<and> \<not> has_prefix s ''/'' \<and> ''..'' \<notin> set (split_on CHR ''/'' s) \<and> path_clean s = rel_path (parts s) \<and> good_parts (parts s)"
  using path_clean_relative [of s] good_parts_parts [of s] by (auto simp: valid_name segments_plain)

text \<open>A clean relative path has no slash at its end.\<close>

lemma joined_ends:
  "\<forall>p \<in> set ps. p \<noteq> [] \<and> CHR ''/'' \<notin> set p \<Longrightarrow> ps \<noteq> [] \<Longrightarrow> join_with ''/'' ps \<noteq> [] \<and> last (join_with ''/'' ps) \<noteq> CHR ''/''"
proof (induction ps)
  case (Cons p ps)
  then have p: "p \<noteq> []" "last p \<noteq> CHR ''/''" by (auto dest: last_in_set)
  with Cons show ?case by (cases ps) auto
qed simp

lemma path_clean_end:
  assumes "\<not> has_prefix s ''/''"
  shows "path_clean s \<noteq> [] \<and> last (path_clean s) \<noteq> CHR ''/''"
proof -
  let ?ps = "clean_parts False [] (split_on CHR ''/'' s)"
  have "\<forall>p \<in> set ?ps. CHR ''/'' \<notin> set p"
    by (rule clean_parts_noslash) (auto dest: split_on_parts)
  moreover obtain st where "?ps = rev st" "stack_ok st"
    using clean_parts_stack [of "[]" False "split_on CHR ''/'' s"] by (auto simp: stack_ok_def)
  then have "\<forall>p \<in> set ?ps. p \<noteq> []" by (auto simp: stack_ok_def list_all_iff)
  ultimately have "?ps \<noteq> [] \<longrightarrow> join_with ''/'' ?ps \<noteq> [] \<and> last (join_with ''/'' ?ps) \<noteq> CHR ''/''"
    using joined_ends [of ?ps] by blast
  with assms show ?thesis by (auto simp: path_clean_def Let_def)
qed

lemma has_suffix_last: "has_suffix s [c] \<longleftrightarrow> s \<noteq> [] \<and> last s = c"
  by (cases s rule: rev_cases) (auto simp: has_suffix_def)

lemma trailing_plain: "plain_name s \<Longrightarrow> hasTrailingSlash s \<longleftrightarrow> s \<noteq> [] \<and> last s = CHR ''/''"
  by (auto simp: hasTrailingSlash_def has_suffix_last plain_name_def dest: last_in_set)

lemma trim_slashes_id: "s \<noteq> [] \<Longrightarrow> last s \<noteq> CHR ''/'' \<Longrightarrow> plain_name s \<Longrightarrow> trim_slashes s = s"
  by (cases s rule: rev_cases) (auto simp: trim_slashes_def plain_name_def)

lemma join_subset: "set (join_with sep ps) \<subseteq> set sep \<union> \<Union> (set ` set ps)"
  by (induction sep ps rule: join_with.induct) auto

lemma parts_subset: "p \<in> set (parts s) \<Longrightarrow> set p \<subseteq> set s"
  by (auto simp: parts_def dest: split_on_subset)

lemma plain_rel_path: "plain_name s \<Longrightarrow> plain_name (rel_path (parts s))"
  using join_subset [of "''/''" "parts s"] parts_subset [of _ s]
  by (auto simp: plain_name_def rel_path_def back_slash_def)

lemma parts_slash: "parts (a @ ''/'' @ b) = parts a @ parts b"
  using split_on_append [of "CHR ''/''" a b] by (simp add: parts_def)

lemma rel_path_slash:
  assumes "good_parts (parts a)" "good_parts (parts b)" "a = rel_path (parts a)" "parts a \<noteq> []" "''..'' \<notin> set (split_on CHR ''/'' b)"
  shows "path_clean (a @ ''/'' @ b) = rel_path (parts a @ parts b)"
proof -
  have "\<not> has_prefix a ''/''" "a \<noteq> []"
    using rel_path_relative [OF assms(1)] join_last [OF assms(1,4)] assms(3,4) by (simp_all add: rel_path_def)
  then have "\<not> has_prefix (a @ ''/'' @ b) ''/''" by (cases a) (auto simp: has_prefix_def)
  moreover have "''..'' \<notin> set (split_on CHR ''/'' (a @ ''/'' @ b))"
    using split_on_append [of "CHR ''/''" a b] no_dots_rel_path [OF assms(1)] assms(3,5) by simp
  ultimately show ?thesis using path_clean_relative parts_slash by metis
qed

section \<open>Planned destinations\<close>

lemma joined_plain:
  assumes "joinArtifactBindingPath pre art = Inr m" "plain_name art"
    "pre = [] \<and> qs = [] \<or> good_parts qs \<and> qs \<noteq> [] \<and> pre = rel_path qs"
  shows "m = rel_path (qs @ parts art) \<and> good_parts (qs @ parts art)"
proof -
  have art: "validateArtifactBindingName art = Inr ()"
    using assms(1) by (auto simp: joinArtifactBindingPath_def ok_iff split: if_splits)
  note a = valid_plain [OF art assms(2)]
  have m: "m = path_clean (if pre = [] then art else path_join pre art)"
    using assms(1) by (auto simp: joinArtifactBindingPath_def ok_iff Let_def split: if_splits)
  from assms(3) show ?thesis
  proof (elim disjE conjE)
    assume "pre = []" "qs = []"
    with m a show ?thesis by simp
  next
    assume q: "good_parts qs" "qs \<noteq> []" "pre = rel_path qs"
    then have ne: "pre \<noteq> []" and p: "parts pre = qs"
      using join_last [of qs] parts_rel_path [of qs] by (simp_all add: rel_path_def)
    have j: "path_join pre art = rel_path (qs @ parts art)"
      using rel_path_slash [of pre art] p q a ne by (simp add: path_join_def)
    have g: "good_parts (qs @ parts art)" using q a by simp
    have "path_clean (rel_path (qs @ parts art)) = rel_path (qs @ parts art)"
      using path_clean_relative [OF rel_path_relative [OF g] no_dots_rel_path [OF g]] parts_rel_path [OF g] by simp
    with m ne j g show ?thesis by simp
  qed
qed

lemma plan_explicit:
  assumes "materializedExplicitBindingName name r = Inr m" "plain_binding (name, r)"
  shows "path_clean m = rel_path (landing name r) \<and> good_parts (landing name r)"
proof (cases "hasTrailingSlash name")
  case True
  from assms(2) have pl: "plain_name name" "plain_name (NameValue r)" by (simp_all add: plain_binding_def)
  from assms(1) True obtain pre where pre: "artifactBindingPrefix name = Inr pre" "joinArtifactBindingPath pre (NameValue r) = Inr m"
    by (auto simp: materializedExplicitBindingName_def ok_iff split: if_splits)
  then have "validateArtifactBindingName name = Inr ()" by (simp add: artifactBindingPrefix_def ok_iff)
  note n = valid_plain [OF this pl(1)]
  have "pre = [] \<and> parts name = [] \<or> good_parts (parts name) \<and> parts name \<noteq> [] \<and> pre = rel_path (parts name)"
  proof (cases "parts name = []")
    case True
    with pre n show ?thesis by (simp add: artifactBindingPrefix_def ok_iff rel_path_def)
  next
    case False
    have "rel_path (parts name) \<noteq> ''.''"
      using rel_path_inj [of "parts name" "[]"] n False by (simp add: rel_path_def)
    moreover have "trim_slashes (rel_path (parts name)) = rel_path (parts name)"
      using join_last [of "parts name"] n False plain_rel_path [OF pl(1)] by (intro trim_slashes_id) (simp_all add: rel_path_def)
    ultimately show ?thesis using pre n False by (simp add: artifactBindingPrefix_def ok_iff)
  qed
  from joined_plain [OF pre(2) pl(2) this] True
  have m: "m = rel_path (landing name r)" "good_parts (landing name r)" by (simp_all add: landing_def)
  then show ?thesis
    using path_clean_relative [OF rel_path_relative [OF m(2)] no_dots_rel_path [OF m(2)]] parts_rel_path [OF m(2)] by simp
next
  case False
  with assms have "validateArtifactBindingName name = Inr ()" "m = path_clean name" "plain_name name"
    by (auto simp: materializedExplicitBindingName_def plain_binding_def ok_iff split: if_splits)
  with valid_plain [of name] False
  have m: "m = rel_path (landing name r)" "good_parts (landing name r)" by (simp_all add: landing_def)
  then show ?thesis
    using path_clean_relative [OF rel_path_relative [OF m(2)] no_dots_rel_path [OF m(2)]] parts_rel_path [OF m(2)] by simp
qed

lemma plan_expansion:
  assumes "joinArtifactBindingPath pre art = Inr m" "validateArtifactBindingName m = Inr ()" "plain_name m"
  shows "path_clean m = rel_path (landing m r) \<and> good_parts (landing m r)"
proof -
  from assms(1) obtain s where s: "m = path_clean s" "validateArtifactBindingName s = Inr ()"
    by (auto simp: joinArtifactBindingPath_def ok_iff Let_def split: if_splits)
  then have "last m \<noteq> CHR ''/''" using path_clean_end [of s] by (simp add: valid_name)
  then have "landing m r = parts m" using trailing_plain [OF assms(3)] by (simp add: landing_def)
  with valid_plain [OF assms(2,3)] show ?thesis by simp
qed

section \<open>The plan\<close>

definition plan_ok :: "bind_acc \<Rightarrow> bool" where
  "plan_ok acc \<longleftrightarrow> distinct (map fst (bc_out acc)) \<and>
     (\<forall>(n, r) \<in> set (bc_out acc). n \<noteq> [] \<and> validateArtifactBindingName n = Inr () \<and>
       (plain_binding (n, r) \<longrightarrow> good_parts (landing n r) \<and> rel_path (landing n r) \<in> set (bc_claims acc))) \<and>
     (\<forall>(n, r) \<in> set (bc_out acc). \<forall>(n', r') \<in> set (bc_out acc).
       n \<noteq> n' \<and> plain_binding (n, r) \<and> plain_binding (n', r') \<and> landing n r \<noteq> [] \<longrightarrow> \<not> prefix (landing n r) (landing n' r'))"

lemma updated_entry: "b \<in> set (AList.update k v m) \<Longrightarrow> b = (k, v) \<or> b \<in> set m \<and> (distinct (map fst m) \<longrightarrow> fst b \<noteq> k)"
  by (induction m) (auto split: if_splits)

lemma contains_rel_path:
  assumes "good_parts ps" "good_parts qs" "ps \<noteq> []" "strict_prefix ps qs"
  shows "artifactBindingPathContains (rel_path ps) (rel_path qs)"
proof -
  have "path_clean (rel_path xs) = rel_path xs" if "good_parts xs" for xs
    using path_clean_relative [OF rel_path_relative [OF that] no_dots_rel_path [OF that]] parts_rel_path [OF that] by simp
  moreover have "qs \<noteq> []" "ps \<noteq> qs" using assms(4) by auto
  ultimately show ?thesis
    using assms rel_path_contains [OF assms(1,2,3)] rel_path_inj [OF assms(1,2)] by (simp add: artifactBindingPathContains_def)
qed

lemma acc_add_ok:
  assumes "plan_ok acc" "acc_add name m r acc = Inr acc'" "name \<noteq> []"
    and dest: "plain_binding (name, r) \<Longrightarrow> path_clean m = rel_path (landing name r) \<and> good_parts (landing name r)"
  shows "plan_ok acc'"
proof -
  let ?d = "path_clean m"
  have v: "validateArtifactBindingName name = Inr ()"
    using assms(2) by (auto simp: acc_add_def split: sum.splits)
  have c: "?d \<notin> set (bc_claims acc)" "acc' = \<lparr>bc_out = AList.update name r (bc_out acc), bc_claims = ?d # bc_claims acc\<rparr>"
    "\<forall>c \<in> set (bc_claims acc). \<not> artifactBindingPathContains c ?d \<and> \<not> artifactBindingPathContains ?d c"
    using assms(2) by (auto simp: acc_add_def Let_def find_None_iff split: sum.splits if_splits option.splits)
  have d: "distinct (map fst (bc_out acc))" using assms(1) by (simp add: plan_ok_def)
  have old: "b = (name, r) \<or> b \<in> set (bc_out acc) \<and> fst b \<noteq> name" if "b \<in> set (bc_out acc')" for b
    using updated_entry [of b name r "bc_out acc"] that d c(2) by simp
  have apart: "\<not> prefix (landing name r) (landing n' r') \<or> landing name r = []"
    "\<not> prefix (landing n' r') (landing name r) \<or> landing n' r' = []"
    if "(n', r') \<in> set (bc_out acc)" "plain_binding (n', r')" "plain_binding (name, r)" for n' r'
  proof -
    have l': "good_parts (landing n' r')" "rel_path (landing n' r') \<in> set (bc_claims acc)"
      using assms(1) that by (auto simp: plan_ok_def)
    note l = dest [OF that(3)]
    have ne: "landing n' r' \<noteq> landing name r" using l' l c(1) by auto
    have "\<not> strict_prefix (landing name r) (landing n' r')" if "landing name r \<noteq> []"
      using contains_rel_path [of "landing name r" "landing n' r'"] c(3) l l' that by auto
    with ne show "\<not> prefix (landing name r) (landing n' r') \<or> landing name r = []" by (auto simp: strict_prefix_def)
    have "\<not> strict_prefix (landing n' r') (landing name r)" if "landing n' r' \<noteq> []"
      using contains_rel_path [of "landing n' r'" "landing name r"] c(3) l l' that by auto
    with ne show "\<not> prefix (landing n' r') (landing name r) \<or> landing n' r' = []" by (auto simp: strict_prefix_def)
  qed
  have "distinct (map fst (bc_out acc'))" using d c(2) by (simp add: distinct_update)
  moreover have "n \<noteq> [] \<and> validateArtifactBindingName n = Inr () \<and>
      (plain_binding (n, s) \<longrightarrow> good_parts (landing n s) \<and> rel_path (landing n s) \<in> set (bc_claims acc'))"
    if "(n, s) \<in> set (bc_out acc')" for n s
    using old [OF that] assms(1,3) v dest c(2) by (auto simp: plan_ok_def)
  moreover have "\<not> prefix (landing n s) (landing n' s')"
    if "(n, s) \<in> set (bc_out acc')" "(n', s') \<in> set (bc_out acc')" "n \<noteq> n'" "plain_binding (n, s)" "plain_binding (n', s')"
      "landing n s \<noteq> []" for n s n' s'
    using old [OF that(1)] old [OF that(2)] that(3-) apart assms(1) by (auto simp: plan_ok_def)
  ultimately show ?thesis unfolding plan_ok_def by blast
qed

interpretation expansion: invariant_steps "expand_one name pre" plan_ok for name pre
proof unfold_locales
  fix s a t assume a: "plan_ok s" "expand_one name pre s a = Inr t"
  then obtain m where m: "joinArtifactBindingPath pre (NameValue a) = Inr m" "acc_add m m a s = Inr t"
    by (auto simp: expand_one_def split: sum.splits)
  then have v: "validateArtifactBindingName m = Inr ()" by (auto simp: acc_add_def split: sum.splits)
  show "plan_ok t"
  proof (rule acc_add_ok [OF a(1) m(2)])
    show "m \<noteq> []" using v by (simp add: valid_name)
    show "path_clean m = rel_path (landing m a) \<and> good_parts (landing m a)" if "plain_binding (m, a)"
      using plan_expansion [OF m(1) v] that by (simp add: plain_binding_def)
  qed
qed

interpretation plan: invariant_steps "bind_one B" plan_ok for B
proof unfold_locales
  fix s a t assume a: "plan_ok s" "bind_one B s a = Inr t"
  obtain name v where n: "a = (name, v)" by fastforce
  with a(2) have ne: "name \<noteq> []" by (auto simp: bind_one_def)
  show "plan_ok t"
  proof (cases "coerceArtifactRef B v")
    case (Inr r0)
    let ?r = "named_value name r0"
    from a(2) n ne Inr obtain m where m: "materializedExplicitBindingName name ?r = Inr m" "acc_add name m ?r s = Inr t"
      by (auto simp: bind_one_def Let_def split: sum.splits)
    from acc_add_ok [OF a(1) m(2) ne plan_explicit [OF m(1)]] show ?thesis .
  next
    case (Inl e)
    with a(2) n ne obtain rs pre where "runE (expand_one name pre) s rs = Inr t"
      by (auto simp: bind_one_def split: sum.splits)
    with a(1) show ?thesis by (rule expansion.run_invariant)
  qed
qed

lemma planned: "bindResolvedArtifacts B m = Inr bs \<Longrightarrow> \<exists>claims. plan_ok \<lparr>bc_out = bs, bc_claims = claims\<rparr>"
proof -
  assume "bindResolvedArtifacts B m = Inr bs"
  then obtain acc where acc: "runE (bind_one B) \<lparr>bc_out = [], bc_claims = []\<rparr> (sorted_entries m) = Inr acc" "bc_out acc = bs"
    by (auto simp: bindResolvedArtifacts_def ok_iff)
  have "plan_ok acc" by (rule plan.run_invariant [OF _ acc(1)]) (simp add: plan_ok_def)
  with acc(2) show ?thesis by (cases acc) auto
qed

end
