(* ===== verification/Artifact_Place.thy ===== *)
theory Artifact_Place
  imports Artifact_Bind
begin

text \<open>
  \<^verbatim>\<open>pkg/worker/ops/op_executor.go\<close> (\<open>materializeArtifactBindings\<close> and what it calls): the
  worker writes the artifacts bound to an op into its inbox. The file system is a function from the
  components of an absolute path to what is there; \<open>place_lib\<close> holds what the code asks of the
  system, the network and the archive libraries. The bindings come in the order in which Go happens to
  visit the map.
\<close>

section \<open>Files\<close>

datatype fnode = FDir | FFile string

type_synonym fs = "string list \<Rightarrow> fnode option"

text \<open>What a reader gives: its bytes, and the error it ends with.\<close>

type_synonym stream = "string \<times> go_error option"

record zip_entry =
  ze_Name :: string
  ze_Dir :: bool
  ze_Open :: "go_error + stream"

datatype tar_kind = TarDir | TarFile stream | TarOther int

datatype walk_item = WalkError go_error | WalkDir string | WalkFile string stream

record place_lib =
  pl_refs :: artifact_lib
  pl_io :: "string list \<Rightarrow> go_error option"
  pl_save :: "artifact \<Rightarrow> go_error option"
  pl_url :: "string \<Rightarrow> go_error + string \<times> string \<times> string"
  pl_get :: "string \<Rightarrow> go_error + int \<times> stream"
  pl_tmp :: "fs \<Rightarrow> go_error + string"
  pl_walk :: "fs \<Rightarrow> string \<Rightarrow> walk_item list"
  pl_zip :: "string \<Rightarrow> go_error + zip_entry list"
  pl_gunzip :: "string \<Rightarrow> go_error + string"
  pl_tar :: "string \<Rightarrow> (string \<times> tar_kind) list \<times> go_error option"

abbreviation comps :: "string \<Rightarrow> string list" where
  "comps s \<equiv> split_on CHR ''/'' s"

fun is_file :: "fnode option \<Rightarrow> bool" where
  "is_file (Some (FFile c)) = True"
| "is_file _ = False"

datatype stat = StatNone | StatNode fnode | StatError go_error

definition os_stat :: "fs \<Rightarrow> string list \<Rightarrow> stat" where
  "os_stat f p = (if list_ex (\<lambda>q. is_file (f q)) (butlast (prefixes p)) then StatError (errorf ''not a directory'')
     else case f p of None \<Rightarrow> StatNone | Some n \<Rightarrow> StatNode n)"

type_synonym outcome = "fs \<times> go_error option"

definition os_MkdirAll :: "place_lib \<Rightarrow> string list \<Rightarrow> fs \<Rightarrow> outcome" where
  "os_MkdirAll P p f = (case pl_io P p of
     Some e \<Rightarrow> (f, Some e)
   | None \<Rightarrow> if list_ex (\<lambda>q. is_file (f q)) (prefixes p) then (f, Some (errorf ''not a directory''))
       else (\<lambda>q. if f q = None \<and> q \<noteq> [] \<and> prefix q p then Some FDir else f q, None))"

definition os_create :: "place_lib \<Rightarrow> string list \<Rightarrow> stream \<Rightarrow> fs \<Rightarrow> outcome" where
  "os_create P p r f = (case pl_io P p of
     Some e \<Rightarrow> (f, Some e)
   | None \<Rightarrow> if f (butlast p) \<noteq> Some FDir then (f, Some (errorf ''no such directory''))
       else if f p = Some FDir then (f, Some (errorf ''is a directory''))
       else (f(p := Some (FFile (fst r))), snd r))"

definition andthen :: "outcome \<Rightarrow> (fs \<Rightarrow> outcome) \<Rightarrow> outcome" where
  "andthen a k = (case a of (f, Some e) \<Rightarrow> (f, Some e) | (f, None) \<Rightarrow> k f)"

definition wrap_outcome :: "string \<Rightarrow> outcome \<Rightarrow> outcome" where
  "wrap_outcome t a = (fst a, map_option (wrap_error t) (snd a))"

definition copyReaderToFile :: "place_lib \<Rightarrow> stream \<Rightarrow> string list \<Rightarrow> fs \<Rightarrow> outcome" where
  "copyReaderToFile P r p f = andthen (os_MkdirAll P (butlast p) f) (os_create P p r)"

definition ensureDestinationAbsent :: "string list \<Rightarrow> fs \<Rightarrow> go_error option" where
  "ensureDestinationAbsent p f = (case os_stat f p of
     StatNode _ \<Rightarrow> Some (errorf ''would overwrite'')
   | StatError e \<Rightarrow> Some (wrap_error ''stat failed: '' e)
   | StatNone \<Rightarrow> None)"

definition if_absent :: "string list \<Rightarrow> fs \<Rightarrow> (fs \<Rightarrow> outcome) \<Rightarrow> outcome" where
  "if_absent p f k = (case ensureDestinationAbsent p f of Some e \<Rightarrow> (f, Some e) | None \<Rightarrow> k f)"

section \<open>Destinations\<close>

definition splitPathSegments :: "string \<Rightarrow> string list" where
  "splitPathSegments = path_segments"

definition validateBindingName :: "string \<Rightarrow> go_error + unit" where
  "validateBindingName name =
     (if name = [] then Inl (errorf ''name cannot be empty'')
      else if has_prefix name ''/'' then Inl (errorf ''name must be relative'')
      else if ''..'' \<in> set (splitPathSegments name)
      then Inl (errorf (''name must not contain '' @ [CHR 0x27] @ ''..'' @ [CHR 0x27] @ '' segments''))
      else Inr ())"

definition below :: "string \<Rightarrow> string \<Rightarrow> go_error + string list" where
  "below inbox dest =
     (if \<not> has_prefix dest (inbox @ ''/'') \<and> dest \<noteq> inbox then Inl (errorf ''destination escapes inbox'')
      else Inr (comps dest))"

definition bindingDestination :: "string \<Rightarrow> string \<Rightarrow> string \<Rightarrow> go_error + string list" where
  "bindingDestination inbox name artifact =
     (if hasTrailingSlash name
      then if trim_slashes name = [] then Inl (errorf ''name cannot be root'')
           else below inbox (path_clean (path_join inbox (path_join (trim_slashes name) artifact)))
      else below inbox (path_clean (path_join inbox name)))"

definition expandedBindingDestination :: "string \<Rightarrow> string \<Rightarrow> go_error + string" where
  "expandedBindingDestination inbox name =
     (if trim_slashes name = [] then Inl (errorf ''name cannot be root'')
      else let dest = path_clean (path_join inbox (trim_slashes name)) in
        bindE (below inbox dest) (\<lambda>_. Inr dest))"

definition archiveTargetPath :: "string \<Rightarrow> string \<Rightarrow> go_error + string list" where
  "archiveTargetPath droot entry =
     (let name = path_clean entry in
      if name = ''.'' \<or> name = [] then Inr (comps droot)
      else let target = path_clean (path_join droot name) in
        if \<not> has_prefix target (droot @ ''/'') \<and> target \<noteq> droot then Inl (errorf ''archive entry escapes destination'')
        else Inr (comps target))"

section \<open>Archives and directories\<close>

fun zip_entries :: "place_lib \<Rightarrow> string \<Rightarrow> zip_entry list \<Rightarrow> fs \<Rightarrow> outcome" where
  "zip_entries P droot [] f = (f, None)"
| "zip_entries P droot (z # zs) f = (case archiveTargetPath droot (ze_Name z) of
     Inl e \<Rightarrow> (f, Some e)
   | Inr p \<Rightarrow> andthen
       (if ze_Dir z then os_MkdirAll P p f
        else case ze_Open z of Inl e \<Rightarrow> (f, Some e) | Inr r \<Rightarrow> copyReaderToFile P r p f)
       (zip_entries P droot zs))"

definition extractZip :: "place_lib \<Rightarrow> string \<Rightarrow> string \<Rightarrow> fs \<Rightarrow> outcome" where
  "extractZip P content droot f = (case pl_zip P content of
     Inl e \<Rightarrow> (f, Some e)
   | Inr zs \<Rightarrow> andthen (os_MkdirAll P (comps droot) f) (zip_entries P droot zs))"

fun tar_entries :: "place_lib \<Rightarrow> string \<Rightarrow> (string \<times> tar_kind) list \<Rightarrow> go_error option \<Rightarrow> fs \<Rightarrow> outcome" where
  "tar_entries P droot [] end f = (f, end)"
| "tar_entries P droot ((name, k) # ts) end f = (case archiveTargetPath droot name of
     Inl e \<Rightarrow> (f, Some e)
   | Inr p \<Rightarrow> andthen
       (case k of TarDir \<Rightarrow> os_MkdirAll P p f
        | TarFile r \<Rightarrow> copyReaderToFile P r p f
        | TarOther t \<Rightarrow> (f, Some (errorf ''unsupported tar entry type'')))
       (tar_entries P droot ts end))"

definition extractTarStream :: "place_lib \<Rightarrow> string \<Rightarrow> string \<Rightarrow> fs \<Rightarrow> outcome" where
  "extractTarStream P content droot f =
     andthen (os_MkdirAll P (comps droot) f) (tar_entries P droot (fst (pl_tar P content)) (snd (pl_tar P content)))"

definition extractTarGzArchive :: "place_lib \<Rightarrow> string \<Rightarrow> string \<Rightarrow> fs \<Rightarrow> outcome" where
  "extractTarGzArchive P content droot f = (case pl_gunzip P content of
     Inl e \<Rightarrow> (f, Some e) | Inr tar \<Rightarrow> extractTarStream P tar droot f)"

text \<open>The source is opened by its path, resolved lexically.\<close>

definition extractArchive :: "place_lib \<Rightarrow> string \<Rightarrow> string \<Rightarrow> fs \<Rightarrow> outcome" where
  "extractArchive P source droot f =
     (let lower = go_lower source in
      case f (comps (path_clean source)) of
        Some (FFile content) \<Rightarrow>
          if has_suffix lower ''.zip'' then extractZip P content droot f
          else if has_suffix lower ''.tar'' then extractTarStream P content droot f
          else if has_suffix lower ''.tar.gz'' \<or> has_suffix lower ''.tgz'' then extractTarGzArchive P content droot f
          else (f, Some (errorf ''unsupported archive format''))
      | _ \<Rightarrow> (f, Some (errorf ''no such file'')))"

fun walk_items :: "place_lib \<Rightarrow> string \<Rightarrow> walk_item list \<Rightarrow> fs \<Rightarrow> outcome" where
  "walk_items P droot [] f = (f, None)"
| "walk_items P droot (WalkError e # ws) f = (f, Some e)"
| "walk_items P droot (WalkDir rel # ws) f =
     andthen (if rel = ''.'' then (f, None) else os_MkdirAll P (comps (path_join droot rel)) f) (walk_items P droot ws)"
| "walk_items P droot (WalkFile rel r # ws) f =
     andthen (if rel = ''.'' then (f, None) else copyReaderToFile P r (comps (path_join droot rel)) f) (walk_items P droot ws)"

definition copyDirectory :: "place_lib \<Rightarrow> string \<Rightarrow> string \<Rightarrow> fs \<Rightarrow> outcome" where
  "copyDirectory P source droot f =
     andthen (os_MkdirAll P (comps droot) f) (\<lambda>g. walk_items P droot (pl_walk P g source) g)"

section \<open>Bindings\<close>

definition materializeStoredArtifactBinding :: "place_lib \<Rightarrow> string \<Rightarrow> string \<Rightarrow> artifact \<Rightarrow> fs \<Rightarrow> outcome" where
  "materializeStoredArtifactBinding P inbox name a f = (case bindingDestination inbox name (af_Name a) of
     Inl e \<Rightarrow> (f, Some (wrap_error ''invalid destination: '' e))
   | Inr p \<Rightarrow> if_absent p f (\<lambda>f. andthen (wrap_outcome ''mkdir failed: '' (os_MkdirAll P (butlast p) f))
       (os_create P p (af_Content a, pl_save P a))))"

definition materializeFileURLBinding ::
  "place_lib \<Rightarrow> string \<Rightarrow> string \<Rightarrow> artifact_ref \<Rightarrow> external_ref \<Rightarrow> string \<Rightarrow> fs \<Rightarrow> outcome" where
  "materializeFileURLBinding P inbox name r x source f =
     (if source = [] then (f, Some (errorf ''file url path cannot be empty''))
      else case os_stat f (comps (path_clean source)) of
        StatNone \<Rightarrow> (f, Some (errorf ''no such file''))
      | StatError e \<Rightarrow> (f, Some e)
      | StatNode FDir \<Rightarrow> (case expandedBindingDestination inbox name of
          Inl e \<Rightarrow> (f, Some e)
        | Inr droot \<Rightarrow> if_absent (comps droot) f (copyDirectory P source droot))
      | StatNode (FFile content) \<Rightarrow>
          if xr_Expand x then (case expandedBindingDestination inbox name of
            Inl e \<Rightarrow> (f, Some e)
          | Inr droot \<Rightarrow> if_absent (comps droot) f (extractArchive P source droot))
          else (case bindingDestination inbox name (NameValue r) of
            Inl e \<Rightarrow> (f, Some e)
          | Inr p \<Rightarrow> if_absent p f (copyReaderToFile P (content, None) p)))"

text \<open>\<^verbatim>\<open>path.Base\<close>.\<close>

definition path_base :: "string \<Rightarrow> string" where
  "path_base s = (if s = [] then ''.''
     else let t = rev (dropWhile (\<lambda>c. c = CHR ''/'') (rev s)) in if t = [] then ''/'' else last (comps t))"

definition archiveTempName :: "place_lib \<Rightarrow> artifact_ref \<Rightarrow> string \<Rightarrow> string" where
  "archiveTempName P r url =
     (let base = (case pl_url P url of Inl _ \<Rightarrow> [] | Inr (_, path, _) \<Rightarrow> path_base path) in
      if base \<noteq> [] \<and> base \<noteq> ''.'' \<and> base \<noteq> ''/'' then base
      else let name = trim_space (NameValue r) in if name = [] then ''artifact.bin'' else name)"

definition os_RemoveAll :: "string list \<Rightarrow> fs \<Rightarrow> fs" where
  "os_RemoveAll p f = (\<lambda>q. if prefix p q then None else f q)"

definition materializeHTTPBinding ::
  "place_lib \<Rightarrow> string \<Rightarrow> string \<Rightarrow> artifact_ref \<Rightarrow> external_ref \<Rightarrow> string \<Rightarrow> fs \<Rightarrow> outcome" where
  "materializeHTTPBinding P inbox name r x url f = (case pl_get P url of
     Inl e \<Rightarrow> (f, Some e)
   | Inr (status, body) \<Rightarrow>
       if status < 200 \<or> status \<ge> 300 then (f, Some (errorf ''unexpected status''))
       else if xr_Expand x then (case pl_tmp P f of
         Inl e \<Rightarrow> (f, Some e)
       | Inr tmp \<Rightarrow>
           (let source = path_join tmp (archiveTempName P r url);
                out = andthen (copyReaderToFile P body (comps source) (f(comps tmp := Some FDir)))
                  (\<lambda>g. case expandedBindingDestination inbox name of
                     Inl e \<Rightarrow> (g, Some e)
                   | Inr droot \<Rightarrow> if_absent (comps droot) g (extractArchive P source droot))
            in (os_RemoveAll (comps tmp) (fst out), snd out)))
       else (case bindingDestination inbox name (NameValue r) of
         Inl e \<Rightarrow> (f, Some e)
       | Inr p \<Rightarrow> if_absent p f (copyReaderToFile P body p)))"

definition materializeExternalArtifactBinding ::
  "place_lib \<Rightarrow> string \<Rightarrow> string \<Rightarrow> artifact_ref \<Rightarrow> external_ref \<Rightarrow> fs \<Rightarrow> outcome" where
  "materializeExternalArtifactBinding P inbox name r x f = (case pl_url P (xr_URL x) of
     Inl e \<Rightarrow> (f, Some (wrap_error ''parse url: '' e))
   | Inr (scheme, path, text) \<Rightarrow>
       if scheme = ''file'' then materializeFileURLBinding P inbox name r x path f
       else if scheme = ''http'' \<or> scheme = ''https'' then materializeHTTPBinding P inbox name r x text f
       else (f, Some (errorf ''unsupported url scheme'')))"

definition artifactKeyIdentity :: "artifact_key \<Rightarrow> string" where
  "artifactKeyIdentity k = ak_job k @ '':'' @ show_int (ak_ordinal k) @ '':'' @ ak_name k"

definition indexArtifactsByKey :: "artifact list \<Rightarrow> (string \<times> artifact) list" where
  "indexArtifactsByKey as = fold (\<lambda>a m. case af_Key a of
     Inl _ \<Rightarrow> m | Inr k \<Rightarrow> AList.update (artifactKeyIdentity k) a m) as []"

text \<open>\<^verbatim>\<open>jobdb.NewArtifactFromBytes\<close>: an artifact that is not stored.\<close>

definition value_artifact :: "artifact_ref \<Rightarrow> string \<Rightarrow> artifact" where
  "value_artifact r bytes = \<lparr>af_Name = NameValue r, af_Content = bytes, af_Key = Inl (errorf [])\<rparr>"

definition materialize_one ::
  "place_lib \<Rightarrow> string \<Rightarrow> (string \<times> artifact) list \<Rightarrow> string \<Rightarrow> artifact_ref \<Rightarrow> fs \<Rightarrow> outcome" where
  "materialize_one P inbox arts name r f = (case validateBindingName name of
     Inl e \<Rightarrow> (f, Some (wrap_error ''invalid artifact binding: '' e))
   | Inr _ \<Rightarrow> (case StoredKey r of
       Some k \<Rightarrow> (case map_of arts (artifactKeyIdentity k) of
         None \<Rightarrow> (f, Some (errorf ''artifact binding refers to missing artifact''))
       | Some a \<Rightarrow> wrap_outcome ''artifact binding save failed: '' (materializeStoredArtifactBinding P inbox name a f))
     | None \<Rightarrow>
         if ar_Kind r = value_kind then (case ValueBytes (pl_refs P) r of
           Inl e \<Rightarrow> (f, Some (wrap_error ''artifact binding: '' e))
         | Inr bytes \<Rightarrow> wrap_outcome ''artifact binding: '' (materializeStoredArtifactBinding P inbox name (value_artifact r bytes) f))
         else (case ar_External r of
           Some x \<Rightarrow> wrap_outcome ''artifact binding materialization failed: ''
             (materializeExternalArtifactBinding P inbox name r x f)
         | None \<Rightarrow> (f, Some (errorf ''artifact binding has unsupported ref kind'')))))"

fun materializeArtifactBindings ::
  "place_lib \<Rightarrow> string \<Rightarrow> (string \<times> artifact) list \<Rightarrow> (string \<times> artifact_ref) list \<Rightarrow> fs \<Rightarrow> outcome" where
  "materializeArtifactBindings P inbox arts [] f = (f, None)"
| "materializeArtifactBindings P inbox arts ((name, r) # bs) f =
     andthen (materialize_one P inbox arts name r f) (materializeArtifactBindings P inbox arts bs)"

end
