(* ===== verification/Bind_Safety.thy ===== *)
theory Bind_Safety
  imports Bind_Plan Artifact_Place
begin

text \<open>
  Where bound artifacts are written. \<open>sane\<close> is a file system with an existing inbox, \<open>writes\<close> the
  promise of an operation on it: nothing changes but below the inbox.
\<close>

section \<open>Operations that stay below a directory\<close>

definition tree :: "fs \<Rightarrow> bool" where
  "tree f \<longleftrightarrow> (\<forall>q c. f (q @ [c]) \<noteq> None \<and> q \<noteq> [] \<longrightarrow> f q = Some FDir)"

definition sane :: "string list \<Rightarrow> fs \<Rightarrow> bool" where
  "sane d f \<longleftrightarrow> d \<noteq> [] \<and> tree f \<and> f [] = None \<and> (\<forall>q. q \<noteq> [] \<and> prefix q d \<longrightarrow> f q = Some FDir)"

definition writes :: "string list \<Rightarrow> fs \<Rightarrow> fs \<Rightarrow> bool" where
  "writes d f g \<longleftrightarrow> tree g \<and> (\<forall>q. \<not> strict_prefix d q \<longrightarrow> g q = f q)"

lemma writes_refl: "sane d f \<Longrightarrow> writes d f f" by (simp add: writes_def sane_def)

lemma writes_trans: "writes d f g \<Longrightarrow> writes d g h \<Longrightarrow> writes d f h" by (simp add: writes_def)

lemma writes_sane: "sane d f \<Longrightarrow> writes d f g \<Longrightarrow> sane d g"
  by (auto simp: sane_def writes_def strict_prefix_def prefix_order.antisym)

lemma writes_andthen:
  assumes "sane d f" "writes d f (fst a)" "\<And>g. sane d g \<Longrightarrow> writes d g (fst (k g))"
  shows "writes d f (fst (andthen a k))"
proof (cases a)
  case (Pair g e)
  with assms writes_sane [OF assms(1,2)] show ?thesis
    by (cases e) (auto simp: andthen_def intro: writes_trans)
qed

lemma andthen_either: "sane d (fst a) \<Longrightarrow> writes d (fst a) (fst (k (fst a))) \<Longrightarrow> writes d (fst a) (fst (andthen a k))"
  by (cases a) (auto simp: andthen_def writes_refl split: option.split)

lemma writes_wrap [simp]: "fst (wrap_outcome t a) = fst a" by (simp add: wrap_outcome_def)

lemma butlast_below: "prefix d p \<Longrightarrow> prefix d (butlast p) \<or> prefix (butlast p) d"
  by (cases p rule: rev_cases) (auto simp: prefix_snoc)

lemma MkdirAll_writes:
  assumes "sane d f" "prefix d p \<or> prefix p d"
  shows "writes d f (fst (os_MkdirAll P p f))"
proof (cases "pl_io P p = None \<and> \<not> list_ex (\<lambda>q. is_file (f q)) (prefixes p)")
  case True
  let ?g = "\<lambda>q. if f q = None \<and> q \<noteq> [] \<and> prefix q p then Some FDir else f q"
  have r: "fst (os_MkdirAll P p f) = ?g" using True by (simp add: os_MkdirAll_def)
  have dir: "f q = None \<or> f q = Some FDir" if "prefix q p" for q
  proof -
    have "\<not> is_file (f q)" using True that by (auto simp: list_ex_iff)
    then show ?thesis by (cases "f q"; cases "the (f q)") auto
  qed
  have "tree ?g"
    unfolding tree_def
  proof (intro allI impI)
    fix q c assume a: "?g (q @ [c]) \<noteq> None \<and> q \<noteq> []"
    show "?g q = Some FDir"
    proof (cases "f (q @ [c]) = None")
      case True
      with a have "prefix (q @ [c]) p" by (auto split: if_splits)
      then have "prefix q p" by (meson append_prefixD)
      with a dir [of q] show ?thesis by auto
    next
      case False
      with a assms(1) show ?thesis by (auto simp: sane_def tree_def)
    qed
  qed
  moreover have "?g q = f q" if "\<not> strict_prefix d q" for q
  proof -
    have "prefix q d" if "prefix q p"
      using that assms(2) \<open>\<not> strict_prefix d q\<close> prefix_same_cases [of q p d]
      by (auto simp: strict_prefix_def dest: prefix_order.trans)
    with assms(1) show ?thesis by (auto simp: sane_def)
  qed
  ultimately show ?thesis unfolding r writes_def by blast
next
  case False
  then have "fst (os_MkdirAll P p f) = f" by (auto simp: os_MkdirAll_def split: option.splits)
  with writes_refl [OF assms(1)] show ?thesis by simp
qed

lemma create_writes:
  assumes "sane d f" "prefix d p"
  shows "writes d f (fst (os_create P p r f))"
proof (cases "pl_io P p = None \<and> f (butlast p) = Some FDir \<and> f p \<noteq> Some FDir")
  case True
  have p: "strict_prefix d p" "p \<noteq> []" using True assms by (auto simp: strict_prefix_def sane_def)
  have "tree (f(p := Some (FFile (fst r))))"
    unfolding tree_def
  proof (intro allI impI)
    fix q c assume a: "(f(p := Some (FFile (fst r)))) (q @ [c]) \<noteq> None \<and> q \<noteq> []"
    then have "f q = Some FDir" using True assms(1) by (auto simp: sane_def tree_def split: if_splits)
    with True show "(f(p := Some (FFile (fst r)))) q = Some FDir" by auto
  qed
  with True p show ?thesis by (auto simp: os_create_def writes_def)
next
  case False
  then have "fst (os_create P p r f) = f" by (auto simp: os_create_def split: option.splits)
  with writes_refl [OF assms(1)] show ?thesis by simp
qed

lemma copyReader_writes: "sane d f \<Longrightarrow> prefix d p \<Longrightarrow> writes d f (fst (copyReaderToFile P r p f))"
  unfolding copyReaderToFile_def
  by (rule writes_andthen) (auto intro: MkdirAll_writes create_writes dest: butlast_below)

lemma if_absent_writes: "sane d f \<Longrightarrow> (\<And>g. sane d g \<Longrightarrow> writes d g (fst (k g))) \<Longrightarrow> writes d f (fst (if_absent p f k))"
  by (simp add: if_absent_def writes_refl split: option.split)

section \<open>Archives and directories\<close>

lemma archiveTarget_below: "archiveTargetPath droot n = Inr p \<Longrightarrow> prefix (comps droot) p"
  using below_iff [of _ droot] by (auto simp: archiveTargetPath_def Let_def split: if_splits)

lemma zip_writes: "sane d f \<Longrightarrow> prefix d (comps droot) \<Longrightarrow> writes d f (fst (zip_entries P droot zs f))"
proof (induction zs arbitrary: f)
  case (Cons z zs)
  show ?case
  proof (cases "archiveTargetPath droot (ze_Name z)")
    case (Inr p)
    then have p: "prefix d p" using archiveTarget_below Cons.prems(2) prefix_order.trans by blast
    have "writes d f (fst (if ze_Dir z then os_MkdirAll P p f
        else case ze_Open z of Inl e \<Rightarrow> (f, Some e) | Inr r \<Rightarrow> copyReaderToFile P r p f))"
      using Cons.prems p by (auto split: sum.split intro: MkdirAll_writes copyReader_writes writes_refl)
    from writes_andthen [OF Cons.prems(1) this, of "zip_entries P droot zs"] Cons Inr show ?thesis by simp
  qed (simp add: writes_refl Cons.prems)
qed (simp add: writes_refl)

lemma tar_writes: "sane d f \<Longrightarrow> prefix d (comps droot) \<Longrightarrow> writes d f (fst (tar_entries P droot ts end f))"
proof (induction ts arbitrary: f)
  case (Cons t ts)
  obtain n k where t: "t = (n, k)" by fastforce
  show ?case
  proof (cases "archiveTargetPath droot n")
    case (Inr p)
    then have p: "prefix d p" using archiveTarget_below Cons.prems(2) prefix_order.trans by blast
    have "writes d f (fst (case k of TarDir \<Rightarrow> os_MkdirAll P p f | TarFile r \<Rightarrow> copyReaderToFile P r p f
        | TarOther t \<Rightarrow> (f, Some (errorf ''unsupported tar entry type''))))"
      using Cons.prems p by (auto split: tar_kind.split intro: MkdirAll_writes copyReader_writes writes_refl)
    from writes_andthen [OF Cons.prems(1) this, of "tar_entries P droot ts end"] Cons Inr t show ?thesis by simp
  qed (simp add: t writes_refl Cons.prems)
qed (simp add: writes_refl)

lemma tar_stream_writes: "sane d f \<Longrightarrow> prefix d (comps droot) \<Longrightarrow> writes d f (fst (extractTarStream P c droot f))"
  unfolding extractTarStream_def by (rule writes_andthen) (auto intro: MkdirAll_writes tar_writes)

lemma extract_writes:
  assumes "sane d f" "prefix d (comps droot)"
  shows "writes d f (fst (extractArchive P source droot f))"
proof -
  have "writes d f (fst (extractZip P c droot f))" for c
    using assms by (auto simp: extractZip_def writes_refl split: sum.split intro!: writes_andthen intro: MkdirAll_writes zip_writes)
  moreover have "writes d f (fst (extractTarGzArchive P c droot f))" for c
    using assms by (auto simp: extractTarGzArchive_def writes_refl split: sum.split intro: tar_stream_writes)
  ultimately show ?thesis
    using assms by (auto simp: extractArchive_def Let_def writes_refl tar_stream_writes split: option.split fnode.split)
qed

text \<open>A walk over a directory names what is in it by relative paths without a double dot.\<close>

fun walk_ok :: "walk_item \<Rightarrow> bool" where
  "walk_ok (WalkError e) = True"
| "walk_ok (WalkDir rel) = (rel \<noteq> [] \<and> ''..'' \<notin> set (comps rel))"
| "walk_ok (WalkFile rel r) = (rel \<noteq> [] \<and> ''..'' \<notin> set (comps rel))"

lemma join_below: "clean_dir d \<Longrightarrow> n \<noteq> [] \<Longrightarrow> ''..'' \<notin> set (comps n) \<Longrightarrow> comps (path_join d n) = comps d @ parts n"
proof (elim clean_dirE)
  fix ps assume a: "n \<noteq> []" "''..'' \<notin> set (comps n)" "good_parts ps" "ps \<noteq> []" "d = abs_path ps" "comps d = [] # ps"
  then have "path_join d n = abs_path (ps @ parts n)"
    using path_clean_below [of ps n] by (simp add: path_join_def abs_path_def)
  with a show ?thesis using split_abs_path [of "ps @ parts n"] good_parts_parts by simp
qed

lemma walk_writes:
  assumes "clean_dir droot" "prefix d (comps droot)"
  shows "sane d f \<Longrightarrow> list_all walk_ok ws \<Longrightarrow> writes d f (fst (walk_items P droot ws f))"
proof (induction ws arbitrary: f)
  case (Cons w ws)
  have below: "prefix d (comps (path_join droot rel))" if "rel \<noteq> []" "''..'' \<notin> set (comps rel)" for rel
    using join_below [OF assms(1) that] prefix_prefix [OF assms(2)] by simp
  show ?case
  proof (cases w)
    case (WalkError e)
    with Cons.prems show ?thesis by (simp add: writes_refl)
  next
    case (WalkDir rel)
    have "writes d f (fst (if rel = ''.'' then (f, None) else os_MkdirAll P (comps (path_join droot rel)) f))"
      using Cons.prems below [of rel] WalkDir by (auto intro: writes_refl MkdirAll_writes)
    from writes_andthen [OF Cons.prems(1) this, of "walk_items P droot ws"] Cons WalkDir show ?thesis by simp
  next
    case (WalkFile rel r)
    have "writes d f (fst (if rel = ''.'' then (f, None) else copyReaderToFile P r (comps (path_join droot rel)) f))"
      using Cons.prems below [of rel] WalkFile by (auto intro: writes_refl copyReader_writes)
    from writes_andthen [OF Cons.prems(1) this, of "walk_items P droot ws"] Cons WalkFile show ?thesis by simp
  qed
qed (simp add: writes_refl)

text \<open>What the system promises: a walk as above, and a fresh temporary directory in an existing one.\<close>

definition system_ok :: "place_lib \<Rightarrow> bool" where
  "system_ok P \<longleftrightarrow> (\<forall>f s. list_all walk_ok (pl_walk P f s)) \<and>
     (\<forall>f t. tree f \<and> pl_tmp P f = Inr t \<longrightarrow> clean_dir t \<and> f (comps t) = None \<and>
       (\<forall>q. q \<noteq> [] \<and> strict_prefix q (comps t) \<longrightarrow> f q = Some FDir))"

section \<open>Destinations\<close>

lemma below_prefix: "below inbox dest = Inr p \<Longrightarrow> prefix (comps inbox) p \<and> p = comps dest"
  using below_iff [of dest inbox] by (auto simp: below_def split: if_splits)

lemma binding_below: "bindingDestination inbox name a = Inr p \<Longrightarrow> prefix (comps inbox) p"
  using below_prefix by (auto simp: bindingDestination_def split: if_splits)

lemma rooted_parts:
  "''..'' \<notin> set st \<Longrightarrow> ''..'' \<notin> set (clean_parts True st ps)"
  by (induction True st ps rule: clean_parts.induct) (auto split: list.splits)

lemma rooted_clean:
  assumes "has_prefix s ''/''"
  obtains ps where "good_parts ps" "path_clean s = abs_path ps"
proof -
  let ?ps = "clean_parts True [] (comps s)"
  obtain st where "?ps = rev st" "stack_ok st"
    using clean_parts_stack [of "[]" True "comps s"] by (auto simp: stack_ok_def)
  then have "\<forall>p \<in> set ?ps. p \<noteq> [] \<and> p \<noteq> ''.''" by (auto simp: stack_ok_def list_all_iff)
  moreover have "\<forall>p \<in> set ?ps. CHR ''/'' \<notin> set p"
    by (rule clean_parts_noslash) (auto dest: split_on_parts)
  moreover have "''..'' \<notin> set ?ps" by (rule rooted_parts) simp
  ultimately have "good_parts ?ps" by (auto simp: good_parts_def list_all_iff plain_component_def)
  moreover have "path_clean s = abs_path ?ps" using assms by (simp add: path_clean_def Let_def abs_path_def)
  ultimately show thesis using that by blast
qed

lemma expanded_below:
  assumes "expandedBindingDestination inbox name = Inr droot" "clean_dir inbox"
  shows "prefix (comps inbox) (comps droot) \<and> clean_dir droot"
proof -
  obtain "is" where i: "good_parts is" "is \<noteq> []" "inbox = abs_path is" "comps inbox = [] # is"
    using clean_dirE [OF assms(2)] by blast
  have r: "droot = path_clean (path_join inbox (trim_slashes name))" "prefix (comps inbox) (comps droot)"
    "trim_slashes name \<noteq> []"
    using assms(1) below_prefix by (auto simp: expandedBindingDestination_def Let_def ok_iff split: if_splits)
  have "path_join inbox (trim_slashes name) = path_clean (inbox @ ''/'' @ trim_slashes name)"
    using r(3) i(3) by (simp add: path_join_def abs_path_def)
  moreover have "has_prefix (inbox @ ''/'' @ trim_slashes name) ''/''" using i(3) by (simp add: abs_path_def has_prefix_def)
  ultimately obtain qs where "path_join inbox (trim_slashes name) = abs_path qs" using rooted_clean by metis
  then have "has_prefix (path_join inbox (trim_slashes name)) ''/''" by (simp add: abs_path_def has_prefix_def)
  then obtain ps where ps: "good_parts ps" "droot = abs_path ps" using rooted_clean r(1) by metis
  have "ps \<noteq> []"
  proof
    assume "ps = []"
    with ps have "comps droot = [[], []]" by (simp add: abs_path_def)
    with r(2) i have "[] \<in> set is" by (cases "is") (auto simp: prefix_Cons)
    with i(1) show False by (auto simp: good_parts_def list_all_iff plain_component_def)
  qed
  with ps have "clean_dir droot" by (auto simp: clean_dir_def split_abs_path good_parts_def list_all_iff)
  with r(2) show ?thesis by simp
qed

section \<open>Bindings\<close>

definition temp_safe :: "place_lib \<Rightarrow> artifact_ref \<Rightarrow> bool" where
  "temp_safe P r \<longleftrightarrow> (case ar_External r of None \<Rightarrow> True | Some x \<Rightarrow>
     (case pl_url P (xr_URL x) of Inl _ \<Rightarrow> True | Inr (_, _, text) \<Rightarrow>
       xr_Expand x \<longrightarrow> ''..'' \<notin> set (comps (archiveTempName P r text))))"

lemma stored_writes:
  "sane (comps inbox) f \<Longrightarrow> writes (comps inbox) f (fst (materializeStoredArtifactBinding P inbox name a f))"
proof (cases "bindingDestination inbox name (af_Name a)")
  case (Inr p)
  assume s: "sane (comps inbox) f"
  note p = binding_below [OF Inr]
  have "writes (comps inbox) g (fst (andthen (wrap_outcome ''mkdir failed: '' (os_MkdirAll P (butlast p) g))
      (os_create P p (af_Content a, pl_save P a))))" if "sane (comps inbox) g" for g
    using that p by (intro writes_andthen) (auto intro: MkdirAll_writes create_writes dest: butlast_below)
  from if_absent_writes [OF s this] Inr show ?thesis by (simp add: materializeStoredArtifactBinding_def)
qed (simp add: materializeStoredArtifactBinding_def writes_refl)

lemma file_writes:
  assumes "sane (comps inbox) f" "clean_dir inbox" "system_ok P"
  shows "writes (comps inbox) f (fst (materializeFileURLBinding P inbox name r x source f))"
proof -
  have dir: "writes (comps inbox) g (fst (copyDirectory P source droot g))"
    if "sane (comps inbox) g" "expandedBindingDestination inbox name = Inr droot" for g droot
    unfolding copyDirectory_def
  proof (rule writes_andthen [OF that(1)])
    note e = expanded_below [OF that(2) assms(2)]
    show "writes (comps inbox) g (fst (os_MkdirAll P (comps droot) g))" using that(1) e by (blast intro: MkdirAll_writes)
    show "writes (comps inbox) h (fst (walk_items P droot (pl_walk P h source) h))" if "sane (comps inbox) h" for h
      using walk_writes [of droot] e that assms(3) by (simp add: system_ok_def)
  qed
  show ?thesis
    using assms(1) expanded_below [OF _ assms(2)] binding_below
    by (auto simp: materializeFileURLBinding_def writes_refl split: stat.split fnode.split sum.split
        intro!: if_absent_writes dir intro: extract_writes copyReader_writes)
qed

text \<open>A temporary directory: writing below it leaves the inbox alone, and afterwards it is gone.\<close>

definition fresh_dir :: "fs \<Rightarrow> string list \<Rightarrow> bool" where
  "fresh_dir f t \<longleftrightarrow> t \<noteq> [] \<and> f t = None \<and> (\<forall>q. q \<noteq> [] \<and> strict_prefix q t \<longrightarrow> f q = Some FDir)"

lemma fresh_below: "tree f \<Longrightarrow> fresh_dir f t \<Longrightarrow> f (t @ q) = None"
proof (induction q rule: rev_induct)
  case (snoc c q)
  then have "f (t @ q) = None" "t @ q \<noteq> []" by (simp_all add: fresh_dir_def)
  with snoc.prems(1) show ?case using tree_def [of f] by (metis append_assoc option.distinct(1))
qed (simp add: fresh_dir_def)

lemma fresh_sane:
  assumes "sane d f" "fresh_dir f t"
  shows "sane t (f(t := Some FDir))"
proof -
  let ?f1 = "f(t := Some FDir)"
  have "?f1 q = Some FDir" if "?f1 (q @ [c]) \<noteq> None" "q \<noteq> []" for q c
  proof (cases "q @ [c] = t")
    case True
    then have "strict_prefix q t" by (auto simp: strict_prefix_def)
    with assms(2) that show ?thesis by (auto simp: fresh_dir_def)
  next
    case False
    with assms(1) that show ?thesis by (auto simp: sane_def tree_def)
  qed
  then have "tree ?f1" unfolding tree_def by blast
  with assms show ?thesis by (auto simp: sane_def fresh_dir_def strict_prefix_def)
qed

lemma fresh_apart:
  assumes "sane d f" "fresh_dir f t" "writes t (f(t := Some FDir)) g"
  shows "sane d g" and "\<not> prefix t q \<Longrightarrow> g q = f q"
proof -
  have same: "g q = f q" if "\<not> prefix t q" for q
    using assms(3) that by (auto simp: writes_def strict_prefix_def)
  then show "\<not> prefix t q \<Longrightarrow> g q = f q" .
  have "\<not> prefix t q" if "prefix q d" "q \<noteq> []" for q
    using assms(1) fresh_below [OF _ assms(2)] that by (auto simp: sane_def prefix_def)
  moreover have "\<not> prefix t []" using assms(2) by (auto simp: fresh_dir_def)
  ultimately have "\<forall>q. q = [] \<or> prefix q d \<longrightarrow> g q = f q" using same by blast
  then show "sane d g" using assms(1,3) unfolding sane_def writes_def by simp
qed

lemma removed_writes:
  assumes "sane d f" "fresh_dir f t" "writes t (f(t := Some FDir)) g" "writes d g h"
  shows "writes d f (os_RemoveAll t h)"
proof -
  have "tree (os_RemoveAll t h)"
    using assms(4) by (auto simp: writes_def tree_def os_RemoveAll_def prefix_snoc)
  moreover have "os_RemoveAll t h q = f q" if "\<not> strict_prefix d q" for q
  proof (cases "prefix t q")
    case True
    then obtain z where "q = t @ z" by (auto simp: prefix_def)
    with fresh_below [OF _ assms(2), of z] assms(1) show ?thesis by (simp add: os_RemoveAll_def sane_def)
  next
    case False
    with fresh_apart(2) [OF assms(1-3)] assms(4) that show ?thesis by (simp add: os_RemoveAll_def writes_def)
  qed
  ultimately show ?thesis by (simp add: writes_def)
qed

lemma expand_writes:
  "sane (comps inbox) g \<Longrightarrow> clean_dir inbox \<Longrightarrow> writes (comps inbox) g (fst (case expandedBindingDestination inbox name of
     Inl e \<Rightarrow> (g, Some e) | Inr droot \<Rightarrow> if_absent (comps droot) g (extractArchive P source droot)))"
  using expanded_below [of inbox name]
  by (auto simp: writes_refl split: sum.split intro!: if_absent_writes intro: extract_writes)

lemma http_writes:
  assumes "sane (comps inbox) f" "clean_dir inbox" "system_ok P"
    "xr_Expand x \<longrightarrow> ''..'' \<notin> set (comps (archiveTempName P r url))"
  shows "writes (comps inbox) f (fst (materializeHTTPBinding P inbox name r x url f))"
proof (cases "pl_get P url")
  case (Inr sb)
  obtain status body where sb: "sb = (status, body)" by (cases sb)
  show ?thesis
  proof (cases "xr_Expand x \<and> \<not> (status < 200 \<or> status \<ge> 300)")
    case False
    then show ?thesis
      using assms(1) binding_below Inr sb
      by (auto simp: materializeHTTPBinding_def writes_refl split: sum.split intro!: if_absent_writes intro: copyReader_writes)
  next
    case ex: True
    show ?thesis
    proof (cases "pl_tmp P f")
      case (Inl e)
      with ex Inr sb assms(1) show ?thesis by (simp add: materializeHTTPBinding_def writes_refl)
    next
      case tmp: (Inr t)
      with assms(1,3) have t: "clean_dir t" "fresh_dir f (comps t)"
        by (auto simp: system_ok_def sane_def fresh_dir_def)
      let ?source = "path_join t (archiveTempName P r url)"
      have "archiveTempName P r url \<noteq> []" by (simp add: archiveTempName_def Let_def)
      with join_below [OF t(1)] assms(4) ex have src: "prefix (comps t) (comps ?source)" by simp
      let ?c = "copyReaderToFile P body (comps ?source) (f(comps t := Some FDir))"
      note c = copyReader_writes [OF fresh_sane [OF assms(1) t(2)] src, of P body]
      let ?expand = "\<lambda>g. case expandedBindingDestination inbox name of
         Inl e \<Rightarrow> (g, Some e) | Inr droot \<Rightarrow> if_absent (comps droot) g (extractArchive P ?source droot)"
      note I = fresh_apart(1) [OF assms(1) t(2) c]
      have "writes (comps inbox) (fst ?c) (fst (?expand (fst ?c)))"
        using expand_writes [OF I assms(2)] by simp
      with I have "writes (comps inbox) (fst ?c) (fst (andthen ?c ?expand))" by (rule andthen_either)
      from removed_writes [OF assms(1) t(2) c this] ex Inr sb tmp show ?thesis
        by (simp add: materializeHTTPBinding_def Let_def)
    qed
  qed
qed (simp add: materializeHTTPBinding_def writes_refl assms(1))

lemma one_writes:
  assumes "sane (comps inbox) f" "clean_dir inbox" "system_ok P" "temp_safe P r"
  shows "writes (comps inbox) f (fst (materialize_one P inbox arts name r f))"
proof -
  have "writes (comps inbox) f (fst (materializeExternalArtifactBinding P inbox name r x f))" if "ar_External r = Some x" for x
    using assms that file_writes [OF assms(1-3)] http_writes [OF assms(1-3)]
    by (auto simp: materializeExternalArtifactBinding_def temp_safe_def writes_refl split: sum.split)
  then show ?thesis
    using assms(1) by (auto simp: materialize_one_def writes_refl stored_writes split: sum.split option.split)
qed

text \<open>C15. Whatever is bound to an op, in whatever order, and whether or not it succeeds: the worker
  changes nothing outside the op's inbox, archives and directories that are expanded included. The
  exception is excluded by \<open>temp_safe\<close>: the name under which a downloaded archive is stored in between
  must not hold a double dot.\<close>

theorem bindings_contained:
  assumes "sane (comps inbox) f" "clean_dir inbox" "system_ok P" "list_all (\<lambda>(n, r). temp_safe P r) bs"
    and "materializeArtifactBindings P inbox arts bs f = (g, e)" "\<not> strict_prefix (comps inbox) q"
  shows "g q = f q"
proof -
  have "writes (comps inbox) f (fst (materializeArtifactBindings P inbox arts bs f))"
    using assms(1,4)
  proof (induction bs arbitrary: f)
    case (Cons b bs)
    obtain n r where b: "b = (n, r)" by fastforce
    with Cons.prems have "writes (comps inbox) f (fst (materialize_one P inbox arts n r f))"
      by (intro one_writes assms(2,3)) simp_all
    from writes_andthen [OF Cons.prems(1) this] Cons b show ?case by simp
  qed (simp add: writes_refl)
  with assms(5,6) show ?thesis by (simp add: writes_def)
qed

end
