(* ===== verification/Bind_Landing.thy ===== *)
theory Bind_Landing
  imports Bind_Safety
begin

text \<open>
  The worker does what the compiler planned: the refinement of \<open>materializeArtifactBindings\<close> to
  \<open>placed\<close>, the file system with the planned files and the directories above them. And where the two
  disagree.
\<close>

section \<open>The specification\<close>

definition placed :: "string list \<Rightarrow> (string list \<times> string) list \<Rightarrow> fs \<Rightarrow> fs" where
  "placed d items f = (\<lambda>q. case map_of (map (\<lambda>(l, c). (d @ l, c)) items) q of
     Some c \<Rightarrow> Some (FFile c)
   | None \<Rightarrow> if strict_prefix d q \<and> list_ex (\<lambda>(l, c). strict_prefix q (d @ l)) items then Some FDir else f q)"

text \<open>What a binding supplies without an expansion, when everything it refers to can be had; the name
  of a stored artifact must be the one in the reference if it decides the destination.\<close>

definition supplied :: "place_lib \<Rightarrow> (string \<times> artifact) list \<Rightarrow> string \<times> artifact_ref \<Rightarrow> string option" where
  "supplied P arts b = (case b of (name, r) \<Rightarrow> (case StoredKey r of
     Some k \<Rightarrow> (case map_of arts (artifactKeyIdentity k) of
         None \<Rightarrow> None
       | Some a \<Rightarrow> if pl_save P a = None \<and> (hasTrailingSlash name \<longrightarrow> af_Name a = NameValue r) then Some (af_Content a) else None)
   | None \<Rightarrow>
       if ar_Kind r = value_kind then (case ValueBytes (pl_refs P) r of Inl _ \<Rightarrow> None
         | Inr bytes \<Rightarrow> if pl_save P (value_artifact r bytes) = None then Some bytes else None)
       else (case ar_External r of
         None \<Rightarrow> None
       | Some x \<Rightarrow> (case pl_url P (xr_URL x) of
           Inl _ \<Rightarrow> None
         | Inr (scheme, path, text) \<Rightarrow>
             if (scheme = ''http'' \<or> scheme = ''https'') \<and> \<not> xr_Expand x then (case pl_get P text of
                 Inl _ \<Rightarrow> None
               | Inr (status, body) \<Rightarrow> if 200 \<le> status \<and> status < 300 \<and> snd body = None then Some (fst body) else None)
             else None))))"

section \<open>Destinations\<close>

lemma parts_trim: "plain_name n \<Longrightarrow> parts (trim_slashes n) = parts n"
proof (induction n rule: rev_induct)
  case (snoc c n)
  show ?case
  proof (cases "c = CHR ''/''")
    case True
    have "parts (n @ [c]) = parts n" using parts_slash [of n "[]"] True by (simp add: parts_def)
    moreover have "trim_slashes (n @ [c]) = trim_slashes n" using True by (simp add: trim_slashes_def)
    ultimately show ?thesis using snoc by (simp add: plain_name_def)
  next
    case False
    with snoc.prems show ?thesis by (auto simp: trim_slashes_def plain_name_def)
  qed
qed (simp add: trim_slashes_def)

lemma trim_prefix: "prefix (trim_slashes n) n"
proof -
  have "suffix (dropWhile (\<lambda>c. c = CHR ''/'' \<or> c = back_slash) (rev n)) (rev n)" by (rule suffix_dropWhile)
  then show ?thesis by (simp add: trim_slashes_def suffix_to_prefix)
qed

lemma trim_relative:
  assumes "n \<noteq> []" "\<not> has_prefix n ''/''" "plain_name n"
  shows "trim_slashes n \<noteq> [] \<and> \<not> has_prefix (trim_slashes n) ''/''"
proof -
  obtain c s where n: "n = c # s" "c \<noteq> CHR ''/''" "c \<noteq> back_slash"
    using assms by (cases n) (auto simp: has_prefix_def plain_name_def)
  then have "\<exists>x \<in> set (rev n). \<not> (x = CHR ''/'' \<or> x = back_slash)" by simp
  then have "trim_slashes n \<noteq> []" by (auto simp: trim_slashes_def dropWhile_eq_Nil_conv)
  moreover have "hd (trim_slashes n) = c" if "trim_slashes n \<noteq> []"
    using trim_prefix [of n] n that by (cases "trim_slashes n") (auto simp: prefix_def)
  ultimately show ?thesis using n(2) by (cases "trim_slashes n") (auto simp: has_prefix_def)
qed

lemma no_dots_parts: "''..'' \<in> set (comps s) \<longleftrightarrow> ''..'' \<in> set (parts s)"
  by (auto simp: parts_def)

lemma good_no_dots: "good_parts (parts s) \<Longrightarrow> ''..'' \<notin> set (comps s)"
  by (simp add: no_dots_parts no_dots_good)

lemma join_relative:
  assumes "t \<noteq> []" "\<not> has_prefix t ''/''" "good_parts (parts t @ parts a)"
  shows "path_join t a = rel_path (parts t @ parts a)"
proof (cases "a = []")
  case True
  with assms path_clean_relative [of t] good_no_dots [of t] show ?thesis by (simp add: path_join_def parts_def)
next
  case False
  have "comps (t @ ''/'' @ a) = comps t @ comps a" using split_on_append [of "CHR ''/''" t a] by simp
  moreover have "\<not> has_prefix (t @ ''/'' @ a) ''/''" using assms by (cases t) (auto simp: has_prefix_def)
  ultimately have "path_clean (t @ ''/'' @ a) = rel_path (parts (t @ ''/'' @ a))"
    using assms(3) good_no_dots [of t] good_no_dots [of a] by (intro path_clean_relative) auto
  with assms(1) False parts_slash [of t a] show ?thesis by (simp add: path_join_def)
qed

lemma below_inbox:
  assumes "clean_dir inbox" "s \<noteq> []" "good_parts (parts s)" "parts s \<noteq> []"
  shows "below inbox (path_clean (path_join inbox s)) = Inr (comps inbox @ parts s)"
proof -
  obtain "is" where i: "good_parts is" "is \<noteq> []" "inbox = abs_path is" "comps inbox = [] # is"
    using clean_dirE [OF assms(1)] by blast
  have "path_join inbox s = abs_path (is @ parts s)"
    using path_clean_below [OF i(1,2) good_no_dots [OF assms(3)]] assms(2) i(3) by (simp add: path_join_def abs_path_def)
  moreover have "path_clean (abs_path (is @ parts s)) = abs_path (is @ parts s)"
    using i assms(3) by (intro path_clean_abs) simp_all
  moreover have "has_prefix (abs_path (is @ parts s)) (inbox @ ''/'')"
    using abs_path_below [OF i(1,2), of "parts s"] i(3) assms(4) by simp
  ultimately show ?thesis
    using split_abs_path [of "is @ parts s"] i assms(3) by (simp add: below_def)
qed

lemma destination:
  assumes "clean_dir inbox" "validateArtifactBindingName n = Inr ()" "plain_name n" "good_parts (landing n r)" "landing n r \<noteq> []"
    and "hasTrailingSlash n \<longrightarrow> a = NameValue r"
  shows "bindingDestination inbox n a = Inr (comps inbox @ landing n r)"
proof (cases "hasTrailingSlash n")
  case True
  note n = valid_plain [OF assms(2,3)]
  have t: "trim_slashes n \<noteq> []" "\<not> has_prefix (trim_slashes n) ''/''" using trim_relative [of n] n assms(3) by simp_all
  have l: "landing n r = parts (trim_slashes n) @ parts a" using True assms(6) parts_trim [OF assms(3)] by (simp add: landing_def)
  have j: "path_join (trim_slashes n) a = rel_path (landing n r)"
    using join_relative [OF t, of a] assms(4) by (simp add: l)
  moreover have "rel_path (landing n r) \<noteq> []"
    using join_last [OF assms(4,5)] by (simp add: rel_path_def)
  ultimately show ?thesis
    using below_inbox [OF assms(1), of "rel_path (landing n r)"] parts_rel_path [OF assms(4)] assms(4,5) True t
    by (simp add: bindingDestination_def)
next
  case False
  with assms valid_plain [OF assms(2,3)] below_inbox [OF assms(1), of n] show ?thesis
    by (simp add: bindingDestination_def landing_def)
qed

section \<open>Placing one file\<close>

definition apart :: "string list \<Rightarrow> string list \<Rightarrow> bool" where
  "apart l k \<longleftrightarrow> \<not> prefix l k \<and> \<not> prefix k l"

lemma placed_file: "map_of (map (\<lambda>(l, c). (d @ l, c)) items) (d @ l) = map_of items l"
  by (induction items) auto

lemma placed_other: "\<not> prefix d q \<Longrightarrow> map_of (map (\<lambda>(l, c). (d @ l, c)) items) q = None"
  by (induction items) (auto simp: prefix_def)

lemma map_of_apart: "list_all (\<lambda>(k, c). apart l k) items \<Longrightarrow> prefix l' l \<Longrightarrow> map_of items l' = None"
  by (induction items) (auto simp: apart_def)

lemma place_one:
  assumes "sane d f" "\<forall>q. strict_prefix d q \<longrightarrow> f q = None" "\<forall>p. pl_io P p = None" "l \<noteq> []"
    "list_all (\<lambda>(k, c). apart l k \<and> k \<noteq> []) items"
  defines "g \<equiv> placed d items f"
  shows "ensureDestinationAbsent (d @ l) g = None"
    and "andthen (os_MkdirAll P (butlast (d @ l)) g) (os_create P (d @ l) (c, None)) = (placed d (items @ [(l, c)]) f, None)"
proof -
  have ap: "list_all (\<lambda>(k, c). apart l k) items" using assms(5) by (auto simp: list_all_iff)
  have above: "g q = f q" if "prefix q d" for q
  proof -
    have "map_of (map (\<lambda>(l, c). (d @ l, c)) items) q = None"
    proof (cases "q = d")
      case True
      have "map_of items [] = None" using assms(5) by (auto simp: map_of_eq_None_iff list_all_iff)
      with True placed_file [of d items "[]"] show ?thesis by simp
    next
      case False
      then show ?thesis using that by (intro placed_other) (auto simp: prefix_order.antisym)
    qed
    moreover have "\<not> strict_prefix d q" using that by (auto simp: strict_prefix_def prefix_order.antisym)
    ultimately show ?thesis by (simp add: g_def placed_def)
  qed
  have under: "g (d @ l') \<in> {None, Some FDir}" if "prefix l' l" for l'
  proof (cases "l' = []")
    case True
    with above [of d] assms(1) show ?thesis by (auto simp: sane_def)
  next
    case False
    have "map_of (map (\<lambda>(l, c). (d @ l, c)) items) (d @ l') = None"
      using map_of_apart [OF ap that] placed_file [of d items l'] by simp
    moreover have "f (d @ l') = None" using assms(2) False by (auto simp: strict_prefix_def)
    ultimately show ?thesis by (auto simp: g_def placed_def)
  qed
  have nofile: "\<not> is_file (g q)" if "prefix q (d @ l)" for q
  proof (cases "prefix q d")
    case True
    with above assms(1) show ?thesis by (cases "q = []") (auto simp: sane_def)
  next
    case False
    with that obtain l' where "q = d @ l'" "prefix l' l" by (metis prefix_append same_prefix_prefix)
    with under [of l'] show ?thesis by auto
  qed
  have here: "g (d @ l) = None"
  proof -
    have "map_of (map (\<lambda>(l, c). (d @ l, c)) items) (d @ l) = None"
      using map_of_apart [OF ap, of l] placed_file [of d items l] by simp
    moreover have "\<not> list_ex (\<lambda>(k, c). strict_prefix (d @ l) (d @ k)) items"
      using ap by (auto simp: list_ex_iff list_all_iff apart_def strict_prefix_def)
    moreover have "f (d @ l) = None" using assms(2,4) by (auto simp: strict_prefix_def)
    ultimately show ?thesis by (simp add: g_def placed_def)
  qed
  have "list_ex (\<lambda>q. is_file (g q)) (butlast (prefixes (d @ l))) = False"
    using nofile by (auto simp: list_ex_iff dest!: in_set_butlastD)
  with here show "ensureDestinationAbsent (d @ l) g = None" by (simp add: ensureDestinationAbsent_def os_stat_def)
  have b: "butlast (d @ l) = d @ butlast l" using assms(4) by (simp add: butlast_append)
  define h where "h = (\<lambda>q. if g q = None \<and> q \<noteq> [] \<and> prefix q (d @ butlast l) then Some FDir else g q)"
  have bl: "prefix (butlast l) l" by (metis append_butlast_last_id assms(4) prefixI)
  have pb: "prefix q (d @ l)" if "prefix q (d @ butlast l)" for q
    using that bl by (meson prefix_order.trans same_prefix_prefix)
  have "list_ex (\<lambda>q. is_file (g q)) (prefixes (d @ butlast l)) = False"
    using nofile pb by (auto simp: list_ex_iff)
  then have m: "os_MkdirAll P (butlast (d @ l)) g = (h, None)"
    using assms(3) b by (simp add: os_MkdirAll_def h_def)
  have hb: "h (d @ butlast l) = Some FDir"
    using under [OF bl] assms(1) by (auto simp: sane_def h_def)
  have hl: "h (d @ l) = None"
    using here prefix_length_le [of "d @ l" "d @ butlast l"] assms(4) by (cases l rule: rev_cases) (auto simp: h_def)
  have "os_create P (d @ l) (c, None) h = (h(d @ l := Some (FFile c)), None)"
    using hb hl b assms(3) by (simp add: os_create_def)
  moreover have "h(d @ l := Some (FFile c)) = placed d (items @ [(l, c)]) f"
  proof
    fix q
    let ?M = "\<lambda>xs. map_of (map (\<lambda>(l, c). (d @ l, c)) xs)"
    have M: "?M (items @ [(l, c)]) q = (if q = d @ l \<and> ?M items q = None then Some c else ?M items q)"
      by (auto simp: map_add_def split: option.split)
    consider (at) "q = d @ l" | (mid) "strict_prefix d q" "strict_prefix q (d @ l)" | (rest) "q \<noteq> d @ l" "\<not> (strict_prefix d q \<and> strict_prefix q (d @ l))"
      by blast
    then show "(h(d @ l := Some (FFile c))) q = placed d (items @ [(l, c)]) f q"
    proof cases
      case at
      have "?M items (d @ l) = None" using map_of_apart [OF ap, of l] placed_file [of d items l] by simp
      with at M show ?thesis by (simp add: placed_def)
    next
      case mid
      then obtain l' where q: "q = d @ l'" by (auto simp: strict_prefix_def prefix_def)
      with mid(2) have l': "q = d @ l'" "strict_prefix l' l" by (auto simp: strict_prefix_def)
      then obtain z where "l = l' @ z" "z \<noteq> []" by (auto simp: strict_prefix_def prefix_def)
      then have p: "prefix l' l" "prefix l' (butlast l)" by (simp_all add: butlast_append)
      have "?M items q = None" using map_of_apart [OF ap p(1)] placed_file [of d items l'] l'(1) by simp
      moreover have "h q = Some FDir" using under [OF p(1)] l'(1) p(2) mid by (auto simp: h_def)
      ultimately show ?thesis using mid M by (auto simp: placed_def)
    next
      case rest
      have "h q = g q"
      proof (cases "prefix q (d @ butlast l)")
        case True
        then have "prefix q (d @ l)" "q \<noteq> d @ l" using pb rest(1) by auto
        with rest have "prefix q d" by (metis prefix_append strict_prefix_def same_prefix_prefix prefix_order.order_iff_strict prefixI)
        with above assms(1) show ?thesis by (auto simp: sane_def h_def)
      qed (simp add: h_def)
      with rest M show ?thesis by (auto simp: g_def placed_def split: option.split)
    qed
  qed
  ultimately show "andthen (os_MkdirAll P (butlast (d @ l)) g) (os_create P (d @ l) (c, None)) = (placed d (items @ [(l, c)]) f, None)"
    using m by (simp add: andthen_def)
qed

section \<open>The worker follows the plan\<close>


lemma land_one:
  assumes "sane (comps inbox) f" "\<forall>q. strict_prefix (comps inbox) q \<longrightarrow> f q = None" "\<forall>p. pl_io P p = None" "clean_dir inbox"
    "validateArtifactBindingName n = Inr ()" "plain_name n" "good_parts (landing n r)" "landing n r \<noteq> []"
    "supplied P arts (n, r) = Some c"
    "list_all (\<lambda>(k, c). apart (landing n r) k \<and> k \<noteq> []) items"
  shows "materialize_one P inbox arts n r (placed (comps inbox) items f) =
    (placed (comps inbox) (items @ [(landing n r, c)]) f, None)"
proof -
  let ?d = "comps inbox" and ?l = "landing n r"
  note pl = place_one [OF assms(1-3,8,10)]
  have v: "validateBindingName n = Inr ()"
    using assms(5) by (simp add: validateBindingName_def validateArtifactBindingName_def splitPathSegments_def split: if_splits)
  have saved: "materializeStoredArtifactBinding P inbox n a (placed ?d items f) = (placed ?d (items @ [(?l, af_Content a)]) f, None)"
    if "hasTrailingSlash n \<longrightarrow> af_Name a = NameValue r" "pl_save P a = None" for a
  proof -
    have "bindingDestination inbox n (af_Name a) = Inr (?d @ ?l)"
      using destination [OF assms(4-8)] that(1) by simp
    moreover have "wrap_outcome t (os_MkdirAll P p g) = os_MkdirAll P p g" if "snd (os_MkdirAll P p g) = None" for t p g
      using that by (simp add: wrap_outcome_def prod_eq_iff)
    moreover have "snd (os_MkdirAll P (butlast (?d @ ?l)) (placed ?d items f)) = None"
      using pl(2) [of "[]"] by (auto simp: andthen_def split: prod.splits option.splits)
    ultimately show ?thesis using pl that(2)
      by (simp add: materializeStoredArtifactBinding_def if_absent_def)
  qed
  have copied: "copyReaderToFile P (x, None) (?d @ ?l) (placed ?d items f) = (placed ?d (items @ [(?l, x)]) f, None)" for x
    using pl(2) by (simp add: copyReaderToFile_def)
  consider (stored) k a where "StoredKey r = Some k" "map_of arts (artifactKeyIdentity k) = Some a" "pl_save P a = None"
      "hasTrailingSlash n \<longrightarrow> af_Name a = NameValue r" "c = af_Content a"
    | (content) "StoredKey r = None" "ar_Kind r = value_kind" "ValueBytes (pl_refs P) r = Inr c" "pl_save P (value_artifact r c) = None"
    | (http) x scheme path u status body where "StoredKey r = None" "ar_Kind r \<noteq> value_kind" "ar_External r = Some x"
      "pl_url P (xr_URL x) = Inr (scheme, path, u)" "scheme = ''http'' \<or> scheme = ''https''" "\<not> xr_Expand x"
      "pl_get P u = Inr (status, body)" "200 \<le> status" "status < 300" "body = (c, None)"
    using assms(9) by (auto simp: supplied_def split: option.splits if_splits sum.splits prod.splits)
  then show ?thesis
  proof cases
    case (stored k a)
    with saved [of a] v show ?thesis by (simp add: materialize_one_def wrap_outcome_def)
  next
    case content
    with saved [of "value_artifact r c"]
    have "materializeStoredArtifactBinding P inbox n (value_artifact r c) (placed ?d items f) = (placed ?d (items @ [(?l, c)]) f, None)"
      by (simp add: value_artifact_def)
    with content v show ?thesis by (simp add: materialize_one_def wrap_outcome_def)
  next
    case (http x scheme path u status body)
    have "bindingDestination inbox n (NameValue r) = Inr (?d @ ?l)" using destination [OF assms(4-8)] by simp
    then have "materializeHTTPBinding P inbox n r x u (placed ?d items f) = (placed ?d (items @ [(?l, c)]) f, None)"
      using http copied pl(1) by (simp add: materializeHTTPBinding_def if_absent_def)
    with http v show ?thesis
      by (auto simp: materialize_one_def materializeExternalArtifactBinding_def wrap_outcome_def)
  qed
qed

lemma plan_one:
  assumes "plan_ok acc" "(n, r) \<in> set (bc_out acc)"
  shows "validateArtifactBindingName n = Inr ()" and "plain_binding (n, r) \<Longrightarrow> good_parts (landing n r)"
  using assms unfolding plan_ok_def by blast+



section \<open>Where they disagree\<close>

lemma expanded_destination:
  assumes "clean_dir inbox" "validateArtifactBindingName n = Inr ()" "plain_name n"
  shows "\<exists>droot. expandedBindingDestination inbox n = Inr droot \<and> comps droot = comps inbox @ parts n"
proof -
  obtain "is" where i: "good_parts is" "is \<noteq> []" "inbox = abs_path is" "comps inbox = [] # is"
    using clean_dirE [OF assms(1)] by blast
  note n = valid_plain [OF assms(2,3)]
  have t: "trim_slashes n \<noteq> []" "parts (trim_slashes n) = parts n"
    using trim_relative [of n] n assms(3) parts_trim [OF assms(3)] by simp_all
  then have "''..'' \<notin> set (comps (trim_slashes n))" using n good_no_dots [of "trim_slashes n"] by simp
  from path_clean_below [OF i(1,2) this] t i(3)
  have "path_join inbox (trim_slashes n) = abs_path (is @ parts n)" by (simp add: path_join_def abs_path_def)
  moreover have "path_clean (abs_path (is @ parts n)) = abs_path (is @ parts n)" using i n by (intro path_clean_abs) simp_all
  moreover have "comps (abs_path (is @ parts n)) = comps inbox @ parts n" using split_abs_path [of "is @ parts n"] i n by simp
  moreover have "has_prefix (abs_path (is @ parts n)) (inbox @ ''/'') \<or> abs_path (is @ parts n) = inbox"
    using abs_path_below [OF i(1,2), of "parts n"] i(3) by (cases "parts n = []") simp_all
  ultimately show ?thesis using t(1) by (auto simp: expandedBindingDestination_def below_def Let_def)
qed

lemma absent_fails: "f p \<noteq> None \<Longrightarrow> \<exists>e. if_absent p f k = (f, Some e)"
  by (auto simp: if_absent_def ensureDestinationAbsent_def os_stat_def split: option.splits)

lemma occupied_http:
  assumes "sane (comps inbox) f" "system_ok P" "temp_safe P r" "ar_External r = Some x" "xr_Expand x"
    "pl_url P (xr_URL x) = Inr (scheme, path, u)" "expandedBindingDestination inbox n = Inr droot"
    "f (comps droot) \<noteq> None"
  shows "snd (materializeHTTPBinding P inbox n r x u f) \<noteq> None"
proof (cases "pl_get P u")
  case (Inr sb)
  obtain status body where sb: "sb = (status, body)" by (cases sb)
  show ?thesis
  proof (cases "\<not> (status < 200 \<or> status \<ge> 300)")
    case ok: True
    show ?thesis
    proof (cases "pl_tmp P f")
      case tmp: (Inr t)
      with assms(1,2) have t: "clean_dir t" "fresh_dir f (comps t)"
        by (auto simp: system_ok_def sane_def fresh_dir_def)
      let ?source = "path_join t (archiveTempName P r u)"
      have "archiveTempName P r u \<noteq> []" by (simp add: archiveTempName_def Let_def)
      moreover have "''..'' \<notin> set (comps (archiveTempName P r u))" using assms(3-6) by (simp add: temp_safe_def)
      ultimately have src: "prefix (comps t) (comps ?source)" using join_below [OF t(1)] by simp
      let ?c = "copyReaderToFile P body (comps ?source) (f(comps t := Some FDir))"
      note c = copyReader_writes [OF fresh_sane [OF assms(1) t(2)] src, of P body]
      have "\<not> prefix (comps t) (comps droot)"
        using fresh_below [OF _ t(2)] assms(1,8) by (auto simp: sane_def prefix_def)
      with fresh_apart(2) [OF assms(1) t(2) c] assms(8) have g: "fst ?c (comps droot) \<noteq> None" by metis
      have "snd (andthen ?c (\<lambda>g. if_absent (comps droot) g (extractArchive P ?source droot))) \<noteq> None"
      proof (cases ?c)
        case (Pair h e)
        with g absent_fails [of h "comps droot" "extractArchive P ?source droot"]
        show ?thesis by (cases e) (auto simp: andthen_def)
      qed
      with Inr sb ok tmp assms(5,7) show ?thesis by (simp add: materializeHTTPBinding_def Let_def)
    qed (use Inr sb ok assms(5) in \<open>simp add: materializeHTTPBinding_def\<close>)
  qed (use Inr sb in \<open>auto simp: materializeHTTPBinding_def\<close>)
qed (simp add: materializeHTTPBinding_def)

lemma occupied_expansion:
  assumes "sane (comps inbox) f" "system_ok P" "temp_safe P r" "ar_Kind r = external_kind" "ar_External r = Some x" "xr_Expand x"
    "expandedBindingDestination inbox n = Inr droot" "f (comps droot) \<noteq> None"
  shows "snd (materialize_one P inbox arts n r f) \<noteq> None"
proof -
  note fails = absent_fails [of f "comps droot", OF assms(8)]
  have "snd (materializeFileURLBinding P inbox n r x source f) \<noteq> None" for source
    using fails [of "copyDirectory P source droot"] fails [of "extractArchive P source droot"] assms(6,7)
    by (auto simp: materializeFileURLBinding_def split: stat.split fnode.split)
  moreover have "snd (materializeHTTPBinding P inbox n r x u f) \<noteq> None" if "pl_url P (xr_URL x) = Inr (scheme, path, u)" for scheme path u
    by (rule occupied_http [OF assms(1-3,5,6) that assms(7,8)])
  ultimately have "snd (materializeExternalArtifactBinding P inbox n r x f) \<noteq> None"
    by (auto simp: materializeExternalArtifactBinding_def split: sum.split)
  with assms(4,5) show ?thesis
    by (auto simp: materialize_one_def StoredKey_def kind_defs wrap_outcome_def split: sum.split)
qed

text \<open>C39. A plan can be accepted that fails or succeeds with the order in which the worker happens to
  visit a map. The plan places an archive bound into a directory at a file of that directory, so that other
  bindings may go there too; the worker expands it over the directory itself, and refuses to when a
  binding visited before has created it.\<close>

theorem expansion_depends_on_order:
  assumes "bindResolvedArtifacts B m = Inr bs" "(n, r) \<in> set bs" "(d, s) \<in> set bs"
    and "clean_dir inbox" "sane (comps inbox) f" "\<forall>q. strict_prefix (comps inbox) q \<longrightarrow> f q = None" "\<forall>p. pl_io P p = None"
    and "plain_binding (n, r)" "supplied P arts (n, r) \<noteq> None" "plain_name d" "strict_prefix (parts d) (landing n r)"
    and "ar_Kind s = external_kind" "ar_External s = Some x" "xr_Expand x" "system_ok P"
    "list_all (\<lambda>(n, r). temp_safe P r) bs"
  shows "snd (materializeArtifactBindings P inbox arts [(n, r), (d, s)] f) \<noteq> None"
proof -
  obtain claims where ok: "plan_ok \<lparr>bc_out = bs, bc_claims = claims\<rparr>" using planned [OF assms(1)] by blast
  have v: "validateArtifactBindingName n = Inr ()" "good_parts (landing n r)" "validateArtifactBindingName d = Inr ()"
    using plan_one [OF ok, of n r] plan_one(1) [OF ok, of d s] assms(2,3,8) by simp_all
  have ne: "landing n r \<noteq> []" using assms(11) by auto
  obtain c where c: "supplied P arts (n, r) = Some c" using assms(9) by auto
  let ?g = "placed (comps inbox) [(landing n r, c)] f"
  have g: "materialize_one P inbox arts n r f = (?g, None)"
    using land_one [OF assms(5-7,4) v(1) _ v(2) ne c, of "[]"] assms(8) by (simp add: placed_def plain_binding_def)
  have "writes (comps inbox) f (fst (materialize_one P inbox arts n r f))"
  proof (rule one_writes [OF assms(5,4,15)])
    show "temp_safe P r" using assms(2,16) by (auto simp: list_all_iff)
  qed
  with g assms(5) have sg: "sane (comps inbox) ?g" using writes_sane by fastforce
  obtain droot where dr: "expandedBindingDestination inbox d = Inr droot" "comps droot = comps inbox @ parts d"
    using expanded_destination [OF assms(4) v(3) assms(10)] by blast
  have occupied: "?g (comps droot) \<noteq> None"
  proof (cases "parts d = []")
    case True
    with sg dr(2) show ?thesis by (auto simp: sane_def)
  next
    case False
    with assms(11) dr(2) show ?thesis by (auto simp: placed_def strict_prefix_def split: option.split)
  qed
  have "temp_safe P s" using assms(3,16) by (auto simp: list_all_iff)
  from occupied_expansion [OF sg assms(15) this assms(12-14) dr(1) occupied, of arts] g show ?thesis
    by (auto simp: andthen_def split: prod.split option.split)
qed

lemma clean_parts_append: "''..'' \<notin> set ps \<Longrightarrow> clean_parts rooted st (ps @ qs) = clean_parts rooted (rev (filter (\<lambda>p. p \<noteq> [] \<and> p \<noteq> ''.'') ps) @ st) qs"
  by (induction ps arbitrary: st) auto

lemma join_parent:
  assumes "clean_dir t" "comps t = [] # ts @ [x]" "plain_component n" "CHR ''/'' \<notin> set n"
  shows "comps (path_join t (''../'' @ n)) = [] # ts @ [n]"
proof -
  have g: "good_parts ts" "x \<noteq> ''..''" "x \<noteq> []" "x \<noteq> ''.''" "t = abs_path (ts @ [x])"
  proof -
    obtain ps where ps: "good_parts ps" "t = abs_path ps" "comps t = [] # ps" using clean_dirE [OF assms(1)] by blast
    with assms(2) have "ps = ts @ [x]" by simp
    with ps show "good_parts ts" "x \<noteq> ''..''" "x \<noteq> []" "x \<noteq> ''.''" "t = abs_path (ts @ [x])"
      by (simp_all add: plain_component_def)
  qed
  have e: "comps (t @ ''/'' @ ''../'' @ n) = ([] # ts) @ [x, ''..'', n]"
    using split_on_append [of "CHR ''/''" t "''../'' @ n"] split_on_append [of "CHR ''/''" "''..''" n] assms
    by (simp add: split_on_no_sep)
  have "clean_parts True [] (comps (t @ ''/'' @ ''../'' @ n)) = ts @ [n]"
    unfolding e using g no_dots_good [OF g(1)] filter_good [OF g(1)] assms(3)
    by (subst clean_parts_append) (auto simp: plain_component_def)
  then have "path_clean (t @ ''/'' @ ''../'' @ n) = abs_path (ts @ [n])"
    using g(5) by (simp add: path_clean_def Let_def abs_path_def has_prefix_def)
  moreover have "path_join t (''../'' @ n) = path_clean (t @ ''/'' @ ''../'' @ n)"
    using g(5) by (simp add: path_join_def abs_path_def)
  ultimately show ?thesis using split_abs_path [of "ts @ [n]"] g(1) assms(3,4) by simp
qed

lemma copy_beside:
  fixes content :: string
  assumes "sane d f" "fresh_dir f ([] # ts @ [x])" "\<forall>p. pl_io P p = None" "n \<noteq> x" "f ([] # ts @ [n]) \<noteq> Some FDir"
  defines "g \<equiv> (f([] # ts @ [x] := Some FDir))([] # ts @ [n] := Some (FFile content))"
  shows "copyReaderToFile P (content, None) ([] # ts @ [n]) (f([] # ts @ [x] := Some FDir)) = (g, None)" "sane d g"
proof -
  let ?T = "[] # ts @ [x]" and ?N = "[] # ts @ [n]" and ?f1 = "f([] # ts @ [x] := Some FDir)"
  have sT: "sane ?T ?f1" by (rule fresh_sane [OF assms(1,2)])
  have par: "?f1 q = Some FDir" if "q \<noteq> []" "prefix q ([] # ts)" for q
    using sT that prefix_prefix [of q "[] # ts" "[x]"] unfolding sane_def by (metis append_Cons)
  have "list_ex (\<lambda>q. is_file (?f1 q)) (prefixes ([] # ts)) = False"
    using par sT by (auto simp: list_ex_iff sane_def simp del: fun_upd_apply)
  moreover have "(\<lambda>q. if ?f1 q = None \<and> q \<noteq> [] \<and> prefix q ([] # ts) then Some FDir else ?f1 q) = ?f1"
  proof
    fix q
    show "(if ?f1 q = None \<and> q \<noteq> [] \<and> prefix q ([] # ts) then Some FDir else ?f1 q) = ?f1 q"
      using par [of q] by (auto simp del: fun_upd_apply)
  qed
  ultimately have "os_MkdirAll P ([] # ts) ?f1 = (?f1, None)" using assms(3) by (simp add: os_MkdirAll_def)
  then show "copyReaderToFile P (content, None) ?N ?f1 = (g, None)"
    using assms(3-5) par [of "[] # ts"] by (simp add: copyReaderToFile_def andthen_def os_create_def g_def)
  have N: "?N \<noteq> ?T" using assms(4) by simp
  have "tree g"
    unfolding tree_def
  proof (intro allI impI)
    fix q z assume a: "g (q @ [z]) \<noteq> None \<and> q \<noteq> []"
    show "g q = Some FDir"
    proof (cases "q @ [z] = ?N")
      case True
      then have "q = [] # ts" by (metis append_Cons butlast_snoc)
      with par [of q] show ?thesis by (simp add: g_def)
    next
      case False
      with a sT have "?f1 q = Some FDir" unfolding sane_def tree_def g_def by (metis fun_upd_other)
      moreover from this assms(5) N have "q \<noteq> ?N" by auto
      ultimately show ?thesis by (simp add: g_def)
    qed
  qed
  moreover have "g q = Some FDir" if "q \<noteq> []" "prefix q d" for q
  proof -
    have "f q = Some FDir" using assms(1) that by (simp add: sane_def)
    with assms(5) show ?thesis by (auto simp: g_def)
  qed
  ultimately show "sane d g" using assms(1) by (auto simp: sane_def g_def)
qed

text \<open>C40. The name of a downloaded archive is not checked: where the URL has no last component it is
  the artifact's own name, which may climb out of the temporary directory. What the server sends is then
  written over a file beside it, outside the inbox, and stays there, whether or not the binding fails in
  the end.\<close>

theorem archive_name_escapes:
  assumes "clean_dir inbox" "sane (comps inbox) f" "system_ok P" "\<forall>p. pl_io P p = None"
    and "validateBindingName name = Inr ()" "ar_Kind r = external_kind" "ar_External r = Some x" "xr_Expand x"
    "pl_url P (xr_URL x) = Inr (''http'', path, u)" "pl_url P u = Inr (sch, upath, u')" "path_base upath \<in> {''.'', ''/''}"
    "pl_get P u = Inr (200, content, None)" "NameValue r = ''../'' @ n" "trim_space (''../'' @ n) = ''../'' @ n"
    and "pl_tmp P f = Inr t" "comps t = [] # ts @ [tname]" "plain_component n" "CHR ''/'' \<notin> set n" "n \<noteq> tname"
    "f ([] # ts @ [n]) \<noteq> Some FDir" "\<not> prefix (comps inbox) ([] # ts)"
  shows "fst (materialize_one P inbox arts name r f) ([] # ts @ [n]) = Some (FFile content)"
proof -
  let ?T = "comps t" and ?N = "[] # ts @ [n]" and ?f1 = "f(comps t := Some FDir)"
  have t: "clean_dir t" "fresh_dir f ?T"
    using assms(2,3,15) by (auto simp: system_ok_def sane_def fresh_dir_def)
  have nm: "archiveTempName P r u = ''../'' @ n"
    using assms(10,11,13,14) by (auto simp: archiveTempName_def Let_def)
  define source where "source = path_join t (archiveTempName P r u)"
  have src: "comps source = ?N" unfolding source_def nm by (rule join_parent [OF t(1) assms(16-18)])
  note beside = copy_beside [OF assms(2) t(2) [unfolded assms(16)] assms(4,19,20), of content]
  let ?f2 = "?f1(?N := Some (FFile content))"
  have c: "copyReaderToFile P (content, None) ?N ?f1 = (?f2, None)" and I: "sane (comps inbox) ?f2"
    using beside assms(16) by simp_all
  have N: "?N \<noteq> ?T" using assms(16,19) by simp
  let ?out = "case expandedBindingDestination inbox name of
     Inl e \<Rightarrow> (?f2, Some e) | Inr droot \<Rightarrow> if_absent (comps droot) ?f2 (extractArchive P source droot)"
  have "\<not> strict_prefix (comps inbox) ?N"
    using assms(21) prefix_snoc [of "comps inbox" "[] # ts" n] by (auto simp: strict_prefix_def)
  with expand_writes [OF I assms(1), where name = name and P = P and source = source] have o: "fst ?out ?N = Some (FFile content)"
    unfolding writes_def by simp
  have "fst (materializeHTTPBinding P inbox name r x u f) = os_RemoveAll ?T (fst ?out)"
    using assms(8,12,15) src c by (simp add: materializeHTTPBinding_def andthen_def Let_def source_def [symmetric])
  moreover have "\<not> prefix ?T ?N" using N assms(16) by (auto simp: prefix_def)
  ultimately have "fst (materializeHTTPBinding P inbox name r x u f) ?N = Some (FFile content)"
    using o by (simp add: os_RemoveAll_def)
  with assms(5-7,9) show ?thesis
    by (simp add: materialize_one_def materializeExternalArtifactBinding_def StoredKey_def kind_defs)
qed

end
