(* ===== verification/Bind_Witness.thy ===== *)
theory Bind_Witness
  imports Bind_Landing
begin

text \<open>
  The theorems on artifact bindings at a concrete worker: an inbox \<^verbatim>\<open>/w/in\<close>, a temporary directory
  in \<^verbatim>\<open>/tmp\<close>, a server that answers every request, and archives without entries.
\<close>

definition ex_bind_refs :: artifact_lib where
  "ex_bind_refs = \<lparr>al_key_error = (\<lambda>_. None), al_decode = (\<lambda>s. Some (GStr s)), al_compact = (\<lambda>x. x), al_sha = (\<lambda>x. x)\<rparr>"

definition ex_bind_lib :: bind_lib where
  "ex_bind_lib = \<lparr>bl_refs = ex_bind_refs, bl_decode_value = (\<lambda>_. Inl (errorf [])), bl_decode_ref = (\<lambda>_. None), bl_decode_key = (\<lambda>_. None)\<rparr>"

text \<open>The path of a URL is \<^verbatim>\<open>/a.tar\<close>, but for the URL \<^verbatim>\<open>bare\<close>.\<close>

definition ex_place :: place_lib where
  "ex_place = \<lparr>pl_refs = ex_bind_refs, pl_io = (\<lambda>_. None), pl_save = (\<lambda>_. None),
     pl_url = (\<lambda>u. Inr (''http'', if u = ''bare'' then ''/'' else ''/a.tar'', u)),
     pl_get = (\<lambda>u. Inr (200, ''body'', None)),
     pl_tmp = (\<lambda>f. if f [[], ''tmp''] = Some FDir \<and> f [[], ''tmp'', ''t''] = None then Inr ''/tmp/t'' else Inl (errorf [])),
     pl_walk = (\<lambda>_ _. []), pl_zip = (\<lambda>_. Inr []), pl_gunzip = Inr, pl_tar = (\<lambda>_. ([], None))\<rparr>"

definition ex_disk :: fs where
  "ex_disk = (\<lambda>q. if q \<in> {[[]], [[], ''w''], [[], ''w'', ''in''], [[], ''tmp'']} then Some FDir else None)"

definition ex_archive :: "string \<Rightarrow> string \<Rightarrow> artifact_ref" where
  "ex_archive name url = NewExternalRef name url True"

definition ex_note :: artifact_ref where
  "ex_note = zero_ref\<lparr>ar_Kind := value_kind, ar_Format := ''text'', ar_Value := Some ''hello''\<rparr>"

definition ex_key :: artifact_key where
  "ex_key = \<lparr>ak_job = ''j'', ak_ordinal = 1, ak_name = ''b.txt'', ak_size = 3\<rparr>"

definition ex_stored :: artifact where
  "ex_stored = \<lparr>af_Name = ''b.txt'', af_Content = ''abc'', af_Key = Inr ex_key\<rparr>"

definition ex_map :: "(string \<times> bind_value) list" where
  "ex_map = [(''x/'', BRef (Some (ex_archive ''n'' ''u''))), (''x/b'', BRef (Some ex_note)),
     (''s'', BList [BKey (Some ex_key), BRef (Some (NewExternalRef ''c'' ''v'' False))])]"

definition ex_bound :: "(string \<times> artifact_ref) list" where
  "ex_bound = [(''s/b.txt'', NewStoredRef ex_key), (''s/c'', NewExternalRef ''c'' ''v'' False),
     (''x/'', ex_archive ''n'' ''u''), (''x/b'', ex_note\<lparr>ar_Name := ''x/b''\<rparr>)]"

abbreviation ex_arts :: "(string \<times> artifact) list" where
  "ex_arts \<equiv> indexArtifactsByKey [ex_stored]"

lemma ex_plan: "bindResolvedArtifacts ex_bind_lib ex_map = Inr ex_bound"
  by code_simp

lemma ex_inbox: "clean_dir ''/w/in'' = True"
  by code_simp

lemma ex_comps: "comps ''/w/in'' = [[], ''w'', ''in'']" "comps ''/tmp/t'' = [[], ''tmp'', ''t'']"
  by code_simp+

lemma ex_tree: "tree ex_disk"
  by (auto simp: tree_def ex_disk_def append_eq_Cons_conv split: if_splits)

lemma ex_sane: "sane (comps ''/w/in'') ex_disk"
  using ex_tree by (auto simp: sane_def ex_comps ex_disk_def prefix_Cons)

lemma ex_empty: "\<forall>q. strict_prefix (comps ''/w/in'') q \<longrightarrow> ex_disk q = None"
  by (auto simp: ex_comps ex_disk_def strict_prefix_def)

lemma ex_io: "\<forall>p. pl_io ex_place p = None" by (simp add: ex_place_def)

lemma ex_system: "system_ok ex_place"
proof -
  have "clean_dir ''/tmp/t''" by code_simp
  moreover have "f q = Some FDir" if "tree f" "f [[], ''tmp''] = Some FDir" "q \<noteq> []" "strict_prefix q [[], ''tmp'', ''t'']" for f q
  proof -
    have "f [[]] = Some FDir"
      using that(1,2) unfolding tree_def by (metis append_Cons append_Nil list.distinct(1) option.distinct(1))
    with that(2-) show ?thesis by (auto simp: strict_prefix_def prefix_Cons)
  qed
  ultimately show ?thesis by (auto simp: system_ok_def ex_place_def ex_comps split: if_splits)
qed

lemma ex_safe: "list_all (\<lambda>(n, r). temp_safe ex_place r) ex_bound"
  by code_simp

theorem bindings_contained_witness:
  "fst (materializeArtifactBindings ex_place ''/w/in'' ex_arts ex_bound ex_disk) [[], ''etc''] = None \<and>
   fst (materializeArtifactBindings ex_place ''/w/in'' ex_arts ex_bound ex_disk) [[], ''w'', ''in'', ''s'', ''c''] = Some (FFile ''body'')"
proof -
  let ?g = "materializeArtifactBindings ex_place ''/w/in'' ex_arts ex_bound ex_disk"
  have "fst ?g [[], ''etc''] = ex_disk [[], ''etc'']"
    by (rule bindings_contained [OF ex_sane ex_inbox [THEN eq_True [THEN iffD1]] ex_system ex_safe surjective_pairing])
      (simp add: ex_comps strict_prefix_def)
  moreover have "fst ?g [[], ''w'', ''in'', ''s'', ''c''] = Some (FFile ''body'')" by code_simp
  ultimately show ?thesis by (simp add: ex_disk_def)
qed




text \<open>The other order succeeds.\<close>

theorem expansion_depends_on_order_witness:
  "snd (materializeArtifactBindings ex_place ''/w/in'' ex_arts
     [(''x/b'', ex_note\<lparr>ar_Name := ''x/b''\<rparr>), (''x/'', ex_archive ''n'' ''u'')] ex_disk) \<noteq> None \<and>
   snd (materializeArtifactBindings ex_place ''/w/in'' ex_arts
     [(''x/'', ex_archive ''n'' ''u''), (''x/b'', ex_note\<lparr>ar_Name := ''x/b''\<rparr>)] ex_disk) = None"
proof -
  let ?note = "ex_note\<lparr>ar_Name := ''x/b''\<rparr>" and ?arch = "ex_archive ''n'' ''u''"
  have m: "(''x/b'', ?note) \<in> set ex_bound" "(''x/'', ?arch) \<in> set ex_bound" by (simp_all add: ex_bound_def)
  have f: "plain_binding (''x/b'', ?note)" "supplied ex_place ex_arts (''x/b'', ?note) \<noteq> None" "plain_name ''x/''"
    "parts ''x/'' = [''x'']" "landing ''x/b'' ?note = [''x'', ''b'']" "ar_Kind ?arch = external_kind"
    "ar_External ?arch = Some \<lparr>xr_URL = ''u'', xr_Expand = True\<rparr>" by code_simp+
  have "strict_prefix (parts ''x/'') (landing ''x/b'' ?note)" by (simp add: f strict_prefix_def)
  moreover have "snd (materializeArtifactBindings ex_place ''/w/in'' ex_arts [(''x/'', ?arch), (''x/b'', ?note)] ex_disk) = None"
    by code_simp
  ultimately show ?thesis
    using expansion_depends_on_order [OF ex_plan m ex_inbox [THEN eq_True [THEN iffD1]] ex_sane ex_empty ex_io f(1-3) _ f(6,7) _ ex_system ex_safe]
    by simp
qed

theorem archive_name_escapes_witness:
  "fst (materialize_one ex_place ''/w/in'' [] ''x'' (ex_archive ''../evil'' ''bare'') ex_disk) [[], ''tmp'', ''evil''] = Some (FFile ''body'')"
proof -
  let ?r = "ex_archive ''../evil'' ''bare''"
  have r: "validateBindingName ''x'' = Inr ()" "ar_Kind ?r = external_kind" "ar_External ?r = Some \<lparr>xr_URL = ''bare'', xr_Expand = True\<rparr>"
    "NameValue ?r = ''../'' @ ''evil''" "trim_space (''../'' @ ''evil'') = ''../'' @ ''evil''" "path_base ''/'' \<in> {''.'', ''/''}"
    "plain_component ''evil''" by code_simp+
  have "fst (materialize_one ex_place ''/w/in'' [] ''x'' ?r ex_disk) ([] # [''tmp''] @ [''evil'']) = Some (FFile ''body'')"
    by (rule archive_name_escapes [where x = "\<lparr>xr_URL = ''bare'', xr_Expand = True\<rparr>" and t = "''/tmp/t''" and tname = "''t''" and ts = "[''tmp'']"
        and sch = "''http''" and u' = "''bare''",
        OF ex_inbox [THEN eq_True [THEN iffD1]] ex_sane ex_system ex_io r(1-3) _ _ _ r(6) _ r(4,5) _ _ r(7)])
      (simp_all add: ex_place_def ex_disk_def ex_comps)
  then show ?thesis by simp
qed

end
