(* ===== verification/Exec_Compare.thy ===== *)
theory Exec_Compare
  imports Exec_Requirements
begin

text \<open>
  Matching a demand against an allocation, \<^verbatim>\<open>pkg/execution/compatibility.go\<close> and
  \<open>compareLegacy\<close>. The result is the list of mismatches; the theorem says what an empty list
  proves, in terms of the unnormalized operands and their exact quantities.
\<close>

record Mismatch =
  mm_Field :: string
  mm_Required :: string
  mm_Allocated :: string
  mm_Reason :: string

definition check_field :: "string \<Rightarrow> string option \<Rightarrow> string \<Rightarrow> bool \<Rightarrow> Mismatch list" where
  "check_field field required actual compatible = (case required of
     None \<Rightarrow> []
   | Some v \<Rightarrow>
       if compatible then []
       else
         let reason = (if actual = [] then ''unknown_allocation'' else ''incompatible'')
         in [\<lparr>mm_Field = field, mm_Required = v, mm_Allocated = actual, mm_Reason = reason\<rparr>])"

definition compareLegacy :: "libs \<Rightarrow> Requirements \<Rightarrow> Allocation \<Rightarrow> Mismatch list" where
  "compareLegacy L r a =
     (case Image r of None \<Rightarrow> []
      | Some img \<Rightarrow>
          (case pinned_digest L img of
             Some d \<Rightarrow> check_field ''image.manifest_digest'' (Image r) (im_ManifestDigest (al_Image a))
                         (d = im_ManifestDigest (al_Image a))
           | None \<Rightarrow> check_field ''image.reference'' (Image r) (im_Reference (al_Image a))
                         (img = im_Reference (al_Image a)))) @
     (case Platform r of None \<Rightarrow> []
      | Some platform \<Rightarrow>
          let actual = (case al_Platform a of None \<Rightarrow> [] | Some p \<Rightarrow> p)
          in check_field ''platform'' (Platform r) actual
               (actual = platform \<or> has_prefix actual (platform @ ''/'')))"

definition compare_resource :: "libs \<Rightarrow> string \<Rightarrow> string option \<Rightarrow> string option \<Rightarrow> bool \<Rightarrow> Mismatch list" where
  "compare_resource L name required actual cpu = (case required of
     None \<Rightarrow> []
   | Some q \<Rightarrow>
       let (text, compatible) = (case actual of
           None \<Rightarrow> ([], False)
         | Some c \<Rightarrow> (c, scalar_of (lib_quantity L) c cpu \<ge> scalar_of (lib_quantity L) q cpu))
       in check_field name required text compatible)"

definition compare_resources :: "libs \<Rightarrow> Resources \<Rightarrow> Resources \<Rightarrow> Mismatch list" where
  "compare_resources L r a =
     compare_resource L ''resources.cpu'' (CPU r) (CPU a) True @
     compare_resource L ''resources.memory'' (Memory r) (Memory a) False @
     compare_resource L ''resources.ephemeral-storage'' (EphemeralStorage r) (EphemeralStorage a) False"

definition missing_capabilities :: "string list \<Rightarrow> string list \<Rightarrow> Mismatch list" where
  "missing_capabilities required supplied =
     map (\<lambda>n. \<lparr>mm_Field = ''capabilities'', mm_Required = n, mm_Allocated = [], mm_Reason = ''missing_capability''\<rparr>)
       (filter (\<lambda>n. n \<notin> set supplied) required)"

definition Compare :: "libs \<Rightarrow> Requirements \<Rightarrow> Allocation \<Rightarrow> exec_error + Mismatch list" where
  "Compare L required allocated =
     bindE (Normalize L required) (\<lambda>r.
     bindE (Allocation_Normalize L allocated) (\<lambda>a.
     Inr (missing_capabilities (Capabilities r) (al_Capabilities a) @
          (case Base r of None \<Rightarrow> [] | Some b \<Rightarrow> check_field ''base'' (Base r) (al_Base a) (MatchBase b (al_Base a))) @
          compareLegacy L r a @
          compare_resources L (Resources r) (al_Resources a))))"

section \<open>What normalization keeps\<close>

lemma optE_ok [ok_iff]:
  "optE f v = Inr w \<longleftrightarrow> (case v of None \<Rightarrow> w = None | Some x \<Rightarrow> \<exists>y. f x = Inr y \<and> w = Some y)"
  by (auto simp: optE_def ok_iff split: option.splits)

lemma field_quantity_ok [ok_iff]: "field_quantity name f v = Inr w \<longleftrightarrow> f v = Inr w"
  by (simp add: field_quantity_def split: sum.split)

lemma normalizeLegacyRequirements_keeps:
  "normalizeLegacyRequirements L r = Inr r' \<Longrightarrow>
     Base r' = Base r \<and> Capabilities r' = Capabilities r \<and> Packages r' = Packages r \<and>
     Resources r' = Resources r \<and> optE (normalizeReference L) (Image r) = Inr (Image r') \<and>
     optE normalizePlatform (Platform r) = Inr (Platform r')"
  by (auto simp: normalizeLegacyRequirements_def bindE_ok)

lemma Normalize_ok:
  assumes "Normalize L r = Inr r'"
  shows "Base r' = Base r" "Capabilities r' = mergeCapabilities (Capabilities r) []"
    "Packages r' = mergePackages (Packages r) []"
    "normalizeResources L (Resources r) = Inr (Resources r')"
    "optE (normalizeReference L) (Image r) = Inr (Image r')"
    "optE normalizePlatform (Platform r) = Inr (Platform r')"
proof -
  obtain out where N: "normalizeLegacyRequirements L (Overlay r no_requirements) = Inr out"
    and R: "normalizeResources L (Resources out) = Inr (Resources r')"
    and r': "Base r' = Base out" "Capabilities r' = Capabilities out" "Packages r' = Packages out"
      "Image r' = Image out" "Platform r' = Platform out"
    using assms by (auto simp: Normalize_def Let_def bindE_ok)
  have res: "Resources (Overlay r no_requirements) = Resources r"
    by (simp add: Overlay_def no_requirements_def no_resources_def)
  note K = normalizeLegacyRequirements_keeps [OF N]
  show "Base r' = Base r" "Capabilities r' = mergeCapabilities (Capabilities r) []"
    "Packages r' = mergePackages (Packages r) []"
    "optE (normalizeReference L) (Image r) = Inr (Image r')"
    "optE normalizePlatform (Platform r) = Inr (Platform r')"
    using K r' by (simp_all add: Overlay_def no_requirements_def)
  show "normalizeResources L (Resources r) = Inr (Resources r')" using K R res by simp
qed

lemma normalizeLegacyAllocation_keeps:
  "normalizeLegacyAllocation L a = Inr a' \<Longrightarrow>
     al_Base a' = al_Base a \<and> al_Capabilities a' = al_Capabilities a \<and> al_Resources a' = al_Resources a"
  by (auto simp: normalizeLegacyAllocation_def Let_def bindE_ok split: if_splits option.splits)

lemma Allocation_Normalize_ok:
  assumes "Allocation_Normalize L a = Inr a'"
  shows "al_Base a' = al_Base a" "set (al_Capabilities a') = set (al_Capabilities a)"
    "normalizeResources L (al_Resources a) = Inr (al_Resources a')"
proof -
  obtain r where N: "Normalize L (no_requirements\<lparr>Resources := al_Resources a, Capabilities := al_Capabilities a\<rparr>) = Inr r"
    and A: "normalizeLegacyAllocation L (a\<lparr>al_Resources := Resources r, al_Capabilities := Capabilities r\<rparr>) = Inr a'"
    using assms by (auto simp: Allocation_Normalize_def bindE_ok)
  note K = normalizeLegacyAllocation_keeps [OF A] Normalize_ok [OF N]
  show "al_Base a' = al_Base a" "set (al_Capabilities a') = set (al_Capabilities a)"
    "normalizeResources L (al_Resources a) = Inr (al_Resources a')"
    using K by simp_all
qed

section \<open>What an empty list of mismatches proves\<close>

text \<open>The capacity covers the request, as exact numbers.\<close>

definition covers :: "bool \<Rightarrow> string option \<Rightarrow> string option \<Rightarrow> bool" where
  "covers cpu required actual = (case required of None \<Rightarrow> True
     | Some q \<Rightarrow> (case actual of None \<Rightarrow> False
         | Some c \<Rightarrow> the (exact_value cpu q) \<le> the (exact_value cpu c)))"

definition covers_resources :: "Resources \<Rightarrow> Resources \<Rightarrow> bool" where
  "covers_resources r a \<longleftrightarrow> covers True (CPU r) (CPU a) \<and> covers False (Memory r) (Memory a) \<and>
     covers False (EphemeralStorage r) (EphemeralStorage a)"

definition legacy_compatible :: "libs \<Rightarrow> Requirements \<Rightarrow> Allocation \<Rightarrow> bool" where
  "legacy_compatible L r a \<longleftrightarrow>
     (\<forall>i. Image r = Some i \<longrightarrow>
        (case pinned_digest L i of Some d \<Rightarrow> im_ManifestDigest (al_Image a) = d
         | None \<Rightarrow> im_Reference (al_Image a) = i)) \<and>
     (\<forall>p. Platform r = Some p \<longrightarrow>
        (let actual = (case al_Platform a of None \<Rightarrow> [] | Some q \<Rightarrow> q)
         in actual = p \<or> prefix (p @ ''/'') actual))"

lemma check_field_Nil: "check_field f req actual c = [] \<longleftrightarrow> req = None \<or> c"
  by (simp add: check_field_def Let_def split: option.split)

lemma compareLegacy_Nil: "compareLegacy L r a = [] \<longleftrightarrow> legacy_compatible L r a"
  by (auto simp: compareLegacy_def legacy_compatible_def check_field_Nil has_prefix_def Let_def
      split: option.splits)

lemma missing_capabilities_Nil: "missing_capabilities req supplied = [] \<longleftrightarrow> set req \<subseteq> set supplied"
  by (auto simp: missing_capabilities_def filter_empty_conv)

definition lib_laws :: "libs \<Rightarrow> bool" where
  "lib_laws L \<longleftrightarrow> pq_exact (lib_quantity L) \<and> pq_canonical (lib_quantity L)"

definition normalize_quantity :: "libs \<Rightarrow> bool \<Rightarrow> string \<Rightarrow> quantity_error + string" where
  "normalize_quantity L cpu v =
     (if cpu then normalizeCPU (lib_quantity L) v else normalizeBytes (lib_quantity L) v)"

lemma normalize_scalar:
  assumes "lib_laws L"
    and "normalize_quantity L cpu s = Inr t"
  shows "\<exists>v. exact_value cpu s = Some v \<and> v * unit_scale cpu = of_int (scalar_of (lib_quantity L) t cpu) \<and>
    0 < scalar_of (lib_quantity L) t cpu"
  using assms normalizeCPU_scalar [of "lib_quantity L" s t] normalizeBytes_scalar [of "lib_quantity L" s t]
  by (cases cpu) (simp_all add: lib_laws_def normalize_quantity_def)

lemma compare_resource_Nil:
  assumes "lib_laws L"
    and q: "optE (normalize_quantity L cpu) req = Inr req'"
    and c: "optE (normalize_quantity L cpu) act = Inr act'"
  shows "compare_resource L name req' act' cpu = [] \<longleftrightarrow> covers cpu req act"
proof (cases req)
  case None
  with q show ?thesis by (simp add: ok_iff compare_resource_def covers_def)
next
  case (Some x)
  then obtain y where y: "req' = Some y"
    "normalize_quantity L cpu x = Inr y"
    using q by (auto simp: optE_ok)
  show ?thesis
  proof (cases act)
    case None
    with c Some y show ?thesis by (simp add: ok_iff compare_resource_def covers_def check_field_Nil)
  next
    case (Some u)
    then obtain w where w: "act' = Some w"
      "normalize_quantity L cpu u = Inr w"
      using c by (auto simp: optE_ok)
    obtain a where a: "exact_value cpu x = Some a"
      "a * unit_scale cpu = of_int (scalar_of (lib_quantity L) y cpu)"
      using normalize_scalar [OF assms(1) y(2)] by blast
    obtain b where b: "exact_value cpu u = Some b"
      "b * unit_scale cpu = of_int (scalar_of (lib_quantity L) w cpu)"
      using normalize_scalar [OF assms(1) w(2)] by blast
    have "0 < unit_scale cpu" by (simp add: unit_scale_def)
    then have "a \<le> b \<longleftrightarrow> a * unit_scale cpu \<le> b * unit_scale cpu" by simp
    also have "\<dots> \<longleftrightarrow> scalar_of (lib_quantity L) y cpu \<le> scalar_of (lib_quantity L) w cpu"
      unfolding a(2) b(2) by simp
    finally show ?thesis
      using \<open>req = Some x\<close> Some y(1) w(1) a(1) b(1)
      by (simp add: compare_resource_def covers_def check_field_Nil)
  qed
qed

lemma normalizeResources_ok:
  "normalizeResources L r = Inr r' \<longleftrightarrow>
     optE (normalize_quantity L True) (CPU r) = Inr (CPU r') \<and>
     optE (normalize_quantity L False) (Memory r) = Inr (Memory r') \<and>
     optE (normalize_quantity L False) (EphemeralStorage r)
       = Inr (EphemeralStorage r')"
  by (cases r') (auto simp: normalizeResources_def ok_iff normalize_quantity_def split: option.splits)

lemma Compare_ok:
  assumes "lib_laws L" "Normalize L r = Inr r'" "Allocation_Normalize L a = Inr a'"
  obtains ms where "Compare L r a = Inr ms"
    "ms = [] \<longleftrightarrow> set (Capabilities r) \<subseteq> set (al_Capabilities a) \<and>
       (\<forall>b. Base r = Some b \<longrightarrow> MatchBase b (al_Base a)) \<and>
       covers_resources (Resources r) (al_Resources a) \<and> legacy_compatible L r' a'"
proof -
  note R = Normalize_ok [OF assms(2)] and A = Allocation_Normalize_ok [OF assms(3)]
  let ?res = "compare_resources L (Resources r') (al_Resources a')"
  let ?ms = "missing_capabilities (Capabilities r') (al_Capabilities a') @
      (case Base r' of None \<Rightarrow> [] | Some b \<Rightarrow> check_field ''base'' (Base r') (al_Base a') (MatchBase b (al_Base a'))) @
      compareLegacy L r' a' @ ?res"
  have res: "?res = [] \<longleftrightarrow> covers_resources (Resources r) (al_Resources a)"
    using R(4) A(3) compare_resource_Nil [OF assms(1)]
    unfolding normalizeResources_ok covers_resources_def compare_resources_def append_is_Nil_conv by blast
  have "Compare L r a = Inr ?ms" using assms(2,3) by (simp add: Compare_def)
  moreover have "?ms = [] \<longleftrightarrow> set (Capabilities r) \<subseteq> set (al_Capabilities a) \<and>
       (\<forall>b. Base r = Some b \<longrightarrow> MatchBase b (al_Base a)) \<and>
       covers_resources (Resources r) (al_Resources a) \<and> legacy_compatible L r' a'"
    unfolding append_is_Nil_conv res missing_capabilities_Nil compareLegacy_Nil R(1,2) A(1)
    using A(2) by (auto simp: check_field_Nil split: option.splits)
  ultimately show thesis by (rule that)
qed

text \<open>An empty list of mismatches is exactly compatibility: every required capability is
  supplied, the base matches its selector, every required resource is covered by a reported
  capacity as exact numbers, and the legacy image and platform constraints hold.\<close>

theorem Compare_decides:
  assumes "lib_laws L" "Normalize L r = Inr r'" "Allocation_Normalize L a = Inr a'"
  shows "(Compare L r a = Inr []) =
    (set (Capabilities r) \<subseteq> set (al_Capabilities a) \<and>
     (\<forall>b. Base r = Some b \<longrightarrow> MatchBase b (al_Base a)) \<and>
     covers_resources (Resources r) (al_Resources a) \<and> legacy_compatible L r' a')"
  using assms by (rule Compare_ok) auto

definition plain_libs :: libs where
  "plain_libs = \<lparr>lib_quantity = plain_pq, lib_reference = (\<lambda>_. None), lib_digest = (\<lambda>_. False)\<rparr>"

lemma plain_libs_laws: "lib_laws plain_libs"
  by (simp add: lib_laws_def plain_libs_def plain_pq_exact plain_pq_canonical)

definition ex_needs :: Requirements where
  "ex_needs = no_requirements\<lparr>Base := Some ''ubuntu*'', Capabilities := [''gpu'']\<rparr>"

definition ex_allocation :: Allocation where
  "ex_allocation = \<lparr>al_Base = ''ubuntu-22'', al_Capabilities = [''gpu'', ''net''], al_SchemaVersion = 2,
     al_Image = \<lparr>im_Reference = [], im_ManifestDigest = [], im_ImageID = []\<rparr>, al_Platform = None,
     al_Resources = no_resources\<rparr>"

lemma ex_needs_normal: "Normalize plain_libs ex_needs = Inr ex_needs"
  by code_simp

lemma ex_allocation_normal: "Allocation_Normalize plain_libs ex_allocation = Inr ex_allocation"
  by code_simp

theorem Compare_decides_witness: "Compare plain_libs ex_needs ex_allocation = Inr []"
proof -
  have "MatchBase ''ubuntu*'' ''ubuntu-22''" by code_simp
  then show ?thesis
    unfolding Compare_decides [OF plain_libs_laws ex_needs_normal ex_allocation_normal]
    by (simp add: ex_needs_def ex_allocation_def no_requirements_def no_resources_def covers_resources_def
        covers_def legacy_compatible_def)
qed

end
