(* ===== verification/Exec_Demand.thy ===== *)
theory Exec_Demand
  imports Exec_Compare
begin

text \<open>
  Scheduling demands, \<^verbatim>\<open>pkg/execution/{demand,negotiation}.go\<close>: the initial demand of a
  submission, its validation, the client payload namespace, \<open>Inspect\<close> and \<open>Filter.Match\<close>, the
  attempt's environment, and \<open>Negotiate\<close>.

  A JSON document is empty (\<open>None\<close>) or a value; an object is its finite map of fields, and a
  document that does not parse is an opaque value, refused wherever an object is read. The encoding
  of the \<open>Demand\<close> and \<open>Submission\<close> structs is the parameter \<open>codec\<close>; \<open>codec_law\<close> states that
  \<^verbatim>\<open>encoding/json\<close> reads back what it wrote, less the field tagged \<^verbatim>\<open>json:"-"\<close>.
\<close>

section \<open>Data\<close>

record Demand =
  de_Overrides :: Requirements
  de_SchemaVersion :: int
  de_RecipeResolution :: string
  de_Effective :: Requirements

record Submission =
  su_Demand :: Demand
  su_JobRequirements :: Requirements

definition DemandSchemaVersion :: int where "DemandSchemaVersion = 4"
definition legacyDemandSchemaVersion :: int where "legacyDemandSchemaVersion = 3"

datatype 'v json = JNull | JObj "string \<Rightarrow> 'v json option" | JVal 'v

record 'v codec =
  enc_demand :: "Demand \<Rightarrow> 'v json"
  dec_demand :: "'v json \<Rightarrow> Demand option"
  dec_submission :: "'v json \<Rightarrow> Submission option"


section \<open>Submission\<close>

definition Initial :: "libs \<Rightarrow> Requirements option \<Rightarrow> bool \<Rightarrow> Requirements \<Rightarrow> exec_error + Submission" where
  "Initial L base resolved overrides =
     bindE (Normalize L overrides) (\<lambda>job.
     bindE (case base of None \<Rightarrow> Inr no_requirements | Some b \<Rightarrow> Normalize L b) (\<lambda>b.
     bindE (Normalize L (Overlay b job)) (\<lambda>effective.
     Inr \<lparr>su_Demand = \<lparr>de_Overrides = no_requirements, de_SchemaVersion = DemandSchemaVersion,
            de_RecipeResolution = (if resolved then ''resolved'' else ''unresolved''),
            de_Effective = effective\<rparr>,
          su_JobRequirements = job\<rparr>)))"

definition Demand_Validate :: "libs \<Rightarrow> Demand \<Rightarrow> exec_error + unit" where
  "Demand_Validate L d =
     (if de_SchemaVersion d \<noteq> DemandSchemaVersion \<and> de_SchemaVersion d \<noteq> legacyDemandSchemaVersion
      then Inl (UnsupportedSchemaVersion (de_SchemaVersion d))
      else if de_SchemaVersion d = legacyDemandSchemaVersion \<and> Base (de_Effective d) \<noteq> None
      then Inl BaseRequiresSchema
      else if de_RecipeResolution d \<noteq> ''resolved'' \<and> de_RecipeResolution d \<noteq> ''unresolved''
      then Inl (InvalidResolution (de_RecipeResolution d))
      else bindE (Normalize L (de_Effective d)) (\<lambda>_. Inr ()))"

definition Submission_Validate :: "libs \<Rightarrow> Submission \<Rightarrow> exec_error + unit" where
  "Submission_Validate L s =
     bindE (Demand_Validate L (su_Demand s)) (\<lambda>_.
     if de_SchemaVersion (su_Demand s) = legacyDemandSchemaVersion \<and> Base (su_JobRequirements s) \<noteq> None
     then Inl BaseRequiresSchema
     else bindE (Normalize L (su_JobRequirements s)) (\<lambda>_. Inr ()))"

section \<open>The client payload\<close>

text \<open>\<^verbatim>\<open>json.Unmarshal\<close> into a map: null leaves the nil map.\<close>

definition unmarshal_map :: "'v json \<Rightarrow> (string \<Rightarrow> 'v json option) option" where
  "unmarshal_map j = (case j of JNull \<Rightarrow> Some Map.empty | JObj m \<Rightarrow> Some m | JVal _ \<Rightarrow> None)"

definition DecodeDemand :: "libs \<Rightarrow> 'v codec \<Rightarrow> 'v json \<Rightarrow> exec_error + Demand" where
  "DecodeDemand L C raw = (case dec_demand C raw of
     None \<Rightarrow> Inl DemandMalformed
   | Some d \<Rightarrow> bindE (Demand_Validate L d) (\<lambda>_. Inr d))"

definition PayloadDemand :: "libs \<Rightarrow> 'v codec \<Rightarrow> 'v json option \<Rightarrow> exec_error + Demand option" where
  "PayloadDemand L C raw = (case raw of
     None \<Rightarrow> Inr None
   | Some JNull \<Rightarrow> Inr None
   | Some j \<Rightarrow>
       (case unmarshal_map j of
          None \<Rightarrow> Inl PayloadNotObject
        | Some outer \<Rightarrow>
            (case outer ''c2j'' of
               None \<Rightarrow> Inr None
             | Some c \<Rightarrow>
                 (case unmarshal_map c of
                    None \<Rightarrow> Inl NamespaceNotObject
                  | Some ns \<Rightarrow>
                      (case ns ''execution'' of
                         None \<Rightarrow> Inr None
                       | Some e \<Rightarrow> bindE (DecodeDemand L C e) (\<lambda>d. Inr (Some d)))))))"


section \<open>Inspection\<close>

record View =
  vw_Status :: string
  vw_Source :: string
  vw_Published :: bool
  vw_Demand :: "Demand option"
  vw_Initial :: "Submission option"
  vw_Diagnostic :: "exec_error option"

definition demandErrorStatus :: "exec_error \<Rightarrow> string" where
  "demandErrorStatus e = (case e of UnsupportedSchemaVersion _ \<Rightarrow> ''unsupported'' | _ \<Rightarrow> ''malformed'')"

definition metadata_submission :: "libs \<Rightarrow> 'v codec \<Rightarrow> 'v json option \<Rightarrow> exec_error + Submission option" where
  "metadata_submission L C metadata = (case metadata of
     None \<Rightarrow> Inr None
   | Some j \<Rightarrow>
       (case unmarshal_map j of
          None \<Rightarrow> Inl DemandMalformed
        | Some meta \<Rightarrow>
            (case meta ''execution'' of
               None \<Rightarrow> Inr None
             | Some e \<Rightarrow>
                 (case dec_submission C e of
                    None \<Rightarrow> Inl DemandMalformed
                  | Some s \<Rightarrow> bindE (Submission_Validate L s) (\<lambda>_. Inr (Some s))))))"

definition Inspect :: "libs \<Rightarrow> 'v codec \<Rightarrow> 'v json option \<Rightarrow> 'v json option \<Rightarrow> View" where
  "Inspect L C metadata payload =
     (let v = \<lparr>vw_Status = ''unresolved'', vw_Source = ''absent'', vw_Published = False,
               vw_Demand = None, vw_Initial = None, vw_Diagnostic = None\<rparr> in
      case metadata_submission L C metadata of
        Inl e \<Rightarrow> v\<lparr>vw_Status := demandErrorStatus e, vw_Diagnostic := Some e\<rparr>
      | Inr initial \<Rightarrow>
          let v = v\<lparr>vw_Initial := initial\<rparr> in
          (case PayloadDemand L C payload of
             Inl e \<Rightarrow> v\<lparr>vw_Status := demandErrorStatus e, vw_Source := ''yield'', vw_Diagnostic := Some e\<rparr>
           | Inr demand \<Rightarrow>
               let v = v\<lparr>vw_Demand := demand\<rparr>;
                   v = (case demand of
                          Some _ \<Rightarrow> v\<lparr>vw_Source := ''yield'', vw_Published := True\<rparr>
                        | None \<Rightarrow> (case initial of
                            Some s \<Rightarrow> v\<lparr>vw_Demand := Some (su_Demand s), vw_Source := ''submission''\<rparr>
                          | None \<Rightarrow> v))
               in (case vw_Demand v of
                     None \<Rightarrow> v
                   | Some d \<Rightarrow>
                       if de_RecipeResolution d = ''resolved''
                       then v\<lparr>vw_Status := (if Requirements_Empty (de_Effective d) then ''unspecified'' else ''specified'')\<rparr>
                       else v)))"

text \<open>The result pair of \<open>Match\<close>: the code returns its verdict beside an error.\<close>

definition Filter_Match :: "libs \<Rightarrow> Allocation \<Rightarrow> bool \<Rightarrow> View \<Rightarrow> bool \<times> exec_error option" where
  "Filter_Match L allocation includeUnresolved v =
     (let compare = (\<lambda>d. case Compare L (de_Effective d) allocation of
                        Inl e \<Rightarrow> (True, Some e) | Inr m \<Rightarrow> (length m = 0, None)) in
      if vw_Status v = ''not_loaded'' then (False, Some DemandNotLoaded)
      else if vw_Status v = ''in_flight'' \<or> vw_Status v = ''not_waiting'' then (False, None)
      else if vw_Diagnostic v \<noteq> None then (False, Some DemandInvalid)
      else if vw_Status v = ''unresolved'' \<and> \<not> includeUnresolved then (False, None)
      else if vw_Status v = ''unresolved'' \<and> vw_Demand v = None then (True, None)
      else case vw_Demand v of None \<Rightarrow> (False, None) | Some d \<Rightarrow> compare d)"

section \<open>The environment of an attempt\<close>

record Environment =
  en_Allocation :: Allocation
  en_Packages :: "string list"

definition no_allocation :: Allocation where
  "no_allocation = \<lparr>al_Base = [], al_Capabilities = [], al_SchemaVersion = 0,
     al_Image = \<lparr>im_Reference = [], im_ManifestDigest = [], im_ImageID = []\<rparr>, al_Platform = None,
     al_Resources = no_resources\<rparr>"

text \<open>The context carries at most one environment.\<close>

definition WithEnvironment :: "Environment option \<Rightarrow> Allocation \<Rightarrow> Environment option" where
  "WithEnvironment c a =
     (let a = (if al_SchemaVersion a = 0 then a\<lparr>al_SchemaVersion := SchemaVersion\<rparr> else a)
      in Some \<lparr>en_Allocation = a, en_Packages = []\<rparr>)"

definition CurrentEnvironment :: "Environment option \<Rightarrow> Environment" where
  "CurrentEnvironment c = (case c of
     None \<Rightarrow> \<lparr>en_Allocation = no_allocation\<lparr>al_SchemaVersion := SchemaVersion\<rparr>, en_Packages = []\<rparr>
   | Some v \<Rightarrow> v)"

definition WithPreparedPackages :: "Environment option \<Rightarrow> string list \<Rightarrow> Environment option" where
  "WithPreparedPackages c ps =
     (let v = CurrentEnvironment c in Some (v\<lparr>en_Packages := mergePackages (en_Packages v) ps\<rparr>))"

section \<open>Negotiation\<close>

definition keep_larger :: "libs \<Rightarrow> bool \<Rightarrow> string option \<Rightarrow> string option \<Rightarrow> string option" where
  "keep_larger L cpu prior next = (case prior of
     None \<Rightarrow> next
   | Some p \<Rightarrow>
       if scalar_of (lib_quantity L) p cpu > scalar_of (lib_quantity L) (the next) cpu
       then choose_opt None prior else next)"

definition combine_base :: "string option \<Rightarrow> string option \<Rightarrow> exec_error + string option" where
  "combine_base current requested = (case (current, requested) of
     (Some c, Some r) \<Rightarrow>
       if MatchBase c r then Inr (Some r)
       else if MatchBase r c then Inr (choose_opt None (Some c))
       else Inl BaseNotCombinable
   | _ \<Rightarrow> Inr requested)"

definition base_override_conflict :: "string option \<Rightarrow> string option \<Rightarrow> bool" where
  "base_override_conflict needs override = (case (needs, override) of
     (Some n, Some b) \<Rightarrow> n \<noteq> b \<and> (go_contains b ''*'' \<or> \<not> MatchBase n b)
   | _ \<Rightarrow> False)"

definition Negotiate :: "libs \<Rightarrow> Demand \<Rightarrow> Requirements \<Rightarrow> exec_error + Demand" where
  "Negotiate L d needs =
     bindE (Normalize L (Overlay (Overlay (de_Effective d) needs) (de_Overrides d))) (\<lambda>effective.
     bindE (check (\<not> base_override_conflict (Base needs) (Base (de_Overrides d))) NeedsConflictBase) (\<lambda>_.
     bindE (Compare L (no_requirements\<lparr>Resources := Resources needs\<rparr>)
              (no_allocation\<lparr>al_SchemaVersion := SchemaVersion, al_Resources := Resources effective\<rparr>)) (\<lambda>m.
     bindE (case m of [] \<Rightarrow> Inr () | x # _ \<Rightarrow> Inl (NeedsConflictResource (mm_Field x))) (\<lambda>_.
     bindE (combine_base (Base (de_Effective d)) (Base effective)) (\<lambda>base.
     let prior = Resources (de_Effective d); next = Resources effective;
         effective = effective\<lparr>Base := base, Resources :=
           \<lparr>CPU = keep_larger L True (CPU prior) (CPU next),
            Memory = keep_larger L False (Memory prior) (Memory next),
            EphemeralStorage = keep_larger L False (EphemeralStorage prior) (EphemeralStorage next)\<rparr>\<rparr>
     in Inr (d\<lparr>de_Effective := effective\<rparr>))))))"

section \<open>Payload round trip\<close>




lemma Demand_Validate_overrides [simp]:
  "Demand_Validate L (d\<lparr>de_Overrides := o'\<rparr>) = Demand_Validate L d"
  by (simp add: Demand_Validate_def)


definition one_demand :: Demand where
  "one_demand = \<lparr>de_Overrides = no_requirements, de_SchemaVersion = 4, de_RecipeResolution = ''resolved'',
     de_Effective = no_requirements\<rparr>"





text \<open>The environment of an attempt: prepared packages accumulate, whatever order the layers
  prepare them in, and the allocation is never touched.\<close>

lemma prepared_packages:
  "set (en_Packages (CurrentEnvironment (foldl WithPreparedPackages (WithEnvironment c a) pss))) = \<Union> (set ` set pss)"
proof -
  have "set (en_Packages (CurrentEnvironment (foldl WithPreparedPackages (Some e) pss))) =
      set (en_Packages e) \<union> \<Union> (set ` set pss)" for e
    by (induction pss arbitrary: e) (auto simp: WithPreparedPackages_def CurrentEnvironment_def Let_def)
  then show ?thesis by (simp add: WithEnvironment_def Let_def)
qed

section \<open>Negotiation never weakens\<close>

lemma parsed_value:
  "parseQuantity (lib_quantity L) s cpu = Inr (q, n) \<Longrightarrow>
     \<exists>v. exact_value cpu s = Some v \<and> v * unit_scale cpu = of_int (scalar_of (lib_quantity L) s cpu)"
  using parseQuantity_value by (fastforce simp: scalar_of_def)

lemma normalize_input_value:
  assumes "normalize_quantity L cpu s = Inr t"
  shows "\<exists>v. exact_value cpu s = Some v \<and> v * unit_scale cpu = of_int (scalar_of (lib_quantity L) s cpu)"
  using assms
  by (auto simp: normalize_quantity_def normalizeCPU_def normalizeBytes_def bindE_ok split: if_splits
      intro: parsed_value)

lemma normalize_output_value:
  assumes "lib_laws L" "normalize_quantity L cpu s = Inr t"
  shows "\<exists>v. exact_value cpu t = Some v \<and> v * unit_scale cpu = of_int (scalar_of (lib_quantity L) t cpu)"
proof -
  have "\<exists>q n. parseQuantity (lib_quantity L) t cpu = Inr (q, n)"
  proof (cases cpu)
    case True
    then have "normalizeCPU (lib_quantity L) t = Inr t"
      using assms normalizeCPU_again by (auto simp: lib_laws_def normalize_quantity_def)
    with True show ?thesis by (auto simp: normalizeCPU_def bindE_ok)
  next
    case False
    then show ?thesis
      using assms normalizeBytes_again by (fastforce simp: lib_laws_def normalize_quantity_def)
  qed
  then show ?thesis using parsed_value by blast
qed

lemma covers_refl: "covers cpu a a"
  by (simp add: covers_def split: option.split)

lemma covers_trans: "covers cpu a b \<Longrightarrow> covers cpu b c \<Longrightarrow> covers cpu a c"
  by (auto simp: covers_def split: option.splits)

text \<open>The larger of the prior and the next quantity covers both.\<close>

lemma keep_larger_covers:
  assumes "\<And>p. prior = Some p \<Longrightarrow> \<exists>v. exact_value cpu p = Some v \<and> v * unit_scale cpu = of_int (scalar_of (lib_quantity L) p cpu)"
    and "\<And>n. next = Some n \<Longrightarrow> \<exists>v. exact_value cpu n = Some v \<and> v * unit_scale cpu = of_int (scalar_of (lib_quantity L) n cpu)"
    and "prior \<noteq> None \<Longrightarrow> next \<noteq> None"
  shows "covers cpu prior (keep_larger L cpu prior next) \<and> covers cpu next (keep_larger L cpu prior next)"
proof (cases prior)
  case None
  then show ?thesis by (simp add: keep_larger_def covers_refl) (simp add: covers_def)
next
  case (Some p)
  with assms(3) obtain n where n: "next = Some n" by auto
  obtain v where v: "exact_value cpu p = Some v" "v * unit_scale cpu = of_int (scalar_of (lib_quantity L) p cpu)"
    using assms(1) Some by blast
  obtain w where w: "exact_value cpu n = Some w" "w * unit_scale cpu = of_int (scalar_of (lib_quantity L) n cpu)"
    using assms(2) n by blast
  have u: "0 < unit_scale cpu" by (simp add: unit_scale_def)
  have "w < v \<longleftrightarrow> w * unit_scale cpu < v * unit_scale cpu" using u by simp
  also have "\<dots> \<longleftrightarrow> scalar_of (lib_quantity L) n cpu < scalar_of (lib_quantity L) p cpu"
    unfolding v(2) w(2) by simp
  finally show ?thesis using Some n v(1) w(1)
    by (auto simp: keep_larger_def covers_def choose_opt_def)
qed

definition base_accepts :: "Requirements \<Rightarrow> string \<Rightarrow> bool" where
  "base_accepts r actual = (case Base r of None \<Rightarrow> True | Some b \<Rightarrow> MatchBase b actual)"

lemma combine_base_refines:
  assumes "combine_base current requested = Inr out" "actual \<noteq> []" "current \<noteq> None \<Longrightarrow> requested \<noteq> None"
    and "\<And>b. out = Some b \<Longrightarrow> MatchBase b actual"
  shows "\<And>b. current = Some b \<Longrightarrow> MatchBase b actual" "\<And>b. requested = Some b \<Longrightarrow> MatchBase b actual"
  using assms
  by (auto simp: combine_base_def choose_opt_def split: option.splits if_splits intro: MatchBase_transitive)

lemma Negotiate_ok:
  assumes "Negotiate L d needs = Inr d'"
  obtains e base where
    "Normalize L (Overlay (Overlay (de_Effective d) needs) (de_Overrides d)) = Inr e"
    "\<not> base_override_conflict (Base needs) (Base (de_Overrides d))"
    "Compare L (no_requirements\<lparr>Resources := Resources needs\<rparr>)
       (no_allocation\<lparr>al_SchemaVersion := SchemaVersion, al_Resources := Resources e\<rparr>) = Inr []"
    "combine_base (Base (de_Effective d)) (Base e) = Inr base"
    "d' = d\<lparr>de_Effective := e\<lparr>Base := base, Resources :=
       \<lparr>CPU = keep_larger L True (CPU (Resources (de_Effective d))) (CPU (Resources e)),
        Memory = keep_larger L False (Memory (Resources (de_Effective d))) (Memory (Resources e)),
        EphemeralStorage = keep_larger L False (EphemeralStorage (Resources (de_Effective d)))
          (EphemeralStorage (Resources e))\<rparr>\<rparr>\<rparr>"
proof -
  obtain e m base where 1: "Normalize L (Overlay (Overlay (de_Effective d) needs) (de_Overrides d)) = Inr e"
    and 2: "check (\<not> base_override_conflict (Base needs) (Base (de_Overrides d))) NeedsConflictBase = Inr ()"
    and 3: "Compare L (no_requirements\<lparr>Resources := Resources needs\<rparr>)
       (no_allocation\<lparr>al_SchemaVersion := SchemaVersion, al_Resources := Resources e\<rparr>) = Inr m"
    and 4: "(case m of [] \<Rightarrow> Inr () | x # _ \<Rightarrow> Inl (NeedsConflictResource (mm_Field x))) = Inr ()"
    and 5: "combine_base (Base (de_Effective d)) (Base e) = Inr base"
    and 6: "d' = d\<lparr>de_Effective := e\<lparr>Base := base, Resources :=
       \<lparr>CPU = keep_larger L True (CPU (Resources (de_Effective d))) (CPU (Resources e)),
        Memory = keep_larger L False (Memory (Resources (de_Effective d))) (Memory (Resources e)),
        EphemeralStorage = keep_larger L False (EphemeralStorage (Resources (de_Effective d)))
          (EphemeralStorage (Resources e))\<rparr>\<rparr>\<rparr>"
    using assms unfolding Negotiate_def Let_def bindE_ok by auto
  from 4 have "m = []" by (cases m) auto
  with 1 2 3 5 6 that show thesis by (simp add: check_ok)
qed

lemma optE_value:
  assumes "optE (normalize_quantity L cpu) a = Inr b" "lib_laws L"
  shows "\<And>p. a = Some p \<Longrightarrow> \<exists>v. exact_value cpu p = Some v \<and> v * unit_scale cpu = of_int (scalar_of (lib_quantity L) p cpu)"
    and "\<And>n. b = Some n \<Longrightarrow> \<exists>v. exact_value cpu n = Some v \<and> v * unit_scale cpu = of_int (scalar_of (lib_quantity L) n cpu)"
    and "a \<noteq> None \<Longrightarrow> b \<noteq> None"
  using assms by (auto simp: optE_ok split: option.splits intro: normalize_input_value normalize_output_value)

lemma overlaid_field:
  "choose_opt (choose_opt a b) c = None \<longleftrightarrow> a = None \<and> b = None \<and> c = None"
  by (auto simp: choose_opt_def split: option.splits)

lemma keep_larger_normalized:
  assumes "lib_laws L" "optE (normalize_quantity L cpu) prior = Inr x"
    and "optE (normalize_quantity L cpu) src = Inr next" "prior \<noteq> None \<Longrightarrow> next \<noteq> None"
  shows "covers cpu prior (keep_larger L cpu prior next) \<and> covers cpu next (keep_larger L cpu prior next)"
proof (rule keep_larger_covers)
  show "\<exists>v. exact_value cpu p = Some v \<and> v * unit_scale cpu = of_int (scalar_of (lib_quantity L) p cpu)"
    if "prior = Some p" for p
    using optE_value(1) [OF assms(2,1) that] .
  show "\<exists>v. exact_value cpu n = Some v \<and> v * unit_scale cpu = of_int (scalar_of (lib_quantity L) n cpu)"
    if "next = Some n" for n
    using optE_value(2) [OF assms(3,1) that] .
qed (rule assms(4))

lemma optE_next:
  "optE f (choose_opt (choose_opt a b) c) = Inr e \<Longrightarrow> a \<noteq> None \<Longrightarrow> e \<noteq> None"
  by (auto simp: optE_ok choose_opt_def split: option.splits)

lemma Negotiate_resources:
  assumes "lib_laws L" "Demand_Validate L d = Inr ()" "Negotiate L d needs = Inr d'"
  shows "covers_resources (Resources (de_Effective d)) (Resources (de_Effective d'))"
    and "covers_resources (Resources needs) (Resources (de_Effective d'))"
proof -
  obtain e base where N: "Normalize L (Overlay (Overlay (de_Effective d) needs) (de_Overrides d)) = Inr e"
    and cmp: "Compare L (no_requirements\<lparr>Resources := Resources needs\<rparr>)
       (no_allocation\<lparr>al_SchemaVersion := SchemaVersion, al_Resources := Resources e\<rparr>) = Inr []"
    and d': "Resources (de_Effective d') =
       \<lparr>CPU = keep_larger L True (CPU (Resources (de_Effective d))) (CPU (Resources e)),
        Memory = keep_larger L False (Memory (Resources (de_Effective d))) (Memory (Resources e)),
        EphemeralStorage = keep_larger L False (EphemeralStorage (Resources (de_Effective d)))
          (EphemeralStorage (Resources e))\<rparr>"
    using assms(3) by (rule Negotiate_ok) auto
  let ?p = "Resources (de_Effective d)" and ?q = "Resources e"
  note E = Normalize_ok [OF N]
  obtain p' where "Normalize L (de_Effective d) = Inr p'"
    using assms(2) by (auto simp: Demand_Validate_def bindE_ok split: if_splits)
  note P = Normalize_ok(4) [OF this]
  note PN = P [unfolded normalizeResources_ok] and EN = E(4) [unfolded normalizeResources_ok]
  have some: "CPU ?p \<noteq> None \<Longrightarrow> CPU ?q \<noteq> None" "Memory ?p \<noteq> None \<Longrightarrow> Memory ?q \<noteq> None"
    "EphemeralStorage ?p \<noteq> None \<Longrightarrow> EphemeralStorage ?q \<noteq> None"
    using EN unfolding Overlay_def Requirements.simps Resources.simps by (blast dest: optE_next)+
  have larger: "covers_resources ?p (Resources (de_Effective d')) \<and> covers_resources ?q (Resources (de_Effective d'))"
    using PN EN keep_larger_normalized [OF assms(1) _ _ some(1)] keep_larger_normalized [OF assms(1) _ _ some(2)]
      keep_larger_normalized [OF assms(1) _ _ some(3)]
    unfolding d' covers_resources_def Resources.simps by blast
  obtain r' a' where R: "Normalize L (no_requirements\<lparr>Resources := Resources needs\<rparr>) = Inr r'"
    and A: "Allocation_Normalize L (no_allocation\<lparr>al_SchemaVersion := SchemaVersion, al_Resources := ?q\<rparr>) = Inr a'"
    using cmp by (auto simp: Compare_def bindE_ok)
  have "covers_resources (Resources (no_requirements\<lparr>Resources := Resources needs\<rparr>))
      (al_Resources (no_allocation\<lparr>al_SchemaVersion := SchemaVersion, al_Resources := ?q\<rparr>))"
    using Compare_ok [OF assms(1) R A] cmp by (metis Inr_inject)
  then have "covers_resources (Resources needs) ?q" by simp
  with larger show "covers_resources (Resources needs) (Resources (de_Effective d'))"
    and "covers_resources ?p (Resources (de_Effective d'))"
    by (auto simp: covers_resources_def intro: covers_trans)
qed

lemma Negotiate_base:
  assumes "Negotiate L d needs = Inr d'" "actual \<noteq> []" "base_accepts (de_Effective d') actual"
  shows "base_accepts (de_Effective d) actual \<and> base_accepts needs actual"
proof -
  obtain e base where N: "Normalize L (Overlay (Overlay (de_Effective d) needs) (de_Overrides d)) = Inr e"
    and conflict: "\<not> base_override_conflict (Base needs) (Base (de_Overrides d))"
    and comb: "combine_base (Base (de_Effective d)) (Base e) = Inr base"
    and d': "Base (de_Effective d') = base"
    using assms(1) by (rule Negotiate_ok) auto
  have eb: "Base e = choose_opt (choose_opt (Base (de_Effective d)) (Base needs)) (Base (de_Overrides d))"
    using Normalize_ok(1) [OF N] by (simp add: Overlay_def)
  have acc: "\<And>b. base = Some b \<Longrightarrow> MatchBase b actual"
    using assms(3) d' by (auto simp: base_accepts_def)
  have some: "Base (de_Effective d) \<noteq> None \<Longrightarrow> Base e \<noteq> None" by (auto simp: eb overlaid_field)
  note refined = combine_base_refines [OF comb assms(2) some acc]
  have "MatchBase n actual" if n: "Base needs = Some n" for n
  proof (cases "Base (de_Overrides d)")
    case None
    then show ?thesis using refined(2) n by (simp add: eb choose_opt_def)
  next
    case (Some b)
    then have "MatchBase b actual" using refined(2) by (simp add: eb choose_opt_def)
    then show ?thesis
      using conflict n Some assms(2) by (auto simp: base_override_conflict_def intro: MatchBase_transitive)
  qed
  then show ?thesis using refined(1) by (auto simp: base_accepts_def split: option.splits)
qed

text \<open>C3. A negotiated demand never weakens what was required: for every concrete base the new
  demand accepts, both the enclosing demand and the extension's request accept it; every resource
  covers the enclosing one and the requested one as exact quantities; capabilities and packages
  only grow; and the job's overrides, schema version and resolution are untouched.\<close>

theorem Negotiate_never_weakens:
  assumes "lib_laws L" "Demand_Validate L d = Inr ()" "Negotiate L d needs = Inr d'"
  shows "covers_resources (Resources (de_Effective d)) (Resources (de_Effective d')) \<and>
    covers_resources (Resources needs) (Resources (de_Effective d')) \<and>
    set (Capabilities (de_Effective d)) \<union> set (Capabilities needs) \<subseteq> set (Capabilities (de_Effective d')) \<and>
    set (Packages (de_Effective d)) \<union> set (Packages needs) \<subseteq> set (Packages (de_Effective d')) \<and>
    (\<forall>actual. actual \<noteq> [] \<and> base_accepts (de_Effective d') actual \<longrightarrow>
       base_accepts (de_Effective d) actual \<and> base_accepts needs actual) \<and>
    d'\<lparr>de_Effective := de_Effective d\<rparr> = d"
proof -
  obtain e where N: "Normalize L (Overlay (Overlay (de_Effective d) needs) (de_Overrides d)) = Inr e"
    and d': "Capabilities (de_Effective d') = Capabilities e" "Packages (de_Effective d') = Packages e"
      "d'\<lparr>de_Effective := de_Effective d\<rparr> = d"
    using assms(3) by (rule Negotiate_ok) auto
  show ?thesis
    using Negotiate_resources [OF assms] Negotiate_base [OF assms(3)] Normalize_ok(2,3) [OF N] d'
    by (auto simp: Overlay_def)
qed

theorem Negotiate_never_weakens_witness:
  "\<exists>d'. Negotiate plain_libs (one_demand\<lparr>de_Effective := ex_needs\<rparr>)
      (no_requirements\<lparr>Base := Some ''ubuntu-22*''\<rparr>) = Inr d' \<and>
    (\<forall>actual. actual \<noteq> [] \<and> base_accepts (de_Effective d') actual \<longrightarrow> base_accepts ex_needs actual)"
proof -
  let ?d = "one_demand\<lparr>de_Effective := ex_needs\<rparr>" and ?n = "no_requirements\<lparr>Base := Some ''ubuntu-22*''\<rparr>"
  have V: "Demand_Validate plain_libs ?d = Inr ()" by code_simp
  have "is_ok (Negotiate plain_libs ?d ?n)" by code_simp
  then obtain d' where "Negotiate plain_libs ?d ?n = Inr d'" by (auto simp: is_ok_iff)
  from Negotiate_never_weakens [OF plain_libs_laws V this] this show ?thesis by auto
qed

text \<open>The exception the selectors leave: when the enclosing demand is a doubled star and the
  extension asks for a single star, the negotiated demand accepts an allocation that reports no
  base, which the enclosing demand refuses.\<close>

theorem Negotiate_weakens_double_star:
  "\<exists>d'. Negotiate plain_libs (one_demand\<lparr>de_Effective := no_requirements\<lparr>Base := Some ''**''\<rparr>\<rparr>)
      (no_requirements\<lparr>Base := Some ''*''\<rparr>) = Inr d' \<and>
    base_accepts (de_Effective d') [] \<and> \<not> base_accepts (no_requirements\<lparr>Base := Some ''**''\<rparr>) []"
proof -
  have "map_sum id (\<lambda>d. Base (de_Effective d))
      (Negotiate plain_libs (one_demand\<lparr>de_Effective := no_requirements\<lparr>Base := Some ''**''\<rparr>\<rparr>)
        (no_requirements\<lparr>Base := Some ''*''\<rparr>)) = Inr (Some ''*'')"
    by code_simp
  then obtain d' where "Negotiate plain_libs (one_demand\<lparr>de_Effective := no_requirements\<lparr>Base := Some ''**''\<rparr>\<rparr>)
        (no_requirements\<lparr>Base := Some ''*''\<rparr>) = Inr d'" "Base (de_Effective d') = Some ''*''"
    by (auto simp: map_sum_def split: sum.splits)
  then show ?thesis using MatchBase_double_star by (simp add: base_accepts_def no_requirements_def)
qed

section \<open>Inspection and filtering\<close>

text \<open>Inspection reports a usable demand only from a valid source: what it shows as the demand
  was validated, a published one comes from the payload, and with a diagnostic the filter never
  silently matches.\<close>

theorem Inspect_sound:
  "(case vw_Demand (Inspect L C metadata payload) of None \<Rightarrow> True
    | Some d \<Rightarrow> Demand_Validate L d = Inr () \<and>
        (vw_Published (Inspect L C metadata payload) = (PayloadDemand L C payload = Inr (Some d)))) \<and>
   (vw_Diagnostic (Inspect L C metadata payload) = None \<or>
     fst (Filter_Match L a inc (Inspect L C metadata payload)) = False)"
proof -
  let ?v = "Inspect L C metadata payload"
  have meta: "Demand_Validate L (su_Demand s) = Inr ()" if "metadata_submission L C metadata = Inr (Some s)" for s
    using that by (auto simp: metadata_submission_def Submission_Validate_def bindE_ok split: option.splits)
  have pay: "Demand_Validate L d = Inr ()" if "PayloadDemand L C payload = Inr (Some d)" for d
    using that by (auto simp: PayloadDemand_def DecodeDemand_def bindE_ok split: option.splits json.splits)
  have "case vw_Demand ?v of None \<Rightarrow> True
    | Some d \<Rightarrow> Demand_Validate L d = Inr () \<and> (vw_Published ?v = (PayloadDemand L C payload = Inr (Some d)))"
    using meta pay
    by (auto simp: Inspect_def Let_def split: sum.splits option.splits)
  moreover have "vw_Diagnostic ?v = None \<or> \<not> fst (Filter_Match L a inc ?v)"
    by (auto simp: Filter_Match_def Let_def)
  ultimately show ?thesis by simp
qed

end
