(* ===== verification/Hook_Policy.thy ===== *)
theory Hook_Policy
  imports Perms_Policy Perms_Access Go_Path
begin

text \<open>
  Administrative hook policy, \<^verbatim>\<open>pkg/hookpolicy/policy.go\<close>: the per-hook entries with
  their source trust, the tenant and cell documents, \<open>Select\<close>, the \<open>Authority\<close> an entry gives a
  hook at a commit, and \<open>Edit\<close>.

  A Go map is an association list read by \<open>map_of\<close> (the code's own iteration order is
  unspecified). SHA-256 and the JSON reading of a document are parameters. \<open>Clone\<close> is a JSON round trip
  whose errors the code drops: marshalling an entry with invalid permissions fails, and the
  result is then the zero entry.
\<close>

section \<open>Data\<close>

record Trust =
  tr_Mode :: string
  tr_Commit :: string

record SourceTrust =
  trust_Secrets :: "(string \<times> Trust) list"
  trust_Submit :: "Trust option"
  trust_CreateCells :: "Trust option"

record HookEntry =
  he_Perms :: Spec
  he_Trust :: SourceTrust

record Document =
  doc_Version :: int
  doc_Repository :: string
  doc_Hooks :: "(string \<times> HookEntry) list option"

record Snapshot =
  sn_Revision :: string
  sn_Repository :: string
  sn_Tenant :: "Document option"
  sn_Cell :: "Document option"

datatype hook_error =
    BadHookPath
  | NotCellReference
  | PolicyNulls
  | DuplicateField string
  | BadTrust
  | InheritNotAllowed
  | PermsError perm_error
  | MissingTrust string
  | TrustForUngranted string
  | SubmitTrustMismatch
  | CreateTrustMismatch
  | BadDocument
  | DecodeFailed
  | SecretNotAuthorized string
  | SubmitNotAuthorized
  | CreateNotAuthorized
  | NilTrust
  | InheritRequiresCell
  | EntryRequired
  | SelectSomething
  | ReplaceRequired
  | UnknownEdit string

definition assoc_put :: "'k \<Rightarrow> 'v \<Rightarrow> ('k \<times> 'v) list \<Rightarrow> ('k \<times> 'v) list" where
  "assoc_put k v m = (k, v) # filter (\<lambda>p. fst p \<noteq> k) m"

definition assoc_del :: "'k \<Rightarrow> ('k \<times> 'v) list \<Rightarrow> ('k \<times> 'v) list" where
  "assoc_del k m = filter (\<lambda>p. fst p \<noteq> k) m"

lemma map_of_assoc [simp]:
  "map_of (assoc_put k v m) = (map_of m)(k \<mapsto> v)"
  "map_of (assoc_del k m) = (map_of m)(k := None)"
proof -
  have del: "map_of (filter (\<lambda>p. fst p \<noteq> k) m) = (map_of m)(k := None)"
    by (induction m) (auto simp: fun_eq_iff)
  show "map_of (assoc_put k v m) = (map_of m)(k \<mapsto> v)" by (simp add: assoc_put_def del)
  show "map_of (assoc_del k m) = (map_of m)(k := None)" by (simp add: assoc_del_def del)
qed

lemma set_assoc_del: "set (assoc_del k m) = {p \<in> set m. fst p \<noteq> k}"
  by (simp add: assoc_del_def)

lemma set_assoc_put: "set (assoc_put k v m) = insert (k, v) {p \<in> set m. fst p \<noteq> k}"
  by (simp add: assoc_put_def)

section \<open>Paths and documents\<close>

definition Path :: "string \<Rightarrow> hook_error + string" where
  "Path s =
     (if s = [] \<or> path_clean s \<noteq> s \<or> has_prefix s ''/'' \<or> s = ''.'' \<or> s = ''..'' \<or> has_prefix s ''../'' \<or>
         contains_any s [CHR 0x5C, CHR 0x00, CHR 0x0D, CHR 0x0A] \<or> go_contains s '':''
      then Inl BadHookPath else Inr s)"

definition Reference :: "string \<Rightarrow> hook_error + string" where
  "Reference s = (if \<not> has_prefix s ''cell://'' then Inl NotCellReference else Path (drop 7 s))"

definition CellKey :: "(string \<Rightarrow> string) \<Rightarrow> string \<Rightarrow> string" where
  "CellKey sha repository = ''_c2j_hook_policy_cell_'' @ sha repository"

text \<open>The recursive check \<open>Decode\<close> makes of the parsed document before it is read.\<close>

fun no_duplicates :: "string set \<Rightarrow> string list \<Rightarrow> hook_error + unit" where
  "no_duplicates seen [] = Inr ()"
| "no_duplicates seen (k # ks) =
     (if k \<in> seen then Inl (DuplicateField k) else no_duplicates (insert k seen) ks)"

lemma size_fst_snd [termination_simp]:
  "(a, b) \<in> set ps \<Longrightarrow> size a < Suc (size_list (\<lambda>x. Suc (size (fst x) + size (snd x))) ps)"
  "(a, b) \<in> set ps \<Longrightarrow> size b < Suc (size_list (\<lambda>x. Suc (size (fst x) + size (snd x))) ps)"
  by (induction ps) auto

fun check_nodes :: "yaml \<Rightarrow> hook_error + unit" where
  "check_nodes (Scalar tag v) = (if tag = ''!!null'' then Inl PolicyNulls else Inr ())"
| "check_nodes Alias = Inl PolicyNulls"
| "check_nodes (Mapping ps) =
     bindE (no_duplicates {} (map (\<lambda>p. node_value (fst p)) ps)) (\<lambda>_.
     forE (\<lambda>(k, v). bindE (check_nodes k) (\<lambda>_. check_nodes v)) ps)"
| "check_nodes (Sequence vs) = forE check_nodes vs"

definition Decode :: "(yaml \<Rightarrow> 'd option) \<Rightarrow> yaml \<Rightarrow> hook_error + 'd" where
  "Decode read n =
     bindE (check_nodes n) (\<lambda>_. case read n of None \<Rightarrow> Inl DecodeFailed | Some d \<Rightarrow> Inr d)"

definition commit_hash :: "string \<Rightarrow> bool" where
  "commit_hash s \<longleftrightarrow> length s = 40 \<and> list_all lower_hex s"

definition Trust_Validate :: "Trust \<Rightarrow> hook_error + unit" where
  "Trust_Validate t =
     (if tr_Mode t = ''candidate'' \<and> tr_Commit t = [] then Inr ()
      else if tr_Mode t = ''commit'' \<and> commit_hash (tr_Commit t) then Inr ()
      else Inl BadTrust)"

definition Trust_Allows :: "Trust \<Rightarrow> string \<Rightarrow> bool" where
  "Trust_Allows t commit \<longleftrightarrow>
     tr_Mode t = ''candidate'' \<or> tr_Mode t = ''commit'' \<and> tr_Commit t = commit"

definition no_spec :: Spec where
  "no_spec = \<lparr>spec_JobDB = None, spec_Limit = None, spec_Inherit = False, spec_Overrides = None\<rparr>"

definition no_trust :: SourceTrust where
  "no_trust = \<lparr>trust_Secrets = [], trust_Submit = None, trust_CreateCells = None\<rparr>"

definition zero_trust :: Trust where
  "zero_trust = \<lparr>tr_Mode = [], tr_Commit = []\<rparr>"

definition Empty_entry :: HookEntry where
  "Empty_entry = \<lparr>he_Perms = no_spec\<lparr>spec_JobDB := Some empty_grant\<rparr>, he_Trust = no_trust\<rparr>"

definition zero_entry :: HookEntry where
  "zero_entry = \<lparr>he_Perms = no_spec, he_Trust = no_trust\<rparr>"

definition lift_perms :: "perm_error + 'a \<Rightarrow> hook_error + 'a" where
  "lift_perms r = (case r of Inl e \<Rightarrow> Inl (PermsError e) | Inr x \<Rightarrow> Inr x)"

definition entry_grant :: "HookEntry \<Rightarrow> JobDB" where
  "entry_grant e = (case spec_JobDB (he_Perms e) of None \<Rightarrow> empty_grant | Some g \<Rightarrow> g)"

definition Entry_Validate :: "(string \<Rightarrow> bool) \<Rightarrow> HookEntry \<Rightarrow> hook_error + unit" where
  "Entry_Validate vc e =
     bindE (check (\<not> spec_Inherit (he_Perms e)) InheritNotAllowed) (\<lambda>_.
     bindE (lift_perms (Spec_Validate vc (Some (he_Perms e)))) (\<lambda>_.
     let g = entry_grant e in
     bindE (lift_perms (Enter vc (empty_state\<lparr>st_Version := policy_version\<rparr>) (Some (he_Perms e)) False)) (\<lambda>_.
     bindE (forE (\<lambda>name. case map_of (trust_Secrets (he_Trust e)) name of
                     None \<Rightarrow> Inl (MissingTrust name) | Some t \<Rightarrow> Trust_Validate t)
              (sp_Resolve (Secrets g))) (\<lambda>_.
     bindE (forE (\<lambda>(name, _). check (name \<in> set (sp_Resolve (Secrets g))) (TrustForUngranted name))
              (trust_Secrets (he_Trust e))) (\<lambda>_.
     bindE (check (jp_Submit (Jobs g) = (trust_Submit (he_Trust e) \<noteq> None)) SubmitTrustMismatch) (\<lambda>_.
     bindE (opt_check Trust_Validate (trust_Submit (he_Trust e))) (\<lambda>_.
     bindE (check (cp_Create (Cells g) = (trust_CreateCells (he_Trust e) \<noteq> None)) CreateTrustMismatch) (\<lambda>_.
     opt_check Trust_Validate (trust_CreateCells (he_Trust e))))))))))"

definition Document_Validate :: "(string \<Rightarrow> bool) \<Rightarrow> Document \<Rightarrow> string \<Rightarrow> hook_error + unit" where
  "Document_Validate vc d repository = (case doc_Hooks d of
     None \<Rightarrow> Inl BadDocument
   | Some hooks \<Rightarrow>
       if doc_Version d \<noteq> 1 \<or> doc_Repository d \<noteq> repository then Inl BadDocument
       else forE (\<lambda>(p, e). bindE (Path p) (\<lambda>_. Entry_Validate vc e)) hooks)"

definition capture_one ::
    "(string \<Rightarrow> bool) \<Rightarrow> (yaml \<Rightarrow> Document option) \<Rightarrow> yaml option \<Rightarrow> string \<Rightarrow> hook_error + Document option" where
  "capture_one vc read raw expected = (case raw of
     None \<Rightarrow> Inr None
   | Some raw \<Rightarrow>
       bindE (Decode read raw) (\<lambda>d. bindE (Document_Validate vc d expected) (\<lambda>_. Inr (Some d))))"

definition Capture ::
    "(string \<Rightarrow> bool) \<Rightarrow> (string \<Rightarrow> string) \<Rightarrow> (yaml \<Rightarrow> Document option) \<Rightarrow> string \<Rightarrow> (string \<Rightarrow> yaml option) \<Rightarrow>
       string \<Rightarrow> hook_error + Snapshot" where
  "Capture vc sha read revision values repository =
     bindE (capture_one vc read (values ''_c2j_hook_policy_tenant'') []) (\<lambda>tenant.
     bindE (if repository \<noteq> [] then capture_one vc read (values (CellKey sha repository)) repository else Inr None) (\<lambda>cell.
     Inr \<lparr>sn_Revision = revision, sn_Repository = repository, sn_Tenant = tenant, sn_Cell = cell\<rparr>))"

section \<open>Selection and authority\<close>

definition Clone_entry :: "(string \<Rightarrow> bool) \<Rightarrow> HookEntry \<Rightarrow> HookEntry" where
  "Clone_entry vc e =
     (case Spec_Validate vc (Some (he_Perms e)) of Inl _ \<Rightarrow> zero_entry | Inr _ \<Rightarrow> e)"

definition hook_of :: "Document option \<Rightarrow> string \<Rightarrow> HookEntry option" where
  "hook_of d hook = Option.bind (Option.bind d doc_Hooks) (\<lambda>m. map_of m hook)"

definition Select :: "(string \<Rightarrow> bool) \<Rightarrow> Snapshot \<Rightarrow> string \<Rightarrow> HookEntry \<times> string" where
  "Select vc s hook = (case hook_of (sn_Cell s) hook of
     Some e \<Rightarrow> (Clone_entry vc e, ''cell'')
   | None \<Rightarrow> (case hook_of (sn_Tenant s) hook of
       Some e \<Rightarrow> (Clone_entry vc e, ''tenant'')
     | None \<Rightarrow> (Empty_entry, ''none'')))"

text \<open>A missing key reads as the zero value; a nil \<open>Trust\<close> pointer panics.\<close>

definition secret_trust :: "HookEntry \<Rightarrow> string \<Rightarrow> Trust" where
  "secret_trust e n = (case map_of (trust_Secrets (he_Trust e)) n of None \<Rightarrow> zero_trust | Some t \<Rightarrow> t)"

definition need_trust :: "bool \<Rightarrow> Trust option \<Rightarrow> (Trust \<Rightarrow> hook_error + unit) \<Rightarrow> hook_error + unit" where
  "need_trust on t f = (if \<not> on then Inr () else case t of None \<Rightarrow> Inl NilTrust | Some t \<Rightarrow> f t)"

definition authority_limits :: "HookEntry \<Rightarrow> State \<Rightarrow> Spec option \<Rightarrow> JobDB option list" where
  "authority_limits e parent call =
     [st_Limit parent] @
     (case spec_Limit (he_Perms e) of None \<Rightarrow> [] | Some l \<Rightarrow> [lim_JobDB l]) @
     (case call of None \<Rightarrow> []
      | Some c \<Rightarrow> [spec_JobDB c] @ (case spec_Limit c of None \<Rightarrow> [] | Some l \<Rightarrow> [lim_JobDB l]))"

definition narrow_by :: "JobDB \<Rightarrow> JobDB option list \<Rightarrow> JobDB" where
  "narrow_by g ls = foldl (\<lambda>g l. case l of None \<Rightarrow> g | Some l \<Rightarrow> intersect g l) g ls"

definition trust_mode :: "Trust option \<Rightarrow> string" where
  "trust_mode t = (case t of None \<Rightarrow> [] | Some t \<Rightarrow> tr_Mode t)"

definition child_grant :: "HookEntry \<Rightarrow> JobDB \<Rightarrow> JobDB" where
  "child_grant e g =
     (let submit = jp_Submit (Jobs g) \<and> trust_mode (trust_Submit (he_Trust e)) = ''candidate'';
          create = cp_Create (Cells g) \<and> trust_mode (trust_CreateCells (he_Trust e)) = ''candidate''
      in \<lparr>Secrets = \<lparr>sp_Resolve = filter (\<lambda>n. tr_Mode (secret_trust e n) = ''candidate'') (sp_Resolve (Secrets g))\<rparr>,
          Jobs = \<lparr>jp_CellNames = (if submit then jp_CellNames (Jobs g) else None), jp_Submit = submit\<rparr>,
          Cells = \<lparr>cp_Create = create, cp_CellNames = (if create then cp_CellNames (Cells g) else None)\<rparr>\<rparr>)"

definition authority_state :: "HookEntry \<Rightarrow> JobDB \<Rightarrow> State" where
  "authority_state e g =
     empty_state\<lparr>st_Version := policy_version, st_Grant := Some g, st_Limit := Some g,
       st_Inputs := Some \<lparr>RootRepository = [], Foreign = True, Allowed = sp_Resolve (Secrets g)\<rparr>,
       st_ChildGrant := Some (child_grant e g)\<rparr>"

definition Authority ::
    "(string \<Rightarrow> bool) \<Rightarrow> HookEntry \<Rightarrow> string \<Rightarrow> State \<Rightarrow> Spec option \<Rightarrow> hook_error + State" where
  "Authority vc e commit parent call =
     bindE (Entry_Validate vc e) (\<lambda>_.
     let g = entry_grant e in
     bindE (forE (\<lambda>n. check (Trust_Allows (secret_trust e n) commit) (SecretNotAuthorized n)) (sp_Resolve (Secrets g))) (\<lambda>_.
     bindE (need_trust (jp_Submit (Jobs g)) (trust_Submit (he_Trust e))
              (\<lambda>t. check (Trust_Allows t commit) SubmitNotAuthorized)) (\<lambda>_.
     bindE (need_trust (cp_Create (Cells g)) (trust_CreateCells (he_Trust e))
              (\<lambda>t. check (Trust_Allows t commit) CreateNotAuthorized)) (\<lambda>_.
     bindE (lift_perms (Spec_Validate vc call)) (\<lambda>_.
     let g = narrow_by g (authority_limits e parent call);
         s = authority_state e g
     in case call of
          None \<Rightarrow> Inr s
        | Some c \<Rightarrow>
            if spec_Inherit c
            then lift_perms (Enter vc s (Some (no_spec\<lparr>spec_Inherit := True, spec_Overrides := spec_Overrides c\<rparr>)) False)
            else Inr s)))))"

section \<open>Editing\<close>

definition edit_secret :: "bool \<Rightarrow> Trust \<Rightarrow> bool \<Rightarrow> HookEntry \<Rightarrow> string \<Rightarrow> hook_error + HookEntry" where
  "edit_secret remove trust replace e n =
     (let g = entry_grant e; names = sp_Resolve (Secrets g);
          put = (\<lambda>names ts. e\<lparr>he_Perms := (he_Perms e)\<lparr>spec_JobDB := Some (g\<lparr>Secrets := \<lparr>sp_Resolve = names\<rparr>\<rparr>)\<rparr>,
                              he_Trust := (he_Trust e)\<lparr>trust_Secrets := ts\<rparr>\<rparr>) in
      if remove then Inr (put (filter (\<lambda>v. v \<noteq> n) names) (assoc_del n (trust_Secrets (he_Trust e))))
      else if (case map_of (trust_Secrets (he_Trust e)) n of None \<Rightarrow> False | Some old \<Rightarrow> old \<noteq> trust \<and> \<not> replace)
      then Inl ReplaceRequired
      else Inr (put (if n \<in> set names then names else names @ [n]) (assoc_put n trust (trust_Secrets (he_Trust e)))))"

definition edit_submit :: "bool \<Rightarrow> Trust \<Rightarrow> bool \<Rightarrow> HookEntry \<Rightarrow> hook_error + HookEntry" where
  "edit_submit remove trust replace e =
     (let g = entry_grant e;
          put = (\<lambda>b t. e\<lparr>he_Perms := (he_Perms e)\<lparr>spec_JobDB := Some (g\<lparr>Jobs := (Jobs g)\<lparr>jp_Submit := b\<rparr>\<rparr>)\<rparr>,
                         he_Trust := (he_Trust e)\<lparr>trust_Submit := t\<rparr>\<rparr>) in
      if remove then Inr (put False None)
      else if (case trust_Submit (he_Trust e) of None \<Rightarrow> False | Some old \<Rightarrow> old \<noteq> trust \<and> \<not> replace)
      then Inl ReplaceRequired
      else Inr (put True (Some trust)))"

fun foldE :: "('s \<Rightarrow> 'a \<Rightarrow> 'e + 's) \<Rightarrow> 's \<Rightarrow> 'a list \<Rightarrow> 'e + 's" where
  "foldE f s [] = Inr s"
| "foldE f s (x # xs) = bindE (f s x) (\<lambda>s. foldE f s xs)"

definition edit_entry ::
    "(string \<Rightarrow> bool) \<Rightarrow> string \<Rightarrow> string list \<Rightarrow> bool \<Rightarrow> Trust \<Rightarrow> bool \<Rightarrow> HookEntry option \<Rightarrow> HookEntry \<Rightarrow> hook_error + HookEntry" where
  "edit_entry vc operation names submit trust replace entry e =
     (if operation = ''clear'' then Inr Empty_entry
      else if operation = ''set'' then
        (case entry of None \<Rightarrow> Inl EntryRequired | Some x \<Rightarrow> Inr (Clone_entry vc x))
      else if operation = ''add'' \<or> operation = ''remove'' then
        bindE (check (names \<noteq> [] \<or> submit) SelectSomething) (\<lambda>_.
        bindE (if operation = ''add'' then Trust_Validate trust else Inr ()) (\<lambda>_.
        bindE (foldE (edit_secret (operation = ''remove'') trust replace) e names) (\<lambda>e.
        if submit then edit_submit (operation = ''remove'') trust replace e else Inr e)))
      else Inl (UnknownEdit operation))"

definition sort_secrets :: "HookEntry \<Rightarrow> HookEntry" where
  "sort_secrets e = (case spec_JobDB (he_Perms e) of None \<Rightarrow> e
     | Some g \<Rightarrow> e\<lparr>he_Perms := (he_Perms e)\<lparr>spec_JobDB :=
         Some (g\<lparr>Secrets := \<lparr>sp_Resolve = sort (sp_Resolve (Secrets g))\<rparr>\<rparr>)\<rparr>\<rparr>)"

definition Edit ::
    "(string \<Rightarrow> bool) \<Rightarrow> Snapshot \<Rightarrow> bool \<Rightarrow> string \<Rightarrow> string \<Rightarrow> string list \<Rightarrow> bool \<Rightarrow> Trust \<Rightarrow> bool \<Rightarrow>
       HookEntry option \<Rightarrow> hook_error + Document" where
  "Edit vc s cell hook operation names submit trust replace entry =
     bindE (Path hook) (\<lambda>_.
     let base = (if cell then sn_Cell s else sn_Tenant s);
         hooks = (case Option.bind base doc_Hooks of None \<Rightarrow> []
                  | Some m \<Rightarrow> map (\<lambda>(p, e). (p, Clone_entry vc e)) m);
         d = \<lparr>doc_Version = 1, doc_Repository = (if cell then sn_Repository s else []), doc_Hooks = Some hooks\<rparr>;
         e = (if cell then fst (Select vc s hook)
              else case map_of hooks hook of None \<Rightarrow> Empty_entry | Some old \<Rightarrow> Clone_entry vc old);
         e = e\<lparr>he_Perms := (he_Perms e)\<lparr>spec_JobDB := Some (entry_grant e)\<rparr>\<rparr>
     in if operation = ''inherit'' then
          (if \<not> cell then Inl InheritRequiresCell else Inr (d\<lparr>doc_Hooks := Some (assoc_del hook hooks)\<rparr>))
        else
          bindE (edit_entry vc operation names submit trust replace entry e) (\<lambda>e.
          let e = sort_secrets e in
          bindE (Entry_Validate vc e) (\<lambda>_.
          Inr (d\<lparr>doc_Hooks := Some (assoc_put hook e hooks)\<rparr>))))"

section \<open>Paths\<close>

lemma Path_ok:
  "Path s = Inr t \<longleftrightarrow> t = s \<and> s \<noteq> [] \<and> path_clean s = s \<and> \<not> has_prefix s ''/'' \<and> s \<noteq> ''.'' \<and> s \<noteq> ''..'' \<and>
     \<not> has_prefix s ''../'' \<and> \<not> contains_any s [CHR 0x5C, CHR 0x00, CHR 0x0D, CHR 0x0A] \<and> \<not> go_contains s '':''"
  by (auto simp: Path_def)

text \<open>An accepted hook path is returned unchanged and cannot leave the repository: it is relative
  and each of its components is a plain name, never empty, a dot or a double dot.\<close>

theorem Path_stays_inside:
  assumes "Path s = Inr t"
  shows "t = s \<and> (\<forall>p \<in> set (split_on CHR ''/'' s). plain_component p) \<and> \<not> has_prefix s ''/''"
  using assms path_clean_fixed [of s] by (auto simp: Path_ok)

theorem Path_stays_inside_witness: "list_all plain_component (split_on CHR ''/'' ''hooks/pre.yaml'')"
proof -
  have "Path ''hooks/pre.yaml'' = Inr ''hooks/pre.yaml''" by code_simp
  from Path_stays_inside [OF this] show ?thesis by (simp add: list_all_iff)
qed

section \<open>The authority of a hook\<close>

lemma lift_perms_ok [ok_iff]: "lift_perms r = Inr x \<longleftrightarrow> r = Inr x"
  by (simp add: lift_perms_def split: sum.split)

lemma narrow_by_permits:
  "grant_permits (narrow_by g ls) r \<longleftrightarrow> grant_permits g r \<and> (\<forall>l \<in> set ls. limit_permits l r)"
proof -
  have "narrow_by g ls = foldl intersect g (List.map_filter id ls)"
    unfolding narrow_by_def by (induction ls arbitrary: g) (auto split: option.splits)
  then have "grant_permits (narrow_by g ls) r \<longleftrightarrow>
      grant_permits g r \<and> (\<forall>l \<in> set (List.map_filter id ls). grant_permits l r)"
    by (simp add: grants.permits_narrow)
  also have "\<dots> \<longleftrightarrow> grant_permits g r \<and> (\<forall>l \<in> set ls. limit_permits l r)"
    by (induction ls) (auto simp: limit_permits_def split: option.splits)
  finally show ?thesis .
qed

definition request_trust :: "HookEntry \<Rightarrow> request \<Rightarrow> (Trust \<Rightarrow> bool) \<Rightarrow> bool" where
  "request_trust e r P = (case r of
     ResolveSecret n \<Rightarrow> P (secret_trust e n)
   | SubmitTo c \<Rightarrow> (case trust_Submit (he_Trust e) of None \<Rightarrow> False | Some t \<Rightarrow> P t)
   | CreateCell c \<Rightarrow> (case trust_CreateCells (he_Trust e) of None \<Rightarrow> False | Some t \<Rightarrow> P t))"

lemma node_state_child [simp]: "st_ChildGrant (node_state s spec) = st_ChildGrant s"
  by (auto simp: node_state_def Let_def split: option.splits if_splits)

lemma Enter_overrides:
  assumes "Enter vc s (Some (no_spec\<lparr>spec_Inherit := True, spec_Overrides := o'\<rparr>)) False = Inr t"
  shows "limit_permits (st_Limit t) r = limit_permits (st_Limit s) r" "st_ChildGrant t = st_ChildGrant s"
  using assms by (auto simp: Enter_def Enter_node_ok node_state_limit no_spec_def limit_of_def)

lemma need_trust_ok:
  "need_trust on t f = Inr () \<longleftrightarrow> (on \<longrightarrow> (\<exists>x. t = Some x \<and> f x = Inr ()))"
  by (auto simp: need_trust_def split: option.splits)

lemma Authority_ok:
  assumes "Authority vc e commit parent call = Inr s"
  obtains g where "g = narrow_by (entry_grant e) (authority_limits e parent call)"
    "\<And>r. grant_permits (entry_grant e) r \<Longrightarrow> request_trust e r (\<lambda>t. Trust_Allows t commit)"
    "\<And>r. limit_permits (st_Limit s) r = grant_permits g r"
    "st_ChildGrant s = Some (child_grant e g)"
proof -
  let ?e = "entry_grant e" and ?g = "narrow_by (entry_grant e) (authority_limits e parent call)"
  obtain u where "Entry_Validate vc e = Inr u"
    and S: "forE (\<lambda>n. check (Trust_Allows (secret_trust e n) commit) (SecretNotAuthorized n)) (sp_Resolve (Secrets ?e)) = Inr ()"
    and J: "need_trust (jp_Submit (Jobs ?e)) (trust_Submit (he_Trust e)) (\<lambda>t. check (Trust_Allows t commit) SubmitNotAuthorized) = Inr ()"
    and C: "need_trust (cp_Create (Cells ?e)) (trust_CreateCells (he_Trust e)) (\<lambda>t. check (Trust_Allows t commit) CreateNotAuthorized) = Inr ()"
    and s: "(case call of None \<Rightarrow> Inr (authority_state e ?g)
        | Some c \<Rightarrow> if spec_Inherit c
            then lift_perms (Enter vc (authority_state e ?g)
              (Some (no_spec\<lparr>spec_Inherit := True, spec_Overrides := spec_Overrides c\<rparr>)) False)
            else Inr (authority_state e ?g)) = Inr s"
    using assms unfolding Authority_def Let_def bindE_ok by auto
  have base: "limit_permits (st_Limit (authority_state e ?g)) r = grant_permits ?g r"
    "st_ChildGrant (authority_state e ?g) = Some (child_grant e ?g)" for r
    by (simp_all add: authority_state_def)
  have "request_trust e r (\<lambda>t. Trust_Allows t commit)" if "grant_permits ?e r" for r
    using that S J C by (cases r) (auto simp: request_trust_def need_trust_ok forE_ok check_ok)
  moreover have "limit_permits (st_Limit s) r = grant_permits ?g r \<and> st_ChildGrant s = Some (child_grant e ?g)" for r
  proof (cases "s = authority_state e ?g")
    case True
    then show ?thesis by (simp add: base)
  next
    case False
    with s obtain c where "call = Some c" "spec_Inherit c" by (auto split: option.splits if_splits)
    with s have "Enter vc (authority_state e ?g)
        (Some (no_spec\<lparr>spec_Inherit := True, spec_Overrides := spec_Overrides c\<rparr>)) False = Inr s"
      by (simp add: lift_perms_ok)
    from Enter_overrides [OF this] base show ?thesis by simp
  qed
  ultimately show thesis by (intro that [of ?g]) auto
qed

text \<open>What a hook may do at a commit, through a resolved lease grant or as an input secret,
  is granted by its administrative entry, trusted for that commit, and inside every ceiling: the
  parent's limit, the entry's own limit, and the grant and limit at the callsite.\<close>

theorem Authority_bounds:
  assumes "Authority vc e commit parent call = Inr s"
    and "(\<exists>g git. Resolve vc s git = Inr g \<and> grant_permits g r) \<or>
         (\<exists>n. r = ResolveSecret n \<and> n \<noteq> [] \<and> CheckInput s n = Inr ())"
  shows "grant_permits (entry_grant e) r \<and> request_trust e r (\<lambda>t. Trust_Allows t commit) \<and>
    (\<forall>l \<in> set (authority_limits e parent call). limit_permits l r)"
  using assms(1)
proof (rule Authority_ok)
  fix g
  assume g: "g = narrow_by (entry_grant e) (authority_limits e parent call)"
    and T: "\<And>r. grant_permits (entry_grant e) r \<Longrightarrow> request_trust e r (\<lambda>t. Trust_Allows t commit)"
    and L: "\<And>r. limit_permits (st_Limit s) r = grant_permits g r"
  have "limit_permits (st_Limit s) r"
    using assms(2) Resolve_within by (auto simp: CheckInput_ok)
  then show ?thesis using L T by (simp add: g narrow_by_permits)
qed

text \<open>The grant a hook passes on to child recipes is inside the hook's own limit and contains only
  what is trusted for any candidate, never what is bound to a commit.\<close>

theorem child_grant_candidate_only:
  assumes "Authority vc e commit parent call = Inr s" "st_ChildGrant s = Some c" "grant_permits c r"
  shows "limit_permits (st_Limit s) r \<and> request_trust e r (\<lambda>t. tr_Mode t = ''candidate'')"
  using assms(1)
proof (rule Authority_ok)
  fix g
  assume L: "\<And>r. limit_permits (st_Limit s) r = grant_permits g r"
    and C: "st_ChildGrant s = Some (child_grant e g)"
  have c: "grant_permits (child_grant e g) r" using assms(2,3) C by simp
  then show ?thesis unfolding L
    by (cases r) (auto simp: child_grant_def Let_def request_trust_def trust_mode_def split: if_splits option.splits)
qed

definition ex_trust :: Trust where
  "ex_trust = \<lparr>tr_Mode = ''candidate'', tr_Commit = []\<rparr>"

definition ex_entry :: HookEntry where
  "ex_entry = \<lparr>he_Perms = no_spec\<lparr>spec_JobDB := Some (empty_grant\<lparr>Secrets := \<lparr>sp_Resolve = [''K'']\<rparr>\<rparr>)\<rparr>,
     he_Trust = no_trust\<lparr>trust_Secrets := [(''K'', ex_trust)]\<rparr>\<rparr>"

definition ex_hook_grant :: JobDB where
  "ex_hook_grant = empty_grant\<lparr>Secrets := \<lparr>sp_Resolve = [''K'']\<rparr>\<rparr>"

lemmas hook_eval = perms_eval Entry_Validate_def lift_perms_def entry_grant_def no_spec_def no_trust_def
  ex_trust_def Trust_Validate_def ex_entry_def

lemma ex_entry_valid: "Entry_Validate (\<lambda>_. True) ex_entry = Inr ()"
  by (simp add: hook_eval)

lemma ex_authority:
  "Authority (\<lambda>_. True) ex_entry ''abc'' empty_state None = Inr (authority_state ex_entry ex_hook_grant)"
  using ex_entry_valid
  by (simp add: Authority_def need_trust_def Trust_Allows_def secret_trust_def narrow_by_def authority_limits_def
      Spec_Validate_def lift_perms_def entry_grant_def ex_entry_def ex_hook_grant_def no_spec_def no_trust_def
      ex_trust_def empty_grant_def empty_state_def Let_def)

lemma ex_authority_resolves:
  "Resolve (\<lambda>_. True) (authority_state ex_entry ex_hook_grant) [] = Inr ex_hook_grant"
  by (simp add: authority_state_def ex_hook_grant_def perms_eval)

theorem Authority_bounds_witness:
  "request_trust ex_entry (ResolveSecret ''K'') (\<lambda>t. Trust_Allows t ''abc'')"
proof -
  have "grant_permits ex_hook_grant (ResolveSecret ''K'')" by (simp add: ex_hook_grant_def)
  then show ?thesis using Authority_bounds [OF ex_authority] ex_authority_resolves by blast
qed

theorem child_grant_candidate_only_witness:
  "limit_permits (Some ex_hook_grant) (ResolveSecret ''K'')"
proof -
  have c: "st_ChildGrant (authority_state ex_entry ex_hook_grant) = Some (child_grant ex_entry ex_hook_grant)"
    and l: "st_Limit (authority_state ex_entry ex_hook_grant) = Some ex_hook_grant"
    by (simp_all add: authority_state_def)
  have "grant_permits (child_grant ex_entry ex_hook_grant) (ResolveSecret ''K'')"
    by (simp add: child_grant_def ex_hook_grant_def ex_entry_def secret_trust_def no_trust_def ex_trust_def
        no_spec_def Let_def)
  from child_grant_candidate_only [OF ex_authority c this] l show ?thesis by simp
qed

lemma lift_perms_no_panic: "lift_perms r \<noteq> Inl NilTrust"
  by (simp add: lift_perms_def split: sum.split)

lemma forE_no_error: "(\<And>x. f x \<noteq> Inl e) \<Longrightarrow> forE f xs \<noteq> Inl e"
  by (induction xs) (auto simp: bindE_err)

lemma Entry_Validate_no_panic: "Entry_Validate vc e \<noteq> Inl NilTrust"
proof -
  have tv: "Trust_Validate t \<noteq> Inl NilTrust" for t by (simp add: Trust_Validate_def)
  have "forE (\<lambda>name. case map_of (trust_Secrets (he_Trust e)) name of
      None \<Rightarrow> Inl (MissingTrust name) | Some t \<Rightarrow> Trust_Validate t) xs \<noteq> Inl NilTrust" for xs
    by (rule forE_no_error) (simp add: tv split: option.split)
  moreover have "forE (\<lambda>(name, _). check (P name) (TrustForUngranted name)) (xs :: (string \<times> Trust) list)
      \<noteq> Inl NilTrust" for P xs
    by (rule forE_no_error) (auto simp: check_def split: if_splits)
  ultimately show ?thesis
    using tv by (auto simp: Entry_Validate_def Let_def bindE_err check_err opt_check_def lift_perms_no_panic
        split: option.splits)
qed

text \<open>Computing the authority of an entry never dereferences a nil trust pointer: validation has
  established that every granted capability carries its trust.\<close>

theorem Authority_no_panic: "Authority vc e commit parent call \<noteq> Inl NilTrust"
proof
  assume A: "Authority vc e commit parent call = Inl NilTrust"
  show False
  proof (cases "Entry_Validate vc e")
    case (Inl x)
    with Entry_Validate_no_panic [of vc e] A show False by (simp add: Authority_def)
  next
    case (Inr u)
    then have "jp_Submit (Jobs (entry_grant e)) \<longrightarrow> trust_Submit (he_Trust e) \<noteq> None"
      "cp_Create (Cells (entry_grant e)) \<longrightarrow> trust_CreateCells (he_Trust e) \<noteq> None"
      by (auto simp: Entry_Validate_def Let_def bindE_ok check_ok)
    then have "need_trust (jp_Submit (Jobs (entry_grant e))) (trust_Submit (he_Trust e)) (\<lambda>t. check (P t) SubmitNotAuthorized) \<noteq> Inl NilTrust"
      "need_trust (cp_Create (Cells (entry_grant e))) (trust_CreateCells (he_Trust e)) (\<lambda>t. check (P t) CreateNotAuthorized) \<noteq> Inl NilTrust"
      for P by (auto simp: need_trust_def check_err split: option.splits)
    moreover have "forE (\<lambda>n. check (P n) (SecretNotAuthorized n)) xs \<noteq> Inl NilTrust" for P xs
      by (rule forE_no_error) (simp add: check_def)
    ultimately show False
      using A Inr by (auto simp: Authority_def Let_def bindE_err lift_perms_no_panic split: option.splits if_splits)
  qed
qed

section \<open>Editing a document\<close>

lemma Entry_Validate_spec: "Entry_Validate vc e = Inr u \<Longrightarrow> Spec_Validate vc (Some (he_Perms e)) = Inr ()"
  by (auto simp: Entry_Validate_def Let_def bindE_ok lift_perms_ok)

lemma Clone_valid: "Entry_Validate vc e = Inr u \<Longrightarrow> Clone_entry vc e = e"
  by (simp add: Clone_entry_def Entry_Validate_spec)

lemma Document_Validate_ok:
  "Document_Validate vc d repo = Inr () \<longleftrightarrow>
     (\<exists>hooks. doc_Hooks d = Some hooks \<and> doc_Version d = 1 \<and> doc_Repository d = repo \<and>
       (\<forall>(p, e) \<in> set hooks. is_ok (Path p) \<and> Entry_Validate vc e = Inr ()))"
  by (auto simp: Document_Validate_def bindE_ok forE_ok is_ok_iff split: option.splits)

lemma clone_hooks:
  "\<forall>(p, e) \<in> set m. is_ok (Path p) \<and> Entry_Validate vc e = Inr () \<Longrightarrow>
     map (\<lambda>(p, e). (p, Clone_entry vc e)) m = m"
  by (induction m) (auto simp: Clone_valid)

definition snapshot_valid :: "(string \<Rightarrow> bool) \<Rightarrow> Snapshot \<Rightarrow> bool" where
  "snapshot_valid vc s \<longleftrightarrow>
     (\<forall>d. sn_Cell s = Some d \<longrightarrow> Document_Validate vc d (sn_Repository s) = Inr ()) \<and>
     (\<forall>d. sn_Tenant s = Some d \<longrightarrow> Document_Validate vc d [] = Inr ())"

text \<open>Captured snapshots are valid: each document that is present passed its validation for the
  repository it is bound to.\<close>

theorem Capture_valid:
  assumes "Capture vc sha read revision values repository = Inr s"
  shows "snapshot_valid vc s \<and> sn_Repository s = repository"
proof -
  have one: "Document_Validate vc d repo = Inr ()" if "capture_one vc read raw repo = Inr (Some d)" for raw repo d
    using that by (auto simp: capture_one_def bindE_ok split: option.splits)
  show ?thesis
    using assms one by (auto simp: Capture_def snapshot_valid_def bindE_ok split: if_splits)
qed

theorem Capture_valid_witness:
  "snapshot_valid (\<lambda>_. True) \<lparr>sn_Revision = ''1'', sn_Repository = ''r'', sn_Tenant = None, sn_Cell = None\<rparr>"
proof -
  have "Capture (\<lambda>_. True) id (\<lambda>_. None) ''1'' Map.empty ''r'' =
      Inr \<lparr>sn_Revision = ''1'', sn_Repository = ''r'', sn_Tenant = None, sn_Cell = None\<rparr>"
    by (simp add: Capture_def capture_one_def)
  from Capture_valid [OF this] show ?thesis by blast
qed

lemma base_hooks:
  assumes "snapshot_valid vc s" "base = (if cell then sn_Cell s else sn_Tenant s)"
  obtains m where "(case Option.bind base doc_Hooks of None \<Rightarrow> []
      | Some m \<Rightarrow> map (\<lambda>(p, e). (p, Clone_entry vc e)) m) = m"
    "\<forall>(p, e) \<in> set m. is_ok (Path p) \<and> Entry_Validate vc e = Inr ()"
    "\<And>h. hook_of base h = map_of m h"
proof (cases base)
  case None
  then show thesis by (intro that [of "[]"]) (simp_all add: hook_of_def)
next
  case (Some d)
  then obtain repo where "Document_Validate vc d repo = Inr ()"
    using assms by (auto simp: snapshot_valid_def split: if_splits)
  then obtain hooks where h: "doc_Hooks d = Some hooks"
      "\<forall>(p, e) \<in> set hooks. is_ok (Path p) \<and> Entry_Validate vc e = Inr ()"
    by (auto simp: Document_Validate_ok)
  with Some show thesis by (intro that [of hooks]) (simp_all add: clone_hooks hook_of_def)
qed

text \<open>An edit of a valid snapshot produces a valid document of the right binding, and leaves the
  policy of every other hook as it was.\<close>

theorem Edit_valid:
  assumes "snapshot_valid vc s" "Edit vc s cell hook operation names submit trust replace entry = Inr d"
  shows "Document_Validate vc d (if cell then sn_Repository s else []) = Inr () \<and>
    (\<forall>h. h \<noteq> hook \<longrightarrow> hook_of (Some d) h = hook_of (if cell then sn_Cell s else sn_Tenant s) h)"
proof -
  define base where "base = (if cell then sn_Cell s else sn_Tenant s)"
  obtain m where m: "(case Option.bind base doc_Hooks of None \<Rightarrow> []
      | Some m \<Rightarrow> map (\<lambda>(p, e). (p, Clone_entry vc e)) m) = m"
    and V: "\<forall>(p, e) \<in> set m. is_ok (Path p) \<and> Entry_Validate vc e = Inr ()"
    and H: "\<And>h. hook_of base h = map_of m h"
    using base_hooks [OF assms(1) base_def] by blast
  from assms(2) have P: "is_ok (Path hook)" by (auto simp: Edit_def bindE_ok is_ok_iff)
  have "doc_Version d = 1 \<and> doc_Repository d = (if cell then sn_Repository s else []) \<and>
      (doc_Hooks d = Some (assoc_del hook m) \<or>
       (\<exists>e. Entry_Validate vc e = Inr () \<and> doc_Hooks d = Some (assoc_put hook e m)))"
    using assms(2) unfolding Edit_def Let_def base_def [symmetric] m
    by (auto simp: bindE_ok split: if_splits)
  then obtain hooks where d: "doc_Version d = 1" "doc_Repository d = (if cell then sn_Repository s else [])"
      "doc_Hooks d = Some hooks"
    and hooks: "hooks = assoc_del hook m \<or> (\<exists>e. Entry_Validate vc e = Inr () \<and> hooks = assoc_put hook e m)"
    by auto
  have "\<forall>(p, e) \<in> set hooks. is_ok (Path p) \<and> Entry_Validate vc e = Inr ()"
    using hooks V P by (auto simp: set_assoc_del set_assoc_put)
  moreover have "map_of hooks h = map_of m h" if "h \<noteq> hook" for h
    using hooks that by auto
  ultimately show ?thesis
    using d H unfolding base_def [symmetric] by (simp add: Document_Validate_ok hook_of_def)
qed

definition ex_snapshot :: Snapshot where
  "ex_snapshot = \<lparr>sn_Revision = ''1'', sn_Repository = ''r'', sn_Tenant = None, sn_Cell = None\<rparr>"

theorem Edit_valid_witness:
  "\<exists>d. Edit (\<lambda>_. True) ex_snapshot True ''hooks/pre.yaml'' ''add'' [''K''] False ex_trust False None = Inr d \<and>
     Document_Validate (\<lambda>_. True) d ''r'' = Inr ()"
proof -
  have v: "snapshot_valid (\<lambda>_. True) ex_snapshot" by (simp add: snapshot_valid_def ex_snapshot_def)
  have "is_ok (Edit (\<lambda>_. True) ex_snapshot True ''hooks/pre.yaml'' ''add'' [''K''] False ex_trust False None)"
    by code_simp
  then obtain d where "Edit (\<lambda>_. True) ex_snapshot True ''hooks/pre.yaml'' ''add'' [''K''] False ex_trust False None = Inr d"
    by (auto simp: is_ok_iff)
  from Edit_valid [OF v this] this show ?thesis by (auto simp: ex_snapshot_def)
qed

text \<open>Setting an entry whose permissions are invalid is not refused: the copy made of it is the
  zero entry, which validates, so the edit succeeds and stores an entry without any grant.\<close>

theorem Edit_set_invalid:
  assumes "is_ok (Path hook)" "\<not> is_ok (Spec_Validate vc (Some (he_Perms x)))"
  shows "\<exists>d. Edit vc s cell hook ''set'' names submit trust replace (Some x) = Inr d \<and>
    hook_of (Some d) hook = Some zero_entry"
proof -
  have z: "Clone_entry vc x = zero_entry" using assms(2) by (auto simp: Clone_entry_def split: sum.splits)
  have v: "Entry_Validate vc zero_entry = Inr ()"
    by (simp add: zero_entry_def hook_eval)
  have s: "sort_secrets zero_entry = zero_entry" by (simp add: sort_secrets_def zero_entry_def no_spec_def)
  show ?thesis
    using assms(1) z v s by (auto simp: Edit_def Let_def edit_entry_def is_ok_iff hook_of_def)
qed

theorem Edit_set_invalid_witness:
  "\<exists>d. Edit (\<lambda>_. True) ex_snapshot False ''h'' ''set'' [] False ex_trust False
      (Some (ex_entry\<lparr>he_Perms := no_spec\<lparr>spec_JobDB := Some (empty_grant\<lparr>Secrets := \<lparr>sp_Resolve = [''K'', ''K'']\<rparr>\<rparr>)\<rparr>\<rparr>)) = Inr d"
proof -
  have p: "is_ok (Path ''h'')" by code_simp
  have i: "\<not> is_ok (Spec_Validate (\<lambda>_. True) (Some (he_Perms
      (ex_entry\<lparr>he_Perms := no_spec\<lparr>spec_JobDB := Some (empty_grant\<lparr>Secrets := \<lparr>sp_Resolve = [''K'', ''K'']\<rparr>\<rparr>)\<rparr>\<rparr>))))"
    by (simp add: hook_eval)
  from Edit_set_invalid [OF p i] show ?thesis by blast
qed

end
