(* ===== verification/Secret_Session.thy ===== *)
theory Secret_Session
  imports Secret_Refs
begin

text \<open>
  \<^verbatim>\<open>pkg/secrets/session.go\<close> and \<^verbatim>\<open>pkg/secrets/redactor.go\<close>: the values of one task attempt,
  and the masks that hide them. Sessions share their redactor, so an operation of a session takes and
  returns both; \<open>world\<close> puts a redactor and its sessions together. The clock is the argument
  \<open>now\<close>, read once per operation. What JobDB answers to a batch of names is the
  parameter \<open>resolve\<close>; an answer also says whether the context was cancelled or the redactor
  closed by another goroutine meanwhile. The two spellings of a secret that \<^verbatim>\<open>strconv.Quote\<close>
  and \<^verbatim>\<open>json.Marshal\<close> give are the parameter \<open>spell\<close>.
\<close>

section \<open>State\<close>

record secret_val =
  sv_value :: string
  sv_expires :: "int option"

record redactor =
  masks :: "string list"
  r_closed :: bool
  sessions :: int

record session =
  vals :: "string \<rightharpoonup> secret_val"
  owns :: bool
  released :: bool
  s_closed :: bool

definition expired :: "int \<Rightarrow> secret_val \<Rightarrow> bool" where
  "expired now v = (case sv_expires v of None \<Rightarrow> False | Some e \<Rightarrow> \<not> now < e)"

section \<open>The redactor\<close>

definition NewRedactor :: redactor where
  "NewRedactor = \<lparr>masks = [], r_closed = False, sessions = 0\<rparr>"

definition clearClosed :: "redactor \<Rightarrow> redactor" where
  "clearClosed r = (if r_closed r \<and> sessions r = 0 then r\<lparr>masks := []\<rparr> else r)"

definition redactor_Close :: "redactor \<Rightarrow> redactor" where
  "redactor_Close r = clearClosed (r\<lparr>r_closed := True\<rparr>)"

definition releaseSession :: "redactor \<Rightarrow> redactor" where
  "releaseSession r = clearClosed (r\<lparr>sessions := sessions r - 1\<rparr>)"

definition redactor_add :: "string \<Rightarrow> redactor \<Rightarrow> secret_error + redactor" where
  "redactor_add v r = (if r_closed r then Inl LeaseLost else Inr (r\<lparr>masks := List.insert v (masks r)\<rparr>))"

definition redactor_NewSession :: "redactor \<Rightarrow> session \<times> redactor" where
  "redactor_NewSession r =
     (\<lparr>vals = Map.empty, owns = False, released = False, s_closed = False\<rparr>, r\<lparr>sessions := sessions r + 1\<rparr>)"

definition NewSession :: "session \<times> redactor" where
  "NewSession = (case redactor_NewSession NewRedactor of (s, r) \<Rightarrow> (s\<lparr>owns := True\<rparr>, r))"

section \<open>Preparing\<close>

definition session_Close :: "session \<times> redactor \<Rightarrow> session \<times> redactor" where
  "session_Close sr = (case sr of (s, r) \<Rightarrow>
     if released s then (s, r)
     else let s = s\<lparr>released := True, vals := Map.empty, s_closed := True\<rparr>;
              r = releaseSession r
          in (s, if owns s then redactor_Close r else r))"

definition ready :: "int \<Rightarrow> (string \<rightharpoonup> secret_val) \<Rightarrow> string list \<Rightarrow> bool" where
  "ready now m names = list_all (\<lambda>n. case m n of None \<Rightarrow> False | Some v \<Rightarrow> \<not> expired now v) names"

definition session_Ready :: "int \<Rightarrow> (session \<times> redactor) option \<Rightarrow> string list \<Rightarrow> bool" where
  "session_Ready now sr names = (case sr of
     None \<Rightarrow> names = []
   | Some (s, r) \<Rightarrow> \<not> (s_closed s \<or> r_closed r) \<and> ready now (vals s) names)"

datatype resolve_error = RLeaseLost | RNoProvider | ROther

record answer =
  secrets_of :: "resolve_error + (string \<rightharpoonup> secret_val)"
  cancelled :: bool
  closed_meanwhile :: bool

definition needed_names :: "secret_ref list \<Rightarrow> string list" where
  "needed_names refs = add_unseen [] (filter (\<lambda>n. n \<noteq> []) (map sr_name refs))"

definition strict_ref :: "secret_ref \<Rightarrow> bool" where
  "strict_ref r = (sr_name r \<noteq> [] \<and> sr_default r = None \<and> (\<not> sr_omit r \<or> sr_required r))"

definition required_names :: "secret_ref list \<Rightarrow> string list" where
  "required_names refs = add_unseen [] (map sr_name (filter strict_ref refs))"

text \<open>The values of one batch: each is masked before it is stored.\<close>

fun store_batch :: "(string \<rightharpoonup> secret_val) \<Rightarrow> string list \<Rightarrow> session \<times> redactor \<Rightarrow>
    (session \<times> redactor) \<times> (secret_error + unit)" where
  "store_batch m [] sr = (sr, Inr ())"
| "store_batch m (n # ns) (s, r) = (case m n of
     None \<Rightarrow> store_batch m ns (s, r)
   | Some v \<Rightarrow> (case redactor_add (sv_value v) r of
       Inl e \<Rightarrow> ((s, r), Inl e)
     | Inr r' \<Rightarrow> store_batch m ns (s\<lparr>vals := (vals s)(n \<mapsto> v)\<rparr>, r')))"

text \<open>At most 64 names per call of the resolver.\<close>

function load_batches :: "(string list \<Rightarrow> answer) \<Rightarrow> string list \<Rightarrow> session \<times> redactor \<Rightarrow>
    (session \<times> redactor) \<times> (secret_error + unit)" where
  "load_batches resolve names (s, r) =
     (if names = [] then ((s, r), Inr ())
      else let batch = take 64 names; a = resolve batch; r = (if closed_meanwhile a then redactor_Close r else r) in
        case secrets_of a of
          Inl RLeaseLost \<Rightarrow> ((s\<lparr>s_closed := True\<rparr>, r), Inl LeaseLost)
        | Inl RNoProvider \<Rightarrow> ((s, r), Inl NoProvider)
        | Inl ROther \<Rightarrow> ((s, r), Inl ResolutionUnavailable)
        | Inr m \<Rightarrow>
            if r_closed r then ((s, r), Inl LeaseLost)
            else if cancelled a then ((s, r), Inl Cancelled)
            else (case store_batch m batch (s, r) of
                    (sr, Inl e) \<Rightarrow> (sr, Inl e)
                  | (sr, Inr _) \<Rightarrow> load_batches resolve (drop 64 names) sr))"
  by pat_completeness auto
termination by (relation "measure (\<lambda>(_, names, _). length names)") auto

declare load_batches.simps [simp del]

definition clear_values :: "session \<times> redactor \<Rightarrow> session \<times> redactor" where
  "clear_values sr = (case sr of (s, r) \<Rightarrow> (s\<lparr>vals := Map.empty\<rparr>, r))"

definition PrepareReferences :: "int \<Rightarrow> bool \<Rightarrow> secret_ref list \<Rightarrow> (string list \<Rightarrow> answer) option \<Rightarrow>
    session \<times> redactor \<Rightarrow> (session \<times> redactor) \<times> (secret_error + unit)" where
  "PrepareReferences now ctx_done refs resolve sr =
     (let sr = clear_values sr; names = needed_names refs in
      if ctx_done then (sr, Inl Cancelled)
      else if s_closed (fst sr) \<or> r_closed (snd sr) then (sr, Inl LeaseLost)
      else case (if names = [] then (sr, Inr ())
                 else case resolve of None \<Rightarrow> (sr, Inl NoProvider) | Some f \<Rightarrow> load_batches f names sr) of
          (sr', Inl e) \<Rightarrow> (clear_values sr', Inl e)
        | (sr', Inr _) \<Rightarrow>
            if ready now (vals (fst sr')) (required_names refs) then (sr', Inr ())
            else (clear_values sr', Inl SecretUnavailable))"

definition Prepare :: "int \<Rightarrow> bool \<Rightarrow> string list \<Rightarrow> (string list \<Rightarrow> answer) option \<Rightarrow>
    session \<times> redactor \<Rightarrow> (session \<times> redactor) \<times> (secret_error + unit)" where
  "Prepare now ctx_done names = PrepareReferences now ctx_done (map named_secret names)"

section \<open>Materializing\<close>

definition materializeReference :: "int \<Rightarrow> (session \<times> redactor) option \<Rightarrow> secret_ref \<Rightarrow> secret_error + tval" where
  "materializeReference now sr ref =
     (case (sr_name ref, sr_default ref) of
        ([], Some d) \<Rightarrow> Inr (Val (GStr d))
      | _ \<Rightarrow> (case sr of
          None \<Rightarrow> Inl SetupRequired
        | Some (s, r) \<Rightarrow>
            if s_closed s \<or> r_closed r then Inl LeaseLost
            else if (case vals s (sr_name ref) of None \<Rightarrow> True | Some v \<Rightarrow> expired now v) then
              if sr_omit ref \<and> \<not> sr_required ref then Inr Omit
              else (case sr_default ref of Some d \<Rightarrow> Inr (Val (GStr d)) | None \<Rightarrow> Inl SecretUnavailable)
            else (case vals s (sr_name ref) of
                    Some v \<Rightarrow> Inr (Val (GStr (sv_value v))) | None \<Rightarrow> Inl SecretUnavailable)))"

definition materialize_ref :: "int \<Rightarrow> (session \<times> redactor) option \<Rightarrow> secret_ref \<Rightarrow> 's \<Rightarrow> secret_error + tval \<times> 's" where
  "materialize_ref now sr ref u = map_sum id (\<lambda>w. (w, u)) (materializeReference now sr ref)"

definition Materialize :: "int \<Rightarrow> (session \<times> redactor) option \<Rightarrow> gval \<Rightarrow> secret_error + gval" where
  "Materialize now sr v =
     bindE (Transform (materialize_ref now sr) v ()) (\<lambda>(w, _).
     case w of Omit \<Rightarrow> Inl NeedsObjectField | Val w \<Rightarrow> Inr w)"

text \<open>With the environment variables that null fallbacks leave unset.\<close>

definition MaterializeInputWithUnsetEnv :: "int \<Rightarrow> (session \<times> redactor) option \<Rightarrow> gotype option \<Rightarrow> gval \<Rightarrow>
    secret_error + gval \<times> string list" where
  "MaterializeInputWithUnsetEnv now sr t v =
     bindE (transformInput t v [] True (\<lambda>mode k unset. if mode = ''env'' then unset @ [k] else unset)
              (materialize_ref now sr) []) (\<lambda>(w, unset).
     case w of Omit \<Rightarrow> Inl NeedsObjectField | Val w \<Rightarrow> Inr (w, unset))"

definition MaterializeInput :: "int \<Rightarrow> (session \<times> redactor) option \<Rightarrow> gotype option \<Rightarrow> gval \<Rightarrow> secret_error + gval" where
  "MaterializeInput now sr t v = map_sum id fst (MaterializeInputWithUnsetEnv now sr t v)"

section \<open>Every stored value is masked\<close>

definition hidden :: "session \<times> redactor \<Rightarrow> bool" where
  "hidden sr = (\<forall>v \<in> ran (vals (fst sr)). sv_value v \<in> set (masks (snd sr)))"

text \<open>What an operation of one session may do to the redactor it shares.\<close>

definition grows :: "redactor \<Rightarrow> redactor \<Rightarrow> bool" where
  "grows r r' = (set (masks r) \<subseteq> set (masks r') \<and> sessions r' = sessions r)"

lemma grows_refl [simp]: "grows r r"
  by (simp add: grows_def)

lemma grows_trans: "grows r r' \<Longrightarrow> grows r' r'' \<Longrightarrow> grows r r''"
  unfolding grows_def by (metis subset_trans)

lemma grows_Close [simp]: "sessions r > 0 \<Longrightarrow> grows r (redactor_Close r)"
  by (simp add: grows_def redactor_Close_def clearClosed_def)

lemma hidden_grows: "hidden (s, r) \<Longrightarrow> grows r r' \<Longrightarrow> hidden (s, r')"
  by (auto simp: hidden_def grows_def)

lemma hidden_clear [simp]: "hidden (clear_values sr)"
  by (simp add: hidden_def clear_values_def split: prod.split)

lemma store_batch_result:
  "\<not> r_closed r \<Longrightarrow> store_batch m ns (s, r) = ((s', r'), res) \<Longrightarrow>
     res = Inr () \<and> r_closed r' = r_closed r \<and> released s' = released s \<and> owns s' = owns s \<and>
     s_closed s' = s_closed s \<and> grows r r' \<and> (hidden (s, r) \<longrightarrow> hidden (s', r')) \<and>
     (\<forall>n. vals s' n = (if n \<in> set ns \<and> m n \<noteq> None then m n else vals s n))"
proof (induction m ns "(s, r)" arbitrary: s r rule: store_batch.induct)
  case (1 m s r)
  then show ?case by simp
next
  case (2 m n ns s r)
  show ?case
  proof (cases "m n")
    case None
    with 2(1,3,4) show ?thesis by auto
  next
    case (Some v)
    let ?r = "r\<lparr>masks := List.insert (sv_value v) (masks r)\<rparr>"
    let ?s = "s\<lparr>vals := (vals s)(n \<mapsto> v)\<rparr>"
    have add: "redactor_add (sv_value v) r = Inr ?r"
      using 2(3) by (simp add: redactor_add_def)
    from Some add 2(4) have rest: "store_batch m ns (?s, ?r) = ((s', r'), res)" by simp
    from 2(2) [OF Some add _ rest] 2(3) have IH: "res = Inr () \<and> r_closed r' = r_closed ?r \<and>
        released s' = released ?s \<and> owns s' = owns ?s \<and> s_closed s' = s_closed ?s \<and> grows ?r r' \<and>
        (hidden (?s, ?r) \<longrightarrow> hidden (s', r')) \<and>
        (\<forall>n'. vals s' n' = (if n' \<in> set ns \<and> m n' \<noteq> None then m n' else vals ?s n'))" by simp
    have "grows r ?r" by (auto simp: grows_def)
    moreover have "hidden (s, r) \<longrightarrow> hidden (?s, ?r)"
      by (auto simp: hidden_def ran_def)
    ultimately show ?thesis using IH Some grows_trans by auto
  qed
qed

lemma load_batches_result:
  "sessions r > 0 \<Longrightarrow> load_batches f ns (s, r) = ((s', r'), res) \<Longrightarrow>
     released s' = released s \<and> owns s' = owns s \<and> grows r r' \<and> (hidden (s, r) \<longrightarrow> hidden (s', r'))"
proof (induction f ns "(s, r)" arbitrary: s r rule: load_batches.induct)
  case (1 f ns s r)
  show ?case
  proof (cases "ns = []")
    case True
    with 1(3) show ?thesis by (simp add: load_batches.simps)
  next
    case False
    define a where "a = f (take 64 ns)"
    define q where "q = (if closed_meanwhile a then redactor_Close r else r)"
    from 1(2) have q: "grows r q" by (simp add: q_def)
    show ?thesis
    proof (cases "\<exists>m. secrets_of a = Inr m \<and> \<not> r_closed q \<and> \<not> cancelled a")
      case True
      then obtain m where m: "secrets_of a = Inr m" "\<not> r_closed q" "\<not> cancelled a" by blast
      obtain s1 r1 res1 where st: "store_batch m (take 64 ns) (s, q) = ((s1, r1), res1)"
        by (metis surj_pair)
      from store_batch_result [OF m(2) this] have keep: "res1 = Inr ()" "released s1 = released s"
        "owns s1 = owns s" "grows q r1" "hidden (s, q) \<longrightarrow> hidden (s1, r1)" by simp_all
      from 1(3) False m st keep have "load_batches f (drop 64 ns) (s1, r1) = ((s', r'), res)"
        by (simp add: load_batches.simps [of f ns] Let_def a_def [symmetric] q_def [symmetric])
      moreover from q keep 1(2) have "0 < sessions r1" by (simp add: grows_def)
      ultimately have "released s' = released s1 \<and> owns s' = owns s1 \<and> grows r1 r' \<and>
          (hidden (s1, r1) \<longrightarrow> hidden (s', r'))"
        using 1(1) [OF False refl a_def q_def m] st keep by simp
      with keep q show ?thesis by (metis grows_trans hidden_grows)
    next
      case no: False
      have "s' = s \<or> s' = s\<lparr>s_closed := True\<rparr>" "r' = q"
        using 1(3) False no
        by (auto simp: load_batches.simps [of f ns] Let_def a_def [symmetric] q_def [symmetric]
            split: sum.splits resolve_error.splits if_splits)
      with q show ?thesis by (auto simp: hidden_def grows_def)
    qed
  qed
qed

text \<open>What a successful load leaves.\<close>

lemma load_batches_ok:
  "\<not> r_closed r \<Longrightarrow> load_batches f ns (s, r) = ((s', r'), Inr u) \<Longrightarrow>
     \<not> r_closed r' \<and> s_closed s' = s_closed s \<and> dom (vals s') \<subseteq> dom (vals s) \<union> set ns"
proof (induction f ns "(s, r)" arbitrary: s r rule: load_batches.induct)
  case (1 f ns s r)
  show ?case
  proof (cases "ns = []")
    case True
    with 1(2,3) show ?thesis by (simp add: load_batches.simps)
  next
    case False
    define a where "a = f (take 64 ns)"
    define q where "q = (if closed_meanwhile a then redactor_Close r else r)"
    from 1(3) False obtain m where m: "secrets_of a = Inr m" "\<not> r_closed q" "\<not> cancelled a"
      by (auto simp: load_batches.simps [of f ns] Let_def a_def [symmetric] q_def [symmetric]
          split: sum.splits resolve_error.splits if_splits)
    obtain s1 r1 res1 where st: "store_batch m (take 64 ns) (s, q) = ((s1, r1), res1)"
      by (metis surj_pair)
    from store_batch_result [OF m(2) this] m(2) have keep: "res1 = Inr ()" "\<not> r_closed r1"
      "s_closed s1 = s_closed s"
      and vals: "\<forall>n. vals s1 n = (if n \<in> set (take 64 ns) \<and> m n \<noteq> None then m n else vals s n)"
      by simp_all
    from vals have dom: "dom (vals s1) \<subseteq> dom (vals s) \<union> set ns"
      by (auto split: if_splits dest: in_set_takeD)
    from 1(3) False m st keep have "load_batches f (drop 64 ns) (s1, r1) = ((s', r'), Inr u)"
      by (simp add: load_batches.simps [of f ns] Let_def a_def [symmetric] q_def [symmetric])
    with 1(1) [OF False refl a_def q_def m] st keep
    have "\<not> r_closed r' \<and> s_closed s' = s_closed s1 \<and> dom (vals s') \<subseteq> dom (vals s1) \<union> set (drop 64 ns)"
      by simp
    with keep dom set_drop_subset [of 64 ns] show ?thesis by blast
  qed
qed

lemma set_needed_names: "set (needed_names refs) = sr_name ` set refs - {[]}"
  by (auto simp: needed_names_def)

lemma set_required_names: "set (required_names refs) = sr_name ` {r \<in> set refs. strict_ref r}"
  by (auto simp: required_names_def)

lemma ready_iff: "ready now m ns \<longleftrightarrow> (\<forall>n \<in> set ns. \<exists>v. m n = Some v \<and> \<not> expired now v)"
  by (auto simp: ready_def list_all_iff split: option.splits)

lemma clear_values_simps [simp]: "vals (fst (clear_values sr)) = Map.empty"
  "released (fst (clear_values sr)) = released (fst sr)" "owns (fst (clear_values sr)) = owns (fst sr)"
  "s_closed (fst (clear_values sr)) = s_closed (fst sr)" "snd (clear_values sr) = snd sr"
  by (simp_all add: clear_values_def split: prod.split)

lemma Prepare_error: "PrepareReferences now d refs f sr = (sr', Inl e) \<Longrightarrow> vals (fst sr') = Map.empty"
  by (auto simp: PrepareReferences_def Let_def split: if_splits option.splits prod.splits sum.splits)

lemma Prepare_success:
  assumes "PrepareReferences now d refs f sr = ((s', r'), Inr u)"
  shows "\<not> s_closed s' \<and> \<not> r_closed r' \<and> ready now (vals s') (required_names refs) \<and>
    dom (vals s') \<subseteq> set (needed_names refs)"
proof (cases "needed_names refs = []")
  case True
  with assms show ?thesis
    by (auto simp: PrepareReferences_def Let_def clear_values_def split: if_splits prod.splits)
next
  case False
  obtain s r where sr: "clear_values sr = (s, r)" and s: "vals s = Map.empty"
    by (metis clear_values_simps(1) fst_conv surj_pair)
  from assms False sr obtain g where "f = Some g" and open': "\<not> s_closed s" "\<not> r_closed r"
    and load: "load_batches g (needed_names refs) (s, r) = ((s', r'), Inr ())"
    and "ready now (vals s') (required_names refs)"
    by (auto simp: PrepareReferences_def Let_def split: if_splits option.splits prod.splits sum.splits)
  with load_batches_ok [OF open'(2) load] s show ?thesis by simp
qed

text \<open>C29. Preparation is all or nothing. When it fails, whatever the reason and however many batches
  had been answered, the session keeps no value. When it succeeds, neither the session nor its
  redactor is closed, every reference without a fallback has an unexpired value, and no value was
  kept for a name that was not asked for.\<close>

theorem Prepare_all_or_nothing:
  "case PrepareReferences now ctx_done refs resolve sr of
     ((s', r'), Inl e) \<Rightarrow> vals s' = Map.empty
   | ((s', r'), Inr _) \<Rightarrow> \<not> s_closed s' \<and> \<not> r_closed r' \<and>
       sr_name ` {r \<in> set refs. strict_ref r} \<subseteq> {n. \<exists>v. vals s' n = Some v \<and> \<not> expired now v} \<and>
       dom (vals s') \<subseteq> sr_name ` set refs - {[]}"
proof -
  obtain s' r' res where P: "PrepareReferences now ctx_done refs resolve sr = ((s', r'), res)"
    by (metis surj_pair)
  show ?thesis
  proof (cases res)
    case (Inl e)
    with P Prepare_error [of now ctx_done refs resolve sr] show ?thesis by fastforce
  next
    case (Inr u)
    with P Prepare_success [of now ctx_done refs resolve sr s' r' u] show ?thesis
      by (auto simp: ready_iff set_required_names set_needed_names)
  qed
qed

section \<open>Prepared inputs materialize\<close>

lemma refs_at_checked: "r \<in> set (refs_at Parse stop t mode v) \<Longrightarrow> check_ref r = Inr r"
  by (drule refs_at_origin) (auto dest: Parse_checked)

lemma materialize_accepts:
  assumes "\<not> s_closed s" "\<not> r_closed r" "check_ref ref = Inr ref"
    and "strict_ref ref \<Longrightarrow> \<exists>v. vals s (sr_name ref) = Some v \<and> \<not> expired now v"
  shows "accepts (materialize_ref now (Some (s, r))) ref"
proof -
  have "\<exists>w. materializeReference now (Some (s, r)) ref = Inr w"
    using assms
    by (cases "vals s (sr_name ref)"; cases "sr_default ref"; cases "sr_name ref")
      (auto simp: materializeReference_def strict_ref_def check_ref_def split: if_splits)
  then show ?thesis by (auto simp: accepts_def materialize_ref_def)
qed

lemma materialize_clean: "secret_format.yields_clean (materialize_ref now sr) stop"
proof -
  have "\<exists>t. w = GStr t" if "materializeReference now sr ref = Inr (Val w)" for ref w
    using that by (auto simp: materializeReference_def split: list.splits option.splits prod.splits if_splits)
  then show ?thesis
    by (fastforce simp: secret_format.yields_clean_def materialize_ref_def map_sum_def split: sum.splits)
qed

text \<open>What a task's schema makes it ask for is enough to run it. When the references
  \<open>InvocationReferences\<close> lists for an input were prepared, materializing that input fails only
  where a null fallback stands where it cannot be left out; otherwise no reference is left in
  it outside the fields that are forwarded or kept as a schema.\<close>

theorem prepared_input_materializes:
  assumes refs: "InvocationReferences t v = Inr refs"
    and prep: "PrepareReferences now ctx_done refs resolve sr = (sr', Inr u)"
  shows "case MaterializeInput now (Some sr') t v of
      Inl e \<Rightarrow> e = ArrayOmission \<or> e = NeedsObjectField
    | Inr w \<Rightarrow> \<not> exposed Parse (keeps_refs True) t [] w"
proof -
  obtain s r where sr': "sr' = (s, r)" by (cases sr')
  note ok = Prepare_success [OF prep [unfolded sr']]
  from refs have wf: "\<not> malformed Parse v" and rs: "refs = refs_at Parse (keeps_refs False) t [] v"
    by (simp_all add: InvocationReferences_ok)
  let ?f = "materialize_ref now (Some (s, r)) :: secret_ref \<Rightarrow> string list \<Rightarrow> _"
  have acc: "\<forall>q \<in> set (refs_at Parse (keeps_refs True) t [] v). accepts ?f q"
  proof
    fix q assume q: "q \<in> set (refs_at Parse (keeps_refs True) t [] v)"
    with refs_at_mono [of "keeps_refs False" "keeps_refs True" Parse t "[]" v] rs
    have "q \<in> set refs" by (auto simp: keeps_refs_def)
    with ok refs_at_checked [OF q] show "accepts ?f q"
      by (intro materialize_accepts) (auto simp: ready_iff set_required_names)
  qed
  let ?walk = "transformInput t v [] True (\<lambda>mode k unset. if mode = ''env'' then unset @ [k] else unset) ?f []"
  show ?thesis
  proof (cases ?walk)
    case (Inl e)
    with walk_succeeds(1) [OF keeps_forward_value wf acc] have "e = ArrayOmission"
      unfolding transformInput_def by blast
    with Inl sr' show ?thesis by (simp add: MaterializeInput_def MaterializeInputWithUnsetEnv_def)
  next
    case (Inr x)
    obtain w unset where x: "x = (w, unset)" by (cases x)
    show ?thesis
    proof (cases w)
      case Omit
      with Inr sr' x show ?thesis by (simp add: MaterializeInput_def MaterializeInputWithUnsetEnv_def)
    next
      case (Val y)
      from Inr x Val have "\<not> exposed Parse (keeps_refs True) t [] y"
        unfolding transformInput_def by (intro secret_format.walk_result(1) [OF refl materialize_clean]) simp
      with Inr sr' x Val show ?thesis
        by (simp add: MaterializeInput_def MaterializeInputWithUnsetEnv_def)
    qed
  qed
qed

definition ex_input :: gval where
  "ex_input = GMap [(''env'', GMap [(''TOKEN'', secret_value (named_secret ''A'')),
     (''EXTRA'', secret_value (named_secret ''B''\<lparr>sr_omit := True\<rparr>))])]"

definition ex_resolve :: "string list \<Rightarrow> answer" where
  "ex_resolve ns = \<lparr>secrets_of = Inr [''A'' \<mapsto> \<lparr>sv_value = ''x'', sv_expires = None\<rparr>],
     cancelled = False, closed_meanwhile = False\<rparr>"

definition ex_refs :: "secret_ref list" where
  "ex_refs = projr (InvocationReferences None ex_input)"

definition ex_session :: "session \<times> redactor" where
  "ex_session = fst (PrepareReferences 0 False ex_refs (Some ex_resolve) NewSession)"

theorem prepared_input_materializes_witness:
  "InvocationReferences None ex_input = Inr ex_refs \<and>
   PrepareReferences 0 False ex_refs (Some ex_resolve) NewSession = (ex_session, Inr ()) \<and>
   (case MaterializeInput 0 (Some ex_session) None ex_input of
      Inl e \<Rightarrow> e = ArrayOmission \<or> e = NeedsObjectField
    | Inr w \<Rightarrow> \<not> exposed Parse (keeps_refs True) None [] w) \<and>
   MaterializeInput 0 (Some ex_session) None ex_input = Inr (GMap [(''env'', GMap [(''TOKEN'', GStr ''x'')])])"
proof -
  have 1: "InvocationReferences None ex_input = Inr ex_refs"
    unfolding ex_refs_def by code_simp
  have "snd (PrepareReferences 0 False ex_refs (Some ex_resolve) NewSession) = Inr ()"
    by code_simp
  then have 2: "PrepareReferences 0 False ex_refs (Some ex_resolve) NewSession = (ex_session, Inr ())"
    by (simp add: ex_session_def prod_eq_iff)
  have 3: "MaterializeInput 0 (Some ex_session) None ex_input = Inr (GMap [(''env'', GMap [(''TOKEN'', GStr ''x'')])])"
    by code_simp
  from prepared_input_materializes [OF 1 2] 1 2 3 show ?thesis by blast
qed

end
