(* ===== verification/Secret_Redactor.thy ===== *)
theory Secret_Redactor
  imports Secret_Session
begin

text \<open>
  A redactor with the sessions that share it, over any sequence of operations, and
  \<^verbatim>\<open>RedactParts\<close>, the masking of captured output.
\<close>

section \<open>A redactor and its sessions\<close>


























section \<open>Masking captured output\<close>

text \<open>One flag per byte of the joined text.\<close>

definition mark :: "nat \<Rightarrow> nat \<Rightarrow> bool list \<Rightarrow> bool list" where
  "mark i n m = map (\<lambda>(j, b). b \<or> (i \<le> j \<and> j < i + n)) (enumerate 0 m)"

text \<open>Every occurrence from an offset on, overlapping ones too.\<close>

function mark_all :: "string \<Rightarrow> string \<Rightarrow> nat \<Rightarrow> bool list \<Rightarrow> bool list" where
  "mark_all tx v off m =
     (if off < length tx
      then case go_index (drop off tx) v of
             None \<Rightarrow> m
           | Some k \<Rightarrow> mark_all tx v (off + k + 1) (mark (off + k) (length v) m)
      else m)"
  by pat_completeness auto
termination by (relation "measure (\<lambda>(tx, v, off, m). length tx - off)") auto

declare mark_all.simps [simp del]

text \<open>The longest suffix of the text, of at most \<open>n\<close> bytes, that begins a secret.\<close>

fun mark_tail :: "string \<Rightarrow> string \<Rightarrow> nat \<Rightarrow> bool list \<Rightarrow> bool list" where
  "mark_tail tx v 0 m = m"
| "mark_tail tx v (Suc n) m =
     (if has_suffix tx (take (Suc n) v) then mark (length tx - Suc n) (Suc n) m
      else mark_tail tx v n m)"

definition mark_form :: "bool \<Rightarrow> string \<Rightarrow> string \<Rightarrow> bool list \<Rightarrow> bool list" where
  "mark_form incomplete tx v m =
     (let m = mark_all tx v 0 m
      in if incomplete then mark_tail tx v (min (length v - 1) (length tx)) m else m)"

definition forms_of :: "(string \<Rightarrow> string \<times> string) \<Rightarrow> string \<Rightarrow> string list" where
  "forms_of spell v = (if v = [] then [] else [v, fst (spell v), snd (spell v)])"

fun render :: "(nat \<Rightarrow> bool) \<Rightarrow> nat \<Rightarrow> string \<Rightarrow> string" where
  "render hide off [] = []"
| "render hide off (c # cs) =
     (if hide off then (if off = 0 \<or> \<not> hide (off - 1) then ''[REDACTED]'' else []) else [c]) @
     render hide (Suc off) cs"

fun render_parts :: "(nat \<Rightarrow> bool) \<Rightarrow> nat \<Rightarrow> string list \<Rightarrow> string list" where
  "render_parts hide off [] = []"
| "render_parts hide off (p # ps) = render hide off p # render_parts hide (off + length p) ps"

definition all_masks :: "redactor option list \<Rightarrow> string list" where
  "all_masks rs = remdups (concat (map (\<lambda>r. case r of None \<Rightarrow> [] | Some q \<Rightarrow> masks q) rs))"

definition RedactParts :: "(string \<Rightarrow> string \<times> string) \<Rightarrow> redactor option list \<Rightarrow> bool \<Rightarrow> string list \<Rightarrow> string list" where
  "RedactParts spell rs incomplete parts =
     (let values = all_masks rs; tx = concat parts in
      if values = [] then parts
      else render_parts
        ((!) (fold (\<lambda>v m. fold (mark_form incomplete tx) (forms_of spell v) m) values (replicate (length tx) False)))
        0 parts)"

text \<open>What must be hidden: the bytes of every occurrence of a form, and of a tail that begins one.\<close>

definition occurs_at :: "string \<Rightarrow> string \<Rightarrow> nat \<Rightarrow> bool" where
  "occurs_at tx v i = (i < length tx \<and> prefix v (drop i tx))"

definition covered :: "bool \<Rightarrow> string \<Rightarrow> string \<Rightarrow> nat \<Rightarrow> bool" where
  "covered incomplete tx v j =
     ((\<exists>i \<le> j. j < i + length v \<and> occurs_at tx v i) \<or>
      (incomplete \<and> (\<exists>n < length v. 0 < n \<and> n \<le> length tx \<and> length tx - n \<le> j \<and> suffix (take n v) tx)))"

lemma length_mark [simp]: "length (mark i n m) = length m"
  by (simp add: mark_def)

lemma nth_mark: "j < length m \<Longrightarrow> mark i n m ! j \<longleftrightarrow> m ! j \<or> (i \<le> j \<and> j < i + n)"
  by (simp add: mark_def nth_enumerate_eq)

lemma length_mark_all [simp]: "length (mark_all tx v off m) = length m"
proof (induction tx v off m rule: mark_all.induct)
  case (1 tx v off m)
  then show ?case by (simp add: mark_all.simps [of tx v off] split: option.split)
qed

lemma length_mark_tail [simp]: "length (mark_tail tx v n m) = length m"
  by (induction tx v n m rule: mark_tail.induct) auto

lemma length_mark_form [simp]: "length (mark_form incomplete tx v m) = length m"
  by (simp add: mark_form_def Let_def)

lemma nth_mark_all:
  "j < length m \<Longrightarrow> mark_all tx v off m ! j \<longleftrightarrow>
     m ! j \<or> (\<exists>i. off \<le> i \<and> i \<le> j \<and> j < i + length v \<and> occurs_at tx v i)"
proof (induction tx v off m rule: mark_all.induct)
  case (1 tx v off m)
  show ?case
  proof (cases "off < length tx")
    case False
    then show ?thesis by (auto simp: mark_all.simps [of tx v off] occurs_at_def)
  next
    case True
    show ?thesis
    proof (cases "go_index (drop off tx) v")
      case None
      have "\<not> occurs_at tx v i" if "off \<le> i" for i
      proof
        assume "occurs_at tx v i"
        then obtain b where "drop i tx = v @ b" by (auto simp: occurs_at_def prefix_def)
        then have "drop off tx = take (i - off) (drop off tx) @ v @ b"
          using that by (metis append_take_drop_id drop_drop le_add_diff_inverse2)
        from go_index_least [OF this] None show False by simp
      qed
      with True None show ?thesis by (auto simp: mark_all.simps [of tx v off])
    next
      case (Some k)
      from go_index_Some [OF Some] obtain a b where ab: "drop off tx = a @ v @ b" "length a = k" by blast
      have first: "off + k \<le> i" if "occurs_at tx v i" "off \<le> i" for i
      proof (rule ccontr)
        assume "\<not> off + k \<le> i"
        from that obtain b where "drop i tx = v @ b" by (auto simp: occurs_at_def prefix_def)
        then have "drop off tx = take (i - off) (drop off tx) @ v @ b"
          using that by (metis append_take_drop_id drop_drop le_add_diff_inverse2)
        from go_index_least [OF this] Some \<open>\<not> off + k \<le> i\<close> that(2) show False by auto
      qed
      have here: "drop (off + k) tx = v @ b"
        using ab by (metis add.commute append_eq_conv_conj drop_drop)
      have "occurs_at tx v (off + k) \<or> v = []"
      proof (cases v)
        case (Cons c v')
        with here have "off + k < length tx" by (metis drop_eq_Nil leI append_is_Nil_conv list.distinct(1))
        with here show ?thesis by (simp add: occurs_at_def)
      qed simp
      then have split: "(\<exists>i. off \<le> i \<and> i \<le> j \<and> j < i + length v \<and> occurs_at tx v i) \<longleftrightarrow>
          (off + k \<le> j \<and> j < off + k + length v) \<or>
          (\<exists>i. off + k + 1 \<le> i \<and> i \<le> j \<and> j < i + length v \<and> occurs_at tx v i)" (is "?L \<longleftrightarrow> ?H \<or> ?R")
      proof (intro iffI)
        assume ?L
        then obtain i where i: "off \<le> i" "i \<le> j" "j < i + length v" "occurs_at tx v i" by blast
        with first [OF i(4,1)] show "?H \<or> ?R" by (cases "i = off + k") auto
      next
        assume "?H \<or> ?R"
        then show ?L
        proof
          assume h: ?H
          with \<open>occurs_at tx v (off + k) \<or> v = []\<close> have "occurs_at tx v (off + k)" by auto
          with h show ?L by (intro exI [of _ "off + k"]) simp
        next
          assume ?R
          then obtain i where "off + k + 1 \<le> i" "i \<le> j" "j < i + length v" "occurs_at tx v i" by blast
          then show ?L by (intro exI [of _ i]) simp
        qed
      qed
      from 1(1) [OF True Some] 1(2) True Some have
        "mark_all tx v off m ! j \<longleftrightarrow> mark (off + k) (length v) m ! j \<or>
          (\<exists>i. off + k + 1 \<le> i \<and> i \<le> j \<and> j < i + length v \<and> occurs_at tx v i)"
        by (simp add: mark_all.simps [of tx v off m])
      with 1(2) show ?thesis unfolding split by (simp add: nth_mark disj_assoc)
    qed
  qed
qed

lemma nth_mark_tail:
  assumes "j < length m" "length m = length tx" "n \<le> length tx"
  shows "mark_tail tx v n m ! j \<longleftrightarrow>
     m ! j \<or> (\<exists>k. 0 < k \<and> k \<le> n \<and> length tx - k \<le> j \<and> suffix (take k v) tx)"
  using assms
proof (induction n)
  case (Suc n)
  show ?case
  proof (cases "suffix (take (Suc n) v) tx")
    case True
    have "mark_tail tx v (Suc n) m ! j \<longleftrightarrow> m ! j \<or> length tx - Suc n \<le> j"
      using True Suc.prems by (auto simp: has_suffix_def nth_mark)
    moreover have "length tx - Suc n \<le> j \<longleftrightarrow>
        (\<exists>k. 0 < k \<and> k \<le> Suc n \<and> length tx - k \<le> j \<and> suffix (take k v) tx)"
      using True by (auto intro!: exI [of _ "Suc n"])
    ultimately show ?thesis by blast
  next
    case False
    with Suc.IH Suc.prems have "mark_tail tx v (Suc n) m ! j \<longleftrightarrow>
        m ! j \<or> (\<exists>k. 0 < k \<and> k \<le> n \<and> length tx - k \<le> j \<and> suffix (take k v) tx)"
      by (simp add: has_suffix_def)
    with False show ?thesis by (metis le_Suc_eq)
  qed
qed simp

lemma nth_mark_form:
  assumes "j < length m" "length m = length tx"
  shows "mark_form incomplete tx v m ! j \<longleftrightarrow> m ! j \<or> covered incomplete tx v j"
proof -
  have "(\<exists>k. 0 < k \<and> k \<le> min (length v - 1) (length tx) \<and> length tx - k \<le> j \<and> suffix (take k v) tx) \<longleftrightarrow>
      (\<exists>n < length v. 0 < n \<and> n \<le> length tx \<and> length tx - n \<le> j \<and> suffix (take n v) tx)"
    by (cases v) (auto simp: less_Suc_eq_le)
  with assms show ?thesis
    by (auto simp: mark_form_def Let_def nth_mark_tail nth_mark_all covered_def)
qed

lemma fold_mark_form:
  assumes "j < length m" "length m = length tx"
  shows "length (fold (mark_form incomplete tx) fs m) = length m"
    and "fold (mark_form incomplete tx) fs m ! j \<longleftrightarrow> m ! j \<or> (\<exists>f \<in> set fs. covered incomplete tx f j)"
  using assms by (induction fs arbitrary: m) (auto simp: nth_mark_form)

lemma fold_mark_values:
  assumes "j < length m" "length m = length tx"
  shows "length (fold (\<lambda>v m. fold (mark_form incomplete tx) (forms v) m) vs m) = length m"
    and "fold (\<lambda>v m. fold (mark_form incomplete tx) (forms v) m) vs m ! j \<longleftrightarrow>
      m ! j \<or> (\<exists>v \<in> set vs. \<exists>f \<in> set (forms v). covered incomplete tx f j)"
  using assms by (induction vs arbitrary: m) (auto simp: fold_mark_form)

lemma render_cong:
  "(\<And>j. j < off + length s \<Longrightarrow> h j = h' j) \<Longrightarrow> render h off s = render h' off s"
  by (induction h off s rule: render.induct) auto

lemma render_parts_cong:
  "(\<And>j. j < off + length (concat ps) \<Longrightarrow> h j = h' j) \<Longrightarrow> render_parts h off ps = render_parts h' off ps"
proof (induction h off ps rule: render_parts.induct)
  case (2 h off p ps)
  from 2(2) render_cong [of off p h h'] 2(1) show ?case by simp
qed simp

lemma render_nothing: "render (\<lambda>_. False) off s = s"
  by (induction s arbitrary: off) auto

lemma render_parts_nothing: "render_parts (\<lambda>_. False) off ps = ps"
  by (induction ps arbitrary: off) (auto simp: render_nothing)

text \<open>C32. Masking captured output hides exactly what it must: a byte of the joined parts is dropped
  just when it is covered by an occurrence, overlapping others or spanning parts or not, of some
  spelling of some mask, or, at a capture limit, by a tail that begins one; each run of hidden bytes
  leaves one marker, and the number of parts never changes.\<close>

theorem RedactParts_exact:
  "RedactParts spell rs incomplete parts =
     render_parts (\<lambda>j. \<exists>v \<in> set (all_masks rs). \<exists>f \<in> set (forms_of spell v). covered incomplete (concat parts) f j)
       0 parts"
proof (cases "all_masks rs = []")
  case True
  then show ?thesis by (simp add: RedactParts_def render_parts_nothing)
next
  case False
  show ?thesis
    unfolding RedactParts_def Let_def if_not_P [OF False]
    by (rule render_parts_cong) (simp add: fold_mark_values)
qed

end
