(* ===== verification/Git_Scope.thy ===== *)
theory Git_Scope
  imports Git_Profile Secret_Session "HOL-Library.Word"
begin

text \<open>
  \<^verbatim>\<open>pkg/gitprofile/scope.go\<close>: the execution-scoped resolver that subprocesses ask for
  configuration, secrets and Git credentials. A request takes the lock twice: \<open>serve_begin\<close>
  captures the authorization and the 64-bit generation, \<open>serve_work\<close> resolves without the lock,
  and \<open>serve_finish\<close> fences the reply. Between them, any sequence of other events may happen.
  The HTTP transport and the configuration files are not modelled; whether writing the active
  configuration file succeeds is the argument \<open>io_ok\<close>.
\<close>

section \<open>State and requests\<close>

record scope =
  sc_name :: string
  sc_profile :: profile
  sc_snapshot :: snapshot
  sc_selection :: selection
  sc_has_resolver :: bool
  sc_active :: bool
  sc_cleared :: bool
  sc_generation :: "64 word"
  sc_additional :: "string list"
  sc_done :: bool
  sc_once :: bool
  sc_redactor :: redactor
  sc_owns :: bool

record scope_request =
  rq_op :: string
  rq_name :: string
  rq_protocol :: string
  rq_host :: string
  rq_path :: string
  rq_user :: string

record response =
  rs_value :: "gval option option"
  rs_secret :: "secret_val option"
  rs_username :: string
  rs_error :: string

definition no_response :: response where
  "no_response = \<lparr>rs_value = None, rs_secret = None, rs_username = [], rs_error = []\<rparr>"

definition error_response :: "string \<Rightarrow> response" where
  "error_response e = no_response\<lparr>rs_error := e\<rparr>"

text \<open>What a request captured under the lock.\<close>

record ticket =
  tk_req :: scope_request
  tk_generation :: "64 word"
  tk_active :: bool
  tk_additional :: bool

datatype begun = NoReply | Replied response | Pending ticket

section \<open>Limits and construction\<close>

definition secret_limit :: "string list option \<Rightarrow> string list \<Rightarrow> string list" where
  "secret_limit outer names = (case outer of None \<Rightarrow> names | Some old \<Rightarrow> filter (\<lambda>n. n \<in> set old) names)"

text \<open>\<open>None\<close> stands for the permission error of a limited resolver.\<close>

definition limited :: "string list option \<Rightarrow> (string list \<Rightarrow> 'a) \<Rightarrow> string list \<Rightarrow> 'a option" where
  "limited limit resolve names = (case limit of
     Some l \<Rightarrow> if list_all (\<lambda>n. n \<in> set l) names then Some (resolve names) else None
   | None \<Rightarrow> Some (resolve names))"

definition setActive :: "bool \<Rightarrow> bool \<Rightarrow> scope \<Rightarrow> scope option" where
  "setActive io_ok a s =
     (if io_ok then Some (s\<lparr>sc_active := a, sc_generation := sc_generation s + 1\<rparr>) else None)"

definition no_profile :: profile where
  "no_profile = \<lparr>pr_version = 0, pr_entries = []\<rparr>"

text \<open>\<open>inherited\<close>: the redactor of the context, if it has one.\<close>

definition NewScope :: "git_lib \<Rightarrow> (gval option \<Rightarrow> profile option) \<Rightarrow> selection \<Rightarrow> snapshot \<Rightarrow> bool \<Rightarrow>
    redactor option \<Rightarrow> profile_error + scope" where
  "NewScope L dec sel sn has_resolver inherited =
     bindE (Selection_Resolve sel sn) (\<lambda>name.
     bindE (if name = [] then Inr no_profile else profile_Load L dec sn name) (\<lambda>p.
     Inr \<lparr>sc_name = name, sc_profile = p, sc_snapshot = sn, sc_selection = sel, sc_has_resolver = has_resolver,
          sc_active = (name \<noteq> []), sc_cleared = False, sc_generation = 1, sc_additional = [],
          sc_done = False, sc_once = False,
          sc_redactor = (case inherited of None \<Rightarrow> NewRedactor | Some r \<Rightarrow> r),
          sc_owns = (inherited = None)\<rparr>))"

definition scope_Close :: "scope \<Rightarrow> scope" where
  "scope_Close s =
     (if sc_once s then s
      else let s = s\<lparr>sc_once := True, sc_done := True, sc_active := False, sc_generation := sc_generation s + 1\<rparr>
           in if sc_owns s then s\<lparr>sc_redactor := redactor_Close (sc_redactor s)\<rparr> else s)"

definition AllowSecrets :: "string list \<Rightarrow> scope \<Rightarrow> scope" where
  "AllowSecrets names s = s\<lparr>sc_additional := add_unseen (sc_additional s) names\<rparr>"

definition no_selection :: selection where
  "no_selection = \<lparr>sl_Explicit = False, sl_Value = GNil, sl_Publish = False\<rparr>"

definition InheritedSelection :: "scope option \<Rightarrow> selection" where
  "InheritedSelection s = (case s of
     None \<Rightarrow> no_selection
   | Some s \<Rightarrow> if sc_cleared s then no_selection\<lparr>sl_Explicit := True\<rparr> else sc_selection s)"

section \<open>Serving a request\<close>

definition serve_begin :: "bool \<Rightarrow> scope_request \<Rightarrow> scope \<Rightarrow> scope \<times> begun" where
  "serve_begin io_ok req s =
     (if sc_done s then (s, NoReply)
      else if rq_op req = ''clear'' \<or> rq_op req = ''activate'' then
        if rq_op req = ''activate'' \<and> (rq_name req \<noteq> sc_name s \<or> sc_name s = [])
        then (s, Replied (error_response ''profile transition failed or is unauthorized''))
        else (case setActive io_ok (rq_op req = ''activate'') s of
                None \<Rightarrow> (s, Replied (error_response ''profile transition failed or is unauthorized''))
              | Some s' \<Rightarrow> (s'\<lparr>sc_cleared := (rq_op req = ''clear'')\<rparr>, Replied no_response))
      else (s, Pending \<lparr>tk_req = req, tk_generation = sc_generation s, tk_active = sc_active s,
                        tk_additional = rq_name req \<in> set (sc_additional s)\<rparr>))"

definition profile_refs :: "profile \<Rightarrow> string list" where
  "profile_refs p = filter (\<lambda>r. r \<noteq> []) (map ge_ref (pr_entries p))"

text \<open>The secret a request is about, and the response so far.\<close>

definition requested_secret :: "git_lib \<Rightarrow> profile \<Rightarrow> scope_request \<Rightarrow> string \<times> response" where
  "requested_secret L p req =
     (if rq_op req = ''credential'' then
        (case profile_Match L p (rq_protocol req) (rq_host req) (rq_path req) (rq_user req) of
           Inl _ \<Rightarrow> (rq_name req, error_response ''credential destination is not allowed'')
         | Inr e \<Rightarrow> (ge_ref e, no_response\<lparr>rs_username := ge_user e\<rparr>))
      else (rq_name req, no_response))"

definition authorized :: "profile \<Rightarrow> ticket \<Rightarrow> string \<Rightarrow> bool" where
  "authorized p tk name =
     ((tk_active tk \<and> name \<in> set (profile_refs p)) \<or> (rq_op (tk_req tk) = ''secret'' \<and> tk_additional tk))"

text \<open>\<open>answer\<close>: what the resolver gives for the one name; \<open>ctx_done\<close>: the request's context ended
  by then.\<close>

definition resolve_secret :: "int \<Rightarrow> (string list \<Rightarrow> resolve_error + (string \<rightharpoonup> secret_val)) \<Rightarrow> bool \<Rightarrow>
    string \<Rightarrow> response \<Rightarrow> scope \<Rightarrow> scope \<times> response" where
  "resolve_secret now answer ctx_done name res s =
     (if \<not> sc_has_resolver s then (s, res\<lparr>rs_error := ''secret resolution unavailable''\<rparr>)
      else case answer [name] of
        Inl _ \<Rightarrow> (s, res\<lparr>rs_error := ''secret resolution unavailable''\<rparr>)
      | Inr m \<Rightarrow> (case m name of
          None \<Rightarrow> (s, res\<lparr>rs_error := ''secret resolution unavailable''\<rparr>)
        | Some v \<Rightarrow>
            if ctx_done \<or> expired now v then (s, res\<lparr>rs_error := ''secret resolution unavailable''\<rparr>)
            else (case redactor_add (sv_value v) (sc_redactor s) of
                Inl _ \<Rightarrow> (s, res\<lparr>rs_error := ''execution access ended''\<rparr>)
              | Inr r \<Rightarrow> (s\<lparr>sc_redactor := r\<rparr>, res\<lparr>rs_secret := Some v\<rparr>))))"

definition serve_work :: "git_lib \<Rightarrow> int \<Rightarrow> (string list \<Rightarrow> resolve_error + (string \<rightharpoonup> secret_val)) \<Rightarrow> bool \<Rightarrow>
    ticket \<Rightarrow> scope \<Rightarrow> scope \<times> response" where
  "serve_work L now answer ctx_done tk s =
     (let req = tk_req tk in
      if rq_op req = ''config'' then
        (s, case snap_values (sc_snapshot s) (rq_name req) of
              None \<Rightarrow> error_response ''configuration name is absent''
            | Some raw \<Rightarrow> no_response\<lparr>rs_value := Some raw\<rparr>)
      else if rq_op req = ''secret'' \<or> rq_op req = ''credential'' then
        (case requested_secret L (sc_profile s) req of (name, res) \<Rightarrow>
           let res = (if \<not> authorized (sc_profile s) tk name
                      then res\<lparr>rs_error := ''secret is not authorized for this scope''\<rparr> else res)
           in if rs_error res = [] then resolve_secret now answer ctx_done name res s else (s, res))
      else (s, error_response ''unknown execution request''))"

definition serve_finish :: "bool \<Rightarrow> ticket \<Rightarrow> response \<Rightarrow> scope \<Rightarrow> response" where
  "serve_finish ctx_done tk res s =
     (if sc_done s \<or> ctx_done \<or> tk_generation tk \<noteq> sc_generation s
      then error_response ''execution access ended'' else res)"

section \<open>What happens meanwhile\<close>

datatype scope_event =
    EvBegin bool scope_request
  | EvWork int "string list \<Rightarrow> resolve_error + (string \<rightharpoonup> secret_val)" bool ticket
  | EvAllow "string list"
  | EvCancel
  | EvClose

fun scope_step :: "git_lib \<Rightarrow> scope \<Rightarrow> scope_event \<Rightarrow> scope" where
  "scope_step L s (EvBegin io_ok req) = fst (serve_begin io_ok req s)"
| "scope_step L s (EvWork now answer d tk) = fst (serve_work L now answer d tk s)"
| "scope_step L s (EvAllow names) = AllowSecrets names s"
| "scope_step L s EvCancel = s\<lparr>sc_done := True\<rparr>"
| "scope_step L s EvClose = scope_Close s"

definition scope_run :: "git_lib \<Rightarrow> scope \<Rightarrow> scope_event list \<Rightarrow> scope" where
  "scope_run L s es = foldl (scope_step L) s es"

text \<open>A step that moves the generation on: a clear, an activation or the first close.\<close>

definition moves :: "scope \<Rightarrow> scope_event \<Rightarrow> bool" where
  "moves s ev = (case ev of
     EvBegin io_ok req \<Rightarrow> \<not> sc_done s \<and> io_ok \<and>
       (rq_op req = ''clear'' \<or> (rq_op req = ''activate'' \<and> rq_name req = sc_name s \<and> sc_name s \<noteq> []))
   | EvClose \<Rightarrow> \<not> sc_once s
   | _ \<Rightarrow> False)"

fun move_count :: "git_lib \<Rightarrow> scope \<Rightarrow> scope_event list \<Rightarrow> nat" where
  "move_count L s [] = 0"
| "move_count L s (e # es) = (if moves s e then 1 else 0) + move_count L (scope_step L s e) es"

lemma serve_work_scope:
  "fst (serve_work L now answer d tk s) = s\<lparr>sc_redactor := sc_redactor (fst (serve_work L now answer d tk s))\<rparr>"
  by (simp add: serve_work_def Let_def resolve_secret_def redactor_add_def split: prod.split option.split sum.split)

lemma step_generation:
  "sc_generation (scope_step L s e) = sc_generation s + (if moves s e then 1 else 0)"
proof (cases e)
  case (EvWork now answer d tk)
  have "sc_generation (fst (serve_work L now answer d tk s)) = sc_generation s"
    by (subst serve_work_scope) simp
  with EvWork show ?thesis by (simp add: moves_def)
qed (auto simp: moves_def serve_begin_def setActive_def AllowSecrets_def scope_Close_def Let_def split: option.splits)

lemma step_still:
  "\<not> moves s e \<Longrightarrow> sc_active (scope_step L s e) = sc_active s \<and> sc_once (scope_step L s e) = sc_once s"
proof (cases e)
  case (EvWork now answer d tk)
  have "sc_active (fst (serve_work L now answer d tk s)) = sc_active s \<and>
      sc_once (fst (serve_work L now answer d tk s)) = sc_once s"
    by (subst (1 2) serve_work_scope) simp
  with EvWork show ?thesis by simp
qed (auto simp: moves_def serve_begin_def setActive_def AllowSecrets_def scope_Close_def Let_def split: option.splits)

lemma step_fixed: "sc_profile (scope_step L s e) = sc_profile s \<and> sc_name (scope_step L s e) = sc_name s"
proof (cases e)
  case (EvWork now answer d tk)
  have "sc_profile (fst (serve_work L now answer d tk s)) = sc_profile s \<and>
      sc_name (fst (serve_work L now answer d tk s)) = sc_name s"
    by (subst (1 2) serve_work_scope) simp
  with EvWork show ?thesis by simp
qed (auto simp: serve_begin_def setActive_def AllowSecrets_def scope_Close_def Let_def split: option.splits)

lemma run_generation:
  "sc_generation (scope_run L s es) = sc_generation s + of_nat (move_count L s es)"
  by (induction es arbitrary: s) (simp_all add: scope_run_def step_generation algebra_simps)

lemma run_still: "move_count L s es = 0 \<Longrightarrow> sc_active (scope_run L s es) = sc_active s"
  by (induction es arbitrary: s) (auto simp: scope_run_def step_still split: if_splits)

lemma run_fixed: "sc_profile (scope_run L s es) = sc_profile s"
  by (induction es arbitrary: s) (simp_all add: scope_run_def step_fixed)

lemma no_wrap: "n < 2 ^ 64 \<Longrightarrow> (of_nat n :: 64 word) = 0 \<Longrightarrow> n = 0"
  by (simp add: word_of_nat_eq_0_iff) (metis dvd_imp_le not_le zero_less_iff_neq_zero)

lemma resolve_secret_gives:
  assumes "resolve_secret now answer d name res0 s = (s', res)" "rs_secret res = Some v" "rs_secret res0 = None"
  shows "\<exists>m r. answer [name] = Inr m \<and> m name = Some v \<and> \<not> expired now v \<and>
    redactor_add (sv_value v) (sc_redactor s) = Inr r \<and> s' = s\<lparr>sc_redactor := r\<rparr> \<and> res = res0\<lparr>rs_secret := Some v\<rparr>"
proof (cases "answer [name]")
  case (Inl e)
  with assms show ?thesis by (auto simp: resolve_secret_def split: if_splits)
next
  case m: (Inr m)
  show ?thesis
  proof (cases "m name")
    case None
    with assms m show ?thesis by (auto simp: resolve_secret_def split: if_splits)
  next
    case (Some w)
    with assms m show ?thesis
      by (cases "redactor_add (sv_value w) (sc_redactor s)") (auto simp: resolve_secret_def split: if_splits)
  qed
qed

lemma work_secret:
  assumes "serve_work L now answer d tk s = (s', res)" "rs_secret res = Some v"
  shows "\<exists>name m. answer [name] = Inr m \<and> m name = Some v \<and> \<not> expired now v \<and>
    authorized (sc_profile s) tk name \<and> sv_value v \<in> set (masks (sc_redactor s')) \<and>
    (rq_op (tk_req tk) = ''secret'' \<and> name = rq_name (tk_req tk) \<or>
     rq_op (tk_req tk) = ''credential'' \<and> (\<exists>e. profile_Match L (sc_profile s) (rq_protocol (tk_req tk)) (rq_host (tk_req tk))
        (rq_path (tk_req tk)) (rq_user (tk_req tk)) = Inr e \<and> name = ge_ref e \<and> rs_username res = ge_user e))"
proof -
  let ?req = "tk_req tk"
  obtain name res0 where rs: "requested_secret L (sc_profile s) ?req = (name, res0)" by (cases "requested_secret L (sc_profile s) ?req")
  have none: "rs_secret res0 = None"
    using rs by (auto simp: requested_secret_def error_response_def no_response_def split: if_splits sum.splits)
  have op: "rq_op ?req = ''secret'' \<or> rq_op ?req = ''credential''"
    using assms by (auto simp: serve_work_def Let_def error_response_def no_response_def split: if_splits option.splits)
  then have "rq_op ?req \<noteq> ''config''" by auto
  with assms op rs none have auth: "authorized (sc_profile s) tk name" "rs_error res0 = []"
    and go: "resolve_secret now answer d name res0 s = (s', res)"
    by (auto simp: serve_work_def Let_def split: if_splits)
  from resolve_secret_gives [OF go assms(2) none] obtain m r where m: "answer [name] = Inr m" "m name = Some v" "\<not> expired now v"
    "redactor_add (sv_value v) (sc_redactor s) = Inr r" "s' = s\<lparr>sc_redactor := r\<rparr>" "res = res0\<lparr>rs_secret := Some v\<rparr>"
    by blast
  have "sv_value v \<in> set (masks (sc_redactor s'))"
    using m(4,5) by (auto simp: redactor_add_def split: if_splits)
  moreover have "rq_op ?req = ''secret'' \<and> name = rq_name ?req \<or>
     rq_op ?req = ''credential'' \<and> (\<exists>e. profile_Match L (sc_profile s) (rq_protocol ?req) (rq_host ?req)
        (rq_path ?req) (rq_user ?req) = Inr e \<and> name = ge_ref e \<and> rs_username res = ge_user e)"
    using rs op auth(2) m(6)
    by (auto simp: requested_secret_def error_response_def no_response_def split: if_splits sum.splits)
  ultimately show ?thesis using m(1-3) auth(1) by blast
qed

text \<open>C30. A secret leaves the scope only while its access lasts. Whatever happens between the two
  locked sections of a request, up to the wrap-around of the 64-bit generation, a reply that
  carries a secret means that no clear, activation or close took place since the request began and the
  scope has not ended; the secret is the unexpired one resolved for the name asked for, or for the
  entry the profile matched; the name is a credential of the profile, which is still active, or was
  allowed for the operation; and its value was masked before.\<close>

theorem fenced_reply:
  assumes "serve_begin io_ok req s0 = (s1, Pending tk)"
    and "serve_work L now answer ctx_done tk (scope_run L s1 es) = (s2, res)"
    and "rs_secret (serve_finish ctx_done' tk res (scope_run L s2 es')) = Some v"
    and "move_count L s1 es + move_count L s2 es' < 2 ^ 64"
  shows "\<not> sc_done (scope_run L s2 es') \<and> move_count L s1 es = 0 \<and> move_count L s2 es' = 0 \<and>
    sv_value v \<in> set (masks (sc_redactor s2)) \<and>
    (\<exists>name m. answer [name] = Inr m \<and> m name = Some v \<and> \<not> expired now v \<and>
      ((sc_active (scope_run L s2 es') \<and> name \<in> set (profile_refs (sc_profile s0))) \<or>
       (rq_op req = ''secret'' \<and> name \<in> set (sc_additional s0))) \<and>
      (rq_op req = ''secret'' \<and> name = rq_name req \<or>
       rq_op req = ''credential'' \<and>
         (\<exists>e. profile_Match L (sc_profile s0) (rq_protocol req) (rq_host req) (rq_path req) (rq_user req) = Inr e \<and>
           name = ge_ref e)))"
proof -
  let ?s3 = "scope_run L s2 es'" and ?t = "scope_run L s1 es"
  from assms(1) have b: "s1 = s0" "tk_req tk = req" "tk_generation tk = sc_generation s0" "tk_active tk = sc_active s0"
    "tk_additional tk \<longleftrightarrow> rq_name req \<in> set (sc_additional s0)"
    by (auto simp: serve_begin_def split: if_splits option.splits)
  from assms(3) have f: "\<not> sc_done ?s3" "sc_generation s0 = sc_generation ?s3" "rs_secret res = Some v"
    using b by (auto simp: serve_finish_def error_response_def no_response_def split: if_splits)
  have s2: "s2 = ?t\<lparr>sc_redactor := sc_redactor s2\<rparr>"
    using serve_work_scope [of L now answer ctx_done tk ?t] assms(2) by simp
  have "sc_generation s2 = sc_generation ?t" by (subst s2) simp
  with f(2) b(1) have "(of_nat (move_count L s1 es + move_count L s2 es') :: 64 word) = 0"
    by (simp add: run_generation)
  from no_wrap [OF assms(4) this] have still: "move_count L s1 es = 0" "move_count L s2 es' = 0" by simp_all
  have "sc_active s2 = sc_active ?t" "sc_profile s2 = sc_profile ?t" by (subst s2, simp)+
  with run_still [OF still(1)] run_still [OF still(2)] run_fixed [of L s1 es] b(1)
  have act: "sc_active ?s3 = sc_active s0" and prof: "sc_profile ?t = sc_profile s0" by simp_all
  from work_secret [OF assms(2) f(3)] obtain name m where w:
      "answer [name] = Inr m" "m name = Some v" "\<not> expired now v" "authorized (sc_profile s0) tk name"
      "sv_value v \<in> set (masks (sc_redactor s2))"
      "rq_op req = ''secret'' \<and> name = rq_name req \<or>
       rq_op req = ''credential'' \<and> (\<exists>e. profile_Match L (sc_profile s0) (rq_protocol req) (rq_host req)
          (rq_path req) (rq_user req) = Inr e \<and> name = ge_ref e)"
    unfolding b(2) prof by blast
  have "(sc_active ?s3 \<and> name \<in> set (profile_refs (sc_profile s0))) \<or>
      (rq_op req = ''secret'' \<and> name \<in> set (sc_additional s0))"
    using w(4,6) act b(2,4,5) by (auto simp: authorized_def)
  with w f(1) still show ?thesis by blast
qed

definition ex_scope :: scope where
  "ex_scope = \<lparr>sc_name = ''read'', sc_profile = ex_profile ''https://h/'', sc_snapshot = \<lparr>revision = [], snap_values = Map.empty\<rparr>,
     sc_selection = no_selection, sc_has_resolver = True, sc_active = True, sc_cleared = False, sc_generation = 1,
     sc_additional = [], sc_done = False, sc_once = False, sc_redactor = NewRedactor, sc_owns = True\<rparr>"

definition ex_request :: scope_request where
  "ex_request = \<lparr>rq_op = ''credential'', rq_name = [], rq_protocol = ''https'', rq_host = ''h'', rq_path = ''a/repo.git'', rq_user = []\<rparr>"

definition ex_token :: secret_val where
  "ex_token = \<lparr>sv_value = ''t0ken'', sv_expires = None\<rparr>"

definition ex_ask :: "string list \<Rightarrow> resolve_error + (string \<rightharpoonup> secret_val)" where
  "ex_ask ns = Inr [''TEAM'' \<mapsto> ex_token]"

definition ex_ticket :: ticket where
  "ex_ticket = \<lparr>tk_req = ex_request, tk_generation = 1, tk_active = True, tk_additional = False\<rparr>"

theorem fenced_reply_witness:
  "\<exists>s2 res. serve_work ex_git 0 ex_ask False ex_ticket (scope_run ex_git ex_scope [EvAllow [''X'']]) = (s2, res) \<and>
     rs_secret (serve_finish False ex_ticket res (scope_run ex_git s2 [])) = Some ex_token \<and>
     ''t0ken'' \<in> set (masks (sc_redactor s2))"
proof -
  have 1: "serve_begin True ex_request ex_scope = (ex_scope, Pending ex_ticket)"
    by (simp add: serve_begin_def ex_request_def ex_scope_def ex_ticket_def)
  obtain s2 res where 2: "serve_work ex_git 0 ex_ask False ex_ticket (scope_run ex_git ex_scope [EvAllow [''X'']]) = (s2, res)"
    by (metis surj_pair)
  have m: "profile_Match ex_git (ex_profile ''https://h/'') ''https'' ''h'' ''a/repo.git'' [] =
      Inr (ex_profile_entry ''https://h/a'' ''TEAM'')" by code_simp
  have 3: "rs_secret (serve_finish False ex_ticket res (scope_run ex_git s2 [])) = Some ex_token"
    using 2 m
    by (auto simp: scope_run_def AllowSecrets_def serve_work_def Let_def requested_secret_def authorized_def
        resolve_secret_def redactor_add_def NewRedactor_def serve_finish_def no_response_def ex_ask_def ex_token_def
        ex_scope_def ex_ticket_def ex_request_def ex_profile_entry_def profile_refs_def ex_profile_def expired_def)
  have "move_count ex_git ex_scope [EvAllow [''X'']] + move_count ex_git s2 [] < 2 ^ 64"
    by (simp add: moves_def)
  from fenced_reply [OF 1 2 3 this] 2 3 show ?thesis by (auto simp: ex_token_def)
qed

section \<open>Limits and the environment\<close>

lemma secret_limit_narrows: "set (secret_limit outer names) \<subseteq> set names"
  "outer = Some old \<Longrightarrow> set (secret_limit outer names) \<subseteq> set old"
  by (auto simp: secret_limit_def split: option.splits)

text \<open>Under nested limits the resolver is asked only for names all of them allow.\<close>

lemma limits_within:
  "fold (\<lambda>names outer. Some (secret_limit outer names)) ls outer = Some l \<Longrightarrow>
     (\<forall>old. outer = Some old \<longrightarrow> set l \<subseteq> set old) \<and> (\<forall>x \<in> set ls. set l \<subseteq> set x)"
proof (induction ls arbitrary: outer)
  case (Cons x ls)
  from Cons.IH [of "Some (secret_limit outer x)"] Cons.prems
  have "set l \<subseteq> set (secret_limit outer x)" "\<forall>y \<in> set ls. set l \<subseteq> set y" by simp_all
  moreover have "set l \<subseteq> set x" using calculation(1) secret_limit_narrows(1) [of outer x] by (rule subset_trans)
  moreover have "set l \<subseteq> set old" if "outer = Some old" for old
    using calculation(1) secret_limit_narrows(2) [OF that] by (rule subset_trans)
  ultimately show ?case by simp
qed simp

lemma limits_narrow:
  assumes "fold (\<lambda>names outer. Some (secret_limit outer names)) ls outer = Some l" "limited (Some l) resolve names = Some a"
  shows "\<forall>x \<in> set ls. set names \<subseteq> set x"
  using limits_within [OF assms(1)] assms(2) by (auto simp: limited_def list_all_iff split: if_splits)

definition stripped_variable :: "string \<Rightarrow> bool" where
  "stripped_variable v =
     (let k = (case go_cut CHR ''='' v of None \<Rightarrow> v | Some (k, _) \<Rightarrow> k)
      in has_prefix k ''GIT_CONFIG'' \<or> has_prefix k ''GIT_TRACE'' \<or> k = ''GIT_ASKPASS'' \<or> k = ''SSH_ASKPASS'' \<or>
         k = ''C2J_EXECUTION_SOCKET'')"

text \<open>\<open>dir\<close> is the scope's directory; joined to a file name with one slash.\<close>

definition Env :: "string option \<Rightarrow> string list \<Rightarrow> string list" where
  "Env dir base = (case dir of
     None \<Rightarrow> base
   | Some d \<Rightarrow> filter (\<lambda>v. \<not> stripped_variable v) base @
       [''GIT_CONFIG_NOSYSTEM=1'', ''GIT_CONFIG_GLOBAL=/dev/null'', ''GIT_CONFIG_COUNT=1'', ''GIT_CONFIG_KEY_0=include.path'',
        ''GIT_CONFIG_VALUE_0='' @ d @ ''/active.gitconfig'', ''GIT_TERMINAL_PROMPT=0'', ''GIT_ASKPASS='', ''SSH_ASKPASS='',
        ''C2J_EXECUTION_SOCKET='' @ d @ ''/resolver.sock''])"

end
