(* ===== verification/State_Machine.thy ===== *)
theory State_Machine
  imports Compiler_Failure
begin

text \<open>
  \<^verbatim>\<open>pkg/worker/compiler/statemachine_compiler.go\<close>: the evaluation of transitions, the
  execution of one state, the loop of a state machine, and the edges that validation visits.

  A resolution context is a reference \<open>'c\<close>; what references point to, and everything else the
  execution changes, is the world \<open>'w\<close>. The durable scopes of JobDB (\<^verbatim>\<open>executeNodeScope\<close>), the
  execution of a node, child contexts and hook preparation are operations of the record
  \<open>machine_ops\<close>. The loop may run forever: it is a partial function, and the step relation
  \<open>hops\<close> says what it does.
\<close>

section \<open>Nodes and states\<close>

datatype node_kind = KOp | KInclude | KSequence | KState | KChildGroup | KOther

record node_meta =
  nm_id :: string
  nm_retry :: "gval option"
  nm_timeout :: int
  nm_catch :: "catch_clause list"
  nm_vars :: payload
  nm_workspace :: "gval option"
  nm_rest :: gval

text \<open>\<open>nm_rest\<close> and \<open>rn_body\<close> stand for the fields the loop only passes on.\<close>

record rnode =
  rn_kind :: node_kind
  rn_meta :: node_meta
  rn_body :: gval

record state_def =
  sd_node :: rnode
  sd_transitions :: "transition list"

definition on_meta :: "(node_meta \<Rightarrow> node_meta) \<Rightarrow> rnode \<Rightarrow> rnode" where
  "on_meta f n = (if rn_kind n = KOther then n else n\<lparr>rn_meta := f (rn_meta n)\<rparr>)"

definition nodeWithoutVars :: "rnode \<Rightarrow> rnode" where
  "nodeWithoutVars = on_meta (\<lambda>m. m\<lparr>nm_workspace := None, nm_vars := [], nm_catch := []\<rparr>)"

definition nodeWithoutPolicy :: "rnode \<Rightarrow> rnode" where
  "nodeWithoutPolicy = on_meta (\<lambda>m. m\<lparr>nm_retry := None, nm_timeout := 0, nm_catch := []\<rparr>)"

definition nodeWithoutRetry :: "rnode \<Rightarrow> rnode" where
  "nodeWithoutRetry = on_meta (\<lambda>m. m\<lparr>nm_retry := None\<rparr>)"

section \<open>The surroundings\<close>

datatype 'x run_error =
    CatchRoute transition_data
  | MachineHandled
  | Control 'x
  | Fault 'x
  | StateNotFound string
  | CatchTargetNotFound string
  | InitialRequired
  | NoInitialMatch
  | ConditionFailed nat string string "'x engine_error"
  | PayloadNotRendered nat string string 'x
  | OutputsNotResolved 'x

datatype scope_kind = ScopeStateMachine | ScopeState

record ('c, 'w, 'x) machine_ops =
  mo_resolver :: "('c \<times> 'w, 'x) resolver"
  mo_source :: "'c \<times> 'w \<Rightarrow> string \<Rightarrow> string \<Rightarrow> 'c \<times> 'w"
  mo_scope :: "'c \<Rightarrow> node_meta \<Rightarrow> scope_kind \<Rightarrow> string \<Rightarrow> ('c \<Rightarrow> 'w \<Rightarrow> 'w \<times> 'x run_error option) \<Rightarrow>
    'w \<Rightarrow> 'w \<times> 'x run_error option"
  mo_child :: "'c \<Rightarrow> node_meta \<Rightarrow> string \<Rightarrow> transition_data \<Rightarrow> 'w \<Rightarrow> 'w \<times> ('x + 'c)"
  mo_enter :: "'c \<Rightarrow> node_meta \<Rightarrow> 'w \<Rightarrow> 'w \<times> ('x run_error + 'c)"
  mo_publish :: "'c \<Rightarrow> 'c \<Rightarrow> 'w \<Rightarrow> 'w"
  mo_vars :: "'c \<Rightarrow> payload \<Rightarrow> 'w \<Rightarrow> 'w \<times> 'x option"
  mo_execute :: "'c \<Rightarrow> rnode \<Rightarrow> 'w \<Rightarrow> 'w \<times> 'x run_error option"
  mo_prepare_hook :: "'c \<Rightarrow> string \<Rightarrow> rnode \<Rightarrow> 'w \<Rightarrow> 'w \<times> ('x run_error + rnode)"
  mo_complete :: "'c \<Rightarrow> payload \<Rightarrow> string \<Rightarrow> 'w \<Rightarrow> 'w \<times> 'x run_error option"

section \<open>Transitions\<close>

definition renderTransitionPayload :: "('c, 'w, 'x) machine_ops \<Rightarrow> 'c \<times> 'w \<Rightarrow> transition \<Rightarrow> string \<Rightarrow> 'x + payload" where
  "renderTransitionPayload M cw t name =
     (if tr_payload t = [] then Inr [] else rs_map (mo_resolver M) (mo_source M cw name (tr_to t)) (tr_payload t))"

text \<open>\<open>None\<close>: no transition matched. One whose target is empty counts as none with the callers.\<close>

fun evaluateTransitions :: "('c, 'w, 'x) machine_ops \<Rightarrow> 'c \<times> 'w \<Rightarrow> string \<Rightarrow> nat \<Rightarrow> transition list \<Rightarrow>
    'x run_error + transition_data option" where
  "evaluateTransitions M cw name idx [] = Inr None"
| "evaluateTransitions M cw name idx (t # ts) =
     (case EvaluateCEL (mo_resolver M) (mo_source M cw name (tr_to t)) (tr_when t) of
        Inl e \<Rightarrow> Inl (ConditionFailed idx name (tr_to t) e)
      | Inr should \<Rightarrow>
          if should then
            (case renderTransitionPayload M cw t name of
               Inl e \<Rightarrow> Inl (PayloadNotRendered idx name (tr_to t) e)
             | Inr p \<Rightarrow> Inr (Some (NewTransitionData name (tr_to t) (Some p))))
          else evaluateTransitions M cw name (Suc idx) ts)"

definition decided :: "transition_data option \<Rightarrow> transition_data option" where
  "decided d = (case d of None \<Rightarrow> None | Some t \<Rightarrow> if td_to t = [] then None else Some t)"

definition evaluateInitialState :: "('c, 'w, 'x) machine_ops \<Rightarrow> 'c \<times> 'w \<Rightarrow> transition list \<Rightarrow> 'x run_error + transition_data" where
  "evaluateInitialState M cw ini =
     (if ini = [] then Inl InitialRequired
      else bindE (evaluateTransitions M cw [] 0 ini) (\<lambda>d.
        case decided d of None \<Rightarrow> Inl NoInitialMatch | Some t \<Rightarrow> Inr t))"

definition isTerminalState :: "string \<Rightarrow> (string \<rightharpoonup> state_def) \<Rightarrow> bool" where
  "isTerminalState name states = (case states name of None \<Rightarrow> True | Some s \<Rightarrow> sd_transitions s = [])"

section \<open>Running a state\<close>

text \<open>The result of a state: a route taken by a catch clause, and an error.\<close>

type_synonym 'x state_result = "transition_data option \<times> 'x run_error option"

definition route_of :: "'x run_error option \<Rightarrow> 'x state_result" where
  "route_of e = (case e of Some (CatchRoute t) \<Rightarrow> (Some t, None) | _ \<Rightarrow> (None, e))"

definition as_error :: "'x state_result \<Rightarrow> 'x run_error option" where
  "as_error r = (case r of (Some t, _) \<Rightarrow> Some (CatchRoute t) | (None, e) \<Rightarrow> e)"

definition withNodeWorkspace :: "('c, 'w, 'x) machine_ops \<Rightarrow> 'c \<Rightarrow> node_meta \<Rightarrow>
    ('c \<Rightarrow> 'w \<Rightarrow> 'w \<times> 'x state_result) \<Rightarrow> 'w \<Rightarrow> 'w \<times> 'x state_result" where
  "withNodeWorkspace M parent meta body w = (case mo_enter M parent meta w of
     (w1, Inl e) \<Rightarrow> (w1, (None, Some e))
   | (w1, Inr scoped) \<Rightarrow> (case body scoped w1 of (w2, r) \<Rightarrow> (mo_publish M parent scoped w2, r)))"

definition runStateBody :: "('c, 'w, 'x) machine_ops \<Rightarrow> rnode \<Rightarrow> 'c \<Rightarrow> 'w \<Rightarrow> 'w \<times> 'x state_result" where
  "runStateBody M n c w = (case mo_vars M c (nm_vars (rn_meta n)) w of
     (w1, Some e) \<Rightarrow> (w1, (None, Some (Fault e)))
   | (w1, None) \<Rightarrow> (case mo_execute M c (nodeWithoutVars n) w1 of (w2, e) \<Rightarrow> (w2, route_of e)))"

definition runStateAttempt :: "('c, 'w, 'x) machine_ops \<Rightarrow> 'c \<Rightarrow> string \<Rightarrow> rnode \<Rightarrow> transition_data \<Rightarrow> 'w \<Rightarrow>
    'w \<times> 'x state_result" where
  "runStateAttempt M c name n tr w = (case mo_child M c (rn_meta n) name tr w of
     (w1, Inl e) \<Rightarrow> (w1, (None, Some (Fault e)))
   | (w1, Inr sc) \<Rightarrow>
       if nm_workspace (rn_meta n) \<noteq> None then
         (case withNodeWorkspace M sc (rn_meta n) (runStateBody M n) w1 of
            (w2, (r, e)) \<Rightarrow> (w2, case e of Some (CatchRoute t) \<Rightarrow> (Some t, None) | _ \<Rightarrow> (r, e)))
       else runStateBody M n sc w1)"

definition state_meta :: "string \<Rightarrow> rnode \<Rightarrow> node_meta" where
  "state_meta name n = (if nm_id (rn_meta n) = [] then (rn_meta n)\<lparr>nm_id := name\<rparr> else rn_meta n)"

definition runState :: "('c, 'w, 'x) machine_ops \<Rightarrow> 'c \<Rightarrow> string \<Rightarrow> rnode \<Rightarrow> transition_data \<Rightarrow> 'w \<Rightarrow>
    'w \<times> 'x state_result" where
  "runState M c name n tr w =
     (case mo_scope M c (state_meta name n) ScopeState name (\<lambda>c' w.
        case runStateAttempt M c' name (nodeWithoutPolicy n) tr w of (w1, r) \<Rightarrow> (w1, as_error r)) w of
      (w1, e) \<Rightarrow> (w1, route_of e))"

section \<open>The loop\<close>

record ('c) machine =
  ma_states :: "string \<rightharpoonup> state_def"
  ma_initial :: "transition list"
  ma_catch :: "catch_clause list"
  ma_outputs :: payload
  ma_context :: 'c

text \<open>How a state ends: with an error, handled by the machine's own catch, or with a possible route.\<close>

datatype 'x state_end = EndError "'x run_error" | EndHandled | EndRoute "transition_data option"

definition state_policy :: "'c machine \<Rightarrow> string \<Rightarrow> rnode \<Rightarrow> node_meta" where
  "state_policy m name n =
     (rn_meta n)\<lparr>nm_id := ''state-policy:'' @ name, nm_catch := ma_catch m, nm_timeout := 0\<rparr>"

definition run_current :: "('c, 'w, 'x) machine_ops \<Rightarrow> 'c machine \<Rightarrow> string \<Rightarrow> rnode \<Rightarrow> transition_data \<Rightarrow> 'w \<Rightarrow>
    'w \<times> 'x state_end" where
  "run_current M m name n tr w =
     (if ma_catch m = [] then
        (case runState M (ma_context m) name n tr w of
           (w1, (r, e)) \<Rightarrow> (w1, case e of Some e \<Rightarrow> EndError e | None \<Rightarrow> EndRoute r))
      else
        (case mo_scope M (ma_context m) (state_policy m name n) ScopeStateMachine name (\<lambda>c' w.
            case runState M c' name (nodeWithoutRetry n) tr w of (w1, r) \<Rightarrow> (w1, as_error r)) w of
          (w1, e) \<Rightarrow> (w1, case e of
              Some MachineHandled \<Rightarrow> EndHandled
            | Some (CatchRoute t) \<Rightarrow> EndRoute (Some t)
            | Some e \<Rightarrow> EndError e
            | None \<Rightarrow> EndRoute None)))"

definition prepare :: "('c, 'w, 'x) machine_ops \<Rightarrow> 'c machine \<Rightarrow> string \<Rightarrow> rnode \<Rightarrow> 'w \<Rightarrow> 'w \<times> ('x run_error + rnode)" where
  "prepare M m name n w =
     (if rn_kind n = KInclude then mo_prepare_hook M (ma_context m) name (n\<lparr>rn_meta := (rn_meta n)\<lparr>nm_id := name\<rparr>\<rparr>) w
      else (w, Inr n))"

text \<open>One turn of the loop: on to another state, out of the loop in a state, or returning.\<close>

datatype ('w, 'x) turn =
    Go string transition_data 'w
  | Break string 'w
  | Return "'x run_error option" 'w

definition after_state :: "('c, 'w, 'x) machine_ops \<Rightarrow> 'c machine \<Rightarrow> string \<Rightarrow> state_def \<Rightarrow> transition_data option \<Rightarrow> 'w \<Rightarrow>
    ('w, 'x) turn" where
  "after_state M m name sd r w = (case r of
     Some t \<Rightarrow>
       if ma_states m (td_to t) = None then Return (Some (CatchTargetNotFound (td_to t))) w
       else Go (td_to t) t w
   | None \<Rightarrow>
       if isTerminalState name (ma_states m) then Break name w
       else (case evaluateTransitions M (ma_context m, w) name 0 (sd_transitions sd) of
           Inl e \<Rightarrow> Return (Some e) w
         | Inr d \<Rightarrow> (case decided d of None \<Rightarrow> Break name w | Some t \<Rightarrow> Go (td_to t) t w)))"

definition machine_turn :: "('c, 'w, 'x) machine_ops \<Rightarrow> 'c machine \<Rightarrow> string \<Rightarrow> transition_data \<Rightarrow> 'w \<Rightarrow> ('w, 'x) turn" where
  "machine_turn M m name tr w = (case ma_states m name of
     None \<Rightarrow> Return (Some (StateNotFound name)) w
   | Some sd \<Rightarrow> (case prepare M m name (sd_node sd) w of
       (w1, Inl e) \<Rightarrow> Return (Some e) w1
     | (w1, Inr n) \<Rightarrow> (case run_current M m name n tr w1 of
         (w2, EndError e) \<Rightarrow> Return (Some e) w2
       | (w2, EndHandled) \<Rightarrow> Return None w2
       | (w2, EndRoute r) \<Rightarrow> after_state M m name sd r w2)))"

definition finish :: "('c, 'w, 'x) machine_ops \<Rightarrow> 'c machine \<Rightarrow> string \<Rightarrow> 'w \<Rightarrow> 'w \<times> 'x run_error option" where
  "finish M m name w =
     (if name \<noteq> [] \<and> ma_states m name = None then (w, Some (StateNotFound name))
      else case rs_map (mo_resolver M) (ma_context m, w) (ma_outputs m) of
        Inl e \<Rightarrow> (w, Some (OutputsNotResolved e))
      | Inr out \<Rightarrow> mo_complete M (ma_context m) out name w)"

partial_function (option) machine_loop :: "('c, 'w, 'x) machine_ops \<Rightarrow> 'c machine \<Rightarrow> string \<Rightarrow> transition_data \<Rightarrow> 'w \<Rightarrow>
    ('w \<times> 'x run_error option) option" where
  "machine_loop M m name tr w = (case machine_turn M m name tr w of
     Go name' tr' w' \<Rightarrow> machine_loop M m name' tr' w'
   | Break name' w' \<Rightarrow> Some (finish M m name' w')
   | Return e w' \<Rightarrow> Some (w', e))"

definition run_machine :: "('c, 'w, 'x) machine_ops \<Rightarrow> 'c machine \<Rightarrow> 'w \<Rightarrow> ('w \<times> 'x run_error option) option" where
  "run_machine M m w = (case evaluateInitialState M (ma_context m, w) (ma_initial m) of
     Inl e \<Rightarrow> Some (w, Some e)
   | Inr t \<Rightarrow>
       if ma_states m (td_to t) = None then Some (w, Some (StateNotFound (td_to t)))
       else machine_loop M m (td_to t) t w)"

section \<open>Steps of a machine\<close>

type_synonym 'w config = "string \<times> transition_data \<times> 'w"

inductive hop :: "('c, 'w, 'x) machine_ops \<Rightarrow> 'c machine \<Rightarrow> 'w config \<Rightarrow> 'w config \<Rightarrow> bool" for M m where
  hop: "machine_turn M m name tr w = Go name' tr' w' \<Longrightarrow> hop M m (name, tr, w) (name', tr', w')"

inductive_simps hop_iff: "hop M m (name, tr, w) cfg"
inductive_cases hopE: "hop M m cfg (name', tr', w')"

text \<open>How the loop leaves a configuration that takes no further step.\<close>

fun ends :: "('c, 'w, 'x) machine_ops \<Rightarrow> 'c machine \<Rightarrow> 'w config \<Rightarrow> 'w \<times> 'x run_error option \<Rightarrow> bool" where
  "ends M m (name, tr, w) r = (case machine_turn M m name tr w of
     Go _ _ _ \<Rightarrow> False
   | Break name' w' \<Rightarrow> r = finish M m name' w'
   | Return e w' \<Rightarrow> r = (w', e))"


lemma ends_or_hops: "(\<exists>r. ends M m c r) \<or> (\<exists>c'. hop M m c c')"
proof -
  obtain name tr w where c: "c = (name, tr, w)" by (cases c) auto
  show ?thesis unfolding c by (cases "machine_turn M m name tr w") (auto simp: hop_iff)
qed


fun loop_at :: "('c, 'w, 'x) machine_ops \<Rightarrow> 'c machine \<Rightarrow> 'w config \<Rightarrow> ('w \<times> 'x run_error option) option" where
  "loop_at M m (name, tr, w) = machine_loop M m name tr w"

lemma loop_hop: "hop M m c d \<Longrightarrow> loop_at M m c = loop_at M m d"
proof (induction rule: hop.induct)
  case (hop name tr w name' tr' w')
  then show ?case unfolding loop_at.simps by (subst machine_loop.simps) simp
qed

lemma loop_ends: "ends M m c r \<Longrightarrow> loop_at M m c = Some r"
proof -
  assume e: "ends M m c r"
  obtain name tr w where c: "c = (name, tr, w)" by (cases c) auto
  from e show ?thesis unfolding c loop_at.simps
    by (subst machine_loop.simps) (cases "machine_turn M m name tr w", simp_all)
qed


lemma loop_reaches_end:
  "machine_loop M m name tr w = Some r \<Longrightarrow> \<exists>d. (hop M m)\<^sup>*\<^sup>* (name, tr, w) d \<and> ends M m d r"
proof (rule machine_loop.raw_induct [where P = "\<lambda>M m name tr w r. \<exists>d. (hop M m)\<^sup>*\<^sup>* (name, tr, w) d \<and> ends M m d r"])
  fix loop M m name tr w r
  assume IH: "\<And>M m name tr w r. loop M m name tr w = Some r \<Longrightarrow> \<exists>d. (hop M m)\<^sup>*\<^sup>* (name, tr, w) d \<and> ends M m d r"
    and res: "(case machine_turn M m name tr w of
       Go name' tr' w' \<Rightarrow> loop M m name' tr' w'
     | Break name' w' \<Rightarrow> Some (finish M m name' w')
     | Return e w' \<Rightarrow> Some (w', e)) = Some r"
  show "\<exists>d. (hop M m)\<^sup>*\<^sup>* (name, tr, w) d \<and> ends M m d r"
  proof (cases "machine_turn M m name tr w")
    case (Go name' tr' w')
    with res have "loop M m name' tr' w' = Some r" by simp
    from IH [OF this] obtain d where "(hop M m)\<^sup>*\<^sup>* (name', tr', w') d" "ends M m d r" by blast
    with Go show ?thesis by (meson hop converse_rtranclp_into_rtranclp)
  next
    case (Break name' w')
    with res show ?thesis by (intro exI [of _ "(name, tr, w)"]) simp
  next
    case (Return e w')
    with res show ?thesis by (intro exI [of _ "(name, tr, w)"]) simp
  qed
qed


section \<open>Why a machine steps\<close>

text \<open>The first transition whose condition holds, in the world \<open>w\<close> after the state ran.\<close>

definition first_matching :: "('c, 'w, 'x) machine_ops \<Rightarrow> 'c \<times> 'w \<Rightarrow> string \<Rightarrow> transition list \<Rightarrow> transition_data \<Rightarrow> bool" where
  "first_matching M cw name ts d \<longleftrightarrow> (\<exists>pre t post. ts = pre @ t # post \<and>
     list_all (\<lambda>u. EvaluateCEL (mo_resolver M) (mo_source M cw name (tr_to u)) (tr_when u) = Inr False) pre \<and>
     EvaluateCEL (mo_resolver M) (mo_source M cw name (tr_to t)) (tr_when t) = Inr True \<and>
     td_to d = tr_to t \<and> td_from d = name \<and> td_failure d = None \<and>
     renderTransitionPayload M cw t name = Inr (td_payload d))"

lemma evaluateTransitions_first:
  "evaluateTransitions M cw name idx ts = Inr (Some d) \<Longrightarrow> first_matching M cw name ts d"
proof (induction ts arbitrary: idx)
  case (Cons t ts)
  from Cons.prems obtain b where b: "EvaluateCEL (mo_resolver M) (mo_source M cw name (tr_to t)) (tr_when t) = Inr b"
    by (auto split: sum.splits)
  show ?case
  proof (cases b)
    case True
    with Cons.prems b show ?thesis unfolding first_matching_def
      by (intro exI [of _ "[]"] exI [of _ t] exI [of _ ts])
        (auto simp: NewTransitionData_def NewFailureTransitionData_def split: sum.splits)
  next
    case False
    with Cons.prems b have "evaluateTransitions M cw name (Suc idx) ts = Inr (Some d)" by simp
    from Cons.IH [OF this] obtain pre u post where "ts = pre @ u # post"
      "list_all (\<lambda>u. EvaluateCEL (mo_resolver M) (mo_source M cw name (tr_to u)) (tr_when u) = Inr False) pre"
      "EvaluateCEL (mo_resolver M) (mo_source M cw name (tr_to u)) (tr_when u) = Inr True"
      "td_to d = tr_to u \<and> td_from d = name \<and> td_failure d = None \<and> renderTransitionPayload M cw u name = Inr (td_payload d)"
      unfolding first_matching_def by blast
    with False b show ?thesis unfolding first_matching_def
      by (intro exI [of _ "t # pre"] exI [of _ u] exI [of _ post]) simp
  qed
qed simp

lemma evaluateTransitions_none:
  "evaluateTransitions M cw name idx ts = Inr None \<longleftrightarrow>
     list_all (\<lambda>t. EvaluateCEL (mo_resolver M) (mo_source M cw name (tr_to t)) (tr_when t) = Inr False) ts"
  by (induction ts arbitrary: idx) (auto split: sum.split)

lemma decided_Some: "decided d = Some t \<longleftrightarrow> d = Some t \<and> td_to t \<noteq> []"
  by (auto simp: decided_def split: option.splits)

text \<open>What a step of the loop rests on: the state is one of the machine's, it was prepared and run
  to its end, and then either its catch clauses routed to a state of the machine, or its first
  matching transition was taken.\<close>

definition justified :: "('c, 'w, 'x) machine_ops \<Rightarrow> 'c machine \<Rightarrow> 'w config \<Rightarrow> 'w config \<Rightarrow> bool" where
  "justified M m c d \<longleftrightarrow> (case (c, d) of ((name, tr, w), (name', tr', w')) \<Rightarrow>
     \<exists>sd n w1 r. ma_states m name = Some sd \<and> prepare M m name (sd_node sd) w = (w1, Inr n) \<and>
       run_current M m name n tr w1 = (w', EndRoute r) \<and> td_to tr' = name' \<and>
       (r = Some tr' \<and> ma_states m name' \<noteq> None \<or>
        r = None \<and> first_matching M (ma_context m, w') name (sd_transitions sd) tr' \<and> name' \<noteq> []))"

lemma after_state_Go:
  "after_state M m name sd r w = Go name' tr' w' \<Longrightarrow> w' = w \<and> td_to tr' = name' \<and>
     (r = Some tr' \<and> ma_states m name' \<noteq> None \<or>
      r = None \<and> first_matching M (ma_context m, w) name (sd_transitions sd) tr' \<and> name' \<noteq> [])"
  by (auto simp: after_state_def decided_Some dest: evaluateTransitions_first split: option.splits if_splits sum.splits)

lemma hop_justified: "hop M m c d \<Longrightarrow> justified M m c d"
proof (induction rule: hop.induct)
  case (hop name tr w name' tr' w')
  then obtain sd w1 n w2 r where "ma_states m name = Some sd" "prepare M m name (sd_node sd) w = (w1, Inr n)"
    "run_current M m name n tr w1 = (w2, EndRoute r)" "after_state M m name sd r w2 = Go name' tr' w'"
    by (auto simp: machine_turn_def split: option.splits prod.splits sum.splits state_end.splits)
  with after_state_Go [OF this(4)] show ?case unfolding justified_def by auto
qed

text \<open>C5. A machine that starts begins in the state its first matching initial transition names, and
  every further state it reaches was entered by a justified step; it runs only states it has, and
  a target it does not have ends it.\<close>

theorem machine_follows_transitions:
  assumes "run_machine M m w = Some (w', e)"
  shows "(\<exists>x. evaluateInitialState M (ma_context m, w) (ma_initial m) = Inl x \<and> e = Some x \<and> w' = w) \<or>
    (\<exists>t. first_matching M (ma_context m, w) [] (ma_initial m) t \<and>
       (ma_states m (td_to t) = None \<and> e = Some (StateNotFound (td_to t)) \<and> w' = w \<or>
        (\<exists>d. (\<lambda>c d. hop M m c d \<and> justified M m c d)\<^sup>*\<^sup>* (td_to t, t, w) d \<and> ends M m d (w', e) \<and>
          (ma_states m (fst d) = None \<longrightarrow> e = Some (StateNotFound (fst d))))))"
proof (cases "evaluateInitialState M (ma_context m, w) (ma_initial m)")
  case (Inl x)
  with assms show ?thesis by (auto simp: run_machine_def)
next
  case (Inr t)
  then have f: "first_matching M (ma_context m, w) [] (ma_initial m) t"
    by (auto simp: evaluateInitialState_def ok_iff decided_Some dest: evaluateTransitions_first
        split: if_splits option.splits)
  have j: "(\<lambda>c d. hop M m c d \<and> justified M m c d) = hop M m" using hop_justified by (intro ext) blast
  show ?thesis
  proof (cases "ma_states m (td_to t) = None")
    case True
    with assms Inr f show ?thesis by (auto simp: run_machine_def)
  next
    case False
    with assms Inr have "machine_loop M m (td_to t) t w = Some (w', e)" by (auto simp: run_machine_def)
    from loop_reaches_end [OF this] obtain d where d: "(hop M m)\<^sup>*\<^sup>* (td_to t, t, w) d" "ends M m d (w', e)" by blast
    moreover have "ma_states m (fst d) = None \<longrightarrow> e = Some (StateNotFound (fst d))"
      using d(2) by (cases d) (auto simp: machine_turn_def)
    ultimately show ?thesis using f unfolding j by (intro disjI2 exI [of _ t] conjI exI [of _ d])
  qed
qed

section \<open>Termination\<close>


definition transitions_descend :: "'c machine \<Rightarrow> (string \<Rightarrow> nat) \<Rightarrow> bool" where
  "transitions_descend m rank \<longleftrightarrow>
     (\<forall>name sd t. ma_states m name = Some sd \<longrightarrow> t \<in> set (sd_transitions sd) \<longrightarrow> rank (tr_to t) < rank name)"

definition routes_descend :: "('c, 'w, 'x) machine_ops \<Rightarrow> 'c machine \<Rightarrow> (string \<Rightarrow> nat) \<Rightarrow> bool" where
  "routes_descend M m rank \<longleftrightarrow>
     (\<forall>name sd n tr w w' t. ma_states m name = Some sd \<longrightarrow>
        run_current M m name n tr w = (w', EndRoute (Some t)) \<longrightarrow> rank (td_to t) < rank name)"

lemma justified_descends:
  assumes "transitions_descend m rank" "routes_descend M m rank" "hop M m c d"
  shows "rank (fst d) < rank (fst c)"
proof -
  obtain name tr w name' tr' w' where cd: "c = (name, tr, w)" "d = (name', tr', w')" by (cases c, cases d) auto
  from hop_justified [OF assms(3)] obtain sd n w1 r where j: "ma_states m name = Some sd"
    "run_current M m name n tr w1 = (w', EndRoute r)" "td_to tr' = name'"
    "r = Some tr' \<or> first_matching M (ma_context m, w') name (sd_transitions sd) tr'"
    unfolding justified_def cd by auto
  from j(4) show ?thesis
  proof
    assume "r = Some tr'"
    with assms(2) j(1-3) cd show ?thesis unfolding routes_descend_def by auto
  next
    assume "first_matching M (ma_context m, w') name (sd_transitions sd) tr'"
    then obtain t where "t \<in> set (sd_transitions sd)" "td_to tr' = tr_to t"
      unfolding first_matching_def by (metis in_set_conv_decomp)
    with assms(1) j(1,3) cd show ?thesis unfolding transitions_descend_def by auto
  qed
qed

text \<open>C26. A machine whose transitions and routes all lead to states of a smaller rank returns, and
  takes at most as many steps as the rank of its first state.\<close>

theorem machine_terminates:
  assumes "transitions_descend m rank" "routes_descend M m rank"
  shows "(\<exists>r. run_machine M m w = Some r) \<and>
    (\<forall>t k d. evaluateInitialState M (ma_context m, w) (ma_initial m) = Inr t \<longrightarrow>
      (hop M m ^^ k) (td_to t, t, w) d \<longrightarrow> k \<le> rank (td_to t))"
proof -
  note less = justified_descends [OF assms]
  have "\<exists>r. loop_at M m c = Some r" for c
  proof (induction "rank (fst c)" arbitrary: c rule: less_induct)
    case less': less
    from ends_or_hops [of M m c] show ?case
    proof
      assume "\<exists>d. hop M m c d"
      then obtain d where "hop M m c d" by blast
      with less'(1) [OF less [OF this]] show ?thesis by (simp add: loop_hop)
    qed (blast dest: loop_ends)
  qed
  then have "\<exists>r. machine_loop M m name tr w = Some r" for name tr w by (metis loop_at.simps)
  then have "\<exists>r. run_machine M m w = Some r"
    by (auto simp: run_machine_def split: sum.split)
  moreover have "(hop M m ^^ k) c d \<Longrightarrow> k + rank (fst d) \<le> rank (fst c)" for k c d
    by (induction k arbitrary: d) (fastforce dest: less)+
  then have "(hop M m ^^ k) (n, t, w) d \<Longrightarrow> k \<le> rank n" for k n t d by fastforce
  ultimately show ?thesis by blast
qed

definition ex_machine_ops :: "(unit, string list, unit) machine_ops" where
  "ex_machine_ops = \<lparr>mo_resolver = \<lparr>rs_expression = (\<lambda>c e. Inr (GBool (e = ''go''))), rs_map = (\<lambda>c p. Inr p),
       rs_interpolate = (\<lambda>c v. Inr v), rs_with_failure = (\<lambda>c f. c)\<rparr>,
     mo_source = (\<lambda>cw n to. cw), mo_scope = (\<lambda>c meta k n body w. body c w),
     mo_child = (\<lambda>c meta n t w. (w, Inr c)), mo_enter = (\<lambda>c meta w. (w, Inr c)), mo_publish = (\<lambda>c d w. w),
     mo_vars = (\<lambda>c p w. (w, None)), mo_execute = (\<lambda>c n w. (w @ [nm_id (rn_meta n)], None)),
     mo_prepare_hook = (\<lambda>c i n w. (w, Inr n)), mo_complete = (\<lambda>c p n w. (w @ [n], None))\<rparr>"

definition ex_node :: "string \<Rightarrow> rnode" where
  "ex_node i = \<lparr>rn_kind = KOp, rn_meta = \<lparr>nm_id = i, nm_retry = None, nm_timeout = 0, nm_catch = [], nm_vars = [],
     nm_workspace = None, nm_rest = GNil\<rparr>, rn_body = GNil\<rparr>"

definition ex_to :: "string \<Rightarrow> string \<Rightarrow> transition" where
  "ex_to w to = \<lparr>tr_to = to, tr_when = w, tr_payload = []\<rparr>"

definition ex_machine :: "unit machine" where
  "ex_machine = \<lparr>ma_states = [''a'' \<mapsto> \<lparr>sd_node = ex_node ''A'', sd_transitions = [ex_to ''no'' ''a2'', ex_to ''go'' ''b'']\<rparr>,
       ''b'' \<mapsto> \<lparr>sd_node = ex_node ''B'', sd_transitions = []\<rparr>],
     ma_initial = [ex_to [] ''a''], ma_catch = [], ma_outputs = [], ma_context = ()\<rparr>"

theorem machine_follows_transitions_witness:
  "run_machine ex_machine_ops ex_machine [] = Some ([''A'', ''B'', ''b''], None) \<and>
   (\<exists>t d. first_matching ex_machine_ops (ma_context ex_machine, []) [] (ma_initial ex_machine) t \<and>
     (\<lambda>c d. hop ex_machine_ops ex_machine c d \<and> justified ex_machine_ops ex_machine c d)\<^sup>*\<^sup>* (td_to t, t, []) d \<and>
     ends ex_machine_ops ex_machine d ([''A'', ''B'', ''b''], None))"
proof -
  have i: "evaluateInitialState ex_machine_ops (ma_context ex_machine, []) (ma_initial ex_machine) = Inr (NewTransitionData [] ''a'' None)"
    "ma_states ex_machine ''a'' \<noteq> None" "td_to (NewTransitionData [] ''a'' None) = ''a''"
    by (code_simp, simp add: ex_machine_def, code_simp)
  have a: "machine_turn ex_machine_ops ex_machine ''a'' (NewTransitionData [] ''a'' None) [] =
      Go ''b'' (NewTransitionData ''a'' ''b'' None) [''A'']" by code_simp
  have b: "machine_turn ex_machine_ops ex_machine ''b'' (NewTransitionData ''a'' ''b'' None) [''A''] = Break ''b'' [''A'', ''B'']"
    "finish ex_machine_ops ex_machine ''b'' [''A'', ''B''] = ([''A'', ''B'', ''b''], None)" by (code_simp, code_simp)
  have "machine_loop ex_machine_ops ex_machine ''a'' (NewTransitionData [] ''a'' None) [] = Some ([''A'', ''B'', ''b''], None)"
    by (subst machine_loop.simps, simp only: a turn.case) (subst machine_loop.simps, simp only: b turn.case)
  with i have r: "run_machine ex_machine_ops ex_machine [] = Some ([''A'', ''B'', ''b''], None)"
    by (simp add: run_machine_def)
  from machine_follows_transitions [OF r] r show ?thesis by auto
qed

theorem machine_terminates_witness:
  "\<exists>r. run_machine ex_machine_ops ex_machine [] = Some r"
proof -
  define rank :: "string \<Rightarrow> nat" where "rank n = (if n = ''a'' then 1 else 0)" for n
  have "(\<exists>r. run_machine ex_machine_ops ex_machine [] = Some r) \<and>
    (\<forall>t k d. evaluateInitialState ex_machine_ops (ma_context ex_machine, []) (ma_initial ex_machine) = Inr t \<longrightarrow>
      (hop ex_machine_ops ex_machine ^^ k) (td_to t, t, []) d \<longrightarrow> k \<le> rank (td_to t))"
  proof (rule machine_terminates)
    show "transitions_descend ex_machine rank"
      by (auto simp: transitions_descend_def ex_machine_def ex_to_def rank_def split: if_splits)
    show "routes_descend ex_machine_ops ex_machine rank"
      by (auto simp: routes_descend_def run_current_def ex_machine_def ex_machine_ops_def runState_def runStateAttempt_def runStateBody_def
          withNodeWorkspace_def route_of_def as_error_def split: if_splits)
  qed
  then show ?thesis by blast
qed

section \<open>What validation visits\<close>

text \<open>\<open>states\<close> lists the states in the order Go's map iteration happens to take; \<open>catch_to c src cl\<close> is
  the transition of a routing clause, its payload rendered against the placeholder failure.\<close>

definition validationCatchTransitions :: "('c, 'x) resolver \<Rightarrow> 'c \<Rightarrow> catch_clause list \<Rightarrow> string \<Rightarrow> transition_data list" where
  "validationCatchTransitions R c cls source =
     map (\<lambda>cl. NewFailureTransitionData source (cc_to cl)
         (Some (case rs_map R (rs_with_failure R c validationFailure) (cc_payload cl) of Inl _ \<Rightarrow> [] | Inr p \<Rightarrow> p))
         (Some validationFailure))
       (filter (\<lambda>cl. cc_to cl \<noteq> []) cls)"

record incoming =
  in_normal :: bool
  in_catch :: "transition_data list"

type_synonym edges = "string \<rightharpoonup> incoming"

definition edge_of :: "edges \<Rightarrow> string \<Rightarrow> incoming" where
  "edge_of E n = (case E n of None \<Rightarrow> \<lparr>in_normal = False, in_catch = []\<rparr> | Some i \<Rightarrow> i)"

definition note_normal :: "edges \<Rightarrow> transition \<Rightarrow> edges" where
  "note_normal E t = E(tr_to t \<mapsto> (edge_of E (tr_to t))\<lparr>in_normal := True\<rparr>)"

definition note_catch :: "edges \<Rightarrow> transition_data \<Rightarrow> edges" where
  "note_catch E t = E(td_to t \<mapsto> (edge_of E (td_to t))\<lparr>in_catch := in_catch (edge_of E (td_to t)) @ [t]\<rparr>)"

definition buildValidationIncomingEdges :: "('c, 'x) resolver \<Rightarrow> 'c \<Rightarrow> catch_clause list \<Rightarrow> transition list \<Rightarrow>
    (string \<times> state_def) list \<Rightarrow> edges" where
  "buildValidationIncomingEdges R c containerCatch ini states =
     (let E = foldl note_normal Map.empty ini;
          E = foldl (\<lambda>E (source, s). foldl note_catch (foldl note_normal E (sd_transitions s))
                (validationCatchTransitions R c (nm_catch (rn_meta (sd_node s))) source)) E states
      in foldl note_catch E (validationCatchTransitions R c containerCatch []))"

definition validationTransitionsForState :: "string \<Rightarrow> edges \<Rightarrow> transition_data list" where
  "validationTransitionsForState n E =
     (if E n = None \<or> in_normal (edge_of E n) then [NewTransitionData [] n None] else []) @ in_catch (edge_of E n)"

lemma edge_of_update: "edge_of (E(n \<mapsto> i)) k = (if k = n then i else edge_of E k)"
  by (simp add: edge_of_def)

lemma catch_kept: "in_catch (edge_of (foldl note_normal E ts) n) = in_catch (edge_of E n)"
proof (induction ts arbitrary: E)
  case (Cons t ts)
  have "in_catch (edge_of (note_normal E t) n) = in_catch (edge_of E n)"
    by (simp add: note_normal_def edge_of_update)
  with Cons show ?case by simp
qed simp

lemma note_catch_set:
  "set (in_catch (edge_of (foldl note_catch E ts) n)) = set (in_catch (edge_of E n)) \<union> {t \<in> set ts. td_to t = n}"
proof (induction ts arbitrary: E)
  case (Cons t ts)
  have "set (in_catch (edge_of (note_catch E t) n)) = set (in_catch (edge_of E n)) \<union> {u. u = t \<and> td_to t = n}"
    by (auto simp: note_catch_def edge_of_update)
  with Cons show ?case by auto
qed simp

text \<open>An edge is recorded only with a reason to visit its state.\<close>

definition visited :: "edges \<Rightarrow> bool" where
  "visited E \<longleftrightarrow> (\<forall>n i. E n = Some i \<longrightarrow> in_normal i \<or> in_catch i \<noteq> [])"

lemma visited_normal: "visited E \<Longrightarrow> visited (foldl note_normal E ts)"
proof (induction ts arbitrary: E)
  case (Cons t ts)
  from Cons.prems have "visited (note_normal E t)" by (simp add: visited_def note_normal_def)
  with Cons.IH show ?case by simp
qed simp

lemma visited_catch: "visited E \<Longrightarrow> visited (foldl note_catch E ts)"
proof (induction ts arbitrary: E)
  case (Cons t ts)
  from Cons.prems have "visited (note_catch E t)" by (simp add: visited_def note_catch_def)
  with Cons.IH show ?case by simp
qed simp

definition state_routes :: "('c, 'x) resolver \<Rightarrow> 'c \<Rightarrow> string \<times> state_def \<Rightarrow> transition_data list" where
  "state_routes R c ns = validationCatchTransitions R c (nm_catch (rn_meta (sd_node (snd ns)))) (fst ns)"

lemma states_edges:
  defines "F R c \<equiv> foldl (\<lambda>E (source, s). foldl note_catch (foldl note_normal E (sd_transitions s))
      (validationCatchTransitions R c (nm_catch (rn_meta (sd_node s))) source))"
  shows "visited E \<Longrightarrow> visited (F R c E states)"
    "set (in_catch (edge_of (F R c E states) n)) =
       set (in_catch (edge_of E n)) \<union> {t \<in> (\<Union>ns \<in> set states. set (state_routes R c ns)). td_to t = n}"
proof -
  show "visited E \<Longrightarrow> visited (F R c E states)" unfolding F_def
    by (induction states arbitrary: E) (auto simp: visited_normal visited_catch)
  show "set (in_catch (edge_of (F R c E states) n)) =
       set (in_catch (edge_of E n)) \<union> {t \<in> (\<Union>ns \<in> set states. set (state_routes R c ns)). td_to t = n}"
    unfolding F_def
    by (induction states arbitrary: E) (auto simp: note_catch_set catch_kept state_routes_def)
qed

lemma routes_have_failure: "t \<in> set (validationCatchTransitions R c cls src) \<Longrightarrow> td_failure t \<noteq> None"
  by (auto simp: validationCatchTransitions_def NewFailureTransitionData_def)

text \<open>Exhaustive validation runs every state at least once, and after a failure exactly along the
  routes into it: those of its own machine's states and of the machine itself.\<close>

theorem validation_visits_routes:
  "validationTransitionsForState n (buildValidationIncomingEdges R c ccls ini states) \<noteq> [] \<and>
   {t \<in> set (validationTransitionsForState n (buildValidationIncomingEdges R c ccls ini states)). td_failure t \<noteq> None} =
   {t \<in> (\<Union>ns \<in> set states. set (state_routes R c ns)) \<union> set (validationCatchTransitions R c ccls []). td_to t = n}"
proof -
  let ?E = "buildValidationIncomingEdges R c ccls ini states"
  have "visited Map.empty" by (simp add: visited_def)
  then have v: "visited ?E"
    unfolding buildValidationIncomingEdges_def Let_def by (intro visited_catch states_edges(1) visited_normal)
  have "in_catch (edge_of Map.empty n) = []" by (simp add: edge_of_def)
  then have c: "set (in_catch (edge_of ?E n)) =
      {t \<in> (\<Union>ns \<in> set states. set (state_routes R c ns)) \<union> set (validationCatchTransitions R c ccls []). td_to t = n}"
    unfolding buildValidationIncomingEdges_def Let_def
    by (auto simp: note_catch_set states_edges(2) catch_kept)
  have "validationTransitionsForState n ?E \<noteq> []"
    using v by (cases "?E n") (auto simp: validationTransitionsForState_def edge_of_def visited_def)
  moreover have "{t \<in> set (validationTransitionsForState n ?E). td_failure t \<noteq> None} = set (in_catch (edge_of ?E n))"
    using c routes_have_failure unfolding state_routes_def
    by (auto simp: validationTransitionsForState_def NewTransitionData_def NewFailureTransitionData_def)
  ultimately show ?thesis using c by simp
qed

end
