(* ===== verification/Input_Contract.thy ===== *)
theory Input_Contract
  imports Config_Refs
begin

text \<open>
  \<^verbatim>\<open>pkg/recipe/input_contract.go\<close>, \<^verbatim>\<open>input_schema.go\<close>, \<^verbatim>\<open>input_schema_v1.go\<close> and
  \<^verbatim>\<open>schema_version.go\<close>: the declared inputs of a recipe, their validation, and what they do to
  submitted values. Values are JSON-shaped, with the typed references of secrets and configuration;
  a Go map's keys are visited in sorted order. The CEL literal parser, the JSON string decoder, the
  object library and the recognition of artifact values are parameters.
\<close>

section \<open>Schemas\<close>

datatype input_schema = Schema
  (is_source: string) (is_secret: bool) (is_object_type: string) (is_type: string) (is_required: bool)
  (is_default: gval) (is_props: "(string \<times> input_schema) list option") (is_items: "input_schema option")
  (is_extra: "extra_props option")
  and extra_props = Extra (xp_allowed: bool) (xp_schema: "input_schema option")

text \<open>\<open>is_default\<close> is \<open>GNil\<close> where the code has nil. The description is left out.\<close>

definition bare :: "string \<Rightarrow> input_schema" where
  "bare t = Schema [] False [] t False GNil None None None"

datatype input_error =
    MissingField string
  | NotDeclared string
  | SecretInvalid string secret_error
  | ConfigInvalid string config_error
  | NotSimple string
  | ConflictingType string
  | NotObject string
  | NotOrdinaryData string
  | NotMarkedSecret string
  | NotArray string
  | UndeclaredReference string
  | NeedsCheckpointSchema string
  | PlaintextSecret string
  | NilField string
  | WrongInputType string string
  | BadCheckpoint string obj_error
  | NotCheckpoint string
  | WrongObjectType string string string
  | UnsupportedInputType string string
  | TooDeep string
  | BadDeclaration string string
  | SecretNotString string
  | UnsupportedVersion int

record input_lib =
  il_cel :: "string \<Rightarrow> cel_literal option"
  il_unquote :: "string \<Rightarrow> string option"
  il_obj :: obj_lib
  il_artifact :: "gval \<Rightarrow> bool"

definition typeName :: "input_schema \<Rightarrow> string" where
  "typeName def = (if is_source def \<noteq> [] then is_source def else is_type def)"

section \<open>Scalars\<close>

fun has_kind :: "string \<Rightarrow> gval \<Rightarrow> bool" where
  "has_kind t (GStr s) = (t = ''string'')"
| "has_kind t (GNum x) = (t = ''number'')"
| "has_kind t (GBool b) = (t = ''boolean'')"
| "has_kind t v = False"

definition isArtifactMapValue :: "input_lib \<Rightarrow> gval \<Rightarrow> bool" where
  "isArtifactMapValue L v = (case v of GMap m \<Rightarrow> list_all (\<lambda>(k, x). il_artifact L x) m | _ \<Rightarrow> False)"

definition validate_checkpoint :: "input_lib \<Rightarrow> string \<Rightarrow> string \<Rightarrow> gval \<Rightarrow> input_error + unit" where
  "validate_checkpoint L key ot v = (case obj_Parse (il_obj L) v of
     BadRef e \<Rightarrow> Inl (BadCheckpoint key e)
   | NotRef \<Rightarrow> Inl (NotCheckpoint key)
   | Ref r \<Rightarrow> check (ot = [] \<or> o_type r = ot) (WrongObjectType key ot (o_type r)))"

definition schema_validate :: "input_lib \<Rightarrow> input_schema \<Rightarrow> string \<Rightarrow> gval \<Rightarrow> input_error + unit" where
  "schema_validate L def key v =
     (if is_secret def then
        (case Parse v of
           Ref r \<Rightarrow> Inr () | BadRef e \<Rightarrow> Inl (SecretInvalid key e) | NotRef \<Rightarrow> Inl (PlaintextSecret key))
      else case config_Parse v of
        Ref r \<Rightarrow> Inr ()
      | BadRef e \<Rightarrow> Inl (ConfigInvalid key e)
      | NotRef \<Rightarrow>
          if Contains v then Inl (NotMarkedSecret key)
          else if v = GNil then Inl (NilField key)
          else if is_type def \<in> {''string'', ''number'', ''boolean''}
            then check (has_kind (is_type def) v) (WrongInputType key (is_type def))
          else if is_type def = ''checkpoint'' then validate_checkpoint L key (is_object_type def) v
          else if is_type def = ''artifact'' then check (il_artifact L v) (WrongInputType key ''artifact'')
          else if is_type def = ''artifact_map'' then check (isArtifactMapValue L v) (WrongInputType key ''artifact_map'')
          else Inl (UnsupportedInputType key (typeName def)))"

definition validateMissing :: "input_schema \<Rightarrow> string \<Rightarrow> input_error + unit" where
  "validateMissing def key = check (\<not> (is_required def \<and> is_default def = GNil)) (MissingField key)"

definition ValidateSecretDeclaration :: "input_schema \<Rightarrow> string \<Rightarrow> input_error + unit" where
  "ValidateSecretDeclaration def path =
     (if \<not> is_secret def then Inr ()
      else if is_type def \<noteq> ''string'' then Inl (SecretNotString path)
      else if is_default def = GNil then Inr ()
      else (case ValidateDefault (is_default def) of Inl e \<Rightarrow> Inl (SecretInvalid path e) | Inr _ \<Rightarrow> Inr ()))"

section \<open>References in declared decl\<close>

definition no_secret :: secret_ref where
  "no_secret = \<lparr>sr_name = [], sr_default = None, sr_omit = False, sr_required = False\<rparr>"

definition template_secret :: "input_lib \<Rightarrow> gval \<Rightarrow> gval" where
  "template_secret L v = (case v of
     GStr t \<Rightarrow> (case Template (il_cel L) t of Some r \<Rightarrow> secret_value r | None \<Rightarrow> v) | _ \<Rightarrow> v)"

definition secret_field :: "input_lib \<Rightarrow> string \<Rightarrow> input_schema \<Rightarrow> gval \<Rightarrow> input_error + gval" where
  "secret_field L path def v =
     (let v = template_secret L v in case Parse v of
        NotRef \<Rightarrow> Inr v
      | BadRef e \<Rightarrow> Inl (SecretInvalid path e)
      | Ref r \<Rightarrow> Inr (secret_value (WithDefault
          (if sr_omit r \<and> is_required def then r\<lparr>sr_required := True\<rparr> else r) (is_default def))))"

definition simple_type :: "string \<Rightarrow> bool" where
  "simple_type t = (t = ''string'' \<or> t = ''number'' \<or> t = ''boolean'')"

definition template_config :: "input_lib \<Rightarrow> gval \<Rightarrow> gval" where
  "template_config L v = (case v of
     GStr t \<Rightarrow> (case config_Template (il_cel L) (il_unquote L) t of Some r \<Rightarrow> config_value r | None \<Rightarrow> v) | _ \<Rightarrow> v)"

definition config_field :: "input_lib \<Rightarrow> string \<Rightarrow> input_schema \<Rightarrow> gval \<Rightarrow> input_error + gval" where
  "config_field L path def v =
     (let v = template_config L v in case config_Parse v of
        NotRef \<Rightarrow> Inr v
      | BadRef e \<Rightarrow> Inl (ConfigInvalid path e)
      | Ref r \<Rightarrow>
          if \<not> simple_type (is_type def) then Inl (NotSimple path)
          else if c_type r \<noteq> [] \<and> c_type r \<noteq> is_type def then Inl (ConflictingType path)
          else Inr (config_value (r\<lparr>c_type := is_type def\<rparr>)))"

definition reference_field :: "input_lib \<Rightarrow> string \<Rightarrow> input_schema \<Rightarrow> gval \<Rightarrow> input_error + gval" where
  "reference_field L path def v = (if is_secret def then secret_field L path def v else config_field L path def v)"

section \<open>Applying a contract\<close>

definition input_keys :: "(string \<times> 'a) list \<Rightarrow> string list" where
  "input_keys m = sort_compact (map fst m)"

definition inputPath :: "string \<Rightarrow> string \<Rightarrow> string" where
  "inputPath parent key = (if parent = [] then key else parent @ ''.'' @ key)"

definition item_path :: "string \<Rightarrow> nat \<Rightarrow> string" where
  "item_path path i = path @ ''['' @ show_nat i @ '']''"

definition default_value :: "input_schema \<Rightarrow> gval" where
  "default_value def = (if is_secret def then secret_value (WithDefault no_secret (is_default def)) else is_default def)"

definition open_extra :: extra_props where
  "open_extra = Extra True None"

text \<open>Sizes for termination: a schema without parts weighs nothing, so that copying, which applies
  bare schemas, descends in the value.\<close>

definition leaf :: "input_schema \<Rightarrow> bool" where
  "leaf def = (is_props def = None \<and> is_items def = None \<and> is_extra def = None)"

definition schema_weight :: "input_schema \<Rightarrow> nat" where
  "schema_weight def = (if leaf def then 0 else size def)"

definition fields_weight :: "(string \<times> input_schema) list \<Rightarrow> extra_props option \<Rightarrow> nat" where
  "fields_weight decl extra =
     (\<Sum>(k, d) \<leftarrow> decl. Suc (size d)) + (case extra of Some (Extra a (Some d)) \<Rightarrow> Suc (size d) | _ \<Rightarrow> 0)"

lemma props_weight: "(\<Sum>(k, d) \<leftarrow> decl. Suc (size d)) \<le> size_list (size_prod (\<lambda>_. 0) size) decl"
  by (induction decl) auto

definition props_of :: "input_schema \<Rightarrow> (string \<times> input_schema) list" where
  "props_of def = (case is_props def of None \<Rightarrow> [] | Some ps \<Rightarrow> ps)"

definition extra_of :: "input_schema \<Rightarrow> extra_props" where
  "extra_of def = (case is_extra def of None \<Rightarrow> open_extra | Some x \<Rightarrow> x)"

lemma fields_weight_le: "fields_weight (props_of def) (Some (extra_of def)) \<le> schema_weight def \<and>
    (\<not> leaf def \<longrightarrow> fields_weight (props_of def) (Some (extra_of def)) < schema_weight def)"
proof -
  obtain a b c d e f ps it ex where def: "def = Schema a b c d e f ps it ex" by (cases def)
  have "(\<Sum>(k, d) \<leftarrow> props_of def. Suc (size d)) \<le> size_option (size_list (size_prod (\<lambda>_. 0) size)) ps"
    using props_weight [of "props_of def"] by (cases ps) (auto simp: def props_of_def)
  moreover have "(case Some (extra_of def) of Some (Extra a (Some d)) \<Rightarrow> Suc (size d) | _ \<Rightarrow> 0) \<le> size_option size ex"
    by (cases ex) (auto simp: def extra_of_def open_extra_def split: extra_props.split option.split)
  ultimately have "fields_weight (props_of def) (Some (extra_of def)) < size def"
    by (simp add: fields_weight_def def)
  moreover have "leaf def \<Longrightarrow> fields_weight (props_of def) (Some (extra_of def)) = 0"
    by (simp add: def leaf_def props_of_def extra_of_def open_extra_def fields_weight_def)
  ultimately show ?thesis by (auto simp: schema_weight_def)
qed

lemma item_weight: "is_items def = Some it \<Longrightarrow> schema_weight it < schema_weight def"
  by (cases def) (auto simp: schema_weight_def leaf_def)

lemma field_weight: "map_of decl k = Some d \<Longrightarrow> schema_weight d < fields_weight decl extra"
proof -
  assume "map_of decl k = Some d"
  then have "(k, d) \<in> set decl" by (rule map_of_SomeD)
  then have "Suc (size d) \<le> (\<Sum>(k, d) \<leftarrow> decl. Suc (size d))"
    by (induction decl) auto
  then show ?thesis by (simp add: fields_weight_def schema_weight_def)
qed

lemma extra_weight: "schema_weight d < fields_weight decl (Some (Extra a (Some d)))"
  by (simp add: fields_weight_def schema_weight_def)

lemma fields_weight_eq:
  "\<not> fields_weight (props_of def) (Some (extra_of def)) < schema_weight def \<Longrightarrow>
     fields_weight (props_of def) (Some (extra_of def)) = schema_weight def"
  using fields_weight_le [of def] by simp

lemma bare_weight [simp]: "schema_weight (bare t) = 0"
  by (simp add: schema_weight_def leaf_def bare_def)

lemma reference_field_map:
  "reference_field L path def v = Inr (GMap m) \<Longrightarrow> v = GMap m"
  "reference_field L path def v = Inr (GList xs) \<Longrightarrow> v = GList xs"
  by (auto simp: reference_field_def secret_field_def config_field_def template_secret_def template_config_def Let_def
      secret_value_def config_value_def split: if_splits gval.splits option.splits parsed.splits)

function apply_fields :: "input_lib \<Rightarrow> string \<Rightarrow> (string \<times> input_schema) list \<Rightarrow> extra_props option \<Rightarrow> (string \<times> gval) list \<Rightarrow>
    input_error + (string \<times> gval) list"
  and apply_value :: "input_lib \<Rightarrow> string \<Rightarrow> input_schema \<Rightarrow> gval \<Rightarrow> input_error + gval"
  and copy_json :: "input_lib \<Rightarrow> string \<Rightarrow> gval \<Rightarrow> input_error + gval"
where
  "apply_fields L path decl extra data =
     bindE (mapE (\<lambda>k. case map_of decl k of
         None \<Rightarrow> Inr []
       | Some def \<Rightarrow> (case map_of data k of
           Some v \<Rightarrow> bindE (apply_value L (inputPath path k) def v) (\<lambda>w. Inr [(k, w)])
         | None \<Rightarrow> bindE (validateMissing def (inputPath path k)) (\<lambda>_.
             if is_default def = GNil then Inr []
             else bindE (apply_value L (inputPath path k) def (default_value def)) (\<lambda>w. Inr [(k, w)]))))
       (input_keys decl)) (\<lambda>declared.
     bindE (mapE (\<lambda>k. case map_of data k of
         None \<Rightarrow> Inr []
       | Some v \<Rightarrow>
           if map_of decl k \<noteq> None then Inr []
           else (case extra of
               Some (Extra allowed (Some def)) \<Rightarrow> bindE (apply_value L (inputPath path k) def v) (\<lambda>w. Inr [(k, w)])
             | Some (Extra True None) \<Rightarrow> bindE (copy_json L (inputPath path k) v) (\<lambda>w. Inr [(k, w)])
             | _ \<Rightarrow> Inl (NotDeclared (inputPath path k))))
       (input_keys data)) (\<lambda>others.
     Inr (concat declared @ concat others)))"
| "apply_value L path def v =
     bindE (reference_field L path def v) (\<lambda>v'.
     if is_type def = ''object'' then
       (case v' of
          GMap m \<Rightarrow>
            (case obj_Parse (il_obj L) (GMap m) of
               NotRef \<Rightarrow>
                 if Contains (GMap m) \<and> is_props def = None \<and> is_extra def = None then Inl (NotMarkedSecret path)
                 else bindE (apply_fields L path (props_of def) (Some (extra_of def)) m) (\<lambda>r. Inr (GMap r))
             | _ \<Rightarrow> Inl (NotOrdinaryData path))
        | _ \<Rightarrow> Inl (NotObject path))
     else if is_type def = ''array'' then
       (case v' of
          GList xs \<Rightarrow>
            bindE (mapE (\<lambda>i. case is_items def of
                None \<Rightarrow> copy_json L (item_path path i) (xs ! i)
              | Some it \<Rightarrow> apply_value L (item_path path i) it (xs ! i)) [0..<length xs]) (\<lambda>ws. Inr (GList ws))
        | _ \<Rightarrow> Inl (NotArray path))
     else bindE (schema_validate L def path v') (\<lambda>_. Inr v'))"
| "copy_json L path v =
     (if Contains v \<or> config_Contains v then Inl (UndeclaredReference path)
      else case obj_Parse (il_obj L) v of
        NotRef \<Rightarrow> (case v of
            GMap m \<Rightarrow> apply_value L path (bare ''object'') (GMap m)
          | GList xs \<Rightarrow> apply_value L path (bare ''array'') (GList xs)
          | _ \<Rightarrow> Inr v)
      | _ \<Rightarrow> Inl (NeedsCheckpointSchema path))"
  by pat_completeness auto

termination
  by (relation "inv_image (less_than <*lex*> less_than <*lex*> less_than)
    (case_sum (\<lambda>(L, path, decl, extra, data). (fields_weight decl extra, value_size (GMap data), 0))
      (case_sum (\<lambda>(L, path, def, v). (schema_weight def, value_size v, 1)) (\<lambda>(L, path, v). (0, value_size v, 2 :: nat))))")
    (auto simp: field_weight extra_weight item_weight element_size entry_size
      dest!: reference_field_map dest: fields_weight_eq)

declare apply_fields.simps [simp del] apply_value.simps [simp del] copy_json.simps [simp del]

record input_contract =
  ic_schema :: "(string \<times> input_schema) list"
  ic_open_includes :: bool

definition contract_Apply :: "input_lib \<Rightarrow> input_contract \<Rightarrow> (string \<times> gval) list \<Rightarrow> input_error + (string \<times> gval) list" where
  "contract_Apply L c data = apply_fields L [] (ic_schema c) None data"

definition ApplyIncluded :: "input_lib \<Rightarrow> input_contract \<Rightarrow> (string \<times> gval) list \<Rightarrow> input_error + (string \<times> gval) list" where
  "ApplyIncluded L c data = (if ic_open_includes c then Inr data else contract_Apply L c data)"

section \<open>Compiling a declaration\<close>

definition input_types :: "string list" where
  "input_types = [''string'', ''number'', ''boolean'', ''artifact'', ''artifact_map'', ''checkpoint'', ''object'', ''array'']"

lemma prop_size: "map_of (props_of def) k = Some d \<Longrightarrow> size d < size def"
proof -
  assume m: "map_of (props_of def) k = Some d"
  obtain a b c d' e f ps it ex where def: "def = Schema a b c d' e f ps it ex" by (cases def)
  from m obtain decl where ps: "ps = Some decl" by (cases ps) (auto simp: def props_of_def)
  with m have "(k, d) \<in> set decl" by (auto simp: def props_of_def dest: map_of_SomeD)
  then have "size d < size_list (size_prod (\<lambda>_. 0) size) decl" by (induction decl) auto
  then show ?thesis by (simp add: def ps)
qed

lemma item_size: "is_items def = Some it \<Longrightarrow> size it < size def"
  by (cases def) auto

lemma extra_size: "is_extra def = Some (Extra a (Some d)) \<Longrightarrow> size d < size def"
  by (cases def) auto

function validateInputDeclaration :: "input_lib \<Rightarrow> string \<Rightarrow> input_schema \<Rightarrow> nat \<Rightarrow> input_error + unit" where
  "validateInputDeclaration L path def depth =
     (if depth > 64 then Inl (TooDeep path) else
      bindE (ValidateSecretDeclaration def path) (\<lambda>_.
      if is_type def \<notin> set input_types then Inl (UnsupportedInputType path (is_type def))
      else if is_object_type def \<noteq> [] \<and> is_type def \<noteq> ''checkpoint'' then Inl (BadDeclaration path ''object_type'')
      else if is_items def \<noteq> None \<and> is_type def \<noteq> ''array'' then Inl (BadDeclaration path ''items'')
      else if (is_props def \<noteq> None \<or> is_extra def \<noteq> None) \<and> is_type def \<noteq> ''object'' then Inl (BadDeclaration path ''properties'')
      else
      bindE (forE (\<lambda>k. case map_of (props_of def) k of
          None \<Rightarrow> Inr () | Some d \<Rightarrow> validateInputDeclaration L (inputPath path k) d (Suc depth)) (input_keys (props_of def))) (\<lambda>_.
      bindE (case is_items def of None \<Rightarrow> Inr ()
        | Some it \<Rightarrow> validateInputDeclaration L (path @ ''[]'') it (Suc depth)) (\<lambda>_.
      bindE (case is_extra def of
          Some (Extra a (Some d)) \<Rightarrow> validateInputDeclaration L (path @ ''.*'') d (Suc depth) | _ \<Rightarrow> Inr ()) (\<lambda>_.
      if is_default def = GNil then Inr ()
      else bindE (apply_value L path def (default_value def)) (\<lambda>_. Inr ()))))))"
  by pat_completeness auto
termination by (relation "measure (\<lambda>(L, path, def, depth). size def)") (auto simp: prop_size item_size extra_size)

declare validateInputDeclaration.simps [simp del]

definition legacy_schema :: "input_schema \<Rightarrow> input_schema" where
  "legacy_schema def = (case def of Schema src sec ot t req dflt ps it ex \<Rightarrow>
     if t = ''object'' then Schema src sec ot ''checkpoint'' req dflt None None None
     else if t \<in> {''string'', ''number'', ''boolean'', ''artifact'', ''artifact_map''}
       then Schema src sec ot t req dflt None None None
     else Schema t sec ot [] req dflt None None None)"

definition adaptLegacyInputSchema :: "(string \<times> input_schema) list \<Rightarrow> input_error + input_contract" where
  "adaptLegacyInputSchema schema =
     bindE (forE (\<lambda>k. case map_of schema k of None \<Rightarrow> Inr () | Some d \<Rightarrow> ValidateSecretDeclaration d k) (input_keys schema)) (\<lambda>_.
     Inr \<lparr>ic_schema = map (\<lambda>(k, d). (k, legacy_schema d)) schema, ic_open_includes = (schema = [])\<rparr>)"

definition CompileInputSchema :: "input_lib \<Rightarrow> int \<Rightarrow> (string \<times> input_schema) list \<Rightarrow> input_error + input_contract" where
  "CompileInputSchema L version schema =
     (if version = 0 \<or> version = 1 then adaptLegacyInputSchema schema
      else if version = 2 then
        bindE (forE (\<lambda>k. case map_of schema k of None \<Rightarrow> Inr () | Some d \<Rightarrow> validateInputDeclaration L k d 0) (input_keys schema)) (\<lambda>_.
        Inr \<lparr>ic_schema = schema, ic_open_includes = False\<rparr>)
      else Inl (UnsupportedVersion version))"

section \<open>Values for dry runs\<close>

definition ValidationRef :: "input_lib \<Rightarrow> string \<Rightarrow> gval" where
  "ValidationRef L ot = encode (il_obj L) (let sha = replicate 64 CHR ''0'' in
     \<lparr>o_format = Version, o_type = ot, o_tenant = ''validation'',
      o_artifact = \<lparr>ak_job = ''validation'', ak_ordinal = 1, ak_name = ArtifactPrefix @ sha @ ''.tar'', ak_size = 0\<rparr>, o_sha = sha\<rparr>)"

function inputValidationValue :: "input_lib \<Rightarrow> string \<Rightarrow> input_schema \<Rightarrow> input_error + gval" where
  "inputValidationValue L path def =
     (if is_secret def then Inr (secret_value (WithDefault (named_secret path) (is_default def)))
      else if is_default def \<noteq> GNil then apply_value L path def (is_default def)
      else if is_type def = ''checkpoint'' then
        Inr (ValidationRef L (if is_object_type def = [] then ''c2j.validation/v1'' else is_object_type def))
      else if is_type def = ''string'' then Inr (GStr [])
      else if is_type def = ''number'' then Inr (GNum 0)
      else if is_type def = ''boolean'' then Inr (GBool False)
      else if is_type def = ''object'' then
        bindE (mapE (\<lambda>k. case map_of (props_of def) k of
            None \<Rightarrow> Inr (k, GNil)
          | Some d \<Rightarrow> bindE (inputValidationValue L (inputPath path k) d) (\<lambda>w. Inr (k, w))) (input_keys (props_of def))) (\<lambda>m.
        Inr (GMap m))
      else if is_type def = ''array'' then Inr (GList [])
      else Inl (UnsupportedInputType path (typeName def)))"
  by pat_completeness auto
termination by (relation "measure (\<lambda>(L, path, def). size def)") (auto simp: prop_size)

declare inputValidationValue.simps [simp del]

definition ValidationDefaults :: "input_lib \<Rightarrow> input_contract \<Rightarrow> input_error + (string \<times> gval) list" where
  "ValidationDefaults L c = mapE (\<lambda>k. case map_of (ic_schema c) k of
     None \<Rightarrow> Inr (k, GNil) | Some d \<Rightarrow> bindE (inputValidationValue L k d) (\<lambda>w. Inr (k, w))) (input_keys (ic_schema c))"

section \<open>Submitted secrets\<close>

definition child_schema :: "input_schema \<Rightarrow> string \<Rightarrow> input_schema option" where
  "child_schema def k = (case map_of (props_of def) k of
     Some d \<Rightarrow> Some d
   | None \<Rightarrow> (case is_extra def of Some (Extra a (Some d)) \<Rightarrow> Some d | _ \<Rightarrow> None))"

lemma child_size: "child_schema def k = Some d \<Longrightarrow> size d < size def"
  by (auto simp: child_schema_def prop_size split: option.splits extra_props.splits dest: extra_size)

function prepareInputSecrets :: "input_lib \<Rightarrow> string \<Rightarrow> input_schema \<Rightarrow> gval \<Rightarrow> input_error + gval" where
  "prepareInputSecrets L path def v =
     (if is_secret def then
        (let v = template_secret L v in case Parse v of Ref r \<Rightarrow> Inr v | _ \<Rightarrow> Inl (PlaintextSecret path))
      else if is_type def = ''object'' then
        (case v of
           GMap m \<Rightarrow> bindE (mapE (\<lambda>k. case map_of m k of
               None \<Rightarrow> Inr (k, GNil)
             | Some x \<Rightarrow> (case child_schema def k of
                 None \<Rightarrow> Inr (k, x)
               | Some d \<Rightarrow> bindE (prepareInputSecrets L (inputPath path k) d x) (\<lambda>w. Inr (k, w)))) (input_keys m)) (\<lambda>m'.
             Inr (GMap m'))
         | _ \<Rightarrow> Inr v)
      else if is_type def = ''array'' then
        (case (v, is_items def) of
           (GList xs, Some it) \<Rightarrow>
             bindE (mapE (\<lambda>i. prepareInputSecrets L (item_path path i) it (xs ! i)) [0..<length xs]) (\<lambda>ws. Inr (GList ws))
         | _ \<Rightarrow> Inr v)
      else Inr v)"
  by pat_completeness auto
termination by (relation "measure (\<lambda>(L, path, def, v). size def)") (auto simp: child_size item_size)

declare prepareInputSecrets.simps [simp del]

definition PrepareSubmittedSecrets :: "input_lib \<Rightarrow> input_contract \<Rightarrow> (string \<times> gval) list \<Rightarrow> input_error + (string \<times> gval) list" where
  "PrepareSubmittedSecrets L c data = mapE (\<lambda>k. case map_of data k of
     None \<Rightarrow> Inr (k, GNil)
   | Some v \<Rightarrow> (case map_of (ic_schema c) k of
       None \<Rightarrow> Inr (k, v)
     | Some d \<Rightarrow> bindE (prepareInputSecrets L k d v) (\<lambda>w. Inr (k, w)))) (input_keys data)"

end
