(* ===== verification/Input_Sound.thy ===== *)
theory Input_Sound
  imports Input_Contract
begin

text \<open>
  What \<open>Input_Contract\<close> guarantees: a judgement that says which values fit a declaration, the
  soundness of applying a compiled contract with respect to it, and the preparation of submitted
  secrets.
\<close>

section \<open>Values that fit a declaration\<close>

text \<open>A value without references of any kind.\<close>

definition plain :: "input_lib \<Rightarrow> gval \<Rightarrow> bool" where
  "plain L v = (\<not> holds_ref Parse v \<and> \<not> holds_ref config_Parse v \<and> \<not> holds_ref (obj_Parse (il_obj L)) v)"

definition schema_for :: "(string \<times> input_schema) list \<Rightarrow> extra_props option \<Rightarrow> string \<Rightarrow> input_schema option" where
  "schema_for decl extra k = (case map_of decl k of
     Some d \<Rightarrow> Some d
   | None \<Rightarrow> (case extra of Some (Extra a (Some d)) \<Rightarrow> Some d | _ \<Rightarrow> None))"

text \<open>The keys a result has whatever was submitted.\<close>

definition must_have :: "(string \<times> input_schema) list \<Rightarrow> string \<Rightarrow> bool" where
  "must_have decl k = (\<exists>d. map_of decl k = Some d \<and> (is_required d \<or> is_default d \<noteq> GNil))"

inductive fits :: "input_lib \<Rightarrow> input_schema \<Rightarrow> gval \<Rightarrow> bool"
  and fields_fit :: "input_lib \<Rightarrow> (string \<times> input_schema) list \<Rightarrow> extra_props option \<Rightarrow> (string \<times> gval) list \<Rightarrow> bool"
  for L :: input_lib
where
  fit_secret: "is_secret d \<Longrightarrow> Parse v = Ref r \<Longrightarrow> fits L d v"
| fit_config: "\<not> is_secret d \<Longrightarrow> simple_type (is_type d) \<Longrightarrow> config_Parse v = Ref r \<Longrightarrow> c_type r = is_type d \<Longrightarrow> fits L d v"
| fit_string: "\<not> is_secret d \<Longrightarrow> is_type d = ''string'' \<Longrightarrow> fits L d (GStr s)"
| fit_number: "\<not> is_secret d \<Longrightarrow> is_type d = ''number'' \<Longrightarrow> fits L d (GNum x)"
| fit_boolean: "\<not> is_secret d \<Longrightarrow> is_type d = ''boolean'' \<Longrightarrow> fits L d (GBool b)"
| fit_checkpoint: "\<not> is_secret d \<Longrightarrow> is_type d = ''checkpoint'' \<Longrightarrow> \<not> holds_ref Parse v \<Longrightarrow> obj_Parse (il_obj L) v = Ref r \<Longrightarrow>
    is_object_type d = [] \<or> o_type r = is_object_type d \<Longrightarrow> fits L d v"
| fit_artifact: "\<not> is_secret d \<Longrightarrow> is_type d = ''artifact'' \<Longrightarrow> \<not> holds_ref Parse v \<Longrightarrow> il_artifact L v \<Longrightarrow> fits L d v"
| fit_artifact_map: "\<not> is_secret d \<Longrightarrow> is_type d = ''artifact_map'' \<Longrightarrow> \<not> holds_ref Parse (GMap m) \<Longrightarrow>
    (\<And>k x. (k, x) \<in> set m \<Longrightarrow> il_artifact L x) \<Longrightarrow> fits L d (GMap m)"
| fit_object: "\<not> is_secret d \<Longrightarrow> is_type d = ''object'' \<Longrightarrow> fields_fit L (props_of d) (Some (extra_of d)) m \<Longrightarrow>
    fits L d (GMap m)"
| fit_array: "\<not> is_secret d \<Longrightarrow> is_type d = ''array'' \<Longrightarrow> is_items d = Some it \<Longrightarrow> (\<And>x. x \<in> set xs \<Longrightarrow> fits L it x) \<Longrightarrow>
    fits L d (GList xs)"
| fit_any_array: "\<not> is_secret d \<Longrightarrow> is_type d = ''array'' \<Longrightarrow> is_items d = None \<Longrightarrow> (\<And>x. x \<in> set xs \<Longrightarrow> plain L x) \<Longrightarrow>
    fits L d (GList xs)"
| fit_fields: "distinct (map fst m) \<Longrightarrow> (\<And>k. must_have decl k \<Longrightarrow> k \<in> fst ` set m) \<Longrightarrow>
    (\<And>k w. (k, w) \<in> set m \<Longrightarrow>
       (\<exists>d. schema_for decl extra k = Some d \<and> fits L d w) \<or>
       (schema_for decl extra k = None \<and> extra = Some (Extra True None) \<and> plain L w)) \<Longrightarrow>
    fields_fit L decl extra m"

text \<open>A declaration inside another one.\<close>

inductive sub_schema :: "input_schema \<Rightarrow> input_schema \<Rightarrow> bool" where
  sub_self: "sub_schema d d"
| sub_field: "schema_for (props_of d) (is_extra d) k = Some e \<Longrightarrow> sub_schema e f \<Longrightarrow> sub_schema d f"
| sub_item: "is_items d = Some e \<Longrightarrow> sub_schema e f \<Longrightarrow> sub_schema d f"

definition secrets_typed :: "input_schema \<Rightarrow> bool" where
  "secrets_typed d = (\<forall>e. sub_schema d e \<longrightarrow> is_secret e \<longrightarrow> is_type e = ''string'')"

lemma secrets_typed_self: "secrets_typed d \<Longrightarrow> is_secret d \<Longrightarrow> is_type d = ''string''"
  by (simp add: secrets_typed_def sub_self)

lemma secrets_typed_field: "secrets_typed d \<Longrightarrow> schema_for (props_of d) (is_extra d) k = Some e \<Longrightarrow> secrets_typed e"
  unfolding secrets_typed_def by (blast intro: sub_field)

lemma secrets_typed_item: "secrets_typed d \<Longrightarrow> is_items d = Some e \<Longrightarrow> secrets_typed e"
  unfolding secrets_typed_def by (blast intro: sub_item)

lemma secrets_typedI:
  assumes "is_secret d \<Longrightarrow> is_type d = ''string''"
    and "\<And>k e. schema_for (props_of d) (is_extra d) k = Some e \<Longrightarrow> secrets_typed e"
    and "\<And>e. is_items d = Some e \<Longrightarrow> secrets_typed e"
  shows "secrets_typed d"
  unfolding secrets_typed_def
proof (intro allI impI)
  fix e
  assume "sub_schema d e" "is_secret e"
  then show "is_type e = ''string''"
    by (cases rule: sub_schema.cases) (use assms in \<open>auto simp: secrets_typed_def\<close>)
qed

lemma schema_for_extra_of [simp]: "schema_for decl (Some (extra_of d)) k = schema_for decl (is_extra d) k"
  by (simp add: schema_for_def extra_of_def open_extra_def split: option.split)

lemma schema_for_fields:
  "schema_for decl extra k = Some d \<longleftrightarrow>
     map_of decl k = Some d \<or> map_of decl k = None \<and> (\<exists>a. extra = Some (Extra a (Some d)))"
  by (auto simp: schema_for_def split: option.split extra_props.split)


section \<open>Compiled contracts\<close>

lemma secret_declaration_typed: "ValidateSecretDeclaration d path = Inr u \<Longrightarrow> is_secret d \<Longrightarrow> is_type d = ''string''"
  by (auto simp: ValidateSecretDeclaration_def split: if_splits)

lemma in_input_keys [simp]: "k \<in> set (input_keys m) \<longleftrightarrow> k \<in> fst ` set m"
  by (simp add: input_keys_def)

lemma map_of_key: "map_of m k = Some v \<Longrightarrow> k \<in> fst ` set m"
  by (force dest: map_of_SomeD)

lemma key_checked:
  assumes "forE (\<lambda>k. case map_of m k of None \<Rightarrow> Inr () | Some d \<Rightarrow> f k d) (input_keys m) = Inr u" "map_of m k = Some d"
  shows "f k d = Inr ()"
  using assms map_of_key [OF assms(2)] unfolding forE_ok by (metis in_input_keys option.simps(5))

lemma validated_typed: "validateInputDeclaration L path d depth = Inr u \<Longrightarrow> secrets_typed d"
proof (induction L path d depth arbitrary: u rule: validateInputDeclaration.induct)
  case (1 L path d depth)
  from "1.prems" have parts: "ValidateSecretDeclaration d path = Inr ()"
    "forE (\<lambda>k. case map_of (props_of d) k of
        None \<Rightarrow> Inr () | Some e \<Rightarrow> validateInputDeclaration L (inputPath path k) e (Suc depth)) (input_keys (props_of d)) = Inr ()"
    "(case is_items d of None \<Rightarrow> Inr () | Some it \<Rightarrow> validateInputDeclaration L (path @ ''[]'') it (Suc depth)) = Inr ()"
    "(case is_extra d of Some (Extra a (Some e)) \<Rightarrow> validateInputDeclaration L (path @ ''.*'') e (Suc depth)
        | _ \<Rightarrow> Inr ()) = Inr ()"
    and guards: "\<not> depth > 64" "\<not> is_type d \<notin> set input_types" "\<not> (is_object_type d \<noteq> [] \<and> is_type d \<noteq> ''checkpoint'')"
      "\<not> (is_items d \<noteq> None \<and> is_type d \<noteq> ''array'')"
      "\<not> ((is_props d \<noteq> None \<or> is_extra d \<noteq> None) \<and> is_type d \<noteq> ''object'')"
    unfolding atomize_conj by (subst (asm) validateInputDeclaration.simps) (simp add: ok_iff split: if_splits)
  show ?case
  proof (rule secrets_typedI)
    assume "is_secret d"
    with parts(1) show "is_type d = ''string''" by (rule secret_declaration_typed)
  next
    fix k e
    assume "schema_for (props_of d) (is_extra d) k = Some e"
    then consider "map_of (props_of d) k = Some e" | a where "is_extra d = Some (Extra a (Some e))"
      by (auto simp: schema_for_fields)
    then show "secrets_typed e"
    proof cases
      case 1
      have "k \<in> set (input_keys (props_of d))" using map_of_key [OF 1] by simp
      moreover have "validateInputDeclaration L (inputPath path k) e (Suc depth) = Inr ()"
        using parts(2) 1 by (rule key_checked)
      ultimately show ?thesis using "1.IH"(1) [OF guards(1) parts(1) guards(2-)] 1 by blast
    next
      case 2
      with parts(4) have "validateInputDeclaration L (path @ ''.*'') e (Suc depth) = Inr ()" by simp
      with "1.IH"(3) [OF guards(1) parts(1) guards(2-) parts(2,3)] 2 show ?thesis by blast
    qed
  next
    fix e
    assume "is_items d = Some e"
    with parts(3) "1.IH"(2) [OF guards(1) parts(1) guards(2-) parts(2)] show "secrets_typed e" by simp
  qed
qed

definition fields_typed :: "(string \<times> input_schema) list \<Rightarrow> extra_props option \<Rightarrow> bool" where
  "fields_typed decl extra = (\<forall>k d. schema_for decl extra k = Some d \<longrightarrow> secrets_typed d)"


lemma fields_typedD: "fields_typed decl extra \<Longrightarrow> schema_for decl extra k = Some d \<Longrightarrow> secrets_typed d"
  by (simp add: fields_typed_def)

lemma fields_typed_child: "secrets_typed d \<Longrightarrow> fields_typed (props_of d) (Some (extra_of d))"
  by (simp add: fields_typed_def secrets_typed_field)

lemma legacy_shape [simp]:
  "is_props (legacy_schema d) = None" "is_extra (legacy_schema d) = None" "is_items (legacy_schema d) = None"
  "is_secret (legacy_schema d) = is_secret d"
  by (simp_all add: legacy_schema_def split: input_schema.split)

lemma legacy_string [simp]: "is_type d = ''string'' \<Longrightarrow> is_type (legacy_schema d) = ''string''"
  by (cases d) (simp add: legacy_schema_def)

lemma legacy_typed:
  assumes "ValidateSecretDeclaration d path = Inr u"
  shows "secrets_typed (legacy_schema d)"
  by (rule secrets_typedI) (use secret_declaration_typed [OF assms] in \<open>simp_all add: schema_for_fields props_of_def\<close>)

lemma map_of_legacy: "map_of (map (\<lambda>(k, d). (k, legacy_schema d)) schema) k = map_option legacy_schema (map_of schema k)"
  by (induction schema) auto

lemma compiled_typed: "CompileInputSchema L version schema = Inr c \<Longrightarrow> fields_typed (ic_schema c) None"
proof -
  assume c: "CompileInputSchema L version schema = Inr c"
  have "map_of (ic_schema c) k = Some d \<Longrightarrow> secrets_typed d" for k d
  proof (cases "version = 2")
    case True
    assume "map_of (ic_schema c) k = Some d"
    moreover from True c have "ic_schema c = schema" and
      ok: "forE (\<lambda>k. case map_of schema k of None \<Rightarrow> Inr () | Some d \<Rightarrow> validateInputDeclaration L k d 0) (input_keys schema) = Inr ()"
      by (auto simp: CompileInputSchema_def bindE_ok)
    ultimately have "map_of schema k = Some d" by simp
    with ok have "validateInputDeclaration L k d 0 = Inr ()" by (rule key_checked)
    then show ?thesis by (rule validated_typed)
  next
    case False
    assume m: "map_of (ic_schema c) k = Some d"
    from False c have c': "ic_schema c = map (\<lambda>(k, d). (k, legacy_schema d)) schema" and
      ok: "forE (\<lambda>k. case map_of schema k of None \<Rightarrow> Inr () | Some d \<Rightarrow> ValidateSecretDeclaration d k) (input_keys schema) = Inr ()"
      by (auto simp: CompileInputSchema_def adaptLegacyInputSchema_def bindE_ok split: if_splits)
    from m obtain e where e: "map_of schema k = Some e" "d = legacy_schema e" by (auto simp: c' map_of_legacy)
    from ok e(1) have "ValidateSecretDeclaration e k = Inr ()" by (rule key_checked)
    then show ?thesis unfolding e(2) by (rule legacy_typed)
  qed
  then show ?thesis by (simp add: fields_typed_def schema_for_fields)
qed

section \<open>What applying a schema gives\<close>

text \<open>The keys of a result and where each value comes from.\<close>

definition at_most_one :: "('k \<Rightarrow> 'e + ('k \<times> 'v) list) \<Rightarrow> bool" where
  "at_most_one f = (\<forall>k xs. f k = Inr xs \<longrightarrow> xs = [] \<or> (\<exists>w. xs = [(k, w)]))"

lemma concat_singles:
  assumes "mapE f ks = Inr xss" "at_most_one f" "distinct ks"
  shows "distinct (map fst (concat xss))" "fst ` set (concat xss) \<subseteq> set ks"
    "(k, w) \<in> set (concat xss) \<longleftrightarrow> k \<in> set ks \<and> f k = Inr [(k, w)]"
proof -
  from assms have "distinct (map fst (concat xss)) \<and> fst ` set (concat xss) \<subseteq> set ks \<and>
     ((k, w) \<in> set (concat xss) \<longleftrightarrow> k \<in> set ks \<and> f k = Inr [(k, w)])"
  proof (induction ks arbitrary: xss)
    case (Cons j ks)
    from Cons.prems(1) obtain xs yss where xs: "f j = Inr xs" "mapE f ks = Inr yss" "xss = xs # yss"
      by (auto simp: ok_iff)
    from Cons.IH [OF xs(2) Cons.prems(2)] Cons.prems(3) have IH: "distinct (map fst (concat yss))"
      "fst ` set (concat yss) \<subseteq> set ks" "(k, w) \<in> set (concat yss) \<longleftrightarrow> k \<in> set ks \<and> f k = Inr [(k, w)]" by auto
    from Cons.prems(2) xs(1) consider "xs = []" | v where "xs = [(j, v)]" unfolding at_most_one_def by blast
    then show ?case
    proof cases
      case 1
      with xs IH Cons.prems(3) show ?thesis by auto
    next
      case 2
      with Cons.prems(3) IH(2) have "j \<notin> fst ` set (concat yss)" by auto
      with xs(1,3) IH Cons.prems(3) 2 show ?thesis by auto
    qed
  qed simp
  then show "distinct (map fst (concat xss))" "fst ` set (concat xss) \<subseteq> set ks"
    "(k, w) \<in> set (concat xss) \<longleftrightarrow> k \<in> set ks \<and> f k = Inr [(k, w)]" by simp_all
qed


lemma input_keys_distinct [simp]: "distinct (input_keys m)"
  by (simp add: input_keys_def sorted_sort_compact)

text \<open>The two loops of \<open>apply_fields\<close>, under names.\<close>

definition declared_entry where
  "declared_entry L path decl data k = (case map_of decl k of
         None \<Rightarrow> Inr []
       | Some def \<Rightarrow> (case map_of data k of
           Some v \<Rightarrow> bindE (apply_value L (inputPath path k) def v) (\<lambda>w. Inr [(k, w)])
         | None \<Rightarrow> bindE (validateMissing def (inputPath path k)) (\<lambda>_.
             if is_default def = GNil then Inr []
             else bindE (apply_value L (inputPath path k) def (default_value def)) (\<lambda>w. Inr [(k, w)]))))"

definition other_entry where
  "other_entry L path decl extra data k = (case map_of data k of
         None \<Rightarrow> Inr []
       | Some v \<Rightarrow>
           if map_of decl k \<noteq> None then Inr []
           else (case extra of
               Some (Extra allowed (Some def)) \<Rightarrow> bindE (apply_value L (inputPath path k) def v) (\<lambda>w. Inr [(k, w)])
             | Some (Extra True None) \<Rightarrow> bindE (copy_json L (inputPath path k) v) (\<lambda>w. Inr [(k, w)])
             | _ \<Rightarrow> Inl (NotDeclared (inputPath path k))))"

lemma apply_fields_loops:
  "apply_fields L path decl extra data =
     bindE (mapE (declared_entry L path decl data) (input_keys decl)) (\<lambda>declared.
     bindE (mapE (other_entry L path decl extra data) (input_keys data)) (\<lambda>others.
     Inr (concat declared @ concat others)))"
  unfolding apply_fields.simps declared_entry_def other_entry_def ..

definition entry_value :: "input_schema \<Rightarrow> (string \<times> gval) list \<Rightarrow> string \<Rightarrow> gval option" where
  "entry_value d data k = (case map_of data k of
     Some v \<Rightarrow> Some v | None \<Rightarrow> if is_default d = GNil then None else Some (default_value d))"

lemma declared_entry_cases:
  assumes "declared_entry L path decl data k = Inr xs" "map_of decl k = Some d"
  shows "case entry_value d data k of
      None \<Rightarrow> xs = [] \<and> \<not> is_required d \<and> is_default d = GNil
    | Some v \<Rightarrow> (\<exists>w. xs = [(k, w)] \<and> apply_value L (inputPath path k) d v = Inr w)"
  using assms
  by (cases "map_of data k")
    (auto simp: declared_entry_def entry_value_def bindE_ok validateMissing_def check_ok split: if_splits)

lemma other_entry_cases:
  assumes "other_entry L path decl extra data k = Inr xs" "map_of data k = Some v" "map_of decl k = None"
  shows "\<exists>w. xs = [(k, w)] \<and>
    ((\<exists>a d. extra = Some (Extra a (Some d)) \<and> apply_value L (inputPath path k) d v = Inr w) \<or>
     (extra = Some (Extra True None) \<and> copy_json L (inputPath path k) v = Inr w))"
  using assms by (auto simp: other_entry_def bindE_ok split: option.splits extra_props.splits bool.splits)

lemma declared_entry_shape: "at_most_one (declared_entry L path decl data)"
  by (auto simp: at_most_one_def declared_entry_def bindE_ok split: option.splits if_splits)

lemma other_entry_shape: "at_most_one (other_entry L path decl extra data)"
  by (auto simp: at_most_one_def other_entry_def bindE_ok split: option.splits if_splits extra_props.splits bool.splits)

lemma other_entry_new: "other_entry L path decl extra data k = Inr [x] \<Longrightarrow> map_of decl k = None"
  by (rule ccontr) (auto simp: other_entry_def split: option.splits)

lemma apply_fields_ok:
  assumes "apply_fields L path decl extra data = Inr out"
  shows "distinct (map fst out)"
    and "(k, w) \<in> set out \<longleftrightarrow> k \<in> fst ` set decl \<and> declared_entry L path decl data k = Inr [(k, w)] \<or>
      k \<in> fst ` set data \<and> other_entry L path decl extra data k = Inr [(k, w)]"
    and "k \<in> fst ` set decl \<Longrightarrow> \<exists>xs. declared_entry L path decl data k = Inr xs"
    and "k \<in> fst ` set data \<Longrightarrow> \<exists>xs. other_entry L path decl extra data k = Inr xs"
proof -
  from assms obtain ds os where ds: "mapE (declared_entry L path decl data) (input_keys decl) = Inr ds"
    and os: "mapE (other_entry L path decl extra data) (input_keys data) = Inr os"
    and out: "out = concat ds @ concat os"
    by (auto simp: apply_fields_loops bindE_ok)
  note D = concat_singles [OF ds declared_entry_shape input_keys_distinct]
  note O = concat_singles [OF os other_entry_shape input_keys_distinct]
  show mem: "(k, w) \<in> set out \<longleftrightarrow> k \<in> fst ` set decl \<and> declared_entry L path decl data k = Inr [(k, w)] \<or>
      k \<in> fst ` set data \<and> other_entry L path decl extra data k = Inr [(k, w)]" for k w
    unfolding out set_append Un_iff D(3) O(3) in_input_keys ..
  show "k \<in> fst ` set decl \<Longrightarrow> \<exists>xs. declared_entry L path decl data k = Inr xs"
    using mapE_ok_set [OF ds] unfolding in_input_keys [symmetric] by blast
  show "k \<in> fst ` set data \<Longrightarrow> \<exists>xs. other_entry L path decl extra data k = Inr xs"
    using mapE_ok_set [OF os] unfolding in_input_keys [symmetric] by blast
  have os_new: "k \<notin> fst ` set decl" if "(k, w) \<in> set (concat os)" for k w
    using that other_entry_new [of L path decl extra data k "(k, w)"] unfolding O(3) map_of_eq_None_iff by blast
  have ds_old: "k \<in> fst ` set decl" if "(k, w) \<in> set (concat ds)" for k w
    using that unfolding D(3) in_input_keys by (rule conjunct1)
  have "fst ` set (concat ds) \<inter> fst ` set (concat os) = {}"
  proof (rule equals0I)
    fix k
    assume "k \<in> fst ` set (concat ds) \<inter> fst ` set (concat os)"
    then obtain v w where "(k, v) \<in> set (concat ds)" "(k, w) \<in> set (concat os)" by (auto simp del: set_concat)
    with os_new ds_old show False by blast
  qed
  with D(1) O(1) show "distinct (map fst out)" by (simp add: out)
qed


lemma apply_object_ok:
  assumes "apply_value L path d v = Inr w" "is_type d = ''object''"
  obtains m r where "reference_field L path d v = Inr (GMap m)" "obj_Parse (il_obj L) (GMap m) = NotRef"
    "\<not> (Contains (GMap m) \<and> is_props d = None \<and> is_extra d = None)"
    "apply_fields L path (props_of d) (Some (extra_of d)) m = Inr r" "w = GMap r"
proof -
  from assms(1) obtain v' where ref: "reference_field L path d v = Inr v'"
    by (subst (asm) apply_value.simps) (auto simp: bindE_ok)
  note eq = assms(1) [unfolded apply_value.simps [of L path d v] ref bindE_simps]
  with assms(2) obtain m where m: "v' = GMap m" "obj_Parse (il_obj L) (GMap m) = NotRef"
    by (auto split: gval.splits parsed.splits)
  with eq assms(2) obtain r where "\<not> (Contains (GMap m) \<and> is_props d = None \<and> is_extra d = None)"
    "apply_fields L path (props_of d) (Some (extra_of d)) m = Inr r" "w = GMap r"
    by (auto simp: bindE_ok split: if_splits)
  with ref m that show ?thesis by blast
qed

text \<open>Every successful application, as an induction principle over its parts.\<close>

lemma apply_success:
  fixes P :: "input_lib \<Rightarrow> string \<Rightarrow> (string \<times> input_schema) list \<Rightarrow> extra_props option \<Rightarrow> (string \<times> gval) list \<Rightarrow>
      (string \<times> gval) list \<Rightarrow> bool"
    and Q :: "input_lib \<Rightarrow> string \<Rightarrow> input_schema \<Rightarrow> gval \<Rightarrow> gval \<Rightarrow> bool"
    and R :: "input_lib \<Rightarrow> string \<Rightarrow> gval \<Rightarrow> gval \<Rightarrow> bool"
  assumes fields: "\<And>L path decl extra data out. apply_fields L path decl extra data = Inr out \<Longrightarrow>
      (\<And>k d v w. map_of decl k = Some d \<Longrightarrow> entry_value d data k = Some v \<Longrightarrow>
         apply_value L (inputPath path k) d v = Inr w \<Longrightarrow> Q L (inputPath path k) d v w) \<Longrightarrow>
      (\<And>k a d v w. map_of decl k = None \<Longrightarrow> map_of data k = Some v \<Longrightarrow> extra = Some (Extra a (Some d)) \<Longrightarrow>
         apply_value L (inputPath path k) d v = Inr w \<Longrightarrow> Q L (inputPath path k) d v w) \<Longrightarrow>
      (\<And>k v w. map_of decl k = None \<Longrightarrow> map_of data k = Some v \<Longrightarrow> extra = Some (Extra True None) \<Longrightarrow>
         copy_json L (inputPath path k) v = Inr w \<Longrightarrow> R L (inputPath path k) v w) \<Longrightarrow>
      P L path decl extra data out"
    and object: "\<And>L path d v m out. reference_field L path d v = Inr (GMap m) \<Longrightarrow> is_type d = ''object'' \<Longrightarrow>
      obj_Parse (il_obj L) (GMap m) = NotRef \<Longrightarrow> \<not> (Contains (GMap m) \<and> is_props d = None \<and> is_extra d = None) \<Longrightarrow>
      apply_fields L path (props_of d) (Some (extra_of d)) m = Inr out \<Longrightarrow>
      P L path (props_of d) (Some (extra_of d)) m out \<Longrightarrow> Q L path d v (GMap out)"
    and any_array: "\<And>L path d v xs ws. reference_field L path d v = Inr (GList xs) \<Longrightarrow> is_type d = ''array'' \<Longrightarrow>
      is_items d = None \<Longrightarrow> length ws = length xs \<Longrightarrow>
      (\<And>i. i < length xs \<Longrightarrow> copy_json L (item_path path i) (xs ! i) = Inr (ws ! i) \<and>
         R L (item_path path i) (xs ! i) (ws ! i)) \<Longrightarrow> Q L path d v (GList ws)"
    and array: "\<And>L path d v it xs ws. reference_field L path d v = Inr (GList xs) \<Longrightarrow> is_type d = ''array'' \<Longrightarrow>
      is_items d = Some it \<Longrightarrow> length ws = length xs \<Longrightarrow>
      (\<And>i. i < length xs \<Longrightarrow> apply_value L (item_path path i) it (xs ! i) = Inr (ws ! i) \<and>
         Q L (item_path path i) it (xs ! i) (ws ! i)) \<Longrightarrow> Q L path d v (GList ws)"
    and scalar: "\<And>L path d v w. reference_field L path d v = Inr w \<Longrightarrow> is_type d \<noteq> ''object'' \<Longrightarrow> is_type d \<noteq> ''array'' \<Longrightarrow>
      schema_validate L d path w = Inr () \<Longrightarrow> Q L path d v w"
    and copy_map: "\<And>L path m w. \<not> Contains (GMap m) \<Longrightarrow> \<not> config_Contains (GMap m) \<Longrightarrow>
      obj_Parse (il_obj L) (GMap m) = NotRef \<Longrightarrow> apply_value L path (bare ''object'') (GMap m) = Inr w \<Longrightarrow>
      Q L path (bare ''object'') (GMap m) w \<Longrightarrow> R L path (GMap m) w"
    and copy_list: "\<And>L path xs w. \<not> Contains (GList xs) \<Longrightarrow> \<not> config_Contains (GList xs) \<Longrightarrow>
      apply_value L path (bare ''array'') (GList xs) = Inr w \<Longrightarrow>
      Q L path (bare ''array'') (GList xs) w \<Longrightarrow> R L path (GList xs) w"
    and copy_scalar: "\<And>L path v. \<not> Contains v \<Longrightarrow> \<not> config_Contains v \<Longrightarrow> obj_Parse (il_obj L) v = NotRef \<Longrightarrow>
      (\<And>m. v \<noteq> GMap m) \<Longrightarrow> (\<And>xs. v \<noteq> GList xs) \<Longrightarrow> R L path v v"
  shows "apply_fields L path decl extra data = Inr out \<Longrightarrow> P L path decl extra data out"
    and "apply_value L path d v = Inr w \<Longrightarrow> Q L path d v w"
    and "copy_json L path v = Inr w \<Longrightarrow> R L path v w"
proof (induction L path decl extra data and L path d v and L path v arbitrary: out and w and w
    rule: apply_fields_apply_value_copy_json.induct)
  case (1 L path decl extra data)
  from "1.prems" obtain ds where "mapE (declared_entry L path decl data) (input_keys decl) = Inr ds"
    by (auto simp: apply_fields_loops bindE_ok)
  note ds = this [unfolded declared_entry_def]
  show ?case
  proof (rule fields [OF "1.prems"])
    fix k d v w
    assume k: "map_of decl k = Some d" "entry_value d data k = Some v" "apply_value L (inputPath path k) d v = Inr w"
    have key: "k \<in> set (input_keys decl)" using map_of_key [OF k(1)] by simp
    show "Q L (inputPath path k) d v w"
    proof (cases "map_of data k")
      case None
      with k(2) have v: "is_default d \<noteq> GNil" "v = default_value d" by (auto simp: entry_value_def split: if_splits)
      then have "validateMissing d (inputPath path k) = Inr ()" by (simp add: validateMissing_def)
      from "1.IH"(1) [OF key k(1) None this v(1)] k(3) show ?thesis unfolding v(2) by blast
    next
      case (Some x)
      with k(2) have "v = x" by (simp add: entry_value_def)
      with "1.IH"(2) [OF key k(1) Some] k(3) show ?thesis by blast
    qed
  next
    fix k a d v w
    assume k: "map_of decl k = None" "map_of data k = Some v" "extra = Some (Extra a (Some d))"
      "apply_value L (inputPath path k) d v = Inr w"
    have key: "k \<in> set (input_keys data)" using map_of_key [OF k(2)] by simp
    show "Q L (inputPath path k) d v w"
      by (cases a) (use "1.IH"(4,5) [OF ds key k(2) _ k(3)] k in auto)
  next
    fix k v w
    assume k: "map_of decl k = None" "map_of data k = Some v" "extra = Some (Extra True None)"
      "copy_json L (inputPath path k) v = Inr w"
    have key: "k \<in> set (input_keys data)" using map_of_key [OF k(2)] by simp
    show "R L (inputPath path k) v w"
      using "1.IH"(3) [OF ds key k(2) _ k(3)] k by auto
  qed
next
  case (2 L path d v)
  from "2.prems" obtain v' where ref: "reference_field L path d v = Inr v'"
    by (subst (asm) apply_value.simps) (auto simp: bindE_ok)
  note eq = "2.prems" [unfolded apply_value.simps [of L path d v] ref bindE_simps]
  consider (object) "is_type d = ''object''" | (array) "is_type d \<noteq> ''object''" "is_type d = ''array''"
    | (scalar) "is_type d \<noteq> ''object''" "is_type d \<noteq> ''array''" by blast
  then show ?case
  proof cases
    case object
    obtain m r where m: "reference_field L path d v = Inr (GMap m)" "obj_Parse (il_obj L) (GMap m) = NotRef"
        and r: "\<not> (Contains (GMap m) \<and> is_props d = None \<and> is_extra d = None)"
          "apply_fields L path (props_of d) (Some (extra_of d)) m = Inr r" "w = GMap r"
      using "2.prems" object by (rule apply_object_ok)
    then have v': "v' = GMap m" using ref by simp
    have "P L path (props_of d) (Some (extra_of d)) m r"
      using "2.IH"(1) [OF ref object v' m(2) r(1)] r(2) by blast
    with m(1) object m(2) r(1,2) show ?thesis unfolding r(3) by (rule assms(2))
  next
    case array
    with eq obtain xs where xs: "v' = GList xs" by (auto split: gval.splits)
    with eq array obtain ws where
      ws: "mapE (\<lambda>i. case is_items d of None \<Rightarrow> copy_json L (item_path path i) (xs ! i)
          | Some it \<Rightarrow> apply_value L (item_path path i) it (xs ! i)) [0..<length xs] = Inr ws" "w = GList ws"
      by (auto simp: bindE_ok)
    then have len: "length ws = length xs" and
      each: "i < length xs \<Longrightarrow> (case is_items d of None \<Rightarrow> copy_json L (item_path path i) (xs ! i)
          | Some it \<Rightarrow> apply_value L (item_path path i) it (xs ! i)) = Inr (ws ! i)" for i
      unfolding mapE_ok_upt by blast+
    show ?thesis
    proof (cases "is_items d")
      case None
      have "copy_json L (item_path path i) (xs ! i) = Inr (ws ! i) \<and> R L (item_path path i) (xs ! i) (ws ! i)"
        if "i < length xs" for i
        using each [OF that] "2.IH"(2) [OF ref array xs _ None, of i] None that by simp
      with ref [unfolded xs] array(2) None len show ?thesis unfolding ws(2) by (rule any_array)
    next
      case (Some it)
      have "apply_value L (item_path path i) it (xs ! i) = Inr (ws ! i) \<and> Q L (item_path path i) it (xs ! i) (ws ! i)"
        if "i < length xs" for i
        using each [OF that] "2.IH"(3) [OF ref array xs _ Some, of i] Some that by simp
      with ref [unfolded xs] array(2) Some len show ?thesis unfolding ws(2) by (rule assms(4))
    qed
  next
    case scalar
    with eq have "schema_validate L d path v' = Inr ()" "w = v'" by (auto simp: bindE_ok)
    with ref scalar show ?thesis using assms(5) by blast
  qed
next
  case (3 L path v)
  from "3.prems" have no: "\<not> (Contains v \<or> config_Contains v)" "obj_Parse (il_obj L) v = NotRef"
    by (subst (asm) copy_json.simps, auto split: if_splits parsed.splits)+
  note eq = "3.prems" [unfolded copy_json.simps [of L path v]]
  show ?case
  proof (cases v)
    case (GMap m)
    with eq no have "apply_value L path (bare ''object'') (GMap m) = Inr w" by simp
    with "3.IH"(1) [OF no GMap] no show ?thesis unfolding GMap by (intro copy_map) auto
  next
    case (GList xs)
    with eq no have "apply_value L path (bare ''array'') (GList xs) = Inr w" by simp
    with "3.IH"(2) [OF no GList] no show ?thesis unfolding GList by (intro copy_list) auto
  qed (use eq no copy_scalar [of v L path] in auto)
qed


lemmas apply_success_induct [consumes 1, case_names fields object any_array array scalar copy_map copy_list copy_scalar] =
  apply_success(1) [rotated 8] apply_success(2) [rotated 8] apply_success(3) [rotated 8]

section \<open>Soundness\<close>

lemma check_config_same: "check_config r = Inr q \<Longrightarrow> q = r"
  by (auto simp: check_config_def split: if_splits)

lemma config_field_parsed:
  assumes "config_field L path d v = Inr w" "config_Parse w = Ref r"
  shows "simple_type (is_type d) \<and> c_type r = is_type d"
proof (cases "config_Parse (template_config L v)")
  case (Ref q)
  with assms(1) have "simple_type (is_type d)" and w: "w = config_value (q\<lparr>c_type := is_type d\<rparr>)"
    by (auto simp: config_field_def split: if_splits)
  moreover from assms(2) have "r = q\<lparr>c_type := is_type d\<rparr>"
    by (auto simp: w config_value_def parsed_of_Ref dest: check_config_same)
  ultimately show ?thesis by simp
qed (use assms in \<open>auto simp: config_field_def\<close>)

lemma has_kind_fits: "\<not> is_secret d \<Longrightarrow> has_kind (is_type d) v \<Longrightarrow> fits L d v"
  by (cases v) (auto intro: fits_fields_fit.intros)

lemma checkpoint_fits:
  assumes "validate_checkpoint L key (is_object_type d) v = Inr u" "\<not> is_secret d" "is_type d = ''checkpoint''"
    "\<not> holds_ref Parse v"
  shows "fits L d v"
  using assms by (auto simp: validate_checkpoint_def check_ok split: parsed.splits intro: fit_checkpoint)

lemma artifact_map_fits:
  assumes "isArtifactMapValue L v" "\<not> is_secret d" "is_type d = ''artifact_map''" "\<not> holds_ref Parse v"
  shows "fits L d v"
proof (cases v)
  case (GMap m)
  with assms show ?thesis
    unfolding GMap by (intro fit_artifact_map) (auto simp: isArtifactMapValue_def list_all_iff)
qed (use assms in \<open>auto simp: isArtifactMapValue_def\<close>)

lemma scalar_fits:
  assumes "reference_field L path d v = Inr w" "schema_validate L d path w = Inr ()"
  shows "fits L d w"
proof (cases "is_secret d")
  case True
  with assms(2) obtain r where "Parse w = Ref r" by (auto simp: schema_validate_def split: parsed.splits)
  with True show ?thesis by (rule fit_secret)
next
  case False
  with assms(1) have field: "config_field L path d v = Inr w" by (simp add: reference_field_def)
  show ?thesis
  proof (cases "config_Parse w")
    case NotRef
    note valid = assms(2) [unfolded schema_validate_def, simplified False NotRef, simplified]
    then have "\<not> holds_ref Parse w" by (auto simp: Contains_iff split: if_splits)
    moreover from valid consider "has_kind (is_type d) w" | "is_type d = ''checkpoint''"
        "validate_checkpoint L path (is_object_type d) w = Inr ()"
      | "is_type d = ''artifact''" "il_artifact L w" | "is_type d = ''artifact_map''" "isArtifactMapValue L w"
      by (auto simp: check_ok split: if_splits)
    ultimately show ?thesis using False
      by cases (blast intro: has_kind_fits checkpoint_fits artifact_map_fits fit_artifact)+
  next
    case (Ref r)
    with config_field_parsed [OF field Ref] False show ?thesis by (intro fit_config) auto
  qed (use assms(2) False in \<open>simp add: schema_validate_def\<close>)
qed

lemma fits_bare_object: "fits L (bare ''object'') v \<Longrightarrow> \<exists>m. v = GMap m \<and> (\<forall>(k, w) \<in> set m. plain L w)"
  by (erule fits.cases; (elim fields_fit.cases)?)
    (auto simp: bare_def simple_type_def schema_for_fields props_of_def extra_of_def open_extra_def)

lemma fits_bare_array: "fits L (bare ''array'') v \<Longrightarrow> \<exists>xs. v = GList xs \<and> (\<forall>w \<in> set xs. plain L w)"
  by (erule fits.cases) (auto simp: bare_def simple_type_def)


lemma apply_bare_keys:
  assumes "apply_value L path (bare ''object'') (GMap m) = Inr (GMap out)"
  shows "fst ` set out \<subseteq> fst ` set m"
proof -
  have "is_type (bare ''object'') = ''object''" by (simp add: bare_def)
  with assms obtain m' where m': "reference_field L path (bare ''object'') (GMap m) = Inr (GMap m')"
    "apply_fields L path (props_of (bare ''object'')) (Some (extra_of (bare ''object''))) m' = Inr out"
    by (elim apply_object_ok) auto
  then have "apply_fields L path [] (Some open_extra) m = Inr out"
    by (auto simp: bare_def props_of_def extra_of_def dest!: reference_field_map)
  from apply_fields_ok(2) [OF this] show ?thesis by auto
qed

lemma plain_map:
  assumes "obj_Parse (il_obj L) (GMap m) = NotRef" "\<not> Contains (GMap m)" "\<not> config_Contains (GMap m)"
    and "fst ` set out \<subseteq> fst ` set m" "\<forall>(k, w) \<in> set out. plain L w"
  shows "plain L (GMap out)"
proof -
  from assms(2,3) have "Parse (GMap m) = NotRef" "config_Parse (GMap m) = NotRef"
    by (auto simp: Contains_iff config_Contains_iff)
  with assms(1,4) have "Parse (GMap out) = NotRef" "config_Parse (GMap out) = NotRef" "obj_Parse (il_obj L) (GMap out) = NotRef"
    unfolding secret_format.parse_map config_format.parse_map object_format.parse_map by blast+
  with assms(5) show ?thesis by (force simp: plain_def list_ex_iff)
qed

lemma plain_list: "\<forall>w \<in> set ws. plain L w \<Longrightarrow> plain L (GList ws)"
  by (auto simp: plain_def list_ex_iff secret_format.parse_list config_format.parse_list object_format.parse_list)

lemma fields_fitI:
  assumes ok: "apply_fields L path decl extra data = Inr out"
    and decl: "\<And>k d v w. map_of decl k = Some d \<Longrightarrow> entry_value d data k = Some v \<Longrightarrow>
         apply_value L (inputPath path k) d v = Inr w \<Longrightarrow> fits L d w"
    and other: "\<And>k a d v w. map_of decl k = None \<Longrightarrow> map_of data k = Some v \<Longrightarrow> extra = Some (Extra a (Some d)) \<Longrightarrow>
         apply_value L (inputPath path k) d v = Inr w \<Longrightarrow> fits L d w"
    and free: "\<And>k v w. map_of decl k = None \<Longrightarrow> map_of data k = Some v \<Longrightarrow> extra = Some (Extra True None) \<Longrightarrow>
         copy_json L (inputPath path k) v = Inr w \<Longrightarrow> plain L w"
  shows "fields_fit L decl extra out"
proof (rule fit_fields [OF apply_fields_ok(1) [OF ok]])
  fix k
  assume "must_have decl k"
  then obtain d where d: "map_of decl k = Some d" "is_required d \<or> is_default d \<noteq> GNil" by (auto simp: must_have_def)
  have key: "k \<in> fst ` set decl" using d(1) by (rule map_of_key)
  with apply_fields_ok(3) [OF ok] obtain xs where xs: "declared_entry L path decl data k = Inr xs" by blast
  from declared_entry_cases [OF xs d(1)] d(2) obtain w where "xs = [(k, w)]"
    by (auto simp: entry_value_def split: option.splits if_splits)
  with apply_fields_ok(2) [OF ok, of k w] key xs have "(k, w) \<in> set out" by simp
  then show "k \<in> fst ` set out" by force
next
  fix k w
  assume "(k, w) \<in> set out"
  with apply_fields_ok(2) [OF ok] consider
    "k \<in> fst ` set decl" "declared_entry L path decl data k = Inr [(k, w)]"
    | "k \<in> fst ` set data" "other_entry L path decl extra data k = Inr [(k, w)]" by blast
  then show "(\<exists>d. schema_for decl extra k = Some d \<and> fits L d w) \<or>
      (schema_for decl extra k = None \<and> extra = Some (Extra True None) \<and> plain L w)"
  proof cases
    case 1
    then obtain d where d: "map_of decl k = Some d" by (metis map_of_eq_None_iff not_None_eq)
    with declared_entry_cases [OF 1(2) d] decl [OF d] have "fits L d w" by (auto split: option.splits)
    with d show ?thesis by (auto simp: schema_for_def)
  next
    case 2
    have new: "map_of decl k = None" using 2(2) by (rule other_entry_new)
    from 2 obtain v where v: "map_of data k = Some v" by (metis map_of_eq_None_iff not_None_eq)
    from other_entry_cases [OF 2(2) v new] other [OF new v] free [OF new v] new show ?thesis
      by (auto simp: schema_for_def)
  qed
qed

lemma apply_sound:
  "apply_fields L path decl extra data = Inr out \<Longrightarrow> fields_typed decl extra \<longrightarrow> fields_fit L decl extra out"
  "apply_value L path d v = Inr w \<Longrightarrow> secrets_typed d \<longrightarrow> fits L d w"
  "copy_json L path v = Inr w \<Longrightarrow> plain L w"
proof (induction rule: apply_success_induct)
  case (fields L path decl extra data out)
  show ?case
  proof (intro impI fields_fitI [OF fields(1)])
    fix k d v w
    assume typed: "fields_typed decl extra" and k: "map_of decl k = Some d" "entry_value d data k = Some v"
      "apply_value L (inputPath path k) d v = Inr w"
    have "schema_for decl extra k = Some d" by (simp add: k(1) schema_for_def)
    with typed have "secrets_typed d" by (rule fields_typedD)
    with fields(2) [OF k] show "fits L d w" by blast
  next
    fix k a d v w
    assume typed: "fields_typed decl extra" and k: "map_of decl k = None" "map_of data k = Some v"
      "extra = Some (Extra a (Some d))" "apply_value L (inputPath path k) d v = Inr w"
    have "schema_for decl extra k = Some d" using k(1,3) by (simp add: schema_for_def)
    with typed have "secrets_typed d" by (rule fields_typedD)
    with fields(3) [OF k] show "fits L d w" by blast
  qed (use fields(4) in blast)
next
  case (object L path d v m out)
  have "\<not> is_secret d" if "secrets_typed d" using secrets_typed_self [OF that] object(2) by auto
  with object show ?case by (auto intro: fit_object dest: fields_typed_child)
next
  case (any_array L path d v xs ws)
  have "\<not> is_secret d" if "secrets_typed d" using secrets_typed_self [OF that] any_array(2) by auto
  moreover have "\<forall>x \<in> set ws. plain L x" using any_array(4,5) by (metis in_set_conv_nth)
  ultimately show ?case using any_array(2,3) by (auto intro: fit_any_array)
next
  case (array L path d v it xs ws)
  have "\<not> is_secret d" if "secrets_typed d" using secrets_typed_self [OF that] array(2) by auto
  moreover have "\<forall>x \<in> set ws. fits L it x" if "secrets_typed d"
    using array(4,5) secrets_typed_item [OF that array(3)] by (metis in_set_conv_nth)
  ultimately show ?case using array(2,3) by (auto intro: fit_array)
next
  case (scalar L path d v w)
  then show ?case by (blast intro: scalar_fits)
next
  case (copy_map L path m w)
  have "secrets_typed (bare ''object'')"
    by (rule secrets_typedI) (auto simp: bare_def schema_for_fields props_of_def)
  with copy_map fits_bare_object obtain out where "w = GMap out" "\<forall>(k, w) \<in> set out. plain L w" by blast
  with copy_map apply_bare_keys show ?case by (blast intro: plain_map)
next
  case (copy_list L path xs w)
  have "secrets_typed (bare ''array'')"
    by (rule secrets_typedI) (auto simp: bare_def schema_for_fields props_of_def)
  with copy_list fits_bare_array obtain ws where "w = GList ws" "\<forall>w \<in> set ws. plain L w" by blast
  then show ?case by (simp add: plain_list)
next
  case (copy_scalar L path v)
  then have "\<not> holds_ref Parse v" "\<not> holds_ref config_Parse v" by (simp_all add: Contains_iff config_Contains_iff)
  with copy_scalar(3) show ?case
    by (cases v) (use copy_scalar(4,5) in \<open>auto simp: plain_def\<close>)
qed

text \<open>C6. Whatever a compiled contract accepts fits its declarations: undeclared keys are refused, required and
  defaulted ones are present, every declared secret holds a reference, configuration references have
  the declared type, and data the declarations leave open holds no reference of any kind.\<close>

theorem contract_sound:
  assumes "CompileInputSchema L version schema = Inr c" "contract_Apply L c data = Inr out"
  shows "fields_fit L (ic_schema c) None out"
  using apply_sound(1) [OF assms(2) [unfolded contract_Apply_def]] compiled_typed [OF assms(1)] by blast

end
