(* ===== verification/Input_Submit.thy ===== *)
theory Input_Submit
  imports Input_Sound
begin

text \<open>
  Submission and dry runs: preparing the secrets of submitted inputs, that it leaves nothing in plain
  text where a secret is declared and changes nothing for the execution that applies the contract
  later, and the values a dry run is given.
\<close>

section \<open>Prepared secrets\<close>

inductive secrets_held :: "input_schema \<Rightarrow> gval \<Rightarrow> bool" where
  held_secret: "is_secret d \<Longrightarrow> Parse v = Ref r \<Longrightarrow> secrets_held d v"
| held_object: "\<not> is_secret d \<Longrightarrow> is_type d = ''object'' \<Longrightarrow>
    (\<And>k x e. (k, x) \<in> set m \<Longrightarrow> child_schema d k = Some e \<Longrightarrow> secrets_held e x) \<Longrightarrow> secrets_held d (GMap m)"
| held_array: "\<not> is_secret d \<Longrightarrow> is_type d = ''array'' \<Longrightarrow>
    (\<And>x e. x \<in> set xs \<Longrightarrow> is_items d = Some e \<Longrightarrow> secrets_held e x) \<Longrightarrow> secrets_held d (GList xs)"
| held_no_object: "\<not> is_secret d \<Longrightarrow> is_type d = ''object'' \<Longrightarrow> (\<And>m. v \<noteq> GMap m) \<Longrightarrow> secrets_held d v"
| held_no_array: "\<not> is_secret d \<Longrightarrow> is_type d = ''array'' \<Longrightarrow> (\<And>xs. v \<noteq> GList xs) \<Longrightarrow> secrets_held d v"
| held_scalar: "\<not> is_secret d \<Longrightarrow> is_type d \<noteq> ''object'' \<Longrightarrow> is_type d \<noteq> ''array'' \<Longrightarrow> secrets_held d v"

text \<open>A rewriting of the entries of a map: the keys in order, each value rewritten.\<close>

definition rewrite :: "(string \<Rightarrow> gval \<Rightarrow> 'e + gval) \<Rightarrow> (string \<times> gval) list \<Rightarrow> 'e + (string \<times> gval) list" where
  "rewrite g m = mapE (\<lambda>k. case map_of m k of
     None \<Rightarrow> Inr (k, GNil) | Some x \<Rightarrow> bindE (g k x) (\<lambda>w. Inr (k, w))) (input_keys m)"

lemma rewrite_ok:
  assumes "rewrite g m = Inr out"
  shows "map fst out = input_keys m" "distinct (map fst out)" "fst ` set out = fst ` set m"
    "map_of out k = Some w \<longleftrightarrow> (\<exists>x. map_of m k = Some x \<and> g k x = Inr w)"
    "(k, w) \<in> set out \<longleftrightarrow> (\<exists>x. map_of m k = Some x \<and> g k x = Inr w)"
proof -
  let ?f = "\<lambda>k. case map_of m k of None \<Rightarrow> Inr (k, GNil) | Some x \<Rightarrow> bindE (g k x) (\<lambda>w. Inr (k, w))"
  have keyed: "keyed ?f" by (auto simp: keyed_def bindE_ok split: option.splits)
  note R = mapE_keyed [OF assms [unfolded rewrite_def] keyed]
  show keys: "map fst out = input_keys m" by (rule R(1))
  then show dist: "distinct (map fst out)" by simp
  have "set (map fst out) = set (input_keys m)" by (simp only: keys)
  then show "fst ` set out = fst ` set m" by (auto simp: input_keys_def)
  show mem: "(k, w) \<in> set out \<longleftrightarrow> (\<exists>x. map_of m k = Some x \<and> g k x = Inr w)" for k w
  proof (cases "map_of m k")
    case None
    then have "k \<notin> set (input_keys m)" by (simp add: map_of_eq_None_iff)
    with None R(2) [of k w] show ?thesis by simp
  next
    case (Some x)
    then show ?thesis using R(2) [of k w] map_of_key [OF Some] by (simp add: bindE_ok)
  qed
  show "map_of out k = Some w \<longleftrightarrow> (\<exists>x. map_of m k = Some x \<and> g k x = Inr w)"
    using dist mem by simp
qed

lemma rewrite_cong: "(\<And>k x. map_of m k = Some x \<Longrightarrow> g k x = h k x) \<Longrightarrow> rewrite g m = rewrite h m"
  unfolding rewrite_def by (rule mapE_cong) (auto split: option.splits)

lemma rewrite_idem:
  assumes "rewrite g m = Inr out" "\<And>k x w. map_of m k = Some x \<Longrightarrow> g k x = Inr w \<Longrightarrow> g k w = Inr w"
  shows "rewrite g out = Inr out"
proof -
  have "input_keys out = map fst out"
    unfolding input_keys_def rewrite_ok(1) [OF assms(1)]
    by (simp add: input_keys_def sort_compact_id sorted_sort_compact)
  moreover have "(case map_of out k of None \<Rightarrow> Inr (k, GNil) | Some x \<Rightarrow> bindE (g k x) (\<lambda>w. Inr (k, w))) = Inr (k, w)"
    if "(k, w) \<in> set out" for k w
  proof -
    from that rewrite_ok(4,5) [OF assms(1)] obtain x where "map_of m k = Some x" "g k x = Inr w"
      and out: "map_of out k = Some w" by blast
    with assms(2) have "g k w = Inr w" by blast
    with out show ?thesis by simp
  qed
  ultimately show ?thesis
    unfolding rewrite_def mapE_ok_nth by (metis length_map nth_map nth_mem prod.collapse)
qed


definition prepare_child :: "input_lib \<Rightarrow> string \<Rightarrow> input_schema option \<Rightarrow> gval \<Rightarrow> input_error + gval" where
  "prepare_child L path child x = (case child of None \<Rightarrow> Inr x | Some d \<Rightarrow> prepareInputSecrets L path d x)"

lemma prepare_secret: "is_secret d \<Longrightarrow> prepareInputSecrets L path d v =
    (case Parse (template_secret L v) of Ref r \<Rightarrow> Inr (template_secret L v) | _ \<Rightarrow> Inl (PlaintextSecret path))"
  by (simp add: prepareInputSecrets.simps Let_def)

lemma prepare_object: "\<not> is_secret d \<Longrightarrow> is_type d = ''object'' \<Longrightarrow> prepareInputSecrets L path d (GMap m) =
    bindE (rewrite (\<lambda>k. prepare_child L (inputPath path k) (child_schema d k)) m) (\<lambda>m'. Inr (GMap m'))"
proof -
  have "bindE (prepare_child L p c x) (\<lambda>w. Inr (k, w)) =
      (case c of None \<Rightarrow> Inr (k, x) | Some e \<Rightarrow> bindE (prepareInputSecrets L p e x) (\<lambda>w. Inr (k, w)))" for p c x and k :: string
    by (simp add: prepare_child_def split: option.split)
  then show "\<not> is_secret d \<Longrightarrow> is_type d = ''object'' \<Longrightarrow> ?thesis"
    by (subst prepareInputSecrets.simps) (simp add: rewrite_def cong: option.case_cong)
qed

lemma prepare_array: "\<not> is_secret d \<Longrightarrow> is_type d = ''array'' \<Longrightarrow> prepareInputSecrets L path d (GList xs) =
    (case is_items d of None \<Rightarrow> Inr (GList xs)
     | Some it \<Rightarrow> bindE (mapE (\<lambda>i. prepareInputSecrets L (item_path path i) it (xs ! i)) [0..<length xs]) (\<lambda>ws. Inr (GList ws)))"
  by (subst prepareInputSecrets.simps) (simp split: option.split)

lemma prepare_other: "\<not> is_secret d \<Longrightarrow> is_type d = ''object'' \<longrightarrow> (\<forall>m. v \<noteq> GMap m) \<Longrightarrow>
    is_type d = ''array'' \<longrightarrow> (\<forall>xs. v \<noteq> GList xs) \<Longrightarrow> prepareInputSecrets L path d v = Inr v"
  by (subst prepareInputSecrets.simps) (cases v; simp)

text \<open>Every successful preparation, as an induction principle.\<close>

lemma prepare_success:
  assumes secret: "\<And>path d v r. is_secret d \<Longrightarrow> Parse (template_secret L v) = Ref r \<Longrightarrow> Q path d v (template_secret L v)"
    and object: "\<And>path d m m'. \<not> is_secret d \<Longrightarrow> is_type d = ''object'' \<Longrightarrow>
      rewrite (\<lambda>k. prepare_child L (inputPath path k) (child_schema d k)) m = Inr m' \<Longrightarrow>
      (\<And>k x e w. map_of m k = Some x \<Longrightarrow> child_schema d k = Some e \<Longrightarrow>
         prepareInputSecrets L (inputPath path k) e x = Inr w \<Longrightarrow> Q (inputPath path k) e x w) \<Longrightarrow> Q path d (GMap m) (GMap m')"
    and array: "\<And>path d it xs ws. \<not> is_secret d \<Longrightarrow> is_type d = ''array'' \<Longrightarrow> is_items d = Some it \<Longrightarrow> length ws = length xs \<Longrightarrow>
      (\<And>i. i < length xs \<Longrightarrow> prepareInputSecrets L (item_path path i) it (xs ! i) = Inr (ws ! i) \<and>
         Q (item_path path i) it (xs ! i) (ws ! i)) \<Longrightarrow> Q path d (GList xs) (GList ws)"
    and other: "\<And>path d v. \<not> is_secret d \<Longrightarrow> is_type d = ''object'' \<longrightarrow> (\<forall>m. v \<noteq> GMap m) \<Longrightarrow>
      is_type d = ''array'' \<longrightarrow> is_items d \<noteq> None \<longrightarrow> (\<forall>xs. v \<noteq> GList xs) \<Longrightarrow> Q path d v v"
  shows "prepareInputSecrets L path d v = Inr w \<Longrightarrow> Q path d v w"
proof (induction d arbitrary: path v w rule: measure_induct_rule [of size])
  case (less d)
  show ?case
  proof (cases "is_secret d")
    case True
    with less.prems obtain r where "Parse (template_secret L v) = Ref r" "w = template_secret L v"
      by (auto simp: prepare_secret split: parsed.splits)
    with True secret show ?thesis by blast
  next
    case False
    consider (map) m where "is_type d = ''object''" "v = GMap m"
      | (list) it xs where "is_type d = ''array''" "v = GList xs" "is_items d = Some it"
      | (free) xs where "is_type d = ''array''" "v = GList xs" "is_items d = None"
      | (other) "is_type d = ''object'' \<longrightarrow> (\<forall>m. v \<noteq> GMap m)" "is_type d = ''array'' \<longrightarrow> (\<forall>xs. v \<noteq> GList xs)"
      by (cases "is_items d") auto
    then show ?thesis
    proof cases
      case map
      with less.prems False obtain m' where m': "w = GMap m'"
        "rewrite (\<lambda>k. prepare_child L (inputPath path k) (child_schema d k)) m = Inr m'"
        by (auto simp: prepare_object bindE_ok)
      have "Q path d (GMap m) (GMap m')"
        using False map(1) m'(2) less.IH [OF child_size] by (rule object)
      with map m' show ?thesis by simp
    next
      case list
      with less.prems False obtain ws where ws: "w = GList ws"
        "mapE (\<lambda>i. prepareInputSecrets L (item_path path i) it (xs ! i)) [0..<length xs] = Inr ws"
        by (auto simp: prepare_array bindE_ok)
      then have each: "length ws = length xs" "i < length xs \<Longrightarrow> prepareInputSecrets L (item_path path i) it (xs ! i) = Inr (ws ! i)" for i
        unfolding mapE_ok_upt by blast+
      have "Q path d (GList xs) (GList ws)"
        using False list(1,3) each(1) by (rule array) (use each(2) less.IH [OF item_size [OF list(3)]] in blast)
      with list ws show ?thesis by simp
    next
      case free
      with less.prems False have "w = v" by (simp add: prepare_array)
      with free False show ?thesis by (simp add: assms(4))
    next
      case other
      with less.prems False have "w = v" by (simp add: prepare_other)
      with other False show ?thesis by (simp add: assms(4))
    qed
  qed
qed

lemmas prepare_success_induct [consumes 1, case_names secret object array other] = prepare_success [rotated 4]

lemma template_secret_idem: "Parse (template_secret L v) = Ref r \<Longrightarrow> template_secret L (template_secret L v) = template_secret L v"
  by (cases v) (auto simp: template_secret_def secret_value_def split: option.splits)

lemma prepare_child_Some: "child = Some e \<Longrightarrow> prepare_child L path child x = prepareInputSecrets L path e x"
  by (simp add: prepare_child_def)

lemma prepared_held: "prepareInputSecrets L path d v = Inr w \<Longrightarrow> secrets_held d w"
proof (induction rule: prepare_success_induct)
  case (object path d m m')
  show ?case
  proof (rule held_object [OF object(1,2)])
    fix k x e
    assume "(k, x) \<in> set m'" and e: "child_schema d k = Some e"
    with rewrite_ok(5) [OF object(3)] obtain y where "map_of m k = Some y"
      "prepare_child L (inputPath path k) (child_schema d k) y = Inr x" by blast
    with object(4) e show "secrets_held e x" unfolding prepare_child_Some [OF e] by blast
  qed
next
  case (array path d it xs ws)
  show ?case
  proof (rule held_array [OF array(1,2)])
    fix x e
    assume "x \<in> set ws" "is_items d = Some e"
    with array(3-5) show "secrets_held e x" by (auto simp: in_set_conv_nth)
  qed
next
  case (other path d v)
  then show ?case
    by (cases "is_type d = ''object''"; cases "is_type d = ''array''"; cases v)
      (auto intro: secrets_held.intros)
qed (rule held_secret)

lemma prepared_again: "prepareInputSecrets L path d v = Inr w \<Longrightarrow> prepareInputSecrets L path d w = Inr w"
proof (induction rule: prepare_success_induct)
  case (secret path d v r)
  then show ?case by (simp add: prepare_secret template_secret_idem)
next
  case (object path d m m')
  have "rewrite (\<lambda>k. prepare_child L (inputPath path k) (child_schema d k)) m' = Inr m'"
    using object(3)
  proof (rule rewrite_idem)
    fix k x w
    assume "map_of m k = Some x" "prepare_child L (inputPath path k) (child_schema d k) x = Inr w"
    with object(4) show "prepare_child L (inputPath path k) (child_schema d k) w = Inr w"
      by (cases "child_schema d k") (auto simp: prepare_child_def)
  qed
  with object(1,2) show ?case by (simp add: prepare_object)
next
  case (array path d it xs ws)
  then have "mapE (\<lambda>i. prepareInputSecrets L (item_path path i) it (ws ! i)) [0..<length ws] = Inr ws"
    unfolding mapE_ok_upt by simp
  with array(1-3) show ?case by (simp add: prepare_array)
next
  case (other path d v)
  then show ?case
    by (cases "is_type d = ''array'' \<and> is_items d = None"; cases v) (simp_all add: prepare_other prepare_array)
qed


section \<open>Preparation changes nothing for execution\<close>

text \<open>A Go map has one entry per key.\<close>

fun one_key_each :: "gval \<Rightarrow> bool" where
  "one_key_each (GMap m) = (distinct (map fst m) \<and> list_all (\<lambda>(k, v). one_key_each v) m)"
| "one_key_each (GList vs) = list_all one_key_each vs"
| "one_key_each v = True"

definition same_success :: "'e + 'a \<Rightarrow> 'e + 'a \<Rightarrow> bool" where
  "same_success x y = (\<forall>z. x = Inr z \<longleftrightarrow> y = Inr z)"

lemma same_success_refl [simp]: "same_success x x"
  by (simp add: same_success_def)

lemma same_success_bind: "same_success x y \<Longrightarrow> (\<And>z. x = Inr z \<Longrightarrow> same_success (f z) (g z)) \<Longrightarrow> same_success (bindE x f) (bindE y g)"
  unfolding same_success_def bindE_ok by blast

lemma same_success_mapE: "(\<And>x. x \<in> set xs \<Longrightarrow> same_success (f x) (g x)) \<Longrightarrow> same_success (mapE f xs) (mapE g xs)"
  unfolding same_success_def by (intro allI mapE_same_results) blast

lemma same_success_bind1: "same_success x y \<Longrightarrow> same_success (bindE x f) (bindE y f)"
  by (rule same_success_bind) simp_all

lemma apply_value_object:
  assumes "\<not> is_secret d" "is_type d = ''object''"
  shows "apply_value L p d (GMap m) = Inr z \<longleftrightarrow> config_Parse (GMap m) = NotRef \<and> obj_Parse (il_obj L) (GMap m) = NotRef \<and>
    \<not> (Contains (GMap m) \<and> is_props d = None \<and> is_extra d = None) \<and>
    (\<exists>r. apply_fields L p (props_of d) (Some (extra_of d)) m = Inr r \<and> z = GMap r)"
proof -
  have ref: "reference_field L p d (GMap m) = Inr x \<longleftrightarrow> config_Parse (GMap m) = NotRef \<and> x = GMap m" for x
    by (cases "config_Parse (GMap m)")
      (auto simp: reference_field_def config_field_def template_config_def simple_type_def assms Let_def
        simp del: config_Parse.simps)
  show ?thesis
  proof
    assume z: "apply_value L p d (GMap m) = Inr z"
    show "config_Parse (GMap m) = NotRef \<and> obj_Parse (il_obj L) (GMap m) = NotRef \<and>
      \<not> (Contains (GMap m) \<and> is_props d = None \<and> is_extra d = None) \<and>
      (\<exists>r. apply_fields L p (props_of d) (Some (extra_of d)) m = Inr r \<and> z = GMap r)"
      using z assms(2)
    proof (rule apply_object_ok)
      fix n r
      assume r: "reference_field L p d (GMap m) = Inr (GMap n)" "obj_Parse (il_obj L) (GMap n) = NotRef"
        "\<not> (Contains (GMap n) \<and> is_props d = None \<and> is_extra d = None)"
        "apply_fields L p (props_of d) (Some (extra_of d)) n = Inr r" "z = GMap r"
      then have "config_Parse (GMap m) = NotRef" "n = m" unfolding ref by simp_all
      with r(2-5) show ?thesis by blast
    qed
  next
    assume r: "config_Parse (GMap m) = NotRef \<and> obj_Parse (il_obj L) (GMap m) = NotRef \<and>
      \<not> (Contains (GMap m) \<and> is_props d = None \<and> is_extra d = None) \<and>
      (\<exists>r. apply_fields L p (props_of d) (Some (extra_of d)) m = Inr r \<and> z = GMap r)"
    then have "reference_field L p d (GMap m) = Inr (GMap m)" unfolding ref by blast
    with r assms(2) show "apply_value L p d (GMap m) = Inr z"
      by (subst apply_value.simps) (auto simp del: obj_Parse.simps)
  qed
qed

lemma apply_value_array:
  assumes "\<not> is_secret d" "is_type d = ''array''"
  shows "apply_value L p d (GList xs) = bindE (mapE (\<lambda>i. case is_items d of
      None \<Rightarrow> copy_json L (item_path p i) (xs ! i)
    | Some it \<Rightarrow> apply_value L (item_path p i) it (xs ! i)) [0..<length xs]) (\<lambda>ws. Inr (GList ws))"
  by (subst apply_value.simps)
    (simp add: assms reference_field_def config_field_def template_config_def config_format.parse_list)

lemma apply_fields_same:
  assumes "fst ` set m' = fst ` set m"
    and "\<And>k x w. map_of m k = Some x \<Longrightarrow> map_of m' k = Some w \<Longrightarrow> schema_for decl extra k = None \<Longrightarrow> w = x"
    and "\<And>k x w e p. map_of m k = Some x \<Longrightarrow> map_of m' k = Some w \<Longrightarrow> schema_for decl extra k = Some e \<Longrightarrow>
      same_success (apply_value L p e w) (apply_value L p e x)"
  shows "same_success (apply_fields L p decl extra m') (apply_fields L p decl extra m)"
proof -
  have keys: "input_keys m' = input_keys m"
    unfolding input_keys_def by (rule sorted_distinct_set_unique) (use assms(1) in \<open>simp_all add: sorted_sort_compact\<close>)
  have "map_of m' k = None \<longleftrightarrow> map_of m k = None" for k
    using assms(1) by (simp add: map_of_eq_None_iff)
  then have both: "(map_of m k = None \<and> map_of m' k = None) \<or> (\<exists>x w. map_of m k = Some x \<and> map_of m' k = Some w)" for k
    by (metis option.exhaust_sel)
  have decl: "same_success (declared_entry L p decl m' k) (declared_entry L p decl m k)" for k
  proof (cases "map_of decl k")
    case None
    then show ?thesis by (simp add: declared_entry_def)
  next
    case (Some d)
    then have d: "schema_for decl extra k = Some d" by (simp add: schema_for_def)
    from both [of k] show ?thesis
    proof (elim disjE exE conjE)
      fix x w
      assume x: "map_of m k = Some x" "map_of m' k = Some w"
      then show ?thesis
        using same_success_bind1 [OF assms(3) [OF x d]] by (simp add: declared_entry_def Some)
    qed (simp add: declared_entry_def Some)
  qed
  have other: "same_success (other_entry L p decl extra m' k) (other_entry L p decl extra m k)" for k
    using both [of k]
  proof (elim disjE exE conjE)
    fix x w
    assume x: "map_of m k = Some x" "map_of m' k = Some w"
    show ?thesis
    proof (cases "schema_for decl extra k")
      case None
      with assms(2) [OF x] x show ?thesis by (simp add: other_entry_def)
    next
      case (Some e)
      then consider "map_of decl k \<noteq> None" | a where "map_of decl k = None" "extra = Some (Extra a (Some e))"
        unfolding schema_for_fields by blast
      then show ?thesis
        by cases (use x same_success_bind1 [OF assms(3) [OF x Some]] in \<open>simp_all add: other_entry_def split: bool.split\<close>)
    qed
  qed (simp add: other_entry_def)
  show ?thesis
    unfolding apply_fields_loops keys by (intro same_success_bind same_success_mapE decl other) simp_all
qed


lemma apply_value_same_ref: "reference_field L p d w = reference_field L p d v \<Longrightarrow> apply_value L p d w = apply_value L p d v"
  by (simp add: apply_value.simps)

lemma child_schema_for: "child_schema d k = schema_for (props_of d) (is_extra d) k"
  by (simp add: child_schema_def schema_for_def split: option.split)

lemma prepared_same:
  "prepareInputSecrets L path d v = Inr w \<Longrightarrow> one_key_each v \<longrightarrow> (\<forall>p. same_success (apply_value L p d w) (apply_value L p d v))"
proof (induction rule: prepare_success_induct)
  case (secret path d v r)
  then have "reference_field L p d (template_secret L v) = reference_field L p d v" for p
    by (simp add: reference_field_def secret_field_def template_secret_idem)
  from apply_value_same_ref [OF this] show ?case by simp
next
  case (object path d m m')
  show ?case
  proof (intro impI allI)
    fix p
    assume keys: "one_key_each (GMap m)"
    note R = rewrite_ok [OF object(3)]
    have fields: "same_success (apply_fields L p (props_of d) (Some (extra_of d)) m')
        (apply_fields L p (props_of d) (Some (extra_of d)) m)"
    proof (rule apply_fields_same [OF R(3)])
      fix k x w
      assume "map_of m k = Some x" "map_of m' k = Some w" "schema_for (props_of d) (Some (extra_of d)) k = None"
      with R(4) [of k w] show "w = x" by (simp add: prepare_child_def child_schema_for)
    next
      fix k x w e p
      assume k: "map_of m k = Some x" "map_of m' k = Some w" "schema_for (props_of d) (Some (extra_of d)) k = Some e"
      then have e: "child_schema d k = Some e" by (simp add: child_schema_for)
      with R(4) [of k w] k have "prepareInputSecrets L (inputPath path k) e x = Inr w" by (simp add: prepare_child_def)
      moreover have "one_key_each x" using keys map_of_SomeD [OF k(1)] by (auto simp: list_all_iff)
      ultimately show "same_success (apply_value L p e w) (apply_value L p e x)" using object(4) [OF k(1) e] by blast
    qed
    have "Contains (GMap m') \<longleftrightarrow> Contains (GMap m)" if "is_props d = None" "is_extra d = None"
    proof -
      have none: "child_schema d k = None" for k using that by (simp add: child_schema_def props_of_def)
      have "map_of m' k = map_of m k" for k
        using R(4) [of k] by (cases "map_of m k"; cases "map_of m' k") (auto simp: none prepare_child_def)
      then have "set m' = set m" using keys R(2) map_of_inject_set [of m' m] by (simp add: fun_eq_iff)
      moreover have "Parse (GMap m') = NotRef \<longleftrightarrow> Parse (GMap m) = NotRef"
        unfolding secret_format.parse_map R(3) ..
      ultimately show ?thesis by (simp add: Contains_iff list_ex_iff del: Parse.simps)
    qed
    then have contains: "(Contains (GMap m') \<and> is_props d = None \<and> is_extra d = None) \<longleftrightarrow>
        (Contains (GMap m) \<and> is_props d = None \<and> is_extra d = None)" by blast
    have notref: "config_Parse (GMap m') = NotRef \<longleftrightarrow> config_Parse (GMap m) = NotRef"
      "obj_Parse (il_obj L) (GMap m') = NotRef \<longleftrightarrow> obj_Parse (il_obj L) (GMap m) = NotRef"
      unfolding config_format.parse_map object_format.parse_map R(3) by (rule refl)+
    show "same_success (apply_value L p d (GMap m')) (apply_value L p d (GMap m))"
      using fields unfolding same_success_def apply_value_object [OF object(1,2)] contains notref by blast
  qed
next
  case (array path d it xs ws)
  show ?case
  proof (intro impI allI)
    fix p
    assume "one_key_each (GList xs)"
    then have "same_success (apply_value L q it (ws ! i)) (apply_value L q it (xs ! i))" if "i < length xs" for i q
      using array(5) [OF that] that by (simp add: list_all_length)
    then show "same_success (apply_value L p d (GList ws)) (apply_value L p d (GList xs))"
      unfolding apply_value_array [OF array(1,2)] array(4)
      by (intro same_success_bind1 same_success_mapE) (simp add: array(3))
  qed
qed simp


lemma PrepareSubmittedSecrets_rewrite:
  "PrepareSubmittedSecrets L c data = rewrite (\<lambda>k. prepare_child L k (map_of (ic_schema c) k)) data"
proof -
  have "bindE (prepare_child L p s x) (\<lambda>w. Inr (k, w)) =
      (case s of None \<Rightarrow> Inr (k, x) | Some e \<Rightarrow> bindE (prepareInputSecrets L p e x) (\<lambda>w. Inr (k, w)))" for p s x and k :: string
    by (simp add: prepare_child_def split: option.split)
  then show ?thesis by (simp add: PrepareSubmittedSecrets_def rewrite_def cong: option.case_cong)
qed

text \<open>C8. Inputs that pass submission have the keys they had, hold a reference at every position a secret
  is declared for, at any depth, and pass submission again unchanged.\<close>

theorem submitted_secrets_held:
  assumes "PrepareSubmittedSecrets L c data = Inr out"
  shows "fst ` set out = fst ` set data \<and> PrepareSubmittedSecrets L c out = Inr out \<and>
    (\<forall>k d v. map_of (ic_schema c) k = Some d \<longrightarrow> map_of out k = Some v \<longrightarrow> secrets_held d v)"
proof -
  note R = rewrite_ok [OF assms [unfolded PrepareSubmittedSecrets_rewrite]]
  have "PrepareSubmittedSecrets L c out = Inr out"
    unfolding PrepareSubmittedSecrets_rewrite
  proof (rule rewrite_idem [OF assms [unfolded PrepareSubmittedSecrets_rewrite]])
    fix k x w
    assume "prepare_child L k (map_of (ic_schema c) k) x = Inr w"
    then show "prepare_child L k (map_of (ic_schema c) k) w = Inr w"
      by (auto simp: prepare_child_def dest: prepared_again split: option.splits)
  qed
  moreover have "secrets_held d v" if "map_of (ic_schema c) k = Some d" "map_of out k = Some v" for k d v
    using that R(4) [of k v] by (auto simp: prepare_child_def dest: prepared_held)
  ultimately show ?thesis using R(3) by blast
qed

text \<open>C7. Preparing submitted inputs does not change what their execution is given: the contract accepts the
  prepared inputs exactly when it accepts the submitted ones, with the same result.\<close>

theorem preparation_transparent:
  assumes "PrepareSubmittedSecrets L c data = Inr out" "one_key_each (GMap data)"
  shows "contract_Apply L c out = Inr z \<longleftrightarrow> contract_Apply L c data = Inr z"
proof -
  note R = rewrite_ok [OF assms(1) [unfolded PrepareSubmittedSecrets_rewrite]]
  have "same_success (apply_fields L [] (ic_schema c) None out) (apply_fields L [] (ic_schema c) None data)"
  proof (rule apply_fields_same [OF R(3)])
    fix k x w
    assume "map_of data k = Some x" "map_of out k = Some w" "schema_for (ic_schema c) None k = None"
    with R(4) [of k w] show "w = x" by (simp add: prepare_child_def schema_for_def split: option.splits)
  next
    fix k x w e p
    assume k: "map_of data k = Some x" "map_of out k = Some w" "schema_for (ic_schema c) None k = Some e"
    then have "prepareInputSecrets L k e x = Inr w"
      using R(4) [of k w] by (simp add: prepare_child_def schema_for_def split: option.splits)
    moreover have "one_key_each x" using assms(2) map_of_SomeD [OF k(1)] by (auto simp: list_all_iff)
    ultimately show "same_success (apply_value L p e w) (apply_value L p e x)" using prepared_same by blast
  qed
  then show ?thesis by (simp add: contract_Apply_def same_success_def)
qed

section \<open>Dry runs\<close>

definition ex_nested :: "(string \<times> input_schema) list" where
  "ex_nested = [(''registry'', Schema [] False [] ''object'' True GNil
     (Some [(''host'', bare ''string''), (''token'', Schema [] True [] ''string'' True GNil None None None)]) None None)]"




section \<open>Witnesses\<close>

definition ex_input_lib :: input_lib where
  "ex_input_lib = \<lparr>il_cel = (\<lambda>_. None), il_unquote = (\<lambda>_. None), il_obj = ex_lib, il_artifact = (\<lambda>_. False)\<rparr>"

definition ex_contract :: input_contract where
  "ex_contract = \<lparr>ic_schema = ex_nested, ic_open_includes = False\<rparr>"

definition ex_inputs :: "gval \<Rightarrow> (string \<times> gval) list" where
  "ex_inputs token = [(''registry'', GMap [(''host'', GStr ''h''), (''token'', token)])]"

definition ex_template :: gval where "ex_template = GStr ''${{context.secrets.T}}''"
definition ex_held :: gval where "ex_held = secret_value (named_secret ''T'')"

theorem contract_sound_witness: "fields_fit ex_input_lib ex_nested None (ex_inputs ex_held)"
proof -
  have "CompileInputSchema ex_input_lib 2 ex_nested = Inr ex_contract" by code_simp
  moreover have "contract_Apply ex_input_lib ex_contract (ex_inputs ex_template) = Inr (ex_inputs ex_held)" by code_simp
  ultimately show ?thesis using contract_sound [of ex_input_lib 2 ex_nested ex_contract] by (simp add: ex_contract_def)
qed

lemma ex_submitted: "PrepareSubmittedSecrets ex_input_lib ex_contract (ex_inputs ex_template) = Inr (ex_inputs ex_held)"
  by code_simp

theorem submitted_secrets_held_witness:
  "PrepareSubmittedSecrets ex_input_lib ex_contract (ex_inputs ex_held) = Inr (ex_inputs ex_held)"
  using submitted_secrets_held [OF ex_submitted] by blast

theorem preparation_transparent_witness:
  "contract_Apply ex_input_lib ex_contract (ex_inputs ex_held) = Inr (ex_inputs ex_held) \<longleftrightarrow>
   contract_Apply ex_input_lib ex_contract (ex_inputs ex_template) = Inr (ex_inputs ex_held)"
  by (rule preparation_transparent [OF ex_submitted]) (simp add: ex_inputs_def ex_template_def)

end
