(* ===== verification/Template_Parser.thy ===== *)
theory Template_Parser
  imports Go_Strings
begin

text \<open>
  \<^verbatim>\<open>pkg/template/template_parser.go\<close>: templates are split into text and the CEL expressions
  between \<^verbatim>\<open>${{\<close> and \<^verbatim>\<open>}}\<close>, where quoted strings hide the closing braces. The parser is
  shown to decide a grammar in which quoting is described without its lookahead.
\<close>

section \<open>Segments\<close>

datatype segment = TextSegment string nat | ExpressionSegment string nat

fun Position :: "segment \<Rightarrow> nat" where
  "Position (TextSegment t pos) = pos"
| "Position (ExpressionSegment e pos) = pos"

datatype template_error = UnclosedExpression | EscapeAtEnd | GoDelimiters nat | AtPosition nat template_error

definition expr_open :: string where "expr_open = ''${{''"
definition expr_close :: string where "expr_close = ''}}''"
definition go_open :: string where "go_open = ''{{''"

abbreviation double_quote :: char where "double_quote \<equiv> CHR 0x22"
abbreviation single_quote :: char where "single_quote \<equiv> CHR 0x27"
abbreviation backslash :: char where "backslash \<equiv> CHR 0x5C"
abbreviation brace :: char where "brace \<equiv> CHR 0x7D"

definition quote :: "char \<Rightarrow> bool" where
  "quote c = (c = double_quote \<or> c = single_quote)"

section \<open>The scanner\<close>

text \<open>\<open>findExpressionEnd\<close> on what is left of the input, with the delimiter of the string it is in.\<close>

fun find_end :: "char option \<Rightarrow> string \<Rightarrow> nat \<Rightarrow> template_error + nat" where
  "find_end d [] pos = Inl UnclosedExpression"
| "find_end None (c # s) pos =
     (if c = brace \<and> s \<noteq> [] \<and> hd s = brace then Inr pos
      else if quote c then find_end (Some c) s (pos + 1)
      else find_end None s (pos + 1))"
| "find_end (Some q) (c # s) pos =
     (if q = double_quote \<and> c = backslash
        then (case s of [] \<Rightarrow> Inl EscapeAtEnd | x # t \<Rightarrow> find_end (Some q) t (pos + 2))
      else if q = single_quote \<and> c = single_quote \<and> s \<noteq> [] \<and> hd s = single_quote
        then find_end (Some q) (tl s) (pos + 2)
      else if c = q then find_end None s (pos + 1)
      else find_end (Some q) s (pos + 1))"

definition findExpressionEnd :: "string \<Rightarrow> nat \<Rightarrow> template_error + nat" where
  "findExpressionEnd input start = find_end None (drop start input) start"

lemma find_end_bounds: "find_end d s pos = Inr e \<Longrightarrow> pos \<le> e \<and> e < pos + length s"
proof (induction d s pos rule: find_end.induct)
  case (2 c s pos)
  then show ?case by (auto split: if_splits)
next
  case (3 q c s pos)
  then show ?case by (cases s) (auto split: if_splits)
qed simp

lemma findExpressionEnd_bounds: "findExpressionEnd input start = Inr e \<Longrightarrow> start \<le> e \<and> e < length input"
  using find_end_bounds [of None "drop start input" start e] by (cases "start \<le> length input") (auto simp: findExpressionEnd_def)

text \<open>Where the expression begins after the blanks, and the segment of the text before it.\<close>

definition text_before :: "string \<Rightarrow> nat \<Rightarrow> segment list" where
  "text_before t pos = (if t = [] then [] else [TextSegment t pos])"

definition skip_blanks :: "string \<Rightarrow> nat" where
  "skip_blanks s = length (takeWhile (\<lambda>c. c = CHR '' '' \<or> c = CHR 0x09) s)"

function parse_from :: "string \<Rightarrow> nat \<Rightarrow> template_error + segment list" where
  "parse_from input pos =
     (if pos \<ge> length input then Inr []
      else case go_index (drop pos input) expr_open of
        None \<Rightarrow> Inr [TextSegment (drop pos input) pos]
      | Some idx \<Rightarrow>
          let start = pos + idx + 3 in
          (case findExpressionEnd input start of
             Inl e \<Rightarrow> Inl (AtPosition start e)
           | Inr stop \<Rightarrow>
               let raw = take (stop - start) (drop start input); content = trim_space raw in
               if go_contains content go_open then Inl (GoDelimiters (start + skip_blanks raw))
               else bindE (parse_from input (stop + 2)) (\<lambda>segments.
                 Inr (text_before (take idx (drop pos input)) pos @
                   ExpressionSegment content (start + skip_blanks raw) # segments))))"
  by pat_completeness auto

termination
  by (relation "measure (\<lambda>(input, pos). length input - pos)") (auto dest: findExpressionEnd_bounds)

declare parse_from.simps [simp del]

definition parseTemplate :: "string \<Rightarrow> template_error + segment list" where
  "parseTemplate input = parse_from input 0"

definition isInterpolationTemplate :: "segment list \<Rightarrow> bool" where
  "isInterpolationTemplate segments = (length segments > 1)"


section \<open>The grammar\<close>

text \<open>What may stand between the delimiters: quoted strings, in which a backslash escapes only between
  double quotes, and other text that does not begin with the closing delimiter. A doubled single
  quote is two strings side by side.\<close>

inductive closes :: "char option \<Rightarrow> string \<Rightarrow> bool" where
  closes_end: "closes None []"
| closes_char: "\<not> quote c \<Longrightarrow> c = brace \<longrightarrow> s \<noteq> [] \<and> hd s \<noteq> brace \<Longrightarrow> closes None s \<Longrightarrow> closes None (c # s)"
| closes_open: "quote c \<Longrightarrow> closes (Some c) s \<Longrightarrow> closes None (c # s)"
| closes_escape: "closes (Some double_quote) s \<Longrightarrow> closes (Some double_quote) (backslash # c # s)"
| closes_inside: "c \<noteq> q \<Longrightarrow> q = double_quote \<longrightarrow> c \<noteq> backslash \<Longrightarrow> closes (Some q) s \<Longrightarrow> closes (Some q) (c # s)"
| closes_close: "closes None s \<Longrightarrow> closes (Some q) (q # s)"

inductive_simps closes_simps [simp]: "closes None []" "closes (Some q) []" "closes None (c # s)"

inductive template :: "string \<Rightarrow> nat \<Rightarrow> segment list \<Rightarrow> bool" where
  template_end: "template [] pos []"
| template_text: "t \<noteq> [] \<Longrightarrow> \<not> sublist expr_open t \<Longrightarrow> template t pos [TextSegment t pos]"
| template_expr: "\<not> sublist expr_open (t @ ''${'') \<Longrightarrow> closes None raw \<Longrightarrow> \<not> sublist go_open (trim_space raw) \<Longrightarrow>
    template rest (pos + length t + 3 + length raw + 2) segments \<Longrightarrow>
    template (t @ expr_open @ raw @ expr_close @ rest) pos
      (text_before t pos @ ExpressionSegment (trim_space raw) (pos + length t + 3 + skip_blanks raw) # segments)"

text \<open>The lookahead for a doubled single quote is redundant.\<close>

lemma find_end_doubled:
  "find_end (Some single_quote) (single_quote # single_quote # s) pos = find_end None (single_quote # s) (pos + 1)"
  by (simp add: quote_def)

lemma find_end_quote: "\<not> (q = double_quote \<and> c = backslash) \<Longrightarrow>
    find_end (Some q) (c # s) pos = (if c = q then find_end None s (pos + 1) else find_end (Some q) s (pos + 1))"
  by (cases s) (auto simp: quote_def)

lemma find_end_escape: "find_end (Some double_quote) (backslash # c # s) pos = find_end (Some double_quote) s (pos + 2)"
  by simp

lemma find_end_closes: "closes d raw \<Longrightarrow> find_end d (raw @ expr_close @ rest) pos = Inr (pos + length raw)"
proof (induction d raw arbitrary: pos rule: closes.induct)
  case closes_end
  then show ?case by (simp add: expr_close_def)
next
  case (closes_char c s)
  then show ?case by (cases s) (auto simp: expr_close_def quote_def)
next
  case (closes_open c s)
  then show ?case by (auto simp: quote_def)
next
  case (closes_escape s c)
  then show ?case by simp
next
  case (closes_inside c q s)
  then show ?case by (subst append_Cons, subst find_end_quote) auto
next
  case (closes_close s q)
  then show ?case by (subst append_Cons, subst find_end_quote) auto
qed

definition split_at :: "char option \<Rightarrow> string \<Rightarrow> nat \<Rightarrow> nat \<Rightarrow> bool" where
  "split_at d s pos e = (\<exists>raw rest. s = raw @ expr_close @ rest \<and> e = pos + length raw \<and> closes d raw)"

lemma split_atI: "s = raw @ expr_close @ rest \<Longrightarrow> e = pos + length raw \<Longrightarrow> closes d raw \<Longrightarrow> split_at d s pos e"
  by (auto simp: split_at_def)

lemma split_at_char:
  assumes "split_at None s (pos + 1) e" "\<not> quote c" "\<not> (c = brace \<and> s \<noteq> [] \<and> hd s = brace)"
  shows "split_at None (c # s) pos e"
proof -
  from assms(1) obtain raw rest where r: "s = raw @ expr_close @ rest" "e = pos + 1 + length raw" "closes None raw"
    by (auto simp: split_at_def)
  with assms(3) have "c = brace \<longrightarrow> raw \<noteq> [] \<and> hd raw \<noteq> brace" by (cases raw) (auto simp: expr_close_def)
  with r assms(2) show ?thesis
    by (intro split_atI [of _ "c # raw" rest]) (auto intro: closes_char)
qed

lemma split_at_step:
  assumes "split_at d' s (pos + length w) e" "\<And>raw. closes d' raw \<Longrightarrow> closes d (w @ raw)"
  shows "split_at d (w @ s) pos e"
proof -
  from assms(1) obtain raw rest where "s = raw @ expr_close @ rest" "e = pos + length w + length raw" "closes d' raw"
    by (auto simp: split_at_def)
  with assms(2) show ?thesis by (intro split_atI [of _ "w @ raw" rest]) auto
qed

lemma find_end_splits: "find_end d s pos = Inr e \<Longrightarrow> split_at d s pos e"
proof (induction "length s" arbitrary: d s pos rule: less_induct)
  case less
  then obtain c t where s: "s = c # t" by (cases s) auto
  note IH = less.hyps
  show ?case
  proof (cases d)
    case None
    consider (stop) "c = brace" "t \<noteq> []" "hd t = brace" | (quoted) "quote c"
      | (char) "\<not> quote c" "\<not> (c = brace \<and> t \<noteq> [] \<and> hd t = brace)" by blast
    then show ?thesis
    proof cases
      case stop
      with less.prems None have "e = pos" by (simp add: s)
      moreover from stop have "s = [] @ expr_close @ tl t" by (cases t) (auto simp: s expr_close_def)
      ultimately show ?thesis using None by (intro split_atI [of _ "[]" "tl t"]) auto
    next
      case quoted
      then have "c \<noteq> brace" by (auto simp: quote_def)
      with quoted less.prems None have "split_at (Some c) t (pos + length [c]) e" by (intro IH) (auto simp: s)
      from split_at_step [OF this, of None] quoted show ?thesis by (simp add: s None)
    next
      case char
      with less.prems None have "split_at None t (pos + 1) e" by (intro IH) (auto simp: s)
      from split_at_char [OF this char] show ?thesis by (simp add: s None)
    qed
  next
    case (Some q)
    show ?thesis
    proof (cases "q = double_quote \<and> c = backslash")
      case True
      with less.prems Some obtain x u where t: "t = x # u" by (cases t) (auto simp: s)
      with True less.prems Some have "split_at (Some q) u (pos + length [c, x]) e" by (intro IH) (auto simp: s)
      from split_at_step [OF this, of "Some q"] True show ?thesis by (simp add: s t Some closes_escape)
    next
      case False
      note eq = less.prems [unfolded Some s find_end_quote [OF False]]
      show ?thesis
      proof (cases "c = q")
        case True
        with eq have "split_at None t (pos + length [c]) e" by (intro IH) (auto simp: s)
        from split_at_step [OF this, of "Some q"] True show ?thesis by (simp add: s Some closes_close)
      next
        case neq: False
        with eq have "split_at (Some q) t (pos + length [c]) e" by (intro IH) (auto simp: s)
        from split_at_step [OF this, of "Some q"] neq False show ?thesis by (simp add: s Some closes_inside)
      qed
    qed
  qed
qed

text \<open>The first opening delimiter.\<close>

lemma go_index_open:
  "go_index s expr_open = Some i \<longleftrightarrow> (\<exists>t rest. s = t @ expr_open @ rest \<and> length t = i \<and> \<not> sublist expr_open (t @ ''${''))"
proof
  assume i: "go_index s expr_open = Some i"
  then obtain t rest where t: "s = t @ expr_open @ rest" "length t = i" using go_index_Some by blast
  have "\<not> sublist expr_open (t @ ''${'')"
  proof
    assume "sublist expr_open (t @ ''${'')"
    then obtain a b where ab: "t @ ''${'' = a @ expr_open @ b" by (auto simp: sublist_def)
    then have "s = a @ expr_open @ (b @ ''{'' @ rest)" by (simp add: t(1) expr_open_def)
    from go_index_least [OF this] i have "i \<le> length a" by auto
    moreover from arg_cong [OF ab, of length] t(2) have "length a + 1 + length b = i" by (simp add: expr_open_def)
    ultimately show False by simp
  qed
  with t show "\<exists>t rest. s = t @ expr_open @ rest \<and> length t = i \<and> \<not> sublist expr_open (t @ ''${'')" by blast
next
  assume "\<exists>t rest. s = t @ expr_open @ rest \<and> length t = i \<and> \<not> sublist expr_open (t @ ''${'')"
  then obtain t rest where t: "s = t @ expr_open @ rest" "length t = i" "\<not> sublist expr_open (t @ ''${'')" by blast
  from go_index_least [OF t(1)] obtain j where j: "j \<le> i" "go_index s expr_open = Some j" using t(2) by blast
  moreover have "j = i"
  proof (rule ccontr)
    assume "j \<noteq> i"
    with j have less: "j < i" by simp
    from go_index_Some [OF j(2)] obtain a b where a: "s = a @ expr_open @ b" "length a = j" by blast
    define m where "m = i - length a - 1"
    with less a(2) have m: "i = length a + Suc m" by simp
    have "take (i + 2) s = t @ ''${''" by (simp add: t(1) t(2) [symmetric] expr_open_def)
    moreover have "take (i + 2) s = a @ expr_open @ take m b" by (simp add: a(1) m expr_open_def numeral_3_eq_3)
    ultimately have "t @ ''${'' = a @ expr_open @ take m b" by (rule trans [OF sym])
    then have "sublist expr_open (t @ ''${'')" unfolding sublist_def by blast
    with t(3) show False by simp
  qed
  ultimately show "go_index s expr_open = Some i" by simp
qed


section \<open>The parser decides the grammar\<close>

lemma take_drop_expression:
  assumes "drop pos input = t @ expr_open @ raw @ expr_close @ rest"
  shows "drop (pos + length t + 3) input = raw @ expr_close @ rest"
    "drop (pos + length t + 3 + length raw + 2) input = rest"
    "take (length t) (drop pos input) = t"
proof -
  have "drop (pos + length t + 3) input = drop (length t + 3) (drop pos input)" by (simp add: ac_simps)
  then show start: "drop (pos + length t + 3) input = raw @ expr_close @ rest" by (simp add: assms expr_open_def)
  have "drop (pos + length t + 3 + length raw + 2) input = drop (length raw + 2) (drop (pos + length t + 3) input)"
    by (simp add: add.commute add.left_commute)
  then show "drop (pos + length t + 3 + length raw + 2) input = rest" by (simp add: start expr_close_def)
  show "take (length t) (drop pos input) = t" by (simp add: assms)
qed

lemma template_parse: "template s pos segments \<Longrightarrow> drop pos input = s \<Longrightarrow> parse_from input pos = Inr segments"
proof (induction s pos segments rule: template.induct)
  case (template_end pos)
  then show ?case by (subst parse_from.simps) simp
next
  case (template_text t pos)
  then have "pos < length input" "go_index t expr_open = None"
    using go_contains_iff [of t expr_open] by (auto simp: go_contains_def)
  with template_text show ?case by (subst parse_from.simps) (simp add: not_le)
next
  case (template_expr t raw rest pos segments)
  note parts = take_drop_expression [OF template_expr.prems]
  have "pos < length input" using template_expr.prems by (cases "pos < length input") (auto simp: expr_open_def)
  moreover have "go_index (drop pos input) expr_open = Some (length t)"
    unfolding go_index_open template_expr.prems using template_expr.hyps(1) by blast
  moreover have "findExpressionEnd input (pos + length t + 3) = Inr (pos + length t + 3 + length raw)"
    using find_end_closes [OF template_expr.hyps(2)] by (simp add: findExpressionEnd_def parts(1))
  moreover have "parse_from input (pos + length t + 3 + length raw + 2) = Inr segments"
    using parts(2) by (rule template_expr.IH)
  moreover have "\<not> go_contains (trim_space raw) go_open" using template_expr.hyps(3) by (simp add: go_contains_iff)
  ultimately show ?case by (subst parse_from.simps) (simp add: Let_def parts(1,3) not_le)
qed

lemma parse_template: "parse_from input pos = Inr segments \<Longrightarrow> pos \<le> length input \<Longrightarrow> template (drop pos input) pos segments"
proof (induction input pos arbitrary: segments rule: parse_from.induct)
  case (1 input pos)
  show ?case
  proof (cases "pos \<ge> length input")
    case True
    with "1.prems" show ?thesis by (simp add: parse_from.simps [of input pos] template_end)
  next
    case False
    show ?thesis
    proof (cases "go_index (drop pos input) expr_open")
      case None
      then have "\<not> sublist expr_open (drop pos input)" using go_contains_iff [of "drop pos input" expr_open] by (simp add: go_contains_def)
      moreover have "drop pos input \<noteq> []" using False by simp
      ultimately have "template (drop pos input) pos [TextSegment (drop pos input) pos]" by (intro template_text)
      with "1.prems" False None show ?thesis by (simp add: parse_from.simps [of input pos])
    next
      case (Some idx)
      then obtain t tail where t: "drop pos input = t @ expr_open @ tail" "length t = idx" "\<not> sublist expr_open (t @ ''${'')"
        unfolding go_index_open by blast
      have start: "drop (pos + idx + 3) input = tail"
        using t(1,2) drop_drop [of "idx + 3" pos input] by (simp add: expr_open_def ac_simps)
      note eq = "1.prems"(1) [unfolded parse_from.simps [of input pos]]
      with False Some obtain stop where stop: "findExpressionEnd input (pos + idx + 3) = Inr stop"
        by (auto simp: Let_def split: sum.splits)
      then have "split_at None tail (pos + idx + 3) stop"
        by (intro find_end_splits) (simp add: findExpressionEnd_def start)
      then obtain raw rest where raw: "tail = raw @ expr_close @ rest" "stop = pos + idx + 3 + length raw" "closes None raw"
        by (auto simp: split_at_def)
      note parts = take_drop_expression [OF t(1) [unfolded raw(1)]]
      let ?content = "trim_space raw"
      have taken: "take (stop - (pos + idx + 3)) (drop (pos + idx + 3) input) = raw" by (simp add: start raw(1,2))
      from eq False Some stop obtain segs where
        segs: "\<not> go_contains ?content go_open" "parse_from input (stop + 2) = Inr segs"
          "segments = text_before t pos @ ExpressionSegment ?content (pos + idx + 3 + skip_blanks raw) # segs"
        by (auto simp: Let_def taken [unfolded t(2) [symmetric]] bindE_ok t(2) [symmetric] parts(3) split: if_splits)
      have "template (drop (stop + 2) input) (stop + 2) segs"
      proof (rule "1.IH" [OF False Some refl stop refl refl])
        show "\<not> go_contains (trim_space (take (stop - (pos + idx + 3)) (drop (pos + idx + 3) input))) go_open"
          using segs(1) by (simp only: taken not_False_eq_True)
        show "stop + 2 \<le> length input"
          using arg_cong [OF start, of length] False by (simp add: raw(1,2) expr_close_def)
      qed (rule segs(2))
      then have "template rest (pos + length t + 3 + length raw + 2) segs"
        using parts(2) by (simp add: raw(2) t(2))
      from template_expr [OF t(3) raw(3) _ this] segs(1) show ?thesis
        unfolding t(1) raw(1) segs(3) t(2) [symmetric] by (simp add: go_contains_iff)
    qed
  qed
qed

text \<open>C23. The template parser decides the grammar: it accepts exactly the inputs that are texts without an opening
  delimiter and well-quoted expressions in turn, and returns their decomposition.\<close>

theorem parse_decides_grammar: "parseTemplate input = Inr segments \<longleftrightarrow> template input 0 segments"
  using parse_template [of input 0] template_parse [of input 0 segments input] by (auto simp: parseTemplate_def)

end
