(* ===== verification/Template_Values.thy ===== *)
theory Template_Values
  imports Template_Parser Config_Refs Perms_State
begin

text \<open>
  \<^verbatim>\<open>pkg/template\<close>: the resolution of templates inside values
  (\<^verbatim>\<open>template_interpolate.go\<close>), the scalars that forward references whole
  (\<^verbatim>\<open>secrets.go\<close>, \<^verbatim>\<open>configuration.go\<close>), the analysis that keeps CEL expressions away
  from them, and \<^verbatim>\<open>vars.go\<close>. The engines are third-party code and operations of the record
  \<open>template_engine\<close>: the CEL compiler and evaluator, \<^verbatim>\<open>text/template\<close>, and the JSON codec.
\<close>

section \<open>Expressions\<close>

text \<open>The constructors of a CEL syntax tree that the code tells apart, and the kinds of CEL types.\<close>

datatype cel_expr =
    CIdent string
  | CSelect cel_expr string
  | CCall "cel_expr option" string "cel_expr list"
  | CList "cel_expr list"
  | CStruct "(cel_expr option \<times> cel_expr) list"
  | CComprehension "cel_expr list"
  | CLiteral

datatype cel_kind = KNull | KDyn | KBool | KInt | KUint | KDouble | KString | KBytes | KList | KMap | KType | KStruct | KAny | KOther

datatype resolution_error =
    ParseError template_error
  | EngineError string
  | ConfigInExpression
  | SecretInExpression
  | NotBool
  | ArtifactInText
  | InspectsSecret
  | InspectsConfig
  | NoSuchKey string
  | ConfigNotAllowed
  | SecretNotAllowed
  | ReferenceNotAllowed
  | Denied perm_error
  | ConfigError config_error
  | SecretError secret_error
  | AtKey string resolution_error
  | AtIndex nat resolution_error
  | AtPos nat resolution_error
  | EmptyVarName
  | VarFromSameBlock string string

text \<open>What resolution reads of its context: the permissions, whether references are allowed, the inputs
  of the container, the variables and outputs, the other roots as JSON objects, and the options.\<close>

record resolution =
  rc_permissions :: State
  rc_allow :: bool
  rc_inputs :: "(string \<times> gval) list"
  rc_vars :: "(string \<times> gval) list"
  rc_outputs :: "(string \<times> gval) list"
  rc_section :: "string \<Rightarrow> (string \<times> gval) list"
  rc_locals :: "(string \<times> gval) list"
  rc_validate :: bool
  rc_clamp :: bool

record template_engine =
  en_literal :: "string \<Rightarrow> cel_literal option"
  en_unquote :: "string \<Rightarrow> string option"
  en_compile :: "string \<Rightarrow> string + cel_expr"
  en_type :: "cel_expr \<Rightarrow> cel_kind"
  en_eval :: "resolution \<Rightarrow> cel_expr \<Rightarrow> string + gval"
  en_go :: "resolution \<Rightarrow> string \<Rightarrow> string + string"
  en_flatten :: "(string \<times> gval) list \<Rightarrow> (string \<times> gval) list"
  en_number :: "rat \<Rightarrow> string"
  en_json :: "gval \<Rightarrow> string"
  en_artifact :: "gval \<Rightarrow> bool"

definition template_result :: "string + 'a \<Rightarrow> resolution_error + 'a" where
  "template_result x = map_sum EngineError id x"

section \<open>CEL evaluation\<close>

definition lookup_nil :: "(string \<times> gval) list \<Rightarrow> string \<Rightarrow> gval" where
  "lookup_nil m k = (case map_of m k of None \<Rightarrow> GNil | Some v \<Rightarrow> v)"

text \<open>\<open>staticInput\<close>: the value at the end of a chain of selections that begins at \<^verbatim>\<open>inputs\<close>.\<close>

fun staticInput :: "(string \<times> gval) list \<Rightarrow> cel_expr \<Rightarrow> gval option" where
  "staticInput inputs (CIdent n) = (if n = ''inputs'' then Some (GMap inputs) else None)"
| "staticInput inputs (CSelect e f) = (case staticInput inputs e of
     None \<Rightarrow> None
   | Some v \<Rightarrow>
       if config_Parse v \<noteq> NotRef \<or> Parse v \<noteq> NotRef then Some v
       else (case v of GMap m \<Rightarrow> Some (lookup_nil m f) | _ \<Rightarrow> Some v))"
| "staticInput inputs _ = None"

lemma call_size [termination_simp]:
  "Some t = target \<Longrightarrow> size t < size (CCall target f args)"
  "x \<in> set args \<Longrightarrow> size x < size (CCall target f args)"
  by (auto simp: less_Suc_eq_le trans_le_add2 size_list_estimation')

lemma struct_size:
  "(key, v) \<in> set entries \<Longrightarrow> size v < size (CStruct entries)"
  "(Some k, v) \<in> set entries \<Longrightarrow> size k < size (CStruct entries)"
  by (induction entries) fastforce+

function rejectSecretCEL :: "(string \<times> gval) list \<Rightarrow> cel_expr \<Rightarrow> resolution_error + unit" where
  "rejectSecretCEL inputs e = (case staticInput inputs e of
     Some v \<Rightarrow>
       if config_Contains v then Inl ConfigInExpression else if Contains v then Inl SecretInExpression else Inr ()
   | None \<Rightarrow> (case e of
       CSelect e' f \<Rightarrow> rejectSecretCEL inputs e'
     | CCall target f args \<Rightarrow>
         bindE (case target of None \<Rightarrow> Inr () | Some t \<Rightarrow> rejectSecretCEL inputs t) (\<lambda>_.
         forE (\<lambda>a. rejectSecretCEL inputs a) args)
     | CList es \<Rightarrow> forE (\<lambda>a. rejectSecretCEL inputs a) es
     | CStruct entries \<Rightarrow>
         forE (\<lambda>entry.
           bindE (case fst entry of None \<Rightarrow> Inr () | Some k \<Rightarrow> rejectSecretCEL inputs k) (\<lambda>_.
           rejectSecretCEL inputs (snd entry))) entries
     | CComprehension es \<Rightarrow> forE (\<lambda>a. rejectSecretCEL inputs a) es
     | _ \<Rightarrow> Inr ()))"
  by pat_completeness auto

termination
  by (relation "measure (\<lambda>(inputs, e). size e)")
    (auto simp: less_Suc_eq_le size_list_estimation' trans_le_add2 struct_size prod_eq_iff dest: struct_size)


declare rejectSecretCEL.simps [simp del]

text \<open>In a dry run nothing but operators and these functions is executed.\<close>

definition validationSafeCalls :: "string list" where
  "validationSafeCalls =
     [''state_exists'', ''state_output'', ''state_field'', ''nonempty'', ''first_nonempty'', ''failure_is'',
      ''failure_message_contains'', ''failure_message_matches'', ''failure_has_code'', ''failure_originates_from'',
      ''failure_root_cause'', ''optional.of'', ''optional.ofNonZeroValue'', ''optional.none'', ''orValue'', ''hasValue'', ''value'']"

function hasForbiddenCalls :: "cel_expr \<Rightarrow> bool" where
  "hasForbiddenCalls e = (case e of
     CCall target f args \<Rightarrow>
       (if \<not> has_prefix f ''_'' \<and> f \<notin> set validationSafeCalls then True
        else (case target of None \<Rightarrow> False | Some t \<Rightarrow> hasForbiddenCalls t) \<or> list_ex (\<lambda>a. hasForbiddenCalls a) args)
   | CSelect e' f \<Rightarrow> hasForbiddenCalls e'
   | CList es \<Rightarrow> list_ex (\<lambda>a. hasForbiddenCalls a) es
   | CStruct entries \<Rightarrow>
       list_ex (\<lambda>entry. hasForbiddenCalls (snd entry) \<or>
         (case fst entry of None \<Rightarrow> False | Some k \<Rightarrow> hasForbiddenCalls k)) entries
   | CComprehension es \<Rightarrow> True
   | _ \<Rightarrow> False)"
  by pat_completeness auto

termination
  by (relation "measure size")
    (auto simp: less_Suc_eq_le size_list_estimation' trans_le_add2 struct_size prod_eq_iff dest: struct_size)

declare hasForbiddenCalls.simps [simp del]

definition placeholderFromCELType :: "cel_kind \<Rightarrow> gval" where
  "placeholderFromCELType k = (case k of
     KNull \<Rightarrow> GNil | KDyn \<Rightarrow> GNil
   | KBool \<Rightarrow> GBool False
   | KInt \<Rightarrow> GNum 0 | KUint \<Rightarrow> GNum 0 | KDouble \<Rightarrow> GNum 0
   | KString \<Rightarrow> GStr [] | KBytes \<Rightarrow> GStr []
   | KList \<Rightarrow> GList []
   | KMap \<Rightarrow> GMap [] | KType \<Rightarrow> GMap [] | KStruct \<Rightarrow> GMap [] | KAny \<Rightarrow> GMap []
   | KOther \<Rightarrow> GNil)"

text \<open>The pattern \<^verbatim>\<open>\[\s*\d+\s*\]\<close> is replaced by \<^verbatim>\<open>[0]\<close>.\<close>

definition re_space :: "char \<Rightarrow> bool" where
  "re_space c = (c \<in> {CHR '' '', CHR 0x09, CHR 0x0A, CHR 0x0C, CHR 0x0D})"

definition after_index :: "string \<Rightarrow> string option" where
  "after_index s =
     (let t = dropWhile re_space s; u = dropWhile re_space (dropWhile is_digit t) in
      if takeWhile is_digit t \<noteq> [] \<and> u \<noteq> [] \<and> hd u = CHR '']'' then Some (tl u) else None)"

lemma after_index_shorter: "after_index s = Some u \<Longrightarrow> length u < Suc (length s)"
proof -
  assume "after_index s = Some u"
  then have "u = tl (dropWhile re_space (dropWhile is_digit (dropWhile re_space s)))"
    by (auto simp: after_index_def Let_def split: if_splits)
  moreover have "length (dropWhile re_space (dropWhile is_digit (dropWhile re_space s))) \<le> length s"
    using length_dropWhile_le [of re_space "dropWhile is_digit (dropWhile re_space s)"]
      length_dropWhile_le [of is_digit "dropWhile re_space s"] length_dropWhile_le [of re_space s] by linarith
  ultimately show ?thesis by simp
qed

function clampNumericIndexes :: "string \<Rightarrow> string" where
  "clampNumericIndexes [] = []"
| "clampNumericIndexes (c # s) =
     (case if c = CHR ''['' then after_index s else None of
        Some rest \<Rightarrow> ''[0]'' @ clampNumericIndexes rest
      | None \<Rightarrow> c # clampNumericIndexes s)"
  by pat_completeness auto

termination
  by (relation "measure length") (auto dest: after_index_shorter split: if_splits)

definition evaluateCELExpression :: "template_engine \<Rightarrow> resolution \<Rightarrow> string \<Rightarrow> resolution_error + gval" where
  "evaluateCELExpression E rc expr =
     (if expr = [] then Inr (GStr [])
      else
        let expr = (if rc_clamp rc then clampNumericIndexes expr else expr) in
        bindE (template_result (en_compile E expr)) (\<lambda>ast.
        bindE (rejectSecretCEL (rc_inputs rc) ast) (\<lambda>_.
        if rc_validate rc \<and> hasForbiddenCalls ast then Inr (placeholderFromCELType (en_type E ast))
        else template_result (en_eval E rc ast))))"

definition resolver_EvaluateCEL :: "template_engine \<Rightarrow> resolution \<Rightarrow> string \<Rightarrow> resolution_error + bool" where
  "resolver_EvaluateCEL E rc expr =
     (if expr = [] \<or> go_lower expr = ''true'' then Inr True
      else bindE (evaluateCELExpression E rc expr) (\<lambda>out.
        case out of GBool b \<Rightarrow> Inr b | _ \<Rightarrow> Inl NotBool))"

section \<open>Scalars that forward references\<close>

definition scalar_expr :: "string \<Rightarrow> string" where
  "scalar_expr text =
     (if has_prefix text ''${{'' \<and> has_suffix text ''}}'' then trim_space (take (length text - 5) (drop 3 text))
      else if has_prefix text ''{{'' \<and> has_suffix text ''}}'' then trim_space (take (length text - 4) (drop 2 text))
      else [])"

fun forwarded_path :: "gval \<Rightarrow> string list \<Rightarrow> resolution_error + gval" where
  "forwarded_path v [] = Inr v"
| "forwarded_path v (k # ks) =
     (if config_Parse v \<noteq> NotRef then Inl InspectsConfig
      else (case v of GMap m \<Rightarrow> forwarded_path (lookup_nil m k) ks | _ \<Rightarrow> Inr GNil))"

text \<open>Both return \<open>None\<close> where the code reports that the text is no such scalar.\<close>

definition configScalar :: "template_engine \<Rightarrow> resolution \<Rightarrow> string \<Rightarrow> resolution_error + gval option" where
  "configScalar E rc text =
     (let expr = scalar_expr text in
      bindE (case config_Expression (en_literal E) (en_unquote E) expr of
          Some r \<Rightarrow> Inr (Some (config_value r))
        | None \<Rightarrow>
            if has_prefix expr ''inputs.''
            then bindE (forwarded_path (GMap (rc_inputs rc)) (split_on CHR ''.'' (drop 7 expr))) (\<lambda>v.
              Inr (if config_Contains v then Some v else None))
            else Inr None) (\<lambda>value.
      case value of
        None \<Rightarrow> Inr None
      | Some v \<Rightarrow> if rc_allow rc then Inr (Some v) else Inl ConfigNotAllowed))"

definition check_input :: "resolution \<Rightarrow> string \<Rightarrow> resolution_error + unit" where
  "check_input rc name =
     (if st_Inputs (rc_permissions rc) = None then Inr () else map_sum Denied id (CheckInput (rc_permissions rc) name))"

definition secretScalar :: "template_engine \<Rightarrow> resolution \<Rightarrow> string \<Rightarrow> resolution_error + gval option" where
  "secretScalar E rc text =
     (let expr = scalar_expr text in
      bindE (case Expression (en_literal E) expr of
          Some r \<Rightarrow> bindE (check_input rc (sr_name r)) (\<lambda>_. Inr (Some (secret_value r)))
        | None \<Rightarrow>
            if has_prefix expr ''inputs.''
            then (case map_of (rc_inputs rc) (drop 7 expr) of
                Some v \<Rightarrow> Inr (if Contains v then Some v else None) | None \<Rightarrow> Inr None)
            else Inr None) (\<lambda>value.
      case value of
        None \<Rightarrow> Inr None
      | Some v \<Rightarrow> if rc_allow rc then Inr (Some v) else Inl SecretNotAllowed))"

section \<open>Go templates\<close>

fun ident :: "string \<Rightarrow> bool" where
  "ident [] = False"
| "ident (c # cs) = (name_start c \<and> list_all (\<lambda>c. name_start c \<or> is_digit c) cs)"

definition strip :: "string \<Rightarrow> string" where
  "strip s = rev (dropWhile re_space (rev (dropWhile re_space s)))"

text \<open>\<open>simpleGoTemplateExprPattern\<close>: the dotted path that is all of the template.\<close>

definition simple_path :: "string \<Rightarrow> string list option" where
  "simple_path text =
     Option.bind (after_prefix ''{{'' (strip text)) (\<lambda>t.
     Option.bind (before_suffix ''}}'' t) (\<lambda>body.
     let path = split_on CHR ''.'' (strip body) in
     if length path \<ge> 2 \<and> list_all ident path then Some path else None))"

definition root_value :: "template_engine \<Rightarrow> resolution \<Rightarrow> string \<Rightarrow> gval option" where
  "root_value E rc name =
     (if name = ''inputs'' then Some (GMap (rc_inputs rc))
      else if name = ''vars'' then Some (GMap (en_flatten E (rc_vars rc)))
      else if name = ''outputs'' then Some (GMap (en_flatten E (rc_outputs rc)))
      else if name = ''index'' then Some (GMap [(''value'', lookup_nil (rc_locals rc) ''index'')])
      else if name = ''item''
        then Some (GMap (case lookup_nil (rc_locals rc) ''item'' of GMap m \<Rightarrow> en_flatten E m | _ \<Rightarrow> []))
      else if name \<in> {''sequence'', ''states'', ''transition'', ''failure'', ''scope'', ''context''}
        then Some (GMap (rc_section rc name))
      else None)"

fun path_value :: "gval \<Rightarrow> string list \<Rightarrow> resolution_error + gval option" where
  "path_value v [] = Inr (Some v)"
| "path_value v (k # ks) =
     (if Parse v \<noteq> NotRef then Inl InspectsSecret
      else if config_Parse v \<noteq> NotRef then Inl InspectsConfig
      else (case v of
          GMap m \<Rightarrow> (case map_of m k of None \<Rightarrow> Inl (NoSuchKey k) | Some w \<Rightarrow> path_value w ks)
        | _ \<Rightarrow> Inr None))"

definition go_scalar :: "gval \<Rightarrow> gval option" where
  "go_scalar w = (case w of
     GNil \<Rightarrow> Some (GStr []) | GStr s \<Rightarrow> Some w | GBool b \<Rightarrow> Some w | GNum x \<Rightarrow> Some w | _ \<Rightarrow> None)"

definition resolveSimpleGoTemplateScalar :: "template_engine \<Rightarrow> resolution \<Rightarrow> string \<Rightarrow> resolution_error + gval option" where
  "resolveSimpleGoTemplateScalar E rc text =
     (case Option.bind (simple_path text) (\<lambda>path. map_option (\<lambda>v. (v, tl path)) (root_value E rc (hd path))) of
        None \<Rightarrow> Inr None
      | Some (v, path) \<Rightarrow> bindE (path_value v path) (\<lambda>current.
          case current of
            None \<Rightarrow> Inr None
          | Some w \<Rightarrow>
              if config_Contains w then Inl ConfigInExpression else Inr (go_scalar w)))"

definition renderGoTemplate :: "template_engine \<Rightarrow> resolution \<Rightarrow> string \<Rightarrow> resolution_error + string" where
  "renderGoTemplate E rc input =
     (if config_Contains (GMap (rc_inputs rc)) \<and> go_contains input ''inputs'' then Inl ConfigInExpression
      else if Contains (GMap (rc_inputs rc)) \<and> go_contains input ''inputs'' then Inl SecretInExpression
      else template_result (en_go E rc input))"

definition has_go :: "string \<Rightarrow> bool" where
  "has_go s = (go_contains s ''{{'' \<and> go_contains s ''}}'')"

definition renderGoTemplateSegment :: "template_engine \<Rightarrow> resolution \<Rightarrow> string \<Rightarrow> resolution_error + string" where
  "renderGoTemplateSegment E rc input = (if has_go input then renderGoTemplate E rc input else Inr input)"


section \<open>Interpolation\<close>

text \<open>\<open>convertToString\<close> of JSON-shaped values; a number that is no integer is formatted by
  \<^verbatim>\<open>fmt\<close>, a structured value by \<^verbatim>\<open>encoding/json\<close>.\<close>

definition convertToString :: "template_engine \<Rightarrow> gval \<Rightarrow> string" where
  "convertToString E v = (case v of
     GNil \<Rightarrow> []
   | GStr s \<Rightarrow> s
   | GBool b \<Rightarrow> if b then ''true'' else ''false''
   | GNum x \<Rightarrow> if x = of_int \<lfloor>x\<rfloor> \<and> - (2 ^ 63) \<le> x \<and> x < 2 ^ 63 then show_int \<lfloor>x\<rfloor> else en_number E x
   | _ \<Rightarrow> en_json E v)"

fun isArtifactInterpolationValue :: "template_engine \<Rightarrow> gval \<Rightarrow> bool" where
  "isArtifactInterpolationValue E (GMap m) = list_ex (\<lambda>(k, v). isArtifactInterpolationValue E v) m"
| "isArtifactInterpolationValue E (GList vs) = list_ex (isArtifactInterpolationValue E) vs"
| "isArtifactInterpolationValue E v = en_artifact E v"

definition located :: "nat \<Rightarrow> resolution_error + 'a \<Rightarrow> resolution_error + 'a" where
  "located pos x = map_sum (AtPos pos) id x"

definition piece :: "template_engine \<Rightarrow> resolution \<Rightarrow> segment \<Rightarrow> resolution_error + string" where
  "piece E rc seg = (case seg of
     TextSegment t pos \<Rightarrow> located pos (renderGoTemplateSegment E rc t)
   | ExpressionSegment e pos \<Rightarrow>
       bindE (located pos (evaluateCELExpression E rc e)) (\<lambda>v.
       if isArtifactInterpolationValue E v then Inl ArtifactInText else Inr (convertToString E v)))"

definition render_segments :: "template_engine \<Rightarrow> resolution \<Rightarrow> segment list \<Rightarrow> resolution_error + gval" where
  "render_segments E rc segments = (case segments of
     [ExpressionSegment e pos] \<Rightarrow> evaluateCELExpression E rc e
   | [TextSegment t pos] \<Rightarrow>
       if has_go t
       then bindE (resolveSimpleGoTemplateScalar E rc t) (\<lambda>value.
         case value of Some v \<Rightarrow> Inr v | None \<Rightarrow> bindE (renderGoTemplate E rc t) (\<lambda>s. Inr (GStr s)))
       else Inr (GStr t)
   | _ \<Rightarrow> bindE (mapE (piece E rc) segments) (\<lambda>ps. Inr (GStr (concat ps))))"

definition interpolateString :: "template_engine \<Rightarrow> resolution \<Rightarrow> string \<Rightarrow> bool \<Rightarrow> resolution_error + gval" where
  "interpolateString E rc tx pure =
     (if pure then bindE (resolver_EvaluateCEL E rc tx) (\<lambda>b. Inr (GBool b))
      else
        bindE (configScalar E rc tx) (\<lambda>c. case c of Some v \<Rightarrow> Inr v | None \<Rightarrow>
        bindE (secretScalar E rc tx) (\<lambda>s. case s of Some v \<Rightarrow> Inr v | None \<Rightarrow>
        bindE (map_sum ParseError id (parseTemplate tx)) (\<lambda>segments. render_segments E rc segments))))"

definition ResolveTemplateWithMode :: "template_engine \<Rightarrow> resolution \<Rightarrow> string \<Rightarrow> bool \<Rightarrow> resolution_error + gval" where
  "ResolveTemplateWithMode E rc expr pure =
     (if pure then bindE (resolver_EvaluateCEL E rc expr) (\<lambda>b. Inr (GBool b))
      else if \<not> (go_contains (trim_space expr) ''${{'' \<or> go_contains (trim_space expr) ''{{'') then Inr (GStr expr)
      else interpolateString E rc expr pure)"

definition holds_reference :: "gval \<Rightarrow> bool" where
  "holds_reference v = (Contains v \<or> config_Contains v)"

function ResolveValueWithMode :: "template_engine \<Rightarrow> resolution \<Rightarrow> gval \<Rightarrow> bool \<Rightarrow> resolution_error + gval" where
  "ResolveValueWithMode E rc value pure = (case config_Parse value of
     BadRef e \<Rightarrow> Inl (ConfigError e)
   | Ref r \<Rightarrow> if rc_allow rc then Inr (config_value r) else Inl ConfigNotAllowed
   | NotRef \<Rightarrow> (case Parse value of
       BadRef e \<Rightarrow> Inl (SecretError e)
     | Ref r \<Rightarrow>
         if \<not> rc_allow rc then Inl ReferenceNotAllowed
         else bindE (check_input rc (sr_name r)) (\<lambda>_. Inr value)
     | NotRef \<Rightarrow> (case value of
         GStr s \<Rightarrow> bindE (ResolveTemplateWithMode E rc s pure) (\<lambda>v.
           if \<not> rc_allow rc \<and> holds_reference v then Inl ReferenceNotAllowed else Inr v)
       | GMap m \<Rightarrow> bindE (mapE (\<lambda>entry.
           bindE (map_sum (AtKey (fst entry)) id (ResolveValueWithMode E rc (snd entry) pure)) (\<lambda>w.
           Inr (fst entry, w))) m) (\<lambda>m'. Inr (GMap m'))
       | GList vs \<Rightarrow> bindE (mapE (\<lambda>i. map_sum (AtIndex i) id (ResolveValueWithMode E rc (vs ! i) pure))
           [0..<length vs]) (\<lambda>vs'. Inr (GList vs'))
       | _ \<Rightarrow> Inr value)))"
  by pat_completeness auto

termination
  by (relation "measure (\<lambda>(E, rc, value, pure). value_size value)") (auto simp: element_size member_size)

declare ResolveValueWithMode.simps [simp del]

definition resolver_ResolveMap :: "template_engine \<Rightarrow> resolution \<Rightarrow> (string \<times> gval) list \<Rightarrow> resolution_error + (string \<times> gval) list" where
  "resolver_ResolveMap E rc input = mapE (\<lambda>(k, v).
     bindE (map_sum (AtKey k) id (ResolveValueWithMode E rc v False)) (\<lambda>w. Inr (k, w))) input"

definition resolver_ResolveInputs :: "template_engine \<Rightarrow> resolution \<Rightarrow> (string \<times> gval) list \<Rightarrow> resolution_error + (string \<times> gval) list" where
  "resolver_ResolveInputs E rc input = resolver_ResolveMap E (rc\<lparr>rc_allow := True\<rparr>) input"


text \<open>Locals are added to those in scope.\<close>

definition WithLocals :: "resolution \<Rightarrow> (string \<times> gval) list \<Rightarrow> resolution" where
  "WithLocals rc locals = rc\<lparr>rc_locals := locals @ filter (\<lambda>e. fst e \<notin> fst ` set locals) (rc_locals rc)\<rparr>"

definition ResolveValueWithLocals ::
  "template_engine \<Rightarrow> resolution \<Rightarrow> gval \<Rightarrow> (string \<times> gval) list \<Rightarrow> resolution_error + gval" where
  "ResolveValueWithLocals E rc v locals = ResolveValueWithMode E (WithLocals rc locals) v False"


section \<open>Variables\<close>

definition isIdentifierChar :: "char \<Rightarrow> bool" where
  "isIdentifierChar c = (c = CHR ''_'' \<or> is_digit c \<or> byte_in 65 90 c \<or> byte_in 97 122 c)"

text \<open>\<open>containsVarDotReference\<close> on what is left of the expression, for \<^verbatim>\<open>vars.\<close> and the name.\<close>

function dot_reference :: "string \<Rightarrow> string \<Rightarrow> bool" where
  "dot_reference expr needle = (case go_index expr needle of
     None \<Rightarrow> False
   | Some i \<Rightarrow>
       let after = drop (i + length needle) expr in
       if after = [] \<or> \<not> isIdentifierChar (hd after) then True
       else if needle = [] then False else dot_reference after needle)"
  by pat_completeness auto

termination
  by (relation "measure (\<lambda>(expr, needle). length expr)") (auto simp flip: length_greater_0_conv)

declare dot_reference.simps [simp del]

definition quoted_reference :: "string \<Rightarrow> string \<Rightarrow> bool" where
  "quoted_reference expr q =
     (go_contains expr (''vars['' @ q @ '']'') \<or> go_contains expr (''vars[?'' @ q @ '']'') \<or> go_contains expr (''index vars '' @ q))"

definition referencesVarName :: "string \<Rightarrow> string \<Rightarrow> bool" where
  "referencesVarName expr name =
     (name \<noteq> [] \<and> (dot_reference expr (''vars.'' @ name) \<or>
        quoted_reference expr ([double_quote] @ name @ [double_quote]) \<or>
        quoted_reference expr ([single_quote] @ name @ [single_quote])))"

fun first_some :: "'a option list \<Rightarrow> 'a option" where
  "first_some [] = None"
| "first_some (Some x # xs) = Some x"
| "first_some (None # xs) = first_some xs"

text \<open>Some declared name the value refers to.\<close>

fun referencesDeclaredVar :: "gval \<Rightarrow> string list \<Rightarrow> string option" where
  "referencesDeclaredVar (GStr s) declared = find (referencesVarName s) declared"
| "referencesDeclaredVar (GMap m) declared = first_some (map (\<lambda>(k, v). referencesDeclaredVar v declared) m)"
| "referencesDeclaredVar (GList vs) declared = first_some (map (\<lambda>v. referencesDeclaredVar v declared) vs)"
| "referencesDeclaredVar v declared = None"

definition ResolveVars :: "template_engine \<Rightarrow> resolution \<Rightarrow> (string \<times> gval) list \<Rightarrow> resolution_error + resolution" where
  "ResolveVars E rc vars =
     (if vars = [] then Inr rc else
      bindE (forE (\<lambda>(k, v). check (trim_space k \<noteq> []) EmptyVarName) vars) (\<lambda>_.
      bindE (forE (\<lambda>(k, v). case referencesDeclaredVar v (map fst vars) of
          None \<Rightarrow> Inr () | Some n \<Rightarrow> Inl (VarFromSameBlock k n)) vars) (\<lambda>_.
      bindE (resolver_ResolveMap E rc vars) (\<lambda>resolved.
      Inr (rc\<lparr>rc_vars := resolved @ filter (\<lambda>(k, v). k \<notin> fst ` set resolved) (rc_vars rc)\<rparr>)))))"

end
