(* ===== verification/Child_Results.thy ===== *)
theory Child_Results
  imports Child_Jobs
begin

text \<open>
  \<^verbatim>\<open>pkg/ops/recipe\<close>: the results of child jobs (\<^verbatim>\<open>recipe_output.go\<close>) and the ops
  that start recipes and wait for them (\<^verbatim>\<open>op.go\<close>). Job data that is JSON text is the value it
  decodes to; no data is \<open>None\<close>. A Go map that is nil and one that is empty are told apart where the
  code does.
\<close>

section \<open>Reading a result\<close>

record recipe_output =
  ro_Git :: git_commit
  ro_Outputs :: "(string \<times> gval) list option"
  ro_Artifacts :: "(string \<times> artifact_ref) list"
  ro_OutputAvailable :: bool
  ro_ArtifactsAvailable :: bool

definition no_commit :: git_commit where
  "no_commit = \<lparr>gc_ParentRef = [], gc_PersistHash = [], gc_ParentHash = []\<rparr>"

definition empty_output :: recipe_output where
  "empty_output = \<lparr>ro_Git = no_commit, ro_Outputs = Some [], ro_Artifacts = [], ro_OutputAvailable = False,
     ro_ArtifactsAvailable = False\<rparr>"

definition panic :: "string \<Rightarrow> go_error" where
  "panic t = errorf (''panic: '' @ t)"

definition outputs_of :: "(string \<times> gval) list \<Rightarrow> go_error + (string \<times> gval) list option" where
  "outputs_of raw = (case map_of raw ''output'' of
     None \<Rightarrow> Inr (Some raw)
   | Some (GMap m) \<Rightarrow> Inr (Some m)
   | Some GNil \<Rightarrow> Inr (Some [])
   | Some _ \<Rightarrow> Inl (errorf ''recipe result output must be an object''))"

text \<open>The fields of the decoded data. The map of artifacts is nil when the field is null.\<close>

definition decode_fields ::
  "child_lib \<Rightarrow> gval \<Rightarrow> go_error + git_commit \<times> (string \<times> gval) list option \<times> (string \<times> artifact_ref) list option" where
  "decode_fields L v = (case v of
     GNil \<Rightarrow> Inr (no_commit, None, Some [])
   | GMap raw \<Rightarrow>
       bindE (case map_of raw ''git'' of None \<Rightarrow> Inr no_commit | Some g \<Rightarrow> cl_Commit L g) (\<lambda>git.
       bindE (outputs_of raw) (\<lambda>outputs.
       bindE (case map_of raw ''artifact_refs'' of
           None \<Rightarrow> Inr (Some [])
         | Some GNil \<Rightarrow> Inr None
         | Some x \<Rightarrow> bindE (cl_Refs L x) (\<lambda>rs. Inr (Some rs))) (\<lambda>refs.
       Inr (git, outputs, refs))))
   | _ \<Rightarrow> Inl (errorf ''cannot unmarshal into a map''))"

definition thin_pack_name :: string where "thin_pack_name = ''__git_state_thin_pack__''"
definition git_stderr_name :: string where "git_stderr_name = ''_c2j/git-stderr.txt''"

definition git_internal :: "string \<Rightarrow> bool" where
  "git_internal name = (name \<in> {thin_pack_name, ''diff_from_parent.diff'', ''diff_from_base.diff'', git_stderr_name})"

definition put :: "'k \<Rightarrow> 'v \<Rightarrow> ('k \<times> 'v) list \<Rightarrow> ('k \<times> 'v) list" where
  "put k v m = filter (\<lambda>e. fst e \<noteq> k) m @ [(k, v)]"

text \<open>The child's artifacts are offered to the parent, except its Git state, and each gets a reference.\<close>

fun adopt_artifacts ::
  "'w deps \<Rightarrow> 'w \<Rightarrow> (string \<times> artifact_ref) list option \<Rightarrow> artifact list \<Rightarrow>
   'w \<times> (go_error + (string \<times> artifact_ref) list option)" where
  "adopt_artifacts D w refs [] = (w, Inr refs)"
| "adopt_artifacts D w refs (a # as) =
     (if IsInternalArtifact (af_Name a) then adopt_artifacts D w refs as
      else case (if git_internal (af_Name a) then (w, None) else dj_Output D w a) of
        (w', Some e) \<Rightarrow> (w', Inl e)
      | (w', None) \<Rightarrow> (case RefFromArtifact a of
          Inl _ \<Rightarrow> adopt_artifacts D w' refs as
        | Inr r \<Rightarrow>
            let name = (if NameValue r \<noteq> [] then NameValue r else af_Name a) in
            if name = [] then (w', Inl (errorf ''artifact ref has empty name''))
            else (case refs of
                None \<Rightarrow> (w', Inl (panic ''assignment to entry in nil map''))
              | Some m \<Rightarrow> adopt_artifacts D w' (Some (put name r m)) as)))"

fun publish_external ::
  "'w deps \<Rightarrow> 'w \<Rightarrow> (string \<times> artifact_ref) list \<Rightarrow> 'w \<times> (go_error + unit)" where
  "publish_external D w [] = (w, Inr ())"
| "publish_external D w ((name, r) # rs) =
     (if ar_Kind r = attached_kind then (w, Inl (errorf ''missing result artifact''))
      else case ar_External r of
        None \<Rightarrow> publish_external D w rs
      | Some x \<Rightarrow> (case dj_External D w name x of
          (w', Some e) \<Rightarrow> (w', Inl e)
        | (w', None) \<Rightarrow> publish_external D w' rs))"

text \<open>Markers of attached artifacts inside the outputs become the references.\<close>

definition resolve_marker :: "child_lib \<Rightarrow> (string \<times> artifact_ref) list \<Rightarrow> string \<times> gval \<Rightarrow> string \<times> gval" where
  "resolve_marker L arts entry = (case entry of
     (name, GMap m) \<Rightarrow>
       (name, if map_of m ''kind'' = Some (GStr attached_kind)
          then cl_RefValue L (case map_of arts name of Some r \<Rightarrow> r | None \<Rightarrow> zero_ref) else GMap m)
   | _ \<Rightarrow> entry)"

definition resolve_markers ::
  "child_lib \<Rightarrow> (string \<times> artifact_ref) list \<Rightarrow> (string \<times> gval) list option \<Rightarrow> (string \<times> gval) list option" where
  "resolve_markers L arts outputs = map_option (map (\<lambda>(k, v). case v of
     GMap refs \<Rightarrow> if k = ''artifact_refs'' then (k, GMap (map (resolve_marker L arts) refs)) else (k, v)
   | _ \<Rightarrow> (k, v))) outputs"

definition decodeRecipeJobOutput ::
  "child_lib \<Rightarrow> 'w deps \<Rightarrow> 'w \<Rightarrow> job_data option \<Rightarrow> 'w \<times> (go_error + recipe_output)" where
  "decodeRecipeJobOutput L D w data = (case data of
     None \<Rightarrow> (w, Inr empty_output)
   | Some d \<Rightarrow>
       (case bindE (jd_Data d) (\<lambda>raw. case raw of
            None \<Rightarrow> Inr (False, no_commit, Some [], Some [])
          | Some v \<Rightarrow> bindE (decode_fields L v) (\<lambda>fields. Inr (True, fields))) of
          Inl e \<Rightarrow> (w, Inl e)
        | Inr (present, git, outputs, refs) \<Rightarrow>
            (case jd_Artifacts d of
               Inl e \<Rightarrow> (w, Inl e)
             | Inr as \<Rightarrow> (case adopt_artifacts D w refs as of
                 (w', Inl e) \<Rightarrow> (w', Inl e)
               | (w', Inr adopted) \<Rightarrow>
                   let arts = (case adopted of Some m \<Rightarrow> m | None \<Rightarrow> []) in
                   (case publish_external D w' arts of
                      (w'', Inl e) \<Rightarrow> (w'', Inl e)
                    | (w'', Inr _) \<Rightarrow> (w'', Inr \<lparr>ro_Git = git, ro_Outputs = resolve_markers L arts outputs,
                        ro_Artifacts = arts, ro_OutputAvailable = present,
                        ro_ArtifactsAvailable = ((case refs of Some m \<Rightarrow> m \<noteq> [] | None \<Rightarrow> False) \<or> as \<noteq> [])\<rparr>))))))"


section \<open>Ops on single and several recipes\<close>

record SingleRecipeOutput =
  so_Result :: "string \<times> string"
  so_Outputs :: "(string \<times> gval) list option"
  so_Artifacts :: "(string \<times> artifact_ref) list"
  so_Git :: git_commit

text \<open>The source of a result is its goal and its job.\<close>

definition started :: "string \<Rightarrow> string \<Rightarrow> WaitPolicy \<Rightarrow> go_error + StartedJob" where
  "started job goal p =
     (if (job = []) = (goal = []) then Inl (errorf ''target requires exactly one job or goal'')
      else Inr ((started_job [] [] p)\<lparr>st_TargetJob := job, st_TargetGoal := goal\<rparr>))"

definition result_job :: "child_lib \<Rightarrow> 'w deps \<Rightarrow> 'w \<Rightarrow> StartedJob \<Rightarrow> go_error + string \<times> string" where
  "result_job L D w s =
     (if st_TargetJob s \<noteq> [] \<and> st_TargetGoal s \<noteq> [] then Inl (errorf ''target requires exactly one job or goal'')
      else if st_TargetGoal s \<noteq> []
      then (case dj_Goal D of
          None \<Rightarrow> Inl (errorf ''goal inspection unavailable'')
        | Some f \<Rightarrow> bindE (f w (st_TargetGoal s)) (\<lambda>g.
            if gi_State g = GoalFailed \<and> gi_Failure g \<noteq> None then Inl (cl_FailureError L (the (gi_Failure g)))
            else if gi_State g \<noteq> GoalSucceeded then Inl (errorf ''goal is still open'')
            else Inr (gi_GoalID g, gi_SuccessfulJobID g)))
      else Inr (st_GoalID s, if st_TargetJob s \<noteq> [] then st_TargetJob s else st_JobID s))"

definition getRecipeOutput :: "child_lib \<Rightarrow> 'w deps \<Rightarrow> 'w \<Rightarrow> StartedJob \<Rightarrow> 'w \<times> (go_error + SingleRecipeOutput)" where
  "getRecipeOutput L D w s = (case result_job L D w s of
     Inl e \<Rightarrow> (w, Inl e)
   | Inr (goal, job) \<Rightarrow>
       if job = [] then (w, Inl (errorf ''result job is required''))
       else (case dj_Result D w job of
           Inl e \<Rightarrow> (w, Inl e)
         | Inr data \<Rightarrow> (case decodeRecipeJobOutput L D w data of
             (w', Inl e) \<Rightarrow> (w', Inl e)
           | (w', Inr out) \<Rightarrow> (w', Inr \<lparr>so_Result = (goal, job), so_Outputs = ro_Outputs out,
               so_Artifacts = ro_Artifacts out, so_Git = ro_Git out\<rparr>))))"

definition waitAndGetRecipeOutput ::
  "child_lib \<Rightarrow> 'w deps \<Rightarrow> 'w \<Rightarrow> StartedJob \<Rightarrow> 'w \<times> (go_error + SingleRecipeOutput)" where
  "waitAndGetRecipeOutput L D w s = (case awaitChild L D w s True of
     (w', b, Some e) \<Rightarrow> (w', Inl e)
   | (w', b, None) \<Rightarrow> (case getRecipeOutput L D w' (started_job (bd_SatisfiedBy b) [] \<lparr>wp_On = [], wp_Condition = []\<rparr>) of
       (w'', Inl e) \<Rightarrow> (w'', Inl e)
     | (w'', Inr out) \<Rightarrow> (w'', Inr (out\<lparr>so_Result := (bd_Goal b, bd_SatisfiedBy b)\<rparr>))))"

definition wait_one :: "child_lib \<Rightarrow> 'w deps \<Rightarrow> 'w \<Rightarrow> StartedJob \<Rightarrow> 'w \<times> (go_error + StartedJob)" where
  "wait_one L D w s = (case awaitChild L D w s False of
     (w', b, Some e) \<Rightarrow> (w', Inl e)
   | (w', b, None) \<Rightarrow> (w', Inr (s\<lparr>st_Result := Some (bd_Goal b, bd_SatisfiedBy b)\<rparr>)))"

definition waitAndNoResult :: "child_lib \<Rightarrow> 'w deps \<Rightarrow> 'w \<Rightarrow> StartedJob list \<Rightarrow> 'w \<times> (go_error + StartedJob list)" where
  "waitAndNoResult L D = run_checked (wait_one L D)"

definition startSingleJob :: "child_lib \<Rightarrow> 'w deps \<Rightarrow> 'w \<Rightarrow> SingleRecipe \<Rightarrow> string \<Rightarrow> 'w \<times> (go_error + StartedJob)" where
  "startSingleJob L D w r git_ref = (case normalized True (sr_Wait r) of
     Inl e \<Rightarrow> (w, Inl e)
   | Inr p \<Rightarrow> (case startJobs L D w [r\<lparr>sr_Wait := p\<rparr>] git_ref of
       (w', res) \<Rightarrow> (w', bindE res (\<lambda>hs. Inr ((started_job (jh_JobID (hd hs)) (jh_GoalID (hd hs)) p)
         \<lparr>st_TenantID := jh_TenantID (hd hs)\<rparr>)))))"

text \<open>A recipe's own wait overrides that of the batch field by field.\<close>

definition child_wait :: "WaitPolicy \<Rightarrow> WaitPolicy \<Rightarrow> go_error + WaitPolicy" where
  "child_wait batch own =
     (let p = (if wp_On own \<noteq> [] then own else batch) in
      normalized False (if wp_Condition own \<noteq> [] then p\<lparr>wp_Condition := wp_Condition own\<rparr> else p))"

definition startMultipleJobs ::
  "child_lib \<Rightarrow> 'w deps \<Rightarrow> 'w \<Rightarrow> WaitPolicy \<Rightarrow> SingleRecipe list \<Rightarrow> string \<Rightarrow> 'w \<times> (go_error + StartedJob list)" where
  "startMultipleJobs L D w wait recipes git_ref =
     (case bindE (normalized False wait) (\<lambda>batch.
         mapE (\<lambda>r. bindE (child_wait batch (sr_Wait r)) (\<lambda>p. Inr (r\<lparr>sr_Wait := p\<rparr>))) recipes) of
       Inl e \<Rightarrow> (w, Inl e)
     | Inr resolved \<Rightarrow> (case startJobs L D w resolved git_ref of
         (w', res) \<Rightarrow> (w', bindE res (\<lambda>hs. Inr (map2 (\<lambda>h r.
           (started_job (jh_JobID h) (jh_GoalID h) (sr_Wait r))\<lparr>st_TenantID := jh_TenantID h\<rparr>) hs resolved)))))"

end
