(* ===== verification/Child_Group.thy ===== *)
theory Child_Group
  imports Child_Results
begin

text \<open>
  \<^verbatim>\<open>pkg/ops/recipe/child_group.go\<close>: a group of child recipes that is started, awaited and
  collected in three durable steps. A child that fails does not fail the group; it is recorded, and
  the output says whether a required child failed.
\<close>

section \<open>Data\<close>

record child_spec =
  cs_CellRepo :: string
  cs_Wait :: "WaitPolicy option"
  cs_Key :: string
  cs_Recipe :: string
  cs_CellName :: string
  cs_Required :: bool
  cs_Skipped :: bool
  cs_SkipReason :: string
  cs_GitRef :: string
  cs_Inputs :: "(string \<times> gval) list"
  cs_Artifacts :: "artifact_ref list"

record aggregate_config =
  ag_Shape :: string
  ag_Artifact :: string

record group_input =
  gin_Wait :: WaitPolicy
  gin_Mode :: string
  gin_GitRef :: string
  gin_Children :: "child_spec list"
  gin_Aggregate :: aggregate_config

text \<open>The statuses a record can have; the code writes their names.\<close>

datatype child_status = Started | Skipped | StartFailed | Completed | ChildFailed | Cancelled

record child_record =
  cr_TenantID :: string
  cr_GoalFailure :: "gval option"
  cr_GoalID :: string
  cr_Result :: "string \<times> string"
  cr_Wait :: WaitPolicy
  cr_Key :: string
  cr_Index :: nat
  cr_Recipe :: string
  cr_CellName :: string
  cr_Required :: bool
  cr_Status :: child_status
  cr_JobID :: string
  cr_Outputs :: "(string \<times> gval) list option"
  cr_Artifacts :: "(string \<times> artifact_ref) list"
  cr_Error :: string
  cr_SkipReason :: string

record group_state =
  gst_Mode :: string
  gst_GitRef :: string
  gst_Children :: "child_record list"
  gst_Aggregate :: aggregate_config

record group_summary =
  sm_Total :: nat
  sm_Started :: nat
  sm_Completed :: nat
  sm_Failed :: nat
  sm_FailedRequired :: nat
  sm_FailedOptional :: nat
  sm_Skipped :: nat
  sm_StartFailed :: nat
  sm_Required :: nat
  sm_Optional :: nat

record group_output =
  go_ChildGoalIDs :: "string list"
  go_RequiredChildGoalIDs :: "string list"
  go_OptionalChildGoalIDs :: "string list"
  go_FailedChildGoalIDs :: "string list"
  go_Ok :: bool
  go_Mode :: string
  go_ChildJobIDs :: "string list"
  go_RequiredChildJobIDs :: "string list"
  go_OptionalChildJobIDs :: "string list"
  go_FailedChildJobIDs :: "string list"
  go_Children :: "child_record list"
  go_Summary :: group_summary
  go_Aggregate :: "(string \<times> gval) list"
  go_Warnings :: "(string \<times> gval) list list"
  go_BlockingIssues :: "(string \<times> gval) list list"
  go_AggregateArtifact :: string
  go_Artifacts :: "(string \<times> artifact_ref) list"


section \<open>Start\<close>

definition run_mode :: string where "run_mode = ''run_and_get_result''"

definition normalizeChildGroupMode :: "string \<Rightarrow> string" where
  "normalizeChildGroupMode mode = (if trim_space mode = [] then run_mode else trim_space mode)"

definition normalizeChildGroupAggregate :: "aggregate_config \<Rightarrow> aggregate_config" where
  "normalizeChildGroupAggregate c =
     \<lparr>ag_Shape = (if trim_space (ag_Shape c) = [] then ''none'' else trim_space (ag_Shape c)),
      ag_Artifact = trim_space (ag_Artifact c)\<rparr>"

datatype group_shape = NoShape | JobIDs | ReviewPack

definition childGroupAggregateShape :: "string \<Rightarrow> go_error + group_shape" where
  "childGroupAggregateShape text =
     (let t = trim_space text in
      if t = [] \<or> t = ''none'' then Inr NoShape
      else if t = ''job_ids'' then Inr JobIDs
      else if t = ''review_pack'' then Inr ReviewPack
      else Inl (errorf ''unsupported child_group aggregate shape''))"

definition child_key :: "nat \<Rightarrow> child_spec \<Rightarrow> string" where
  "child_key i c = (if trim_space (cs_Key c) = [] then show_nat i else trim_space (cs_Key c))"

definition new_record :: "WaitPolicy \<Rightarrow> nat \<Rightarrow> child_spec \<Rightarrow> child_record" where
  "new_record p i c = \<lparr>cr_TenantID = [], cr_GoalFailure = None, cr_GoalID = [], cr_Result = ([], []), cr_Wait = p,
     cr_Key = child_key i c, cr_Index = i, cr_Recipe = trim_space (cs_Recipe c), cr_CellName = trim_space (cs_CellName c),
     cr_Required = cs_Required c, cr_Status = Started, cr_JobID = [], cr_Outputs = None, cr_Artifacts = [],
     cr_Error = [], cr_SkipReason = trim_space (cs_SkipReason c)\<rparr>"

definition child_cell :: "git_context \<Rightarrow> child_spec \<Rightarrow> string" where
  "child_cell g c = (if trim_space (cs_CellName c) = [] then workspaceCell g else trim_space (cs_CellName c))"

text \<open>The job of a child, before submission.\<close>

definition child_job :: "child_lib \<Rightarrow> 'w deps \<Rightarrow> string \<Rightarrow> nat \<Rightarrow> child_spec \<Rightarrow> go_error + StartJob" where
  "child_job L D group_ref i c =
     (let g = dj_Git D in
      recipeToStart (dj_Tenant D)
        \<lparr>sr_CellRepo = cs_CellRepo c, sr_Wait = \<lparr>wp_On = [], wp_Condition = []\<rparr>, sr_Name = trim_space (cs_Recipe c),
         sr_CellName = child_cell g c, sr_Inputs = cs_Inputs c, sr_Artifacts = cs_Artifacts c, sr_BaseRepo = gx_BaseRepo g,
         sr_BaseRef = gx_BaseRef g, sr_BaseHash = gx_ResolvedBaseHash g, sr_Author = gx_GitAuthor g\<rparr>
        (fst (currentRecipeSource g)) (snd (currentRecipeSource g))
        (if trim_space (cs_GitRef c) = [] then group_ref else trim_space (cs_GitRef c))
        (deterministicChildGroupJobID L (dj_Tenant D) (dj_Job D) (dj_Invocation D) (child_key i c) i)
        (parentContextFromDeps D))"

definition failed_start :: "child_record \<Rightarrow> go_error \<Rightarrow> child_record" where
  "failed_start r e = r\<lparr>cr_Status := StartFailed, cr_Error := er_text e\<rparr>"

definition submit_child :: "child_lib \<Rightarrow> 'w deps \<Rightarrow> string \<Rightarrow> nat \<Rightarrow> child_spec \<Rightarrow> child_record \<Rightarrow> 'w \<Rightarrow> 'w \<times> child_record" where
  "submit_child L D group_ref i c r w = (case child_job L D group_ref i c of
     Inl e \<Rightarrow> (w, failed_start r e)
   | Inr j \<Rightarrow> (case startRecipeChildJob L D w j of
       (w', Inl e) \<Rightarrow> (w', failed_start r e)
     | (w', Inr h) \<Rightarrow> (w', r\<lparr>cr_Status := Started, cr_JobID := jh_JobID h, cr_TenantID := jh_TenantID h,
         cr_GoalID := jh_GoalID h\<rparr>)))"

definition start_child ::
  "child_lib \<Rightarrow> 'w deps \<Rightarrow> string \<Rightarrow> 'w \<Rightarrow> nat \<times> child_spec \<times> WaitPolicy \<Rightarrow> 'w \<times> child_record" where
  "start_child L D group_ref w item = (case item of (i, c, p) \<Rightarrow>
     let r = new_record p i c in
     if cs_Skipped c
     then (w, r\<lparr>cr_Status := Skipped,
       cr_SkipReason := (if cr_SkipReason r = [] then ''when evaluated false'' else cr_SkipReason r)\<rparr>)
     else if cr_Recipe r = [] then (w, r\<lparr>cr_Status := StartFailed, cr_Error := ''recipe is required''\<rparr>)
     else submit_child L D group_ref i c r w)"

text \<open>A child's own wait replaces the group's. All of them are checked before any child starts.\<close>

definition child_policies :: "group_input \<Rightarrow> go_error + WaitPolicy list" where
  "child_policies inp = mapE (\<lambda>i. wrapping (''child '' @ show_nat i @ '': '')
     (normalized False (case cs_Wait (gin_Children inp ! i) of Some p \<Rightarrow> p | None \<Rightarrow> gin_Wait inp)))
     [0..<length (gin_Children inp)]"

definition startChildGroup :: "child_lib \<Rightarrow> 'w deps \<Rightarrow> 'w \<Rightarrow> group_input \<Rightarrow> 'w \<times> (go_error + group_state)" where
  "startChildGroup L D w inp = (case child_policies inp of
     Inl e \<Rightarrow> (w, Inl e)
   | Inr policies \<Rightarrow>
       let agg = normalizeChildGroupAggregate (gin_Aggregate inp); ref = trim_space (gin_GitRef inp) in
       (case childGroupAggregateShape (ag_Shape agg) of
          Inl e \<Rightarrow> (w, Inl e)
        | Inr _ \<Rightarrow>
            if dj_Invocation D = []
            then (w, Inl (errorf ''child submission requires a logical task invocation ID''))
            else (case run_list (start_child L D ref) w
                (zip [0..<length (gin_Children inp)] (zip (gin_Children inp) policies)) of
              (w', records) \<Rightarrow> (w', Inr \<lparr>gst_Mode = normalizeChildGroupMode (gin_Mode inp), gst_GitRef = ref,
                gst_Children = records, gst_Aggregate = agg\<rparr>))))"


section \<open>Await and collect\<close>

text \<open>A failure of the child is recorded; any other error ends the step.\<close>

definition await_one :: "child_lib \<Rightarrow> 'w deps \<Rightarrow> 'w \<Rightarrow> child_record \<Rightarrow> 'w \<times> (go_error + child_record)" where
  "await_one L D w r =
     (if cr_Status r \<noteq> Started then (w, Inr r)
      else case awaitChild L D w (started_job (cr_JobID r) (cr_GoalID r) (cr_Wait r)) False of
        (w', b, Some e) \<Rightarrow>
          if bd_Failed b \<or> er_goal_failed e \<or> er_job_failed e \<or> er_cancelled e
          then (w', Inr (r\<lparr>cr_Status := ChildFailed, cr_Error := er_text e,
            cr_GoalFailure := (case er_failure e of Some v \<Rightarrow> Some v | None \<Rightarrow> cr_GoalFailure r)\<rparr>))
          else (w', Inl e)
      | (w', b, None) \<Rightarrow> (w', Inr (r\<lparr>cr_Result := (bd_Goal b, bd_SatisfiedBy b)\<rparr>)))"

definition await_children :: "child_lib \<Rightarrow> 'w deps \<Rightarrow> 'w \<Rightarrow> child_record list \<Rightarrow> 'w \<times> (go_error + child_record list)" where
  "await_children L D = run_checked (await_one L D)"

definition awaitChildGroup :: "child_lib \<Rightarrow> 'w deps \<Rightarrow> 'w \<Rightarrow> group_state \<Rightarrow> 'w \<times> (go_error + group_state)" where
  "awaitChildGroup L D w s = (case await_children L D w (gst_Children s) of
     (w', res) \<Rightarrow> (w', bindE res (\<lambda>rs. Inr (s\<lparr>gst_Children := rs\<rparr>))))"

definition collect_child :: "child_lib \<Rightarrow> 'w deps \<Rightarrow> 'w \<Rightarrow> child_record \<Rightarrow> 'w \<times> (go_error + child_record)" where
  "collect_child L D w r =
     (if cr_Status r \<noteq> Started \<or> trim_space (cr_JobID r) = [] then (w, Inr r)
      else if snd (cr_Result r) = [] then (w, Inl (errorf ''child has no recorded result binding''))
      else
        (case (case dj_Result D w (snd (cr_Result r)) of
             Inl e \<Rightarrow> (w, Inl e) | Inr data \<Rightarrow> decodeRecipeJobOutput L D w data) of
           (w', Inl e) \<Rightarrow>
             if \<not> er_job_failed e \<and> \<not> er_cancelled e then (w', Inl e)
             else (w', Inr (r\<lparr>cr_Status := (if er_cancelled e then Cancelled else ChildFailed), cr_Error := er_text e\<rparr>))
         | (w', Inr out) \<Rightarrow> (w', Inr (r\<lparr>cr_Status := Completed, cr_Outputs := ro_Outputs out,
             cr_Artifacts := ro_Artifacts out\<rparr>))))"

definition collect_children :: "child_lib \<Rightarrow> 'w deps \<Rightarrow> 'w \<Rightarrow> child_record list \<Rightarrow> 'w \<times> (go_error + child_record list)" where
  "collect_children L D = run_checked (collect_child L D)"


section \<open>Output\<close>

definition status_name :: "child_status \<Rightarrow> string" where
  "status_name s = (case s of Started \<Rightarrow> ''started'' | Skipped \<Rightarrow> ''skipped'' | StartFailed \<Rightarrow> ''start_failed''
     | Completed \<Rightarrow> ''completed'' | ChildFailed \<Rightarrow> ''failed'' | Cancelled \<Rightarrow> ''cancelled'')"

definition result_value :: "string \<times> string \<Rightarrow> gval" where
  "result_value r = GMap ((if fst r = [] then [] else [(''goal'', GStr (fst r))]) @ [(''job'', GStr (snd r))])"

definition failure_value :: "gval option \<Rightarrow> gval" where
  "failure_value f = (case f of None \<Rightarrow> GNil | Some v \<Rightarrow> v)"

definition issue_origin :: "child_record \<Rightarrow> (string \<times> gval) list" where
  "issue_origin r = [(''child'', GStr (cr_Key r)), (''job_id'', GStr (cr_JobID r)), (''goal_id'', GStr (cr_GoalID r)),
     (''result'', result_value (cr_Result r)), (''goal_failure'', failure_value (cr_GoalFailure r)),
     (''recipe'', GStr (cr_Recipe r)), (''required'', GBool (cr_Required r))]"

definition childGroupIssue :: "child_record \<Rightarrow> string \<Rightarrow> string \<Rightarrow> (string \<times> gval) list" where
  "childGroupIssue r code msg = [(''code'', GStr code), (''message'', GStr (trim_space msg))] @ issue_origin r"

definition put_all :: "(string \<times> gval) list \<Rightarrow> (string \<times> gval) list \<Rightarrow> (string \<times> gval) list" where
  "put_all m news = foldl (\<lambda>m (k, v). put k v m) m news"

definition childGroupOutputIssues :: "child_lib \<Rightarrow> child_record \<Rightarrow> string \<Rightarrow> (string \<times> gval) list list" where
  "childGroupOutputIssues L r key = (case cr_Outputs r of
     None \<Rightarrow> []
   | Some outputs \<Rightarrow> (case map_of outputs key of
       Some (GList items) \<Rightarrow> map (\<lambda>item. case item of
           GMap m \<Rightarrow> put_all (issue_origin r) m
         | GStr s \<Rightarrow> put ''message'' (GStr s) (issue_origin r)
         | _ \<Rightarrow> put ''message'' (GStr (cl_Sprint L item)) (issue_origin r)) items
     | _ \<Rightarrow> []))"

definition child_entry :: "child_record \<Rightarrow> (string \<times> gval) list" where
  "child_entry r = [(''key'', GStr (cr_Key r)), (''index'', GNum (of_nat (cr_Index r))), (''recipe'', GStr (cr_Recipe r)),
     (''job_id'', GStr (cr_JobID r)), (''goal_id'', GStr (cr_GoalID r)), (''result'', result_value (cr_Result r)),
     (''goal_failure'', failure_value (cr_GoalFailure r)), (''required'', GBool (cr_Required r)),
     (''status'', GStr (status_name (cr_Status r)))]"

definition childGroupJobAggregate :: "child_record list \<Rightarrow> gval" where
  "childGroupJobAggregate rs = GList (map (\<lambda>r. GMap (child_entry r)) (filter (\<lambda>r. cr_JobID r \<noteq> []) rs))"

definition childGroupReviewChildren :: "child_record list \<Rightarrow> gval" where
  "childGroupReviewChildren rs = GList (map (\<lambda>r. GMap (child_entry r @
     (if cr_Error r = [] then [] else [(''error'', GStr (cr_Error r))]) @
     (if cr_SkipReason r = [] then [] else [(''skip_reason'', GStr (cr_SkipReason r))]) @
     (case cr_Outputs r of None \<Rightarrow> [] | Some m \<Rightarrow> [(''outputs'', GMap m)]))) rs)"

definition summary_value :: "group_summary \<Rightarrow> gval" where
  "summary_value s = GMap (map (\<lambda>(k, n). (k, GNum (of_nat n)))
     [(''total'', sm_Total s), (''started'', sm_Started s), (''completed'', sm_Completed s), (''failed'', sm_Failed s),
      (''failed_required'', sm_FailedRequired s), (''failed_optional'', sm_FailedOptional s), (''skipped'', sm_Skipped s),
      (''start_failed'', sm_StartFailed s), (''required'', sm_Required s), (''optional'', sm_Optional s)])"

text \<open>A nil slice is null.\<close>

definition issues_value :: "(string \<times> gval) list list \<Rightarrow> gval" where
  "issues_value is = (if is = [] then GNil else GList (map GMap is))"

definition empty_group :: "string \<Rightarrow> child_record list \<Rightarrow> group_output" where
  "empty_group mode rs = \<lparr>go_ChildGoalIDs = [], go_RequiredChildGoalIDs = [], go_OptionalChildGoalIDs = [],
     go_FailedChildGoalIDs = [], go_Ok = True, go_Mode = mode, go_ChildJobIDs = [], go_RequiredChildJobIDs = [],
     go_OptionalChildJobIDs = [], go_FailedChildJobIDs = [], go_Children = rs,
     go_Summary = \<lparr>sm_Total = 0, sm_Started = 0, sm_Completed = 0, sm_Failed = 0, sm_FailedRequired = 0,
       sm_FailedOptional = 0, sm_Skipped = 0, sm_StartFailed = 0, sm_Required = 0, sm_Optional = 0\<rparr>,
     go_Aggregate = [], go_Warnings = [], go_BlockingIssues = [], go_AggregateArtifact = [], go_Artifacts = []\<rparr>"

text \<open>The body of the loop over the children, in the order of the code.\<close>

definition note_count :: "child_record \<Rightarrow> group_output \<Rightarrow> group_output" where
  "note_count r out = (let s = go_Summary out; t = s\<lparr>sm_Total := Suc (sm_Total s)\<rparr> in
     out\<lparr>go_Summary := (if cr_Required r then t\<lparr>sm_Required := Suc (sm_Required t)\<rparr>
       else t\<lparr>sm_Optional := Suc (sm_Optional t)\<rparr>)\<rparr>)"

definition note_ids :: "child_record \<Rightarrow> group_output \<Rightarrow> group_output" where
  "note_ids r out =
     (if cr_JobID r = [] then out
      else let o1 = out\<lparr>go_ChildJobIDs := go_ChildJobIDs out @ [cr_JobID r], go_ChildGoalIDs := go_ChildGoalIDs out @ [cr_GoalID r]\<rparr>
      in if cr_Required r
        then o1\<lparr>go_RequiredChildJobIDs := go_RequiredChildJobIDs out @ [cr_JobID r],
          go_RequiredChildGoalIDs := go_RequiredChildGoalIDs out @ [cr_GoalID r]\<rparr>
        else o1\<lparr>go_OptionalChildJobIDs := go_OptionalChildJobIDs out @ [cr_JobID r],
          go_OptionalChildGoalIDs := go_OptionalChildGoalIDs out @ [cr_GoalID r]\<rparr>)"

definition note_artifacts :: "child_record \<Rightarrow> group_output \<Rightarrow> group_output" where
  "note_artifacts r out = out\<lparr>go_Artifacts := foldl (\<lambda>m (name, a).
     let n = (if name = [] then NameValue a else name) in if n = [] then m else put n a m) (go_Artifacts out) (cr_Artifacts r)\<rparr>"

definition note_issue :: "child_record \<Rightarrow> string \<Rightarrow> group_output \<Rightarrow> group_output" where
  "note_issue r code out = (let s = go_Summary out; i = childGroupIssue r code (cr_Error r) in
     if cr_Required r
     then out\<lparr>go_Summary := s\<lparr>sm_FailedRequired := Suc (sm_FailedRequired s)\<rparr>, go_Ok := False,
       go_BlockingIssues := go_BlockingIssues out @ [i]\<rparr>
     else out\<lparr>go_Summary := s\<lparr>sm_FailedOptional := Suc (sm_FailedOptional s)\<rparr>, go_Warnings := go_Warnings out @ [i]\<rparr>)"

definition note_status :: "child_record \<Rightarrow> group_output \<Rightarrow> group_output" where
  "note_status r out = (let s = go_Summary out in case cr_Status r of
     Started \<Rightarrow> out\<lparr>go_Summary := s\<lparr>sm_Started := Suc (sm_Started s)\<rparr>\<rparr>
   | Completed \<Rightarrow> out\<lparr>go_Summary := s\<lparr>sm_Completed := Suc (sm_Completed s)\<rparr>\<rparr>
   | Skipped \<Rightarrow> out\<lparr>go_Summary := s\<lparr>sm_Skipped := Suc (sm_Skipped s)\<rparr>\<rparr>
   | StartFailed \<Rightarrow> note_issue r ''child_start_failed'' (out\<lparr>go_Summary := s\<lparr>sm_StartFailed := Suc (sm_StartFailed s)\<rparr>\<rparr>)
   | _ \<Rightarrow> note_issue r ''child_failed'' (out\<lparr>go_Summary := s\<lparr>sm_Failed := Suc (sm_Failed s)\<rparr>,
       go_FailedChildJobIDs := go_FailedChildJobIDs out @ [cr_JobID r],
       go_FailedChildGoalIDs := go_FailedChildGoalIDs out @ [cr_GoalID r]\<rparr>))"

definition returned_not_ok :: "child_record \<Rightarrow> bool" where
  "returned_not_ok r = (cr_Status r = Completed \<and>
     (case cr_Outputs r of None \<Rightarrow> False | Some m \<Rightarrow> map_of m ''ok'' = Some (GBool False)))"

definition note_returned :: "child_record \<Rightarrow> group_output \<Rightarrow> group_output" where
  "note_returned r out =
     (if \<not> returned_not_ok r then out
      else if cr_Required r
      then out\<lparr>go_Ok := False,
        go_BlockingIssues := go_BlockingIssues out @ [childGroupIssue r ''child_not_ok'' ''required child returned ok=false'']\<rparr>
      else out\<lparr>go_Warnings := go_Warnings out @ [childGroupIssue r ''optional_child_not_ok'' ''optional child returned ok=false'']\<rparr>)"

definition tally :: "group_output \<Rightarrow> child_record \<Rightarrow> group_output" where
  "tally out r = note_returned r (note_status r (note_artifacts r (note_ids r (note_count r out))))"

definition review_child :: "child_lib \<Rightarrow> group_output \<Rightarrow> child_record \<Rightarrow> group_output" where
  "review_child L out r =
     (let blocking = childGroupOutputIssues L r ''blocking_issues'';
          o1 = (if cr_Required r then out\<lparr>go_BlockingIssues := go_BlockingIssues out @ blocking\<rparr>
            else out\<lparr>go_Warnings := go_Warnings out @ blocking\<rparr>)
      in o1\<lparr>go_Warnings := go_Warnings o1 @ childGroupOutputIssues L r ''warnings''\<rparr>)"

definition shaped :: "child_lib \<Rightarrow> group_shape \<Rightarrow> child_record list \<Rightarrow> group_output \<Rightarrow> group_output" where
  "shaped L sh rs out = (case sh of
     NoShape \<Rightarrow> out
   | JobIDs \<Rightarrow> out\<lparr>go_Aggregate := [(''jobs'', childGroupJobAggregate rs)]\<rparr>
   | ReviewPack \<Rightarrow>
       let o1 = foldl (review_child L) out rs;
           o2 = (if go_BlockingIssues o1 \<noteq> [] then o1\<lparr>go_Ok := False\<rparr> else o1)
       in o2\<lparr>go_Aggregate := [(''children'', childGroupReviewChildren rs), (''summary'', summary_value (go_Summary out)),
         (''ok'', GBool (go_Ok o2)), (''blocking_issues'', issues_value (go_BlockingIssues o2)),
         (''warnings'', issues_value (go_Warnings o2))]\<rparr>)"

definition new_artifact :: "string \<Rightarrow> string \<Rightarrow> artifact" where
  "new_artifact name bytes = \<lparr>af_Name = name, af_Content = bytes, af_Key = Inl (errorf ''artifact is not stored'')\<rparr>"

definition buildChildGroupOutput :: "child_lib \<Rightarrow> 'w deps \<Rightarrow> 'w \<Rightarrow> group_state \<Rightarrow> 'w \<times> (go_error + group_output)" where
  "buildChildGroupOutput L D w s = (case childGroupAggregateShape (ag_Shape (gst_Aggregate s)) of
     Inl e \<Rightarrow> (w, Inl e)
   | Inr sh \<Rightarrow>
       let rs = gst_Children s;
           out = shaped L sh rs (foldl tally (empty_group (normalizeChildGroupMode (gst_Mode s)) rs) rs);
           name = ag_Artifact (gst_Aggregate s)
       in if name = [] then (w, Inr out)
          else (case cl_Indent L (GMap (go_Aggregate out)) of
              Inl e \<Rightarrow> (w, Inl e)
            | Inr payload \<Rightarrow> (case dj_Output D w (new_artifact name payload) of
                (w', Some e) \<Rightarrow> (w', Inl e)
              | (w', None) \<Rightarrow> (w', Inr (out\<lparr>go_AggregateArtifact := name\<rparr>)))))"

definition collectChildGroup :: "child_lib \<Rightarrow> 'w deps \<Rightarrow> 'w \<Rightarrow> group_state \<Rightarrow> 'w \<times> (go_error + group_output)" where
  "collectChildGroup L D w s = (case collect_children L D w (gst_Children s) of
     (w', Inl e) \<Rightarrow> (w', Inl e)
   | (w', Inr rs) \<Rightarrow> buildChildGroupOutput L D w' (s\<lparr>gst_Children := rs\<rparr>))"

definition startChildGroupOnly :: "child_lib \<Rightarrow> 'w deps \<Rightarrow> 'w \<Rightarrow> group_input \<Rightarrow> 'w \<times> (go_error + group_output)" where
  "startChildGroupOnly L D w inp = (case startChildGroup L D w inp of
     (w', Inl e) \<Rightarrow> (w', Inl e) | (w', Inr s) \<Rightarrow> buildChildGroupOutput L D w' s)"

text \<open>The op \<^verbatim>\<open>recipe.child_group.run_and_get_result\<close>: its three steps.\<close>

definition run_child_group :: "child_lib \<Rightarrow> 'w deps \<Rightarrow> 'w \<Rightarrow> group_input \<Rightarrow> 'w \<times> (go_error + group_output)" where
  "run_child_group L D w inp = (case startChildGroup L D w inp of
     (w1, Inl e) \<Rightarrow> (w1, Inl e)
   | (w1, Inr s) \<Rightarrow> (case awaitChildGroup L D w1 s of
       (w2, Inl e) \<Rightarrow> (w2, Inl e)
     | (w2, Inr t) \<Rightarrow> collectChildGroup L D w2 t))"

end
