(* ===== verification/Child_Render.thy ===== *)
theory Child_Render
  imports Template_Values Child_Group
begin

text \<open>
  \<^verbatim>\<open>pkg/worker/compiler/child_group.go\<close>: how the node of a child group becomes the input of
  the op that runs it. Every field is a template; children may be listed, or made from the items of
  a value, which each child sees as \<^verbatim>\<open>item\<close>. Values are JSON-shaped; artifact references that
  are native structs are not.
\<close>

section \<open>Data\<close>

record group_child =
  gch_CellRepo :: gval
  gch_Wait :: "WaitPolicy option"
  gch_Key :: gval
  gch_Recipe :: gval
  gch_CellName :: gval
  gch_Required :: gval
  gch_When :: gval
  gch_SkipReason :: gval
  gch_GitRef :: gval
  gch_Inputs :: "(string \<times> gval) list option"
  gch_Artifacts :: "gval list"

record group_data =
  gd_Wait :: WaitPolicy
  gd_Mode :: string
  gd_Children :: "group_child list"
  gd_ChildrenFrom :: gval
  gd_Child :: "group_child option"
  gd_ArtifactsUse :: "gval list"
  gd_Shape :: gval
  gd_Artifact :: gval

datatype render_error =
    RenderTemplate resolution_error
  | RenderRef go_error
  | RenderText string
  | RenderAt string render_error

text \<open>What rendering uses beside the context: the template engine, the formatting of values by
  \<^verbatim>\<open>fmt\<close>, the codec of references, the artifacts of the task, and what is read back of an input
  value that was written as JSON.\<close>

record render_env =
  re_Engine :: template_engine
  re_Sprint :: "gval \<Rightarrow> string"
  re_DecodeRef :: "gval \<Rightarrow> go_error + artifact_ref"
  re_Artifacts :: "(string \<times> artifact_ref) list"
  re_Refs :: artifact_lib
  re_RefValue :: "artifact_ref \<Rightarrow> gval"
  re_JSON :: "gval \<Rightarrow> gval"

definition at_field :: "string \<Rightarrow> render_error + 'a \<Rightarrow> render_error + 'a" where
  "at_field f r = map_sum (RenderAt f) id r"

lemma at_field_ok [ok_iff]: "at_field f r = Inr x \<longleftrightarrow> r = Inr x"
  by (cases r) (auto simp: at_field_def)

definition rendered :: "resolution_error + 'a \<Rightarrow> render_error + 'a" where
  "rendered r = map_sum RenderTemplate id r"

lemma rendered_ok [ok_iff]: "rendered r = Inr x \<longleftrightarrow> r = Inr x"
  by (cases r) (auto simp: rendered_def)


section \<open>Fields\<close>

definition renderOptionalString :: "render_env \<Rightarrow> resolution \<Rightarrow> gval \<Rightarrow> (string \<times> gval) list \<Rightarrow> render_error + string" where
  "renderOptionalString R rc v locals =
     (if v = GNil then Inr []
      else bindE (rendered (ResolveValueWithLocals (re_Engine R) rc v locals)) (\<lambda>w. case w of
          GNil \<Rightarrow> Inr [] | GStr s \<Rightarrow> Inr (trim_space s) | _ \<Rightarrow> Inr (trim_space (re_Sprint R w))))"

text \<open>The spellings of \<^verbatim>\<open>strconv.ParseBool\<close>.\<close>

definition ParseBool :: "string \<Rightarrow> bool option" where
  "ParseBool s =
     (if s \<in> {''1'', ''t'', ''T'', ''TRUE'', ''true'', ''True''} then Some True
      else if s \<in> {''0'', ''f'', ''F'', ''FALSE'', ''false'', ''False''} then Some False else None)"

definition renderOptionalBool ::
  "render_env \<Rightarrow> resolution \<Rightarrow> gval \<Rightarrow> (string \<times> gval) list \<Rightarrow> bool \<Rightarrow> render_error + bool" where
  "renderOptionalBool R rc v locals dflt =
     (if v = GNil then Inr dflt
      else bindE (rendered (ResolveValueWithLocals (re_Engine R) rc v locals)) (\<lambda>w. case w of
          GNil \<Rightarrow> Inr dflt
        | GBool b \<Rightarrow> Inr b
        | GStr s \<Rightarrow>
            if trim_space s = [] then Inr dflt
            else (case ParseBool (trim_space s) of Some b \<Rightarrow> Inr b | None \<Rightarrow> Inl (RenderText ''expected bool''))
        | _ \<Rightarrow> Inl (RenderText ''expected bool'')))"

definition renderChildWhen :: "render_env \<Rightarrow> resolution \<Rightarrow> gval \<Rightarrow> (string \<times> gval) list \<Rightarrow> render_error + bool" where
  "renderChildWhen R rc v locals = (case v of
     GNil \<Rightarrow> Inr True
   | GBool b \<Rightarrow> Inr b
   | GStr s \<Rightarrow>
       let t = trim_space s in
       if t = [] then Inr True
       else if go_contains t ''${{'' \<or> go_contains t ''{{'' then renderOptionalBool R rc v locals True
       else rendered (resolver_EvaluateCEL (re_Engine R) (WithLocals rc locals) t)
   | _ \<Rightarrow> renderOptionalBool R rc v locals True)"

definition renderChildInputs ::
  "render_env \<Rightarrow> resolution \<Rightarrow> (string \<times> gval) list option \<Rightarrow> (string \<times> gval) list \<Rightarrow>
   render_error + (string \<times> gval) list option" where
  "renderChildInputs R rc inputs locals = (case inputs of
     None \<Rightarrow> Inr None
   | Some m \<Rightarrow> bindE (rendered (resolver_ResolveInputs (re_Engine R) (WithLocals rc locals) m)) (\<lambda>m'. Inr (Some m')))"

text \<open>A list, or the entries of an object in the order of their keys.\<close>

definition interfaceList :: "gval \<Rightarrow> render_error + gval list" where
  "interfaceList v = (case v of
     GNil \<Rightarrow> Inr []
   | GList vs \<Rightarrow> Inr vs
   | GMap m \<Rightarrow> Inr (map (\<lambda>k. GMap [(''key'', GStr k), (''value'', lookup_nil m k)]) (sort (map fst m)))
   | _ \<Rightarrow> Inl (RenderText ''expected list''))"

definition artifactRefFromRendered :: "render_env \<Rightarrow> gval \<Rightarrow> render_error + artifact_ref" where
  "artifactRefFromRendered R v = (case v of
     GNil \<Rightarrow> Inr zero_ref
   | GStr s \<Rightarrow>
       if trim_space s = [] then Inr zero_ref
       else (case map_of (re_Artifacts R) (trim_space s) of
           Some r \<Rightarrow> Inr r | None \<Rightarrow> Inl (RenderText ''artifact not found''))
   | GMap m \<Rightarrow> map_sum RenderRef id (re_DecodeRef R v)
   | _ \<Rightarrow> Inl (RenderText ''expected artifact ref''))"

definition renderArtifactRefs ::
  "render_env \<Rightarrow> resolution \<Rightarrow> gval list \<Rightarrow> (string \<times> gval) list \<Rightarrow> render_error + artifact_ref list" where
  "renderArtifactRefs R rc vs locals =
     (if vs = [] then Inr []
      else
        bindE (rendered (ResolveValueWithLocals (re_Engine R) rc (GList vs) locals)) (\<lambda>w.
        bindE (interfaceList w) (\<lambda>items.
        bindE (mapE (\<lambda>i. at_field (''index '' @ show_nat i)
          (bindE (artifactRefFromRendered R (items ! i)) (\<lambda>r.
           if ref_IsZero r then Inr r else bindE (map_sum RenderRef id (ref_Validate (re_Refs R) r)) (\<lambda>_. Inr r)))) [0..<length items]) (\<lambda>rs.
        Inr (filter (\<lambda>r. \<not> ref_IsZero r) rs)))))"

definition renderChildGroupAggregate :: "render_env \<Rightarrow> resolution \<Rightarrow> group_data \<Rightarrow> render_error + aggregate_config" where
  "renderChildGroupAggregate R rc g =
     bindE (at_field ''aggregate.shape'' (renderOptionalString R rc (gd_Shape g) [])) (\<lambda>shape.
     bindE (at_field ''aggregate.artifact'' (renderOptionalString R rc (gd_Artifact g) [])) (\<lambda>artifact.
     let s = (if shape = [] then ''none'' else shape) in
     if s \<in> {''none'', ''job_ids'', ''review_pack''} then Inr \<lparr>ag_Shape = s, ag_Artifact = artifact\<rparr>
     else Inl (RenderText ''child_group.aggregate.shape is not supported'')))"


section \<open>Children\<close>

definition renderChildGroupChild ::
  "render_env \<Rightarrow> resolution \<Rightarrow> group_child \<Rightarrow> (string \<times> gval) list \<Rightarrow> artifact_ref list \<Rightarrow> render_error + child_spec" where
  "renderChildGroupChild R rc c locals common =
     bindE (at_field ''key'' (renderOptionalString R rc (gch_Key c) locals)) (\<lambda>key.
     bindE (at_field ''recipe'' (renderOptionalString R rc (gch_Recipe c) locals)) (\<lambda>recipe.
     bindE (at_field ''cell_name'' (renderOptionalString R rc (gch_CellName c) locals)) (\<lambda>cell.
     bindE (at_field ''cell_repo'' (renderOptionalString R rc (gch_CellRepo c) locals)) (\<lambda>repo.
     bindE (at_field ''git_ref'' (renderOptionalString R rc (gch_GitRef c) locals)) (\<lambda>ref.
     bindE (at_field ''required'' (renderOptionalBool R rc (gch_Required c) locals True)) (\<lambda>required.
     bindE (at_field ''when'' (renderChildWhen R rc (gch_When c) locals)) (\<lambda>include.
     bindE (at_field ''skip_reason'' (renderOptionalString R rc (gch_SkipReason c) locals)) (\<lambda>reason.
     bindE (at_field ''inputs'' (renderChildInputs R rc (gch_Inputs c) locals)) (\<lambda>inputs.
     bindE (at_field ''artifacts'' (renderArtifactRefs R rc (gch_Artifacts c) locals)) (\<lambda>artifacts.
     if include \<and> trim_space recipe = [] then Inl (RenderText ''recipe is required'')
     else Inr \<lparr>cs_CellRepo = repo, cs_Wait = gch_Wait c, cs_Key = key, cs_Recipe = recipe, cs_CellName = cell,
       cs_Required = required, cs_Skipped = \<not> include, cs_SkipReason = reason, cs_GitRef = ref,
       cs_Inputs = (case inputs of Some m \<Rightarrow> m | None \<Rightarrow> []), cs_Artifacts = common @ artifacts\<rparr>))))))))))"

definition render_items :: "render_env \<Rightarrow> resolution \<Rightarrow> group_data \<Rightarrow> artifact_ref list \<Rightarrow> render_error + child_spec list" where
  "render_items R rc g common =
     (if gd_ChildrenFrom g = GNil then Inr []
      else
        bindE (rendered (ResolveValueWithMode (re_Engine R) rc (gd_ChildrenFrom g) False)) (\<lambda>v.
        bindE (interfaceList v) (\<lambda>items.
        case gd_Child g of
          None \<Rightarrow> Inl (RenderText ''child_group.child is required when children_from is set'')
        | Some c \<Rightarrow> mapE (\<lambda>i. at_field (''child_group.child['' @ show_nat i @ '']'')
            (renderChildGroupChild R rc c [(''item'', items ! i), (''index'', GNum (of_nat i))] common)) [0..<length items])))"

text \<open>Children without a key get their position; two children with one key are refused.\<close>

fun assign_keys :: "nat \<Rightarrow> string list \<Rightarrow> child_spec list \<Rightarrow> render_error + child_spec list" where
  "assign_keys i seen [] = Inr []"
| "assign_keys i seen (c # cs) =
     (let k = (if trim_space (cs_Key c) = [] then show_nat i else cs_Key c) in
      if k \<in> set seen then Inl (RenderText ''child_group child key is duplicated'')
      else bindE (assign_keys (Suc i) (k # seen) cs) (\<lambda>cs'. Inr (c\<lparr>cs_Key := k\<rparr> # cs')))"

definition renderChildGroupInput :: "render_env \<Rightarrow> resolution \<Rightarrow> group_data \<Rightarrow> render_error + group_input" where
  "renderChildGroupInput R rc g =
     bindE (at_field ''child_group.mode'' (renderOptionalString R rc (GStr (gd_Mode g)) [])) (\<lambda>mode.
     bindE (renderChildGroupAggregate R rc g) (\<lambda>agg.
     bindE (at_field ''child_group.artifacts.use'' (renderArtifactRefs R rc (gd_ArtifactsUse g) [])) (\<lambda>common.
     bindE (mapE (\<lambda>i. at_field (''child_group.children['' @ show_nat i @ '']'')
       (renderChildGroupChild R rc (gd_Children g ! i) [] common)) [0..<length (gd_Children g)]) (\<lambda>listed.
     bindE (render_items R rc g common) (\<lambda>made.
     bindE (assign_keys 0 [] (listed @ made)) (\<lambda>children.
     Inr \<lparr>gin_Wait = gd_Wait g, gin_Mode = (if mode = [] then run_mode else mode), gin_GitRef = [],
       gin_Children = children, gin_Aggregate = agg\<rparr>))))))"


section \<open>The op\<close>

definition childGroupInternalOp :: "string \<Rightarrow> render_error + string" where
  "childGroupInternalOp mode =
     (if trim_space mode \<in> {[], run_mode} then Inr ''recipe.child_group.run_and_get_result''
      else if trim_space mode = ''start'' then Inr ''recipe.child_group.start''
      else Inl (RenderText ''unsupported child_group mode''))"

text \<open>The input as an object: what \<^verbatim>\<open>encoding/json\<close> writes, empty members left out.\<close>

definition text_member :: "string \<Rightarrow> string \<Rightarrow> (string \<times> gval) list" where
  "text_member k s = (if s = [] then [] else [(k, GStr s)])"

definition list_member :: "string \<Rightarrow> gval list \<Rightarrow> (string \<times> gval) list" where
  "list_member k vs = (if vs = [] then [] else [(k, GList vs)])"

definition wait_value :: "WaitPolicy \<Rightarrow> gval" where
  "wait_value p = GMap (text_member ''on'' (wp_On p) @ text_member ''condition'' (wp_Condition p))"

definition spec_value :: "render_env \<Rightarrow> nat \<Rightarrow> child_spec \<Rightarrow> gval" where
  "spec_value R i c = GMap (
     text_member ''cell_repo'' (cs_CellRepo c) @
     (case cs_Wait c of None \<Rightarrow> [] | Some p \<Rightarrow> [(''wait'', wait_value p)]) @
     text_member ''key'' (cs_Key c) @ (if i = 0 then [] else [(''index'', GNum (of_nat i))]) @
     text_member ''recipe'' (cs_Recipe c) @ text_member ''cell_name'' (cs_CellName c) @
     [(''required'', GBool (cs_Required c))] @ (if cs_Skipped c then [(''skipped'', GBool True)] else []) @
     text_member ''skip_reason'' (cs_SkipReason c) @ text_member ''git_ref'' (cs_GitRef c) @
     (if cs_Inputs c = [] then [] else [(''inputs'', GMap (map (\<lambda>(k, v). (k, re_JSON R v)) (cs_Inputs c)))]) @
     list_member ''artifacts'' (map (re_RefValue R) (cs_Artifacts c)))"

definition childGroupInputMap :: "render_env \<Rightarrow> group_input \<Rightarrow> (string \<times> gval) list" where
  "childGroupInputMap R inp =
     [(''wait'', wait_value (gin_Wait inp))] @ text_member ''mode'' (gin_Mode inp) @
     text_member ''git_ref'' (gin_GitRef inp) @
     list_member ''children'' (map (\<lambda>i. spec_value R i (gin_Children inp ! i)) [0..<length (gin_Children inp)]) @
     [(''aggregate'', GMap (text_member ''shape'' (ag_Shape (gin_Aggregate inp)) @
        text_member ''artifact'' (ag_Artifact (gin_Aggregate inp))))]"

text \<open>The op and its inputs: the group is rendered in a context of its own, with the node's variables;
  the rendered input is the input of the op's node, which resolves it in the context \<open>op_rc\<close> of the
  op.\<close>

definition ExecuteChildGroup ::
  "render_env \<Rightarrow> resolution \<Rightarrow> resolution \<Rightarrow> (string \<times> gval) list \<Rightarrow> group_data \<Rightarrow>
   render_error + string \<times> (string \<times> gval) list" where
  "ExecuteChildGroup R render_rc op_rc vars g =
     bindE (rendered (ResolveVars (re_Engine R) render_rc vars)) (\<lambda>rc.
     bindE (renderChildGroupInput R rc g) (\<lambda>inp.
     bindE (childGroupInternalOp (gin_Mode inp)) (\<lambda>op.
     bindE (rendered (resolver_ResolveInputs (re_Engine R) op_rc (childGroupInputMap R inp))) (\<lambda>inputs.
     Inr (op, inputs)))))"


section \<open>Keys\<close>

lemma digit_solid: "is_digit c \<Longrightarrow> solid_end c"
  by (auto simp: solid_end_def go_spaces_def is_digit_def byte_in_def)

lemma trim_show [simp]: "trim_space (show_nat n) = show_nat n"
proof (rule trim_space_id)
  have "\<forall>c \<in> set (show_nat n). solid_end c" using show_nat_digits [of n] digit_solid by (auto simp: list_all_iff)
  then show "show_nat n = [] \<or> solid_end (hd (show_nat n)) \<and> solid_end (last (show_nat n))" by simp
qed

lemma assign_keys_ok:
  "assign_keys i seen cs = Inr cs' \<Longrightarrow> length cs' = length cs \<and> distinct (map cs_Key cs') \<and>
     set (map cs_Key cs') \<inter> set seen = {} \<and> list_all (\<lambda>c. trim_space (cs_Key c) \<noteq> []) cs'"
proof (induction cs arbitrary: i seen cs')
  case (Cons c cs)
  let ?k = "if trim_space (cs_Key c) = [] then show_nat i else cs_Key c"
  from Cons.prems obtain rest where rest: "assign_keys (Suc i) (?k # seen) cs = Inr rest" "?k \<notin> set seen"
    "cs' = c\<lparr>cs_Key := ?k\<rparr> # rest"
    by (auto simp: Let_def ok_iff split: if_splits)
  from Cons.IH [OF rest(1)] rest(2,3) show ?case by auto
qed simp

lemma renderOptionalString_trimmed: "renderOptionalString R rc v locals = Inr s \<Longrightarrow> trim_space s = s"
proof -
  assume s: "renderOptionalString R rc v locals = Inr s"
  show ?thesis
  proof (cases "v = GNil")
    case True
    with s show ?thesis by (simp add: renderOptionalString_def trim_space_id)
  next
    case False
    with s obtain w where "(case w of GNil \<Rightarrow> Inr [] | GStr s \<Rightarrow> Inr (trim_space s) | _ \<Rightarrow> Inr (trim_space (re_Sprint R w))) = (Inr s :: render_error + string)"
      by (auto simp: renderOptionalString_def bindE_ok)
    then show ?thesis by (cases w) (auto simp: trim_space_id)
  qed
qed

lemma render_child_trimmed: "renderChildGroupChild R rc c locals common = Inr spec \<Longrightarrow> trim_space (cs_Key spec) = cs_Key spec"
  by (auto simp: renderChildGroupChild_def ok_iff dest!: renderOptionalString_trimmed split: if_splits)

lemma assign_keys_trimmed:
  "assign_keys i seen cs = Inr cs' \<Longrightarrow> list_all (\<lambda>c. trim_space (cs_Key c) = cs_Key c) cs \<Longrightarrow>
   list_all (\<lambda>c. trim_space (cs_Key c) = cs_Key c) cs'"
  by (induction cs arbitrary: i seen cs') (auto simp: Let_def ok_iff split: if_splits)

lemma rendered_keys:
  assumes "renderChildGroupInput R rc g = Inr inp"
  shows "distinct (map cs_Key (gin_Children inp))"
    "list_all (\<lambda>c. cs_Key c \<noteq> [] \<and> trim_space (cs_Key c) = cs_Key c) (gin_Children inp)"
proof -
  from assms obtain listed made common where
    l: "mapE (\<lambda>i. at_field (''child_group.children['' @ show_nat i @ '']'')
       (renderChildGroupChild R rc (gd_Children g ! i) [] common)) [0..<length (gd_Children g)] = Inr listed"
    and m: "render_items R rc g common = Inr made"
    and a: "assign_keys 0 [] (listed @ made) = Inr (gin_Children inp)"
    by (auto simp: renderChildGroupInput_def ok_iff)
  have "list_all (\<lambda>c. trim_space (cs_Key c) = cs_Key c) listed"
    using l by (auto simp: mapE_ok_upt list_all_length ok_iff dest!: render_child_trimmed)
  moreover have "list_all (\<lambda>c. trim_space (cs_Key c) = cs_Key c) made"
    using m by (auto simp: render_items_def ok_iff mapE_ok_upt list_all_length dest!: render_child_trimmed split: if_splits option.splits)
  ultimately have t: "list_all (\<lambda>c. trim_space (cs_Key c) = cs_Key c) (gin_Children inp)"
    using assign_keys_trimmed [OF a] by simp
  from assign_keys_ok [OF a] t show "distinct (map cs_Key (gin_Children inp))"
    "list_all (\<lambda>c. cs_Key c \<noteq> [] \<and> trim_space (cs_Key c) = cs_Key c) (gin_Children inp)"
    by (auto simp: list_all_iff)
qed

end
