(* ===== verification/Group_Outcome.thy ===== *)
theory Group_Outcome
  imports Child_Group
begin

text \<open>
  What the output of a child group says. Its counters are a sum over the children, for which
  summaries form a commutative monoid; its verdict is a condition on each required child; and a run
  of the whole op gives every child a final record.
\<close>

section \<open>Summaries add up\<close>

instantiation unit :: comm_monoid_add
begin

definition zero_unit :: unit where "zero_unit = ()"
definition plus_unit :: "unit \<Rightarrow> unit \<Rightarrow> unit" where "plus_unit x y = ()"

instance by standard (simp_all add: zero_unit_def plus_unit_def)

end

instantiation group_summary_ext :: (comm_monoid_add) comm_monoid_add
begin

definition zero_group_summary_ext :: "'a group_summary_scheme" where
  "zero_group_summary_ext = \<lparr>sm_Total = 0, sm_Started = 0, sm_Completed = 0, sm_Failed = 0, sm_FailedRequired = 0,
     sm_FailedOptional = 0, sm_Skipped = 0, sm_StartFailed = 0, sm_Required = 0, sm_Optional = 0, \<dots> = 0\<rparr>"

definition plus_group_summary_ext :: "'a group_summary_scheme \<Rightarrow> 'a group_summary_scheme \<Rightarrow> 'a group_summary_scheme" where
  "plus_group_summary_ext s t = \<lparr>sm_Total = sm_Total s + sm_Total t, sm_Started = sm_Started s + sm_Started t,
     sm_Completed = sm_Completed s + sm_Completed t, sm_Failed = sm_Failed s + sm_Failed t,
     sm_FailedRequired = sm_FailedRequired s + sm_FailedRequired t,
     sm_FailedOptional = sm_FailedOptional s + sm_FailedOptional t, sm_Skipped = sm_Skipped s + sm_Skipped t,
     sm_StartFailed = sm_StartFailed s + sm_StartFailed t, sm_Required = sm_Required s + sm_Required t,
     sm_Optional = sm_Optional s + sm_Optional t, \<dots> = group_summary.more s + group_summary.more t\<rparr>"

instance
  by standard (simp_all add: zero_group_summary_ext_def plus_group_summary_ext_def ac_simps)

end

lemma summary_plus [simp]:
  fixes s t :: group_summary
  shows "sm_Total (s + t) = sm_Total s + sm_Total t" "sm_Started (s + t) = sm_Started s + sm_Started t"
    "sm_Completed (s + t) = sm_Completed s + sm_Completed t" "sm_Failed (s + t) = sm_Failed s + sm_Failed t"
    "sm_FailedRequired (s + t) = sm_FailedRequired s + sm_FailedRequired t"
    "sm_FailedOptional (s + t) = sm_FailedOptional s + sm_FailedOptional t"
    "sm_Skipped (s + t) = sm_Skipped s + sm_Skipped t" "sm_StartFailed (s + t) = sm_StartFailed s + sm_StartFailed t"
    "sm_Required (s + t) = sm_Required s + sm_Required t" "sm_Optional (s + t) = sm_Optional s + sm_Optional t"
  by (simp_all add: plus_group_summary_ext_def)

lemma summary_zero [simp]:
  "sm_Total (0 :: group_summary) = 0" "sm_Started (0 :: group_summary) = 0" "sm_Completed (0 :: group_summary) = 0"
  "sm_Failed (0 :: group_summary) = 0" "sm_FailedRequired (0 :: group_summary) = 0"
  "sm_FailedOptional (0 :: group_summary) = 0" "sm_Skipped (0 :: group_summary) = 0"
  "sm_StartFailed (0 :: group_summary) = 0" "sm_Required (0 :: group_summary) = 0" "sm_Optional (0 :: group_summary) = 0"
  by (simp_all add: zero_group_summary_ext_def)

definition count_of :: "bool \<Rightarrow> nat" where
  "count_of b = (if b then 1 else 0)"

definition broken :: "child_record \<Rightarrow> bool" where
  "broken r = (cr_Status r \<in> {StartFailed, ChildFailed, Cancelled})"

definition contribution :: "child_record \<Rightarrow> group_summary" where
  "contribution r = \<lparr>sm_Total = 1, sm_Started = count_of (cr_Status r = Started),
     sm_Completed = count_of (cr_Status r = Completed), sm_Failed = count_of (cr_Status r \<in> {ChildFailed, Cancelled}),
     sm_FailedRequired = count_of (broken r \<and> cr_Required r), sm_FailedOptional = count_of (broken r \<and> \<not> cr_Required r),
     sm_Skipped = count_of (cr_Status r = Skipped), sm_StartFailed = count_of (cr_Status r = StartFailed),
     sm_Required = count_of (cr_Required r), sm_Optional = count_of (\<not> cr_Required r)\<rparr>"

lemmas note_defs = note_count_def note_ids_def note_artifacts_def note_issue_def note_status_def note_returned_def Let_def

lemma tally_summary: "go_Summary (tally out r) = go_Summary out + contribution r"
  by (cases "cr_Status r"; cases "cr_Required r")
     (simp_all add: tally_def note_defs contribution_def count_of_def broken_def plus_group_summary_ext_def
        plus_unit_def group_summary.equality)

lemma tally_all_summary: "go_Summary (foldl tally out rs) = go_Summary out + (\<Sum>r\<leftarrow>rs. contribution r)"
  by (induction rs arbitrary: out) (simp_all add: tally_summary add.assoc)

lemma empty_group_summary [simp]: "go_Summary (empty_group mode rs) = 0"
  by (simp add: empty_group_def zero_group_summary_ext_def zero_unit_def)

lemma summary_sum:
  "sm_Total (\<Sum>r\<leftarrow>rs. contribution r) = length rs"
  "sm_Started (\<Sum>r\<leftarrow>rs. contribution r) = length (filter (\<lambda>r. cr_Status r = Started) rs)"
  "sm_Completed (\<Sum>r\<leftarrow>rs. contribution r) = length (filter (\<lambda>r. cr_Status r = Completed) rs)"
  "sm_Failed (\<Sum>r\<leftarrow>rs. contribution r) = length (filter (\<lambda>r. cr_Status r \<in> {ChildFailed, Cancelled}) rs)"
  "sm_FailedRequired (\<Sum>r\<leftarrow>rs. contribution r) = length (filter (\<lambda>r. broken r \<and> cr_Required r) rs)"
  "sm_FailedOptional (\<Sum>r\<leftarrow>rs. contribution r) = length (filter (\<lambda>r. broken r \<and> \<not> cr_Required r) rs)"
  "sm_Skipped (\<Sum>r\<leftarrow>rs. contribution r) = length (filter (\<lambda>r. cr_Status r = Skipped) rs)"
  "sm_StartFailed (\<Sum>r\<leftarrow>rs. contribution r) = length (filter (\<lambda>r. cr_Status r = StartFailed) rs)"
  "sm_Required (\<Sum>r\<leftarrow>rs. contribution r) = length (filter cr_Required rs)"
  "sm_Optional (\<Sum>r\<leftarrow>rs. contribution r) = length (filter (\<lambda>r. \<not> cr_Required r) rs)"
  by (induction rs) (simp_all add: contribution_def count_of_def)


section \<open>The verdict\<close>

text \<open>What makes a required child block the group.\<close>

definition child_fine :: "child_record \<Rightarrow> bool" where
  "child_fine r = (\<not> broken r \<and> \<not> returned_not_ok r)"

lemma tally_blocking:
  "go_BlockingIssues (tally out r) = [] \<longleftrightarrow> go_BlockingIssues out = [] \<and> (cr_Required r \<longrightarrow> child_fine r)"
  "go_Ok (tally out r) \<longleftrightarrow> go_Ok out \<and> (cr_Required r \<longrightarrow> child_fine r)"
  by (cases "cr_Status r"; cases "cr_Required r"; simp add: tally_def note_defs child_fine_def broken_def)+

lemma tally_all_blocking:
  "go_BlockingIssues (foldl tally out rs) = [] \<longleftrightarrow> go_BlockingIssues out = [] \<and> (\<forall>r \<in> set rs. cr_Required r \<longrightarrow> child_fine r)"
  "go_Ok (foldl tally out rs) \<longleftrightarrow> go_Ok out \<and> (\<forall>r \<in> set rs. cr_Required r \<longrightarrow> child_fine r)"
  by (induction rs arbitrary: out) (auto simp: tally_blocking)

lemma review_blocking:
  "go_BlockingIssues (foldl (review_child L) out rs) = [] \<longleftrightarrow>
     go_BlockingIssues out = [] \<and> (\<forall>r \<in> set rs. cr_Required r \<longrightarrow> childGroupOutputIssues L r ''blocking_issues'' = [])"
  "go_Ok (foldl (review_child L) out rs) = go_Ok out"
  "go_Summary (foldl (review_child L) out rs) = go_Summary out"
  "go_Children (foldl (review_child L) out rs) = go_Children out"
  by (induction rs arbitrary: out) (auto simp: review_child_def Let_def)

lemma tally_children: "go_Children (foldl tally out rs) = go_Children out"
proof (induction rs arbitrary: out)
  case (Cons r rs)
  have "go_Children (tally out r) = go_Children out"
    by (cases "cr_Status r") (simp_all add: tally_def note_defs)
  with Cons show ?case by simp
qed simp

definition group_verdict :: "child_lib \<Rightarrow> group_shape \<Rightarrow> child_record list \<Rightarrow> bool" where
  "group_verdict L sh rs = list_all (\<lambda>r. cr_Required r \<longrightarrow>
     child_fine r \<and> (sh = ReviewPack \<longrightarrow> childGroupOutputIssues L r ''blocking_issues'' = [])) rs"

lemma shaped_verdict:
  fixes out :: group_output
  assumes "out = shaped L sh rs (foldl tally (empty_group mode rs) rs)"
  shows "go_Ok out \<longleftrightarrow> group_verdict L sh rs" "go_BlockingIssues out = [] \<longleftrightarrow> go_Ok out"
    "go_Summary out = (\<Sum>r\<leftarrow>rs. contribution r)" "go_Children out = rs"
proof -
  have empty: "go_Ok (empty_group mode rs)" "go_BlockingIssues (empty_group mode rs) = []" "go_Children (empty_group mode rs) = rs"
    by (simp_all add: empty_group_def)
  note facts = assms shaped_def tally_all_blocking review_blocking tally_all_summary tally_children group_verdict_def list_all_iff empty
  show "go_Ok out \<longleftrightarrow> group_verdict L sh rs" "go_BlockingIssues out = [] \<longleftrightarrow> go_Ok out"
    "go_Summary out = (\<Sum>r\<leftarrow>rs. contribution r)" "go_Children out = rs"
    by (cases sh; auto simp: facts Let_def)+
qed

lemma build_output:
  assumes "buildChildGroupOutput L D w s = (w', Inr out)"
  obtains sh where "childGroupAggregateShape (ag_Shape (gst_Aggregate s)) = Inr sh"
    "go_Ok out \<longleftrightarrow> group_verdict L sh (gst_Children s)" "go_BlockingIssues out = [] \<longleftrightarrow> go_Ok out"
    "go_Summary out = (\<Sum>r\<leftarrow>gst_Children s. contribution r)" "go_Children out = gst_Children s"
proof -
  from assms obtain sh where sh: "childGroupAggregateShape (ag_Shape (gst_Aggregate s)) = Inr sh"
    by (auto simp: buildChildGroupOutput_def split: sum.splits)
  let ?out = "shaped L sh (gst_Children s)
    (foldl tally (empty_group (normalizeChildGroupMode (gst_Mode s)) (gst_Children s)) (gst_Children s))"
  from assms sh have "out = ?out \<or> (\<exists>a. out = ?out\<lparr>go_AggregateArtifact := a\<rparr>)"
    by (auto simp: buildChildGroupOutput_def Let_def split: if_splits sum.splits prod.splits option.splits)
  with that [OF sh] shaped_verdict [OF refl] show thesis by auto
qed


section \<open>A run of the op\<close>

definition same_child :: "child_record \<Rightarrow> child_record \<Rightarrow> bool" where
  "same_child r r' = (cr_Key r' = cr_Key r \<and> cr_Index r' = cr_Index r \<and> cr_Required r' = cr_Required r \<and> cr_JobID r' = cr_JobID r)"

definition fresh_record :: "nat \<times> child_spec \<times> WaitPolicy \<Rightarrow> child_record \<Rightarrow> bool" where
  "fresh_record item r = (case item of (i, c, p) \<Rightarrow> cr_Key r = child_key i c \<and> cr_Index r = i \<and> cr_Required r = cs_Required c \<and>
     (cr_Status r = Skipped \<longleftrightarrow> cs_Skipped c) \<and> cr_Status r \<in> {Started, Skipped, StartFailed})"

definition awaited :: "child_record \<Rightarrow> child_record \<Rightarrow> bool" where
  "awaited r r' = (same_child r r' \<and> (if cr_Status r = Started then cr_Status r' \<in> {Started, ChildFailed} else r' = r))"

definition collected :: "child_record \<Rightarrow> child_record \<Rightarrow> bool" where
  "collected r r' = (same_child r r' \<and>
     (if cr_Status r = Started \<and> trim_space (cr_JobID r) \<noteq> [] then cr_Status r' \<in> {Completed, ChildFailed, Cancelled} else r' = r))"

lemma start_child_fresh: "fresh_record item (snd (start_child L D group_ref w item))"
  by (cases item)
     (auto simp: start_child_def submit_child_def failed_start_def new_record_def fresh_record_def Let_def split: sum.splits prod.splits)

lemma run_list_all2:
  assumes "\<And>w x. P x (snd (f w x))"
  shows "list_all2 P xs (snd (run_list f w xs))"
proof (induction xs arbitrary: w)
  case (Cons x xs)
  from assms [of x w] Cons [of "fst (f w x)"] show ?case by (auto split: prod.splits)
qed simp

lemma run_checked_all2:
  assumes "run_checked f w xs = (w', Inr ys)" "\<And>w x w' y. f w x = (w', Inr y) \<Longrightarrow> P x y"
  shows "list_all2 P xs ys"
  using assms(1)
proof (induction xs arbitrary: w ys)
  case (Cons x xs)
  then obtain w1 y ys1 where "f w x = (w1, Inr y)" "run_checked f w1 xs = (w', Inr ys1)" "ys = y # ys1"
    by (auto simp: bindE_ok split: prod.splits sum.splits)
  with Cons.IH assms(2) show ?case by auto
qed simp

lemma await_awaited: "await_children L D w rs = (w', Inr rs') \<Longrightarrow> list_all2 awaited rs rs'"
  unfolding await_children_def
  by (erule run_checked_all2)
     (auto simp: await_one_def awaited_def same_child_def split: if_splits prod.splits option.splits)

lemma collect_collected: "collect_children L D w rs = (w', Inr rs') \<Longrightarrow> list_all2 collected rs rs'"
  unfolding collect_children_def
  by (erule run_checked_all2)
     (auto simp: collect_child_def collected_def same_child_def split: if_splits sum.splits prod.splits)

definition final_record :: "nat \<times> child_spec \<times> WaitPolicy \<Rightarrow> child_record \<Rightarrow> bool" where
  "final_record item r = (case item of (i, c, p) \<Rightarrow> cr_Key r = child_key i c \<and> cr_Index r = i \<and> cr_Required r = cs_Required c \<and>
     (cr_Status r = Skipped \<longleftrightarrow> cs_Skipped c) \<and> (cr_Status r = Started \<longrightarrow> trim_space (cr_JobID r) = []))"

lemma fates_compose: "fresh_record item r \<Longrightarrow> awaited r r1 \<Longrightarrow> collected r1 r2 \<Longrightarrow> final_record item r2"
  by (cases "cr_Status r"; cases item)
     (auto simp: fresh_record_def awaited_def collected_def final_record_def same_child_def split: if_splits)

lemma list_all2_chain:
  assumes "list_all2 P xs ys" "list_all2 Q ys zs" "list_all2 R zs us" "\<And>x y z u. P x y \<Longrightarrow> Q y z \<Longrightarrow> R z u \<Longrightarrow> S x u"
  shows "list_all2 S xs us"
  using assms by (fastforce simp: list_all2_conv_all_nth)

lemma started_fresh:
  assumes "startChildGroup L D w inp = (w', Inr s)"
  obtains policies where "child_policies inp = Inr policies"
    "list_all2 fresh_record (zip [0..<length (gin_Children inp)] (zip (gin_Children inp) policies)) (gst_Children s)"
    "gst_Aggregate s = normalizeChildGroupAggregate (gin_Aggregate inp)"
proof -
  from assms obtain policies rs where p: "child_policies inp = Inr policies"
    and rs: "rs = snd (run_list (start_child L D (trim_space (gin_GitRef inp))) w
      (zip [0..<length (gin_Children inp)] (zip (gin_Children inp) policies)))"
    and s: "gst_Children s = rs" "gst_Aggregate s = normalizeChildGroupAggregate (gin_Aggregate inp)"
    by (auto simp: startChildGroup_def Let_def split: sum.splits if_splits prod.splits)
  have "list_all2 fresh_record (zip [0..<length (gin_Children inp)] (zip (gin_Children inp) policies)) rs"
    unfolding rs by (rule run_list_all2) (rule start_child_fresh)
  with that p s show thesis by simp
qed

text \<open>C16. A run of a child group that returns has one record for each child, in order, with its key and
  whether it is required; exactly the children whose condition was false are skipped, and no child
  that was given a job is left unfinished. The group is reported as ok exactly if every required
  child neither failed nor returned that it is not ok, nor, in a review, reports a blocking issue;
  that is exactly if no blocking issue is listed, and the counters are the counts of the records.\<close>

theorem group_outcome:
  assumes "run_child_group L D w inp = (w', Inr out)"
  shows "length (go_Children out) = length (gin_Children inp) \<and>
    (\<forall>i < length (gin_Children inp). let c = gin_Children inp ! i; r = go_Children out ! i in
       cr_Index r = i \<and> cr_Key r = child_key i c \<and> cr_Required r = cs_Required c \<and>
       (cr_Status r = Skipped \<longleftrightarrow> cs_Skipped c) \<and> (cr_Status r = Started \<longrightarrow> trim_space (cr_JobID r) = [])) \<and>
    (\<exists>sh. childGroupAggregateShape (ag_Shape (normalizeChildGroupAggregate (gin_Aggregate inp))) = Inr sh \<and>
       (go_Ok out \<longleftrightarrow> group_verdict L sh (go_Children out))) \<and>
    (go_BlockingIssues out = [] \<longleftrightarrow> go_Ok out) \<and>
    go_Summary out = (\<Sum>r\<leftarrow>go_Children out. contribution r)"
proof -
  from assms obtain w1 s w2 t where s: "startChildGroup L D w inp = (w1, Inr s)"
    and t: "awaitChildGroup L D w1 s = (w2, Inr t)" and out: "collectChildGroup L D w2 t = (w', Inr out)"
    by (auto simp: run_child_group_def split: prod.splits sum.splits)
  from started_fresh [OF s] obtain policies where p: "child_policies inp = Inr policies"
    and fresh: "list_all2 fresh_record (zip [0..<length (gin_Children inp)] (zip (gin_Children inp) policies)) (gst_Children s)"
    and agg: "gst_Aggregate s = normalizeChildGroupAggregate (gin_Aggregate inp)" .
  from t have a: "list_all2 awaited (gst_Children s) (gst_Children t)" "gst_Aggregate t = gst_Aggregate s"
    by (auto simp: awaitChildGroup_def bindE_ok split: prod.splits dest!: await_awaited)
  from out obtain w3 rs where rs: "collect_children L D w2 (gst_Children t) = (w3, Inr rs)"
    and b: "buildChildGroupOutput L D w3 (t\<lparr>gst_Children := rs\<rparr>) = (w', Inr out)"
    by (auto simp: collectChildGroup_def split: prod.splits sum.splits)
  from build_output [OF b] obtain sh where sh: "childGroupAggregateShape (ag_Shape (gst_Aggregate t)) = Inr sh"
    and o: "go_Ok out \<longleftrightarrow> group_verdict L sh rs" "go_BlockingIssues out = [] \<longleftrightarrow> go_Ok out"
      "go_Summary out = (\<Sum>r\<leftarrow>rs. contribution r)" "go_Children out = rs" by auto
  from list_all2_chain [OF fresh a(1) collect_collected [OF rs] fates_compose]
  have final: "list_all2 final_record (zip [0..<length (gin_Children inp)] (zip (gin_Children inp) policies)) rs" .
  have len: "length policies = length (gin_Children inp)" using p by (simp add: child_policies_def mapE_ok_upt)
  with final have "length rs = length (gin_Children inp)" by (auto dest: list_all2_lengthD)
  moreover have "final_record (i, gin_Children inp ! i, policies ! i) (rs ! i)" if "i < length (gin_Children inp)" for i
    using list_all2_nthD [OF final, of i] that len by simp
  ultimately show ?thesis using o sh agg a(2) by (auto simp: final_record_def Let_def)
qed

end
