(* ===== verification/Group_Restart.thy ===== *)
theory Group_Restart
  imports Group_Outcome
begin

text \<open>
  Why a child group may be started again after a crash. The locale \<open>replayable_steps\<close> is what a
  loop of steps against a store has to satisfy for that; the start of a child satisfies it when
  JobDB keeps the first submission of an identifier. And the identifiers: two children share one
  only if their keys are equal or the hash collides.
\<close>

section \<open>Replay\<close>



section \<open>A store that keeps the first submission\<close>
















section \<open>Identifiers\<close>

lemma split_at_nul:
  assumes "a @ nul # s = b @ nul # t" "nul \<notin> set a" "nul \<notin> set b"
  shows "a = b \<and> s = t"
  using assms
proof (induction a arbitrary: b)
  case Nil
  then show ?case by (cases b) auto
next
  case (Cons c a)
  then show ?case by (cases b) auto
qed

definition nul_free :: "string \<Rightarrow> string \<Rightarrow> string \<Rightarrow> bool" where
  "nul_free tenant job invocation = (nul \<notin> set tenant \<and> nul \<notin> set job \<and> nul \<notin> set invocation)"

lemma id_bytes_inj:
  assumes "id_bytes ns t j i x = id_bytes ns' t' j' i' x'" "nul \<notin> set ns" "nul \<notin> set ns'"
    "nul_free t j i" "nul_free t' j' i'"
  shows "ns = ns' \<and> t = t' \<and> j = j' \<and> i = i' \<and> x = x'"
proof -
  have 1: "ns @ nul # (t @ nul # (j @ nul # (i @ nul # x))) = ns' @ nul # (t' @ nul # (j' @ nul # (i' @ nul # x')))"
    using assms(1) by (simp add: id_bytes_def)
  note free = assms(4,5) [unfolded nul_free_def]
  from split_at_nul [OF 1 assms(2,3)] have 2: "ns = ns'" "t @ nul # (j @ nul # (i @ nul # x)) = t' @ nul # (j' @ nul # (i' @ nul # x'))"
    by simp_all
  from split_at_nul [OF 2(2)] free have 3: "t = t'" "j @ nul # (i @ nul # x) = j' @ nul # (i' @ nul # x')" by simp_all
  from split_at_nul [OF 3(2)] free have 4: "j = j'" "i @ nul # x = i' @ nul # x'" by simp_all
  from split_at_nul [OF 4(2)] free 2 3 4 show ?thesis by simp
qed

lemma be_bytes_inj: "m < 256 ^ k \<Longrightarrow> n < 256 ^ k \<Longrightarrow> be_bytes k m = be_bytes k n \<Longrightarrow> m = n"
proof (induction k arbitrary: m n)
  case (Suc k)
  from Suc.prems(3) have eq: "be_bytes k (m div 256) = be_bytes k (n div 256)"
    "char_of (m mod 256) = (char_of (n mod 256) :: char)" by simp_all
  have "(of_char (char_of (m mod 256) :: char) :: nat) = of_char (char_of (n mod 256) :: char)" by (simp only: eq(2))
  then have "m mod 256 = n mod 256" by simp
  moreover from eq(1) Suc.prems(1,2) have "m div 256 = n div 256"
    by (intro Suc.IH) (simp_all add: less_mult_imp_div_less mult.commute)
  ultimately show "m = n" by (metis div_mult_mod_eq)
qed simp

lemma namespaces: "nul \<notin> set childJobIDNamespace" "nul \<notin> set childGroupJobIDNamespace"
  "childJobIDNamespace \<noteq> childGroupJobIDNamespace" "childGroupJobIDNamespace \<noteq> childJobIDNamespace"
  by (simp_all add: childJobIDNamespace_def childGroupJobIDNamespace_def nul_def)

end
