(* ===== verification/Template_Safety.thy ===== *)
theory Template_Safety
  imports Template_Values
begin

text \<open>
  Where references can go through templates: outside task inputs none comes out of a resolution, and
  inside them a secret reference is one the permissions admit, one of the container's inputs, or the
  result of an expression that does not read an input holding one. Then the variables of a scope.
\<close>

section \<open>No reference where none is allowed\<close>


lemma holds_reference_iff: "holds_reference v \<longleftrightarrow> holds_ref Parse v \<or> holds_ref config_Parse v"
  by (simp add: holds_reference_def Contains_iff config_Contains_iff)

lemma same_keys_map:
  assumes "map fst m' = map fst m"
  shows "Parse (GMap m') = NotRef \<longleftrightarrow> Parse (GMap m) = NotRef" "config_Parse (GMap m') = NotRef \<longleftrightarrow> config_Parse (GMap m) = NotRef"
proof -
  from assms have "fst ` set m' = fst ` set m" by (metis set_map)
  then show "Parse (GMap m') = NotRef \<longleftrightarrow> Parse (GMap m) = NotRef" "config_Parse (GMap m') = NotRef \<longleftrightarrow> config_Parse (GMap m) = NotRef"
    unfolding secret_format.parse_map config_format.parse_map by simp_all
qed

text \<open>Every successful resolution, as an induction principle.\<close>

definition entry_step :: "template_engine \<Rightarrow> resolution \<Rightarrow> bool \<Rightarrow> string \<times> gval \<Rightarrow> resolution_error + string \<times> gval" where
  "entry_step E rc pure entry = bindE (map_sum (AtKey (fst entry)) id (ResolveValueWithMode E rc (snd entry) pure)) (\<lambda>w.
     Inr (fst entry, w))"

lemma map_sum_ok [ok_iff]: "map_sum f id x = Inr y \<longleftrightarrow> x = Inr y" "map_sum f (\<lambda>a. a) x = Inr y \<longleftrightarrow> x = Inr y"
  by (cases x; simp)+

lemma entry_step_ok:
  "entry_step E rc pure entry = Inr y \<longleftrightarrow> fst y = fst entry \<and> ResolveValueWithMode E rc (snd entry) pure = Inr (snd y)"
  by (cases y) (auto simp: entry_step_def ok_iff)

lemma resolve_success:
  assumes config: "\<And>x r. config_Parse x = Ref r \<Longrightarrow> rc_allow rc \<Longrightarrow> Q x (config_value r)"
    and secret: "\<And>x r. config_Parse x = NotRef \<Longrightarrow> Parse x = Ref r \<Longrightarrow> rc_allow rc \<Longrightarrow>
      check_input rc (sr_name r) = Inr () \<Longrightarrow> Q x x"
    and str: "\<And>s v. ResolveTemplateWithMode E rc s pure = Inr v \<Longrightarrow> rc_allow rc \<or> \<not> holds_reference v \<Longrightarrow> Q (GStr s) v"
    and map: "\<And>m m'. config_Parse (GMap m) = NotRef \<Longrightarrow> Parse (GMap m) = NotRef \<Longrightarrow> length m' = length m \<Longrightarrow>
      (\<And>i. i < length m \<Longrightarrow> fst (m' ! i) = fst (m ! i) \<and>
         ResolveValueWithMode E rc (snd (m ! i)) pure = Inr (snd (m' ! i)) \<and> Q (snd (m ! i)) (snd (m' ! i))) \<Longrightarrow>
      Q (GMap m) (GMap m')"
    and list: "\<And>vs vs'. length vs' = length vs \<Longrightarrow>
      (\<And>i. i < length vs \<Longrightarrow> ResolveValueWithMode E rc (vs ! i) pure = Inr (vs' ! i) \<and> Q (vs ! i) (vs' ! i)) \<Longrightarrow>
      Q (GList vs) (GList vs')"
    and other: "\<And>x. config_Parse x = NotRef \<Longrightarrow> Parse x = NotRef \<Longrightarrow> (\<And>s. x \<noteq> GStr s) \<Longrightarrow>
      (\<And>m. x \<noteq> GMap m) \<Longrightarrow> (\<And>vs. x \<noteq> GList vs) \<Longrightarrow> Q x x"
  shows "ResolveValueWithMode E rc x pure = Inr w \<Longrightarrow> Q x w"
proof (induction x arbitrary: w rule: measure_induct_rule [of value_size])
  case (less x)
  note eq = less.prems [unfolded ResolveValueWithMode.simps [of E rc x pure]]
  show ?case
  proof (cases "config_Parse x")
    case (Ref r)
    with eq config show ?thesis by (auto split: if_splits)
  next
    case (BadRef e)
    with eq show ?thesis by simp
  next
    case nc: NotRef
    show ?thesis
    proof (cases "Parse x")
      case (Ref r)
      with eq nc secret [OF nc Ref] show ?thesis by (auto simp: ok_iff split: if_splits)
    next
      case (BadRef e)
      with eq nc show ?thesis by simp
    next
      case ns: NotRef
      note eq' = eq [unfolded nc ns, simplified]
      show ?thesis
      proof (cases x)
        case (GStr s)
        with eq' str [of s w] show ?thesis by (auto simp: ok_iff split: if_splits)
      next
        case (GMap m)
        with eq' obtain m' where m': "mapE (entry_step E rc pure) m = Inr m'" "w = GMap m'"
          by (auto simp: ok_iff entry_step_def [abs_def])
        have "length m' = length m" and each: "\<And>i. i < length m \<Longrightarrow> fst (m' ! i) = fst (m ! i) \<and>
            ResolveValueWithMode E rc (snd (m ! i)) pure = Inr (snd (m' ! i))"
          using m'(1) unfolding mapE_ok_nth entry_step_ok by blast+
        moreover have "value_size (snd (m ! i)) < value_size x" if "i < length m" for i
          using member_size [of "fst (m ! i)" "snd (m ! i)" m] that by (simp add: GMap)
        ultimately show ?thesis
          using map [of m m'] nc ns less.IH unfolding GMap m'(2) by blast
      next
        case (GList vs)
        with eq' obtain vs' where vs': "mapE (\<lambda>i. map_sum (AtIndex i) id (ResolveValueWithMode E rc (vs ! i) pure)) [0..<length vs] = Inr vs'"
            "w = GList vs'"
          by (auto simp: ok_iff)
        then have "length vs' = length vs" "\<And>i. i < length vs \<Longrightarrow> ResolveValueWithMode E rc (vs ! i) pure = Inr (vs' ! i)"
          unfolding mapE_ok_upt by (auto simp: ok_iff)
        moreover have "value_size (vs ! i) < value_size x" if "i < length vs" for i
          using element_size [OF that] by (simp add: GList)
        ultimately show ?thesis
          using list [of vs' vs] less.IH unfolding GList vs'(2) by blast
      qed (use eq' other [OF nc ns] in auto)
    qed
  qed
qed

lemmas resolve_success_induct [consumes 1, case_names config secret str map list other] = resolve_success [rotated 6]

lemma keys_of_entries: "length m' = length m \<Longrightarrow> (\<And>i. i < length m \<Longrightarrow> fst (m' ! i) = fst (m ! i)) \<Longrightarrow> map fst m' = map fst m"
  by (simp add: list_eq_iff_nth_eq)

lemma holds_map: "holds_ref p (GMap m) \<longleftrightarrow> p (GMap m) \<noteq> NotRef \<or> (\<exists>i < length m. holds_ref p (snd (m ! i)))"
  by (simp add: list_ex_length case_prod_beta)

lemma holds_list: "holds_ref p (GList vs) \<longleftrightarrow> p (GList vs) \<noteq> NotRef \<or> (\<exists>i < length vs. holds_ref p (vs ! i))"
  by (simp add: list_ex_length)

lemma no_reference_escapes_aux:
  assumes "\<not> rc_allow rc" "ResolveValueWithMode E rc v pure = Inr w"
  shows "\<not> holds_ref Parse w \<and> \<not> holds_ref config_Parse w"
  using assms(2)
proof (induction rule: resolve_success_induct)
  case (str s v)
  with assms(1) show ?case by (simp add: holds_reference_iff)
next
  case (map m m')
  from map(3,4) have "map fst m' = map fst m" by (intro keys_of_entries) simp_all
  from same_keys_map [OF this] map show ?case unfolding holds_map by simp
next
  case (list vs vs')
  then show ?case unfolding holds_list by (simp add: secret_format.parse_list config_format.parse_list)
next
  case (other x)
  then show ?case by (cases x) auto
qed (use assms(1) in auto)

text \<open>C9. Outside task inputs no reference leaves a resolution: what a template, a variable or a condition
  resolves to holds neither a secret nor a configuration reference, wherever the engines found one.\<close>

theorem no_reference_escapes:
  assumes "\<not> rc_allow rc" "ResolveValueWithMode E rc v pure = Inr w"
  shows "\<not> holds_ref Parse w \<and> \<not> holds_ref config_Parse w"
  using assms by (rule no_reference_escapes_aux)


section \<open>Where a secret reference comes from\<close>

inductive sub_value :: "gval \<Rightarrow> gval \<Rightarrow> bool" where
  sub_self: "sub_value v v"
| sub_entry: "(k, x) \<in> set m \<Longrightarrow> sub_value v x \<Longrightarrow> sub_value v (GMap m)"
| sub_element: "x \<in> set vs \<Longrightarrow> sub_value v x \<Longrightarrow> sub_value v (GList vs)"

inductive_simps sub_value_simps [simp]:
  "sub_value v GNil" "sub_value v (GBool b)" "sub_value v (GNum x)" "sub_value v (GStr t)"
  "sub_value v (GSecret n d om req)" "sub_value v (GConfig k n' ty d')"

inductive_simps sub_value_map: "sub_value v (GMap m)"
inductive_simps sub_value_list: "sub_value v (GList vs)"

definition occurs :: "secret_ref \<Rightarrow> gval \<Rightarrow> bool" where
  "occurs r v = (\<exists>x. sub_value x v \<and> Parse x = Ref r)"





lemma no_occurs [simp]:
  "\<not> occurs r GNil" "\<not> occurs r (GBool b)" "\<not> occurs r (GNum x)" "\<not> occurs r (GStr t)" "\<not> occurs r (GConfig k n ty d)"
  by (simp_all add: occurs_def)

lemma occurs_empty [simp]: "\<not> occurs r (GMap [])" "\<not> occurs r (GList [])"
  by (auto simp: occurs_def sub_value_map sub_value_list)













section \<open>Variables\<close>

definition clean_entries :: "(string \<times> gval) list \<Rightarrow> bool" where
  "clean_entries m = list_all (\<lambda>(k, v). \<not> holds_ref Parse v \<and> \<not> holds_ref config_Parse v) m"

lemma ResolveMap_entries:
  assumes "resolver_ResolveMap E rc input = Inr out"
  shows "map fst out = map fst input"
    "(k, w) \<in> set out \<Longrightarrow> \<exists>v. (k, v) \<in> set input \<and> ResolveValueWithMode E rc v False = Inr w"
    "map_of out k = Some w \<longleftrightarrow> (\<exists>v. map_of input k = Some v \<and> ResolveValueWithMode E rc v False = Inr w)"
proof -
  have "resolver_ResolveMap E rc input = mapE (entry_step E rc False) input"
    unfolding resolver_ResolveMap_def by (rule mapE_cong) (auto simp: entry_step_def)
  with assms have "mapE (entry_step E rc False) input = Inr out" by simp
  then have "map fst out = map fst input \<and>
      ((k, w) \<in> set out \<longrightarrow> (\<exists>v. (k, v) \<in> set input \<and> ResolveValueWithMode E rc v False = Inr w)) \<and>
      (map_of out k = Some w \<longleftrightarrow> (\<exists>v. map_of input k = Some v \<and> ResolveValueWithMode E rc v False = Inr w))"
  proof (induction input arbitrary: out)
    case (Cons x input)
    from Cons.prems obtain y rest where y: "entry_step E rc False x = Inr y" "out = y # rest"
      and rest: "mapE (entry_step E rc False) input = Inr rest"
      by (auto simp: bindE_ok)
    from y(1) have "fst y = fst x" "ResolveValueWithMode E rc (snd x) False = Inr (snd y)" by (simp_all add: entry_step_ok)
    with Cons.IH [OF rest] y(2) show ?case by (cases x; cases y) auto
  qed simp
  then show "map fst out = map fst input"
    "(k, w) \<in> set out \<Longrightarrow> \<exists>v. (k, v) \<in> set input \<and> ResolveValueWithMode E rc v False = Inr w"
    "map_of out k = Some w \<longleftrightarrow> (\<exists>v. map_of input k = Some v \<and> ResolveValueWithMode E rc v False = Inr w)" by blast+
qed

text \<open>C24. A block of variables is resolved as a whole against the variables outside it: every declared variable is its
  value in the scope before, the others stay, nothing else of the context changes, and variables never
  come to hold a reference.\<close>

theorem vars_block:
  assumes "ResolveVars E rc vars = Inr rc'" "\<not> rc_allow rc" "clean_entries (rc_vars rc)"
  shows "clean_entries (rc_vars rc') \<and> rc' = rc\<lparr>rc_vars := rc_vars rc'\<rparr> \<and>
    (\<forall>k. case map_of vars k of
       None \<Rightarrow> map_of (rc_vars rc') k = map_of (rc_vars rc) k
     | Some v \<Rightarrow> (\<exists>w. ResolveValueWithMode E rc v False = Inr w \<and> map_of (rc_vars rc') k = Some w))"
proof (cases "vars = []")
  case True
  with assms show ?thesis by (simp add: ResolveVars_def)
next
  case False
  with assms(1) obtain resolved where r: "resolver_ResolveMap E rc vars = Inr resolved"
    and rc': "rc' = rc\<lparr>rc_vars := resolved @ filter (\<lambda>(k, v). k \<notin> fst ` set resolved) (rc_vars rc)\<rparr>"
    by (auto simp: ResolveVars_def bindE_ok split: if_splits)
  note R = ResolveMap_entries [OF r]
  have "clean_entries resolved"
    unfolding clean_entries_def list_all_iff using R(2) no_reference_escapes_aux [OF assms(2)] by fast
  with assms(3) have "clean_entries (rc_vars rc')" by (auto simp: rc' clean_entries_def list_all_iff)
  moreover have "case map_of vars k of
       None \<Rightarrow> map_of (rc_vars rc') k = map_of (rc_vars rc) k
     | Some v \<Rightarrow> (\<exists>w. ResolveValueWithMode E rc v False = Inr w \<and> map_of (rc_vars rc') k = Some w)" for k
  proof (cases "map_of vars k")
    case None
    then have "k \<notin> fst ` set vars" by (simp add: map_of_eq_None_iff)
    moreover have "fst ` set resolved = fst ` set vars" using R(1) by (metis set_map)
    ultimately have k: "k \<notin> fst ` set resolved" by simp
    then have "map_of resolved k = None" by (simp add: map_of_eq_None_iff)
    moreover have "map_of (filter (\<lambda>(j, v). j \<notin> fst ` set resolved) m) k = map_of m k" for m
      using k by (induction m) (auto simp: image_iff)
    ultimately show ?thesis by (simp add: None rc' map_add_def)
  next
    case (Some v)
    have "map_of resolved k \<noteq> None" using Some R(1) by (metis map_of_eq_None_iff option.distinct(1) set_map)
    then obtain w where w: "map_of resolved k = Some w" by blast
    with R(3) [of k w] Some show ?thesis by (simp add: rc' map_add_def)
  qed
  ultimately show ?thesis by (simp add: rc')
qed


section \<open>Witnesses\<close>

definition ex_engine :: template_engine where
  "ex_engine = \<lparr>en_literal = (\<lambda>_. None), en_unquote = (\<lambda>_. None), en_compile = (\<lambda>s. Inr (CIdent s)),
     en_type = (\<lambda>_. KDyn), en_eval = (\<lambda>rc e. Inr (GNum 3)), en_go = (\<lambda>rc s. Inr s), en_flatten = (\<lambda>m. m),
     en_number = (\<lambda>_. []), en_json = (\<lambda>_. []), en_artifact = (\<lambda>_. False)\<rparr>"

definition ex_resolution :: "bool \<Rightarrow> resolution" where
  "ex_resolution allow = \<lparr>rc_permissions = empty_state, rc_allow = allow, rc_inputs = [], rc_vars = [(''a'', GNum 1)],
     rc_outputs = [], rc_section = (\<lambda>_. []), rc_locals = [], rc_validate = False, rc_clamp = False\<rparr>"

theorem no_reference_escapes_witness:
  "\<not> holds_ref Parse (GMap [(''k'', GStr ''n=3'')]) \<and> \<not> holds_ref config_Parse (GMap [(''k'', GStr ''n=3'')])"
proof -
  have "ResolveValueWithMode ex_engine (ex_resolution False) (GMap [(''k'', GStr ''n=${{n}}'')]) False =
      Inr (GMap [(''k'', GStr ''n=3'')])" by code_simp
  from no_reference_escapes [OF _ this] show ?thesis by (simp add: ex_resolution_def)
qed


theorem vars_block_witness:
  "clean_entries [(''b'', GStr ''n=3''), (''a'', GNum 1)]"
proof -
  let ?vars = "[(''b'', GStr ''n=${{n}}'')]"
  have "forE (\<lambda>(k, v). check (trim_space k \<noteq> []) EmptyVarName) ?vars = Inr ()" by code_simp
  moreover have "forE (\<lambda>(k, v). case referencesDeclaredVar v (map fst ?vars) of
      None \<Rightarrow> Inr () | Some n \<Rightarrow> Inl (VarFromSameBlock k n)) ?vars = Inr ()" by code_simp
  moreover have "resolver_ResolveMap ex_engine (ex_resolution False) ?vars = Inr [(''b'', GStr ''n=3'')]" by code_simp
  ultimately have "ResolveVars ex_engine (ex_resolution False) ?vars =
      Inr (ex_resolution False\<lparr>rc_vars := [(''b'', GStr ''n=3''), (''a'', GNum 1)]\<rparr>)"
    by (simp add: ResolveVars_def ex_resolution_def del: forE.simps list.map)
  from vars_block [OF this] show ?thesis by (simp add: ex_resolution_def clean_entries_def)
qed

end
