(* ===== verification/Group_Safety.thy ===== *)
theory Group_Safety
  imports Child_Render Group_Restart Template_Safety
begin

text \<open>
  Where rendering, starting and reading children meet: the identifiers of the jobs of a rendered
  group, what a parent takes over from a child's result, and two places where data is taken for more
  than data: the inputs of a child group are templates twice, and the names of a child's outputs
  overlap those of the envelope they may come in.
\<close>

section \<open>Identifiers of rendered children\<close>






section \<open>What a parent takes over from a child\<close>

definition offers :: "'w deps \<Rightarrow> ('w \<Rightarrow> artifact list) \<Rightarrow> bool" where
  "offers D offered = ((\<forall>w a. offered (fst (dj_Output D w a)) = offered w @ [a]) \<and>
     (\<forall>w n x. offered (fst (dj_External D w n x)) = offered w))"

definition public_artifact :: "artifact \<Rightarrow> bool" where
  "public_artifact a = (\<not> IsInternalArtifact (af_Name a) \<and> \<not> git_internal (af_Name a))"

lemma adopt_offered:
  assumes "adopt_artifacts D w refs as = (w', Inr refs')" "offers D offered"
  shows "offered w' = offered w @ filter public_artifact as"
  using assms(1)
proof (induction as arbitrary: w refs)
  case (Cons a as)
  show ?case
  proof (cases "IsInternalArtifact (af_Name a)")
    case True
    with Cons show ?thesis by (simp add: public_artifact_def)
  next
    case False
    obtain w1 e where out: "(if git_internal (af_Name a) then (w, None) else dj_Output D w a) = (w1, e)" by fastforce
    from Cons.prems False out obtain r1 where "adopt_artifacts D w1 r1 as = (w', Inr refs')"
      by (auto simp: Let_def split: option.splits sum.splits if_splits)
    from Cons.IH [OF this] have "offered w' = offered w1 @ filter public_artifact as" .
    moreover have "offered w1 = offered w @ (if git_internal (af_Name a) then [] else [a])"
    proof (cases "git_internal (af_Name a)")
      case False
      with out have "w1 = fst (dj_Output D w a)" by (cases "dj_Output D w a") simp
      with assms(2) False show ?thesis by (simp add: offers_def)
    qed (use out in simp)
    moreover have "public_artifact a \<longleftrightarrow> \<not> git_internal (af_Name a)" using False by (simp add: public_artifact_def)
    ultimately show ?thesis by simp
  qed
qed simp

lemma publish_offered:
  assumes "publish_external D w rs = (w', Inr u)" "offers D offered"
  shows "offered w' = offered w" "list_all (\<lambda>(n, r). ar_Kind r \<noteq> attached_kind) rs"
proof -
  from assms(1) have "offered w' = offered w \<and> list_all (\<lambda>(n, r). ar_Kind r \<noteq> attached_kind) rs"
  proof (induction rs arbitrary: w)
    case (Cons x rs)
    obtain n r where x: "x = (n, r)" by (cases x)
    from Cons.prems x have kind: "ar_Kind r \<noteq> attached_kind" by (auto split: if_splits)
    show ?case
    proof (cases "ar_External r")
      case None
      with Cons x kind show ?thesis by simp
    next
      case (Some y)
      obtain w1 e where y: "dj_External D w n y = (w1, e)" by fastforce
      with assms(2) have "offered w1 = offered w" by (metis fst_conv offers_def)
      moreover from Cons.prems x kind Some y have "publish_external D w1 rs = (w', Inr u)" by (auto split: option.splits)
      ultimately show ?thesis using Cons.IH [of w1] x kind by simp
    qed
  qed simp
  then show "offered w' = offered w" "list_all (\<lambda>(n, r). ar_Kind r \<noteq> attached_kind) rs" by simp_all
qed

lemma decode_adopts:
  assumes "decodeRecipeJobOutput L D w (Some d) = (w', Inr out)" "offers D offered"
  obtains as where "jd_Artifacts d = Inr as" "offered w' = offered w @ filter public_artifact as"
    "list_all (\<lambda>(n, r). ar_Kind r \<noteq> attached_kind) (ro_Artifacts out)"
proof -
  from assms(1) obtain as refs w1 adopted u where as: "jd_Artifacts d = Inr as"
    and a: "adopt_artifacts D w refs as = (w1, Inr adopted)"
    and p: "publish_external D w1 (case adopted of Some m \<Rightarrow> m | None \<Rightarrow> []) = (w', Inr u)"
    and o: "ro_Artifacts out = (case adopted of Some m \<Rightarrow> m | None \<Rightarrow> [])"
    by (auto simp: decodeRecipeJobOutput_def Let_def split: sum.splits prod.splits)
  from that [OF as] adopt_offered [OF a assms(2)] publish_offered [OF p assms(2)] o show thesis by simp
qed

text \<open>C20. When a parent reads the result of a child, exactly the child's artifacts that are neither internal nor
  part of its Git state become artifacts of the parent's task, in order, and every reference in the
  result can be fetched: none is left that only names an attachment.\<close>

theorem child_result_adopted:
  assumes "decodeRecipeJobOutput L D w (Some \<lparr>jd_Data = raw, jd_Artifacts = Inr as\<rparr>) = (w', Inr out)" "offers D offered"
  shows "offered w' = offered w @ filter public_artifact as \<and>
    list_all (\<lambda>(n, r). ar_Kind r \<noteq> attached_kind) (ro_Artifacts out)"
proof -
  from decode_adopts [OF assms] obtain bs where "jd_Artifacts \<lparr>jd_Data = raw, jd_Artifacts = Inr as\<rparr> = Inr bs"
    "offered w' = offered w @ filter public_artifact bs" "list_all (\<lambda>(n, r). ar_Kind r \<noteq> attached_kind) (ro_Artifacts out)" .
  then show ?thesis by simp
qed

definition result_data :: "(string \<times> gval) list \<Rightarrow> artifact list \<Rightarrow> job_data" where
  "result_data outputs as = \<lparr>jd_Data = Inr (Some (GMap outputs)), jd_Artifacts = Inr as\<rparr>"


text \<open>C22. The result of a job is its outputs themselves, so an output of the child that is called
  \<^verbatim>\<open>output\<close> is taken for the envelope: if it is text the parent cannot read the result, if it
  is an object the other outputs are lost. And if an output \<^verbatim>\<open>artifact_refs\<close> is null, reading
  a result with a stored artifact writes to a nil map.\<close>

theorem reserved_output_names:
  "snd (decodeRecipeJobOutput L D w (Some (result_data [(''answer'', v), (''output'', GStr s)] []))) =
     Inl (errorf ''recipe result output must be an object'') \<and>
   map_sum id ro_Outputs (snd (decodeRecipeJobOutput L D w
     (Some (result_data [(''answer'', v), (''output'', GMap [(''x'', GStr s)])] [])))) = Inr (Some [(''x'', GStr s)]) \<and>
   snd (decodeRecipeJobOutput L (D\<lparr>dj_Output := \<lambda>w a. (w, None)\<rparr>) w
     (Some (result_data [(''artifact_refs'', GNil)] [\<lparr>af_Name = ''log'', af_Content = t, af_Key = Inr k\<rparr>]))) =
     Inl (panic ''assignment to entry in nil map'')"
proof -
  have name: "trim_space ''log'' = ''log''" by code_simp
  have public: "\<not> IsInternalArtifact ''log''" "\<not> git_internal ''log''" by code_simp+
  show ?thesis
    by (simp add: decodeRecipeJobOutput_def result_data_def decode_fields_def outputs_of_def resolve_markers_def
      RefFromArtifact_def NameValue_def name public Let_def)
qed


section \<open>Inputs that are templates twice\<close>








section \<open>Witnesses\<close>

text \<open>A world that is the list of the artifacts offered so far, in which every job succeeds.\<close>

definition ex_child_lib :: child_lib where
  "ex_child_lib = \<lparr>cl_Normalize = Inr, cl_CellRepo = Inr, cl_CellName = (\<lambda>_. None), cl_NotFound = (\<lambda>_. False),
     cl_Hash = (\<lambda>_. ''job''), cl_Dependencies = (\<lambda>_. None), cl_Commit = (\<lambda>_. Inr no_commit), cl_Refs = (\<lambda>_. Inr []),
     cl_RefValue = (\<lambda>_. GNil), cl_FailureError = (\<lambda>_. errorf []), cl_Sprint = (\<lambda>_. []), cl_Indent = (\<lambda>_. Inr [])\<rparr>"

definition ex_git_ctx :: git_context where
  "ex_git_ctx = \<lparr>gx_Workspace = None, gx_CellResolution = None, gx_RestoreArtifact = None, gx_BaseRepo = ''r'', gx_BaseRef = ''main'',
     gx_ResolvedBaseHash = [], gx_RecipeSourceRepo = [], gx_RecipeSourceRef = [], gx_PersistHash = [], gx_ParentHash = [],
     gx_CellName = ''cell'', gx_GitAuthor = [], gx_NodePath = [], gx_InvokeSeq = 0, gx_InvokeHash = []\<rparr>"

definition ex_log :: artifact where
  "ex_log = \<lparr>af_Name = ''log'', af_Content = ''done'', af_Key = Inl (errorf ''not stored'')\<rparr>"

definition ex_deps :: "artifact list deps" where
  "ex_deps = \<lparr>dj_Tenant = ''t'', dj_Job = ''p'', dj_Ref = None, dj_Invocation = ''i'', dj_Git = ex_git_ctx, dj_Current = no_identity,
     dj_Profile = zero_selection, dj_Scope = None, dj_Submitter = None,
     dj_Start = (\<lambda>w j. (w, Inr \<lparr>jh_Cell = sj_Cell j, jh_CellID = [], jh_CellRepo = [], jh_TenantID = ''t'', jh_GoalID = ''g'',
       jh_JobID = ''job''\<rparr>)),
     dj_Result = (\<lambda>w j. Inr (Some (result_data [(''ok'', GBool True)] [ex_log]))),
     dj_Await = Some (\<lambda>w d. (w, [\<lparr>bd_Goal = dp_Goal d, bd_Job = dp_Job d, bd_SatisfiedBy = ''job'', bd_Failed = False\<rparr>], None)),
     dj_Inspect = None, dj_Goal = None, dj_Output = (\<lambda>w a. (w @ [a], None)), dj_External = (\<lambda>w n x. (w, None))\<rparr>"

definition ex_child_spec :: "string \<Rightarrow> bool \<Rightarrow> child_spec" where
  "ex_child_spec key skip = \<lparr>cs_CellRepo = [], cs_Wait = None, cs_Key = key, cs_Recipe = ''review'', cs_CellName = [],
     cs_Required = True, cs_Skipped = skip, cs_SkipReason = [], cs_GitRef = [], cs_Inputs = [], cs_Artifacts = []\<rparr>"

definition ex_group :: group_input where
  "ex_group = \<lparr>gin_Wait = \<lparr>wp_On = [], wp_Condition = []\<rparr>, gin_Mode = [], gin_GitRef = [],
     gin_Children = [ex_child_spec ''a'' False, ex_child_spec [] True], gin_Aggregate = \<lparr>ag_Shape = ''review_pack'', ag_Artifact = []\<rparr>\<rparr>"

lemma ok_result: "is_ok (snd x) \<Longrightarrow> \<exists>y. x = (fst x, Inr y)"
  by (cases x) (auto simp: is_ok_iff)

theorem group_outcome_witness:
  "\<exists>out. snd (run_child_group ex_child_lib ex_deps [] ex_group) = Inr out \<and> length (go_Children out) = 2"
proof -
  let ?run = "run_child_group ex_child_lib ex_deps [] ex_group"
  have "is_ok (snd ?run)" by code_simp
  then obtain out where out: "?run = (fst ?run, Inr out)" by (blast dest: ok_result)
  then have "snd ?run = Inr out" by (rule HOL.trans [OF arg_cong [where f = snd]]) simp
  moreover have "length (go_Children out) = 2"
    using conjunct1 [OF group_outcome [OF out]] by (simp add: ex_group_def)
  ultimately show ?thesis by blast
qed



theorem child_result_adopted_witness:
  "\<exists>out. decodeRecipeJobOutput ex_child_lib ex_deps [] (Some (result_data [(''ok'', GBool True)] [ex_log])) = ([ex_log], Inr out)"
proof -
  let ?d = "\<lparr>jd_Data = Inr (Some (GMap [(''ok'', GBool True)])), jd_Artifacts = Inr [ex_log]\<rparr>"
  let ?run = "decodeRecipeJobOutput ex_child_lib ex_deps [] (Some ?d)"
  have "is_ok (snd ?run)" by code_simp
  then obtain out where out: "?run = (fst ?run, Inr out)" by (blast dest: ok_result)
  have "offers ex_deps id" by (simp add: offers_def ex_deps_def)
  from conjunct1 [OF child_result_adopted [OF out this]] have "fst ?run = filter public_artifact [ex_log]" by simp
  also have "\<dots> = [ex_log]" by code_simp
  finally have "fst ?run = [ex_log]" .
  with out show ?thesis by (simp add: result_data_def)
qed


end
